(* ===== verification/Kv_Prelude.thy ===== *)
theory Kv_Prelude
  imports Main "HOL-Library.Char_ord" "HOL-Library.List_Lexorder" "HOL-Library.Product_Lexorder"
begin

text \<open>
  Shared ground of the development: the C++ conversions the sources rely on (narrowing to
  \<^verbatim>\<open>char\<close>, truncating division, printing of an \<^verbatim>\<open>int\<close>), results of fallible operations as
  sums, and the ordered containers \<^verbatim>\<open>std::set\<close> and \<^verbatim>\<open>std::map\<close> as sorted lists. A set is
  ordered by a comparator object, so its operations take the comparator as an argument; the
  laws of the set hold when the comparator is the order of some key, which is the contract
  of the locale \<open>keyed_order\<close>.
\<close>

named_theorems flag_simps \<open>rewrite rules of the nibble flags\<close>
named_theorems kv_invs \<open>preservation of the well-formedness invariants\<close>

section \<open>C++ integers\<close>

text \<open>Narrowing conversion of an \<^verbatim>\<open>int\<close> to a signed 8 bit \<^verbatim>\<open>char\<close>.\<close>

definition narrow_char :: "int \<Rightarrow> int" where
  "narrow_char i = (i + 128) mod 256 - 128"

lemma narrow_char_id [simp]: "-128 \<le> i \<Longrightarrow> i < 128 \<Longrightarrow> narrow_char i = i"
  by (simp add: narrow_char_def)

lemma narrow_char_range: "-128 \<le> narrow_char i \<and> narrow_char i < 128"
proof -
  have "0 \<le> (i + 128) mod 256 \<and> (i + 128) mod 256 < 256"
    by simp
  then show ?thesis
    unfolding narrow_char_def by linarith
qed

lemma narrow_char_period: "narrow_char (i + 256 * k) = narrow_char i"
proof -
  have "i + 256 * k + 128 = (i + 128) + 256 * k"
    by simp
  then have "(i + 256 * k + 128) mod 256 = (i + 128) mod 256"
    by (simp only: mod_mult_self2)
  then show ?thesis
    unfolding narrow_char_def by simp
qed

text \<open>The value of a \<^verbatim>\<open>char\<close> as an \<^verbatim>\<open>int\<close>: signed on the supported platforms.\<close>

definition schar :: "char \<Rightarrow> int" where
  "schar c = (let n = of_char c in if n < 128 then n else n - 256)"

text \<open>Integer division and remainder truncate towards zero.\<close>

definition c_div :: "int \<Rightarrow> int \<Rightarrow> int" where
  "c_div a b = sgn a * sgn b * (\<bar>a\<bar> div \<bar>b\<bar>)"

lemma c_div_pos [simp]: "0 \<le> a \<Longrightarrow> 0 < b \<Longrightarrow> c_div a b = a div b"
  by (cases "a = 0") (simp_all add: c_div_def)

lemma c_div_neg: "a \<le> 0 \<Longrightarrow> 0 < b \<Longrightarrow> c_div a b = - ((- a) div b)"
  by (cases "a = 0") (simp_all add: c_div_def)

text \<open>Decimal digits of a number, as an output stream prints an \<^verbatim>\<open>int\<close>.\<close>

fun show_nat :: "nat \<Rightarrow> string" where
  "show_nat n = (if n < 10 then [char_of (48 + n)] else show_nat (n div 10) @ [char_of (48 + n mod 10)])"

declare show_nat.simps [simp del]

definition show_int :: "int \<Rightarrow> string" where
  "show_int i = (if i < 0 then CHR ''-'' # show_nat (nat (- i)) else show_nat (nat i))"

lemma show_nat_nonempty [simp]: "show_nat n \<noteq> []"
  by (subst show_nat.simps) simp

section \<open>Results\<close>

definition res_bind :: "'e + 'a \<Rightarrow> ('a \<Rightarrow> 'e + 'b) \<Rightarrow> 'e + 'b" where
  "res_bind m f = (case m of Inl e \<Rightarrow> Inl e | Inr x \<Rightarrow> f x)"

lemma res_bind_simps [simp]: "res_bind (Inl e) f = Inl e" "res_bind (Inr x) f = f x"
  by (simp_all add: res_bind_def)

lemma res_bind_Inr_iff: "res_bind m f = Inr y \<longleftrightarrow> (\<exists>x. m = Inr x \<and> f x = Inr y)"
  by (cases m) auto

section \<open>Lists\<close>

lemma nth_map_upt [simp]: "i < n \<Longrightarrow> map f [0..<n] ! i = f i"
  by simp

lemma list_eq_nthI: "length xs = length ys \<Longrightarrow> (\<And>i. i < length xs \<Longrightarrow> xs ! i = ys ! i) \<Longrightarrow> xs = ys"
  by (rule nth_equalityI) auto

text \<open>Membership in the list a nested loop over maps produces.\<close>

lemma mem_concat_pairs:
  "x \<in> set (concat (map (\<lambda>(k, v). F k v) m)) \<longleftrightarrow> (\<exists>k v. (k, v) \<in> set m \<and> x \<in> set (F k v))"
  by auto

lemma mem_map_pairs: "x \<in> set (map (\<lambda>(k, v). G k v) m) \<longleftrightarrow> (\<exists>k v. (k, v) \<in> set m \<and> x = G k v)"
  by auto

section \<open>Ordered sets\<close>

text \<open>
  \<^verbatim>\<open>std::set<T, Compare>\<close> as the list of its elements in iteration order. \<open>insert\<close> keeps an
  equivalent element that is already there, \<open>erase\<close> removes the equivalent element, \<open>find\<close>
  returns it.
\<close>

fun sset_insert :: "('a \<Rightarrow> 'a \<Rightarrow> bool) \<Rightarrow> 'a \<Rightarrow> 'a list \<Rightarrow> 'a list" where
  "sset_insert lt x [] = [x]"
| "sset_insert lt x (y # ys) =
     (if lt x y then x # y # ys
      else if lt y x then y # sset_insert lt x ys
      else y # ys)"

definition sset_erase :: "('a \<Rightarrow> 'a \<Rightarrow> bool) \<Rightarrow> 'a \<Rightarrow> 'a list \<Rightarrow> 'a list" where
  "sset_erase lt x s = filter (\<lambda>y. lt x y \<or> lt y x) s"

definition sset_find :: "('a \<Rightarrow> 'a \<Rightarrow> bool) \<Rightarrow> 'a \<Rightarrow> 'a list \<Rightarrow> 'a option" where
  "sset_find lt x s = List.find (\<lambda>y. \<not> lt x y \<and> \<not> lt y x) s"

text \<open>
  The contract a comparator must satisfy on the elements that are stored: it compares a key
  in a linear order. Outside of the domain \<open>D\<close> nothing is required.
\<close>

locale keyed_order =
  fixes key :: "'a \<Rightarrow> 'k::linorder"
    and lt :: "'a \<Rightarrow> 'a \<Rightarrow> bool"
    and D :: "'a \<Rightarrow> bool"
  assumes lt_key: "D a \<Longrightarrow> D b \<Longrightarrow> lt a b \<longleftrightarrow> key a < key b"
begin

lemma equiv_key: "D a \<Longrightarrow> D b \<Longrightarrow> \<not> lt a b \<and> \<not> lt b a \<longleftrightarrow> key a = key b"
  by (auto simp: lt_key)

lemma lt_irrefl: "D a \<Longrightarrow> \<not> lt a a"
  by (simp add: lt_key)

lemma lt_trans: "D a \<Longrightarrow> D b \<Longrightarrow> D c \<Longrightarrow> lt a b \<Longrightarrow> lt b c \<Longrightarrow> lt a c"
  by (simp add: lt_key)

lemma equiv_trans: "D a \<Longrightarrow> D b \<Longrightarrow> D c \<Longrightarrow>
    \<not> lt a b \<and> \<not> lt b a \<Longrightarrow> \<not> lt b c \<and> \<not> lt c b \<Longrightarrow> \<not> lt a c \<and> \<not> lt c a"
  by (simp add: equiv_key)

lemma list_all_insert: "D x \<Longrightarrow> list_all D s \<Longrightarrow> list_all D (sset_insert lt x s)"
  by (induction s) auto

lemma list_all_erase: "list_all D s \<Longrightarrow> list_all D (sset_erase lt x s)"
  by (auto simp: sset_erase_def list_all_iff)

lemma set_insert: "set (sset_insert lt x s) \<subseteq> insert x (set s)"
  by (induction s) auto

lemma sorted_insert:
  "D x \<Longrightarrow> list_all D s \<Longrightarrow> sorted_wrt lt s \<Longrightarrow> sorted_wrt lt (sset_insert lt x s)"
proof (induction s)
  case Nil
  then show ?case by simp
next
  case (Cons y ys)
  from Cons.prems have D: "D x" "D y" "\<And>z. z \<in> set ys \<Longrightarrow> D z"
    and srt: "sorted_wrt lt ys" and y: "\<And>z. z \<in> set ys \<Longrightarrow> lt y z"
    by (auto simp: list_all_iff)
  have IH: "sorted_wrt lt (sset_insert lt x ys)"
    using Cons by simp
  have "lt x z" if "lt x y" "z \<in> set ys" for z
    using lt_trans [of x y z] D y that by blast
  moreover have "lt y z" if "lt y x" "z \<in> set (sset_insert lt x ys)" for z
    using set_insert [of x ys] that y by auto
  ultimately show ?case
    using srt y IH by auto
qed

lemma sorted_erase: "sorted_wrt lt s \<Longrightarrow> sorted_wrt lt (sset_erase lt x s)"
  by (simp add: sset_erase_def sorted_wrt_filter)

lemma find_insert_new:
  assumes "D x" "D z" "list_all D s" "sset_find lt x s = None"
  shows "sset_find lt z (sset_insert lt x s) = (if key z = key x then Some x else sset_find lt z s)"
  using assms
proof (induction s)
  case Nil
  then show ?case by (auto simp: sset_find_def lt_key)
next
  case (Cons y ys)
  then have D: "D y" "list_all D ys" and neq: "key x \<noteq> key y" and none: "sset_find lt x ys = None"
    by (auto simp: sset_find_def lt_key split: if_splits)
  from Cons.IH Cons.prems D none
  have IH: "sset_find lt z (sset_insert lt x ys) = (if key z = key x then Some x else sset_find lt z ys)"
    by simp
  show ?case
    using IH D Cons.prems neq by (auto simp: sset_find_def lt_key)
qed

lemma find_erase:
  assumes "D x" "D z" "list_all D s"
  shows "sset_find lt z (sset_erase lt x s) = (if key z = key x then None else sset_find lt z s)"
  using assms
  by (induction s) (auto simp: sset_find_def sset_erase_def lt_key)

lemma find_replace:
  assumes "D x" "D z" "list_all D s"
  shows "sset_find lt z (sset_insert lt x (sset_erase lt x s)) =
           (if key z = key x then Some x else sset_find lt z s)"
proof -
  have "sset_find lt x (sset_erase lt x s) = None"
    using find_erase [of x x s] assms by simp
  then show ?thesis
    using find_insert_new [of x z "sset_erase lt x s"] find_erase [of x z s]
      list_all_erase assms by simp
qed

lemma find_Some_key: "D z \<Longrightarrow> list_all D s \<Longrightarrow> sset_find lt z s = Some y \<Longrightarrow> y \<in> set s \<and> key y = key z"
  by (induction s) (auto simp: sset_find_def lt_key split: if_splits)

lemma find_mem:
  assumes "list_all D s" "sorted_wrt lt s" "y \<in> set s" "D z" "key y = key z"
  shows "sset_find lt z s = Some y"
  using assms
  by (induction s) (auto simp: sset_find_def lt_key list_all_iff)

end

section \<open>Ordered maps\<close>

text \<open>
  \<^verbatim>\<open>std::map<K, V>\<close> as the list of its entries in key order; \<open>map_of\<close> is the lookup.
  \<open>smap_put\<close> is assignment through \<^verbatim>\<open>operator[]\<close>, \<open>smap_at\<close> the value \<^verbatim>\<open>operator[]\<close> yields
  for a key (the value-initialised \<open>d\<close> when the key is new).
\<close>

fun smap_put :: "'k::linorder \<Rightarrow> 'v \<Rightarrow> ('k \<times> 'v) list \<Rightarrow> ('k \<times> 'v) list" where
  "smap_put k v [] = [(k, v)]"
| "smap_put k v ((k', v') # m) =
     (if k < k' then (k, v) # (k', v') # m
      else if k = k' then (k, v) # m
      else (k', v') # smap_put k v m)"

definition smap_at :: "'v \<Rightarrow> ('k \<times> 'v) list \<Rightarrow> 'k \<Rightarrow> 'v" where
  "smap_at d m k = (case map_of m k of None \<Rightarrow> d | Some v \<Rightarrow> v)"

definition smap_del :: "'k \<Rightarrow> ('k \<times> 'v) list \<Rightarrow> ('k \<times> 'v) list" where
  "smap_del k m = filter (\<lambda>e. fst e \<noteq> k) m"

abbreviation smap_ok :: "('k::linorder \<times> 'v) list \<Rightarrow> bool" where
  "smap_ok m \<equiv> sorted_wrt (<) (map fst m)"

lemma map_of_smap_put [simp]: "map_of (smap_put k v m) = (map_of m)(k \<mapsto> v)"
  by (induction m rule: smap_put.induct) auto

lemma set_smap_put_keys [simp]: "fst ` set (smap_put k v m) = insert k (fst ` set m)"
  by (induction k v m rule: smap_put.induct) auto

lemma smap_ok_put [kv_invs, simp]: "smap_ok m \<Longrightarrow> smap_ok (smap_put k v m)"
proof (induction k v m rule: smap_put.induct)
  case (1 k v)
  then show ?case by simp
next
  case (2 k v k' v' m)
  have above: "\<And>x. x \<in> fst ` set m \<Longrightarrow> k' < x" and ok: "smap_ok m"
    using 2(2) by auto
  consider "k < k'" | "k = k'" | "k' < k"
    by fastforce
  then show ?case
  proof cases
    case 1
    then show ?thesis using above ok by (auto intro: less_trans)
  next
    case 2
    then show ?thesis using above ok by auto
  next
    case 3
    moreover have "\<forall>x \<in> fst ` set (smap_put k v m). k' < x"
      using 3 above by simp
    ultimately show ?thesis
      using 2(1) ok by auto
  qed
qed

lemma map_of_smap_del [simp]: "map_of (smap_del k m) = (map_of m)(k := None)"
  by (induction m) (auto simp: smap_del_def)

lemma smap_ok_del [kv_invs, simp]: "smap_ok m \<Longrightarrow> smap_ok (smap_del k m)"
  by (induction m) (auto simp: smap_del_def)

lemma smap_ok_distinct: "smap_ok m \<Longrightarrow> distinct (map fst m)"
  by (metis strict_sorted_iff)

lemma smap_at_put [simp]: "smap_at d (smap_put k v m) k' = (if k' = k then v else smap_at d m k')"
  by (simp add: smap_at_def)

text \<open>Modification of the value that \<^verbatim>\<open>operator[]\<close> refers to; the entry is created when it is new.\<close>

definition smap_upd :: "'v \<Rightarrow> 'k::linorder \<Rightarrow> ('v \<Rightarrow> 'v) \<Rightarrow> ('k \<times> 'v) list \<Rightarrow> ('k \<times> 'v) list" where
  "smap_upd d k f m = smap_put k (f (smap_at d m k)) m"

text \<open>Modification of every value in a loop over the map.\<close>

definition smap_map :: "('v \<Rightarrow> 'v) \<Rightarrow> ('k \<times> 'v) list \<Rightarrow> ('k \<times> 'v) list" where
  "smap_map f m = map (\<lambda>(k, v). (k, f v)) m"

text \<open>A well-formed map all of whose values satisfy \<open>P\<close>.\<close>

definition smap_all :: "('v \<Rightarrow> bool) \<Rightarrow> ('k::linorder \<times> 'v) list \<Rightarrow> bool" where
  "smap_all P m = (smap_ok m \<and> list_all (\<lambda>e. P (snd e)) m)"

lemma smap_at_upd [simp]:
  "smap_at d (smap_upd d k f m) k' = (if k' = k then f (smap_at d m k) else smap_at d m k')"
  by (simp add: smap_upd_def)

lemma smap_at_map: "smap_at d (smap_map f m) k = (case map_of m k of None \<Rightarrow> d | Some v \<Rightarrow> f v)"
  by (induction m) (auto simp: smap_at_def smap_map_def)

lemma smap_at_Nil [simp]: "smap_at d [] k = d"
  by (simp add: smap_at_def)

lemma map_of_smap_upd [simp]:
  "map_of (smap_upd d k f m) k' = (if k' = k then Some (f (smap_at d m k)) else map_of m k')"
  by (simp add: smap_upd_def)

lemma set_smap_put: "set (smap_put k v m) \<subseteq> insert (k, v) (set m)"
  by (induction k v m rule: smap_put.induct) auto

lemma smap_all_Nil [simp]: "smap_all P []"
  by (simp add: smap_all_def)

lemma smap_all_at: "smap_all P m \<Longrightarrow> P d \<Longrightarrow> P (smap_at d m k)"
  by (fastforce simp: smap_all_def smap_at_def list_all_iff split: option.split dest: map_of_SomeD)

lemma smap_all_put: "smap_all P m \<Longrightarrow> P v \<Longrightarrow> smap_all P (smap_put k v m)"
  using set_smap_put [of k v m] by (auto simp: smap_all_def list_all_iff)

lemma smap_all_upd [kv_invs]:
  "smap_all P m \<Longrightarrow> P d \<Longrightarrow> (\<And>v. P v \<Longrightarrow> P (f v)) \<Longrightarrow> smap_all P (smap_upd d k f m)"
  by (simp add: smap_upd_def smap_all_put smap_all_at)

lemma smap_all_map [kv_invs]: "smap_all P m \<Longrightarrow> (\<And>v. P v \<Longrightarrow> P (f v)) \<Longrightarrow> smap_all P (smap_map f m)"
proof -
  have "map fst (smap_map f m) = map fst m"
    by (induction m) (auto simp: smap_map_def)
  then have "smap_ok (smap_map f m) = smap_ok m"
    by (simp only:)
  then show "smap_all P m \<Longrightarrow> (\<And>v. P v \<Longrightarrow> P (f v)) \<Longrightarrow> smap_all P (smap_map f m)"
    unfolding smap_all_def by (auto simp: list_all_iff smap_map_def)
qed

lemma smap_all_del [kv_invs]: "smap_all P m \<Longrightarrow> smap_all P (smap_del k m)"
  by (simp add: smap_all_def) (simp add: list_all_iff smap_del_def)

lemma smap_all_mem: "smap_all P m \<Longrightarrow> (k, v) \<in> set m \<longleftrightarrow> map_of m k = Some v"
  by (simp add: smap_all_def smap_ok_distinct)

text \<open>Search through a well-formed map: an entry satisfies \<open>Q\<close> iff the value at its key does.\<close>

lemma smap_all_ex_at:
  "smap_all P m \<Longrightarrow> \<not> Q d \<Longrightarrow> (\<exists>v. (k, v) \<in> set m \<and> Q v) \<longleftrightarrow> Q (smap_at d m k)"
  by (auto simp: smap_all_mem smap_at_def split: option.splits)

section \<open>Sorting\<close>

text \<open>\<^verbatim>\<open>std::list::sort\<close>: a stable sort by a comparator.\<close>

fun insort_by :: "('a \<Rightarrow> 'a \<Rightarrow> bool) \<Rightarrow> 'a \<Rightarrow> 'a list \<Rightarrow> 'a list" where
  "insort_by lt x [] = [x]"
| "insort_by lt x (y # ys) = (if lt y x then y # insort_by lt x ys else x # y # ys)"

definition sort_by :: "('a \<Rightarrow> 'a \<Rightarrow> bool) \<Rightarrow> 'a list \<Rightarrow> 'a list" where
  "sort_by lt xs = foldr (insort_by lt) xs []"

lemma set_insort_by: "set (insort_by lt x ys) = insert x (set ys)"
  by (induction ys) auto

lemma set_sort_by [simp]: "set (sort_by lt xs) = set xs"
  by (induction xs) (auto simp: sort_by_def set_insort_by)

lemma length_insort_by: "length (insort_by lt x ys) = Suc (length ys)"
  by (induction ys) auto

lemma length_sort_by [simp]: "length (sort_by lt xs) = length xs"
  by (induction xs) (auto simp: sort_by_def length_insort_by)

context keyed_order
begin

lemma sorted_insort_by:
  "D x \<Longrightarrow> list_all D ys \<Longrightarrow> sorted_wrt (\<lambda>a b. \<not> lt b a) ys \<Longrightarrow> sorted_wrt (\<lambda>a b. \<not> lt b a) (insort_by lt x ys)"
  by (induction ys) (auto simp: lt_key set_insort_by list_all_iff)

lemma sorted_sort_by: "list_all D xs \<Longrightarrow> sorted_wrt (\<lambda>a b. \<not> lt b a) (sort_by lt xs)"
proof (induction xs)
  case Nil
  then show ?case by (simp add: sort_by_def)
next
  case (Cons x xs)
  have "list_all D (sort_by lt xs)"
    using Cons.prems by (simp add: list_all_iff)
  with Cons sorted_insort_by [of x "sort_by lt xs"] show ?case
    by (simp add: sort_by_def)
qed

end

end
