(* ===== verification/Base64.thy ===== *)
theory Base64
  imports Kv_Prelude "HOL-Library.Word"
begin

text \<open>
  The base64 coder of \<^verbatim>\<open>src/lib/miutil/base64.cc\<close>. Bytes are \<open>8 word\<close>; the read position of a
  loop is the suffix that is left to read. The decoder keeps its four-byte input block between
  iterations and never initialises it, so the initial memory is an argument; the round trip
  holds for every content of it.
\<close>

unbundle bit_operations_syntax

type_synonym byte = "8 word"

definition byte_of :: "char \<Rightarrow> byte" where
  "byte_of c = of_char c"

definition char_of_byte :: "byte \<Rightarrow> char" where
  "char_of_byte b = char_of (unat b)"

definition cb64 :: string where
  "cb64 = ''ABCDEFGHIJKLMNOPQRSTUVWXYZabcdefghijklmnopqrstuvwxyz0123456789+/''"

definition cd64 :: string where
  "cd64 = ''|$$$}rstuvwxyz{$$$$$$$>?@ABCDEFGHIJKLMNOPQRSTUVW$$$$$$XYZ['' @ [CHR 0x5C]
     @ '']^_'' @ [CHR 0x60] @ ''abcdefghijklmnopq''"

section \<open>Blocks\<close>

fun encodeblock :: "byte \<Rightarrow> byte \<Rightarrow> byte \<Rightarrow> nat \<Rightarrow> string" where
  "encodeblock i0 i1 i2 len =
     [cb64 ! unat (drop_bit 2 i0),
      cb64 ! unat (push_bit 4 (i0 AND 0x03) OR drop_bit 4 (i1 AND 0xf0)),
      (if len > 1 then cb64 ! unat (push_bit 2 (i1 AND 0x0f) OR drop_bit 6 (i2 AND 0xc0)) else CHR ''=''),
      (if len > 2 then cb64 ! unat (i2 AND 0x3f) else CHR ''='')]"

fun decodeblock :: "byte list \<Rightarrow> byte list" where
  "decodeblock inp =
     [push_bit 2 (inp ! 0) OR drop_bit 4 (inp ! 1),
      push_bit 4 (inp ! 1) OR drop_bit 2 (inp ! 2),
      (push_bit 6 (inp ! 2) AND 0xc0) OR inp ! 3]"

section \<open>encode64\<close>

definition pad_byte :: "string \<Rightarrow> nat \<Rightarrow> byte" where
  "pad_byte block i = (if i < length block then byte_of (block ! i) else 0)"

definition crlf :: string where
  "crlf = [CHR 0x0D, CHR 0x0A]"

function encode_loop :: "int \<Rightarrow> int \<Rightarrow> string \<Rightarrow> string" where
  "encode_loop linesize blocksout source =
     (if source = [] then []
      else let block = take 3 source; rest = drop 3 source;
               out = encodeblock (pad_byte block 0) (pad_byte block 1) (pad_byte block 2) (length block);
               blocksout = blocksout + 1
           in if blocksout \<ge> c_div linesize 4 \<or> rest = []
              then out @ crlf @ encode_loop linesize 0 rest
              else out @ encode_loop linesize blocksout rest)"
  by pat_completeness auto
termination
  by (relation "measure (\<lambda>(l, b, s). length s)") auto

declare encode_loop.simps [simp del]

definition encode64 :: "string \<Rightarrow> int \<Rightarrow> string" where
  "encode64 source linesize = encode_loop linesize 0 source"

section \<open>decode64\<close>

definition decode_sym :: "char \<Rightarrow> byte" where
  "decode_sym c =
     (let v = byte_of c;
          v = (if v < 43 \<or> v > 122 then 0 else byte_of (cd64 ! unat (v - 43)))
      in if v \<noteq> 0 then if v = 36 then 0 else v - 61 else v)"

fun next_sym :: "string \<Rightarrow> byte \<times> string" where
  "next_sym [] = (0, [])"
| "next_sym (c # cs) = (let v = decode_sym c in if v = 0 then next_sym cs else (v, cs))"

function fill_block :: "nat \<Rightarrow> byte list \<Rightarrow> nat \<Rightarrow> string \<Rightarrow> byte list \<times> nat \<times> string" where
  "fill_block i inp len source =
     (if i < 4 \<and> source \<noteq> [] then
        let (v, rest) = next_sym source in
        if rest \<noteq> [] then fill_block (Suc i) (if v \<noteq> 0 then inp[i := v - 1] else inp) (Suc len) rest
        else fill_block (Suc i) (inp[i := 0]) len rest
      else (inp, len, source))"
  by pat_completeness auto
termination
  by (relation "measure (\<lambda>(i, inp, len, s). 4 - i)") auto

declare fill_block.simps [simp del]

lemma next_sym_shorter: "length (snd (next_sym s)) \<le> length s"
  by (induction s) (auto simp: Let_def)

lemma next_sym_less: "s \<noteq> [] \<Longrightarrow> length (snd (next_sym s)) < length s"
  using next_sym_shorter by (cases s) (auto simp: Let_def le_imp_less_Suc)

lemma fill_block_Nil [simp]: "fill_block i inp len [] = (inp, len, [])"
  by (subst fill_block.simps) simp

lemma fill_block_shorter: "length (snd (snd (fill_block i inp len s))) \<le> length s"
proof (induction "4 - i" arbitrary: i inp len s)
  case 0
  then show ?case by (subst fill_block.simps) simp
next
  case (Suc n)
  obtain v rest where n: "next_sym s = (v, rest)" by fastforce
  then have r: "length rest \<le> length s"
    using next_sym_shorter [of s] by simp
  have "length (snd (snd (fill_block (Suc i) inp' len' rest))) \<le> length s" for inp' len'
  proof -
    have "n = 4 - Suc i" using Suc(2) by simp
    from Suc(1) [OF this, of inp' len' rest] r show ?thesis by simp
  qed
  then show ?case
    using n r by (subst fill_block.simps) simp
qed

lemma fill_block_less: "s \<noteq> [] \<Longrightarrow> length (snd (snd (fill_block 0 inp len s))) < length s"
proof -
  assume s: "s \<noteq> []"
  obtain v rest where n: "next_sym s = (v, rest)" by fastforce
  then have r: "length rest < length s"
    using next_sym_less [OF s] by simp
  have "length (snd (snd (fill_block 1 inp' len' rest))) < length s" for inp' len'
    using fill_block_shorter [of 1 inp' len' rest] r by simp
  then show ?thesis
    using n s by (subst fill_block.simps) auto
qed

function decode_loop :: "byte list \<Rightarrow> string \<Rightarrow> string" where
  "decode_loop inp source =
     (if source = [] then []
      else let (inp', len, rest) = fill_block 0 inp 0 source in
           (if len \<noteq> 0 then map char_of_byte (take (len - 1) (decodeblock inp')) else [])
             @ decode_loop inp' rest)"
  by pat_completeness auto
termination
proof (relation "measure (\<lambda>(i, s). length s)", goal_cases)
  case 1
  then show ?case by simp
next
  case (2 inp source x inp' y len rest)
  then show ?case using fill_block_less [of source inp 0] by (metis case_prod_conv in_measure snd_conv)
qed

declare decode_loop.simps [simp del]

definition decode64 :: "byte list \<Rightarrow> string \<Rightarrow> string" where
  "decode64 memory source = decode_loop memory source"

section \<open>Lemmas\<close>

lemma of_char_less: "(of_char c :: nat) < 256"
proof -
  have "(of_char c :: nat) = of_char c mod 256"
    by (metis char_of_char of_char_of)
  then show ?thesis
    by (metis mod_less_divisor zero_less_numeral)
qed

lemma char_of_byte_of [simp]: "char_of_byte (byte_of c) = c"
proof -
  have "unat (of_char c :: byte) = unat (of_nat (of_char c) :: byte)"
    by (simp only: of_nat_of_char)
  also have "\<dots> = of_char c"
    unfolding unat_of_nat using of_char_less [of c] by simp
  finally show ?thesis by (simp add: char_of_byte_def byte_of_def)
qed

lemma length_cb64 [simp]: "length cb64 = 64"
  by (simp add: cb64_def)

lemma decode_cb64_all: "list_all (\<lambda>i. decode_sym (cb64 ! i) = of_nat (Suc i)) [0..<64]"
  by code_simp

lemma decode_cb64: "i < 64 \<Longrightarrow> decode_sym (cb64 ! i) = of_nat (Suc i)"
  using decode_cb64_all by (auto simp: list_all_iff)

text \<open>A sextet is a byte below 64; its symbol decodes to its successor.\<close>

lemma decode_sextet:
  assumes "unat w < 64"
  shows "decode_sym (cb64 ! unat w) = w + 1" and "w + 1 \<noteq> 0"
proof -
  show "decode_sym (cb64 ! unat w) = w + 1"
    using decode_cb64 [OF assms] by (simp add: add.commute)
  have "w + 1 = of_nat (Suc (unat w))"
    by (simp add: add.commute)
  then have "unat (w + 1) = Suc (unat w)"
    using assms unat_of_nat [of "Suc (unat w)", where 'a = 8] by (simp add: add.commute)
  then show "w + 1 \<noteq> 0" by auto
qed

lemma byte_positions: "n < 8 \<Longrightarrow> n = 0 \<or> n = 1 \<or> n = 2 \<or> n = 3 \<or> n = 4 \<or> n = 5 \<or> n = 6 \<or> n = (7::nat)"
  by auto

lemma byte_eqI:
  assumes "bit a 0 = bit b 0" "bit a 1 = bit b 1" "bit a 2 = bit b 2" "bit a 3 = bit b 3"
    "bit a 4 = bit b 4" "bit a 5 = bit b 5" "bit a 6 = bit b 6" "bit a 7 = bit b 7"
  shows "a = (b :: byte)"
proof (rule bit_word_eqI)
  fix n assume "n < LENGTH(8)"
  then have "n < 8" by simp
  from byte_positions [OF this] assms show "bit a n = bit b n" by blast
qed

lemma decode_first: "push_bit 2 (drop_bit 2 a) OR drop_bit 4 (push_bit 4 (a AND 0x03) OR drop_bit 4 (b AND 0xf0)) = (a :: byte)"
  by (rule byte_eqI) (simp_all add: bit_simps)

lemma decode_second: "push_bit 4 (push_bit 4 (a AND 0x03) OR drop_bit 4 (b AND 0xf0)) OR
    drop_bit 2 (push_bit 2 (b AND 0x0f) OR drop_bit 6 (c AND 0xc0)) = (b :: byte)"
  by (rule byte_eqI) (simp_all add: bit_simps)

lemma decode_third: "(push_bit 6 (push_bit 2 (b AND 0x0f) OR drop_bit 6 (c AND 0xc0)) AND 0xc0) OR (c AND 0x3f) = (c :: byte)"
  by (rule byte_eqI) (simp_all add: bit_simps)

lemma sextetI: "\<not> bit w 6 \<Longrightarrow> \<not> bit w 7 \<Longrightarrow> unat (w :: byte) < 64"
proof -
  assume w: "\<not> bit w 6" "\<not> bit w 7"
  have "drop_bit 6 w = 0"
  proof (rule bit_word_eqI)
    fix n assume "n < LENGTH(8)"
    have "\<not> bit w (6 + n)"
    proof (cases "n < 2")
      case True
      then have "n = 0 \<or> n = 1" by auto
      then show ?thesis using w by auto
    next
      case False
      then show ?thesis using bit_imp_le_length [of w "6 + n"] by auto
    qed
    then show "bit (drop_bit 6 w) n = bit (0 :: byte) n"
      by (simp add: bit_simps)
  qed
  then have "drop_bit 6 (unat w) = 0"
    by (metis unat_drop_bit_eq unsigned_0)
  then have "unat w div 64 = 0"
    by (simp add: drop_bit_eq_div)
  then show ?thesis by simp
qed

lemma sextet_first: "unat (drop_bit 2 a :: byte) < 64"
proof (rule sextetI)
  show "\<not> bit (drop_bit 2 a) 6" "\<not> bit (drop_bit 2 a) 7"
    using bit_imp_le_length [of a 8] bit_imp_le_length [of a 9] by (auto simp: bit_simps)
qed

lemma sextet_second: "unat (push_bit 4 (a AND 0x03) OR drop_bit 4 (b AND 0xf0) :: byte) < 64"
  by (rule sextetI) (auto simp: bit_simps dest: bit_imp_le_length)

lemma sextet_third: "unat (push_bit 2 (b AND 0x0f) OR drop_bit 6 (c AND 0xc0) :: byte) < 64"
  by (rule sextetI) (auto simp: bit_simps dest: bit_imp_le_length)

lemma sextet_fourth: "unat (c AND 0x3f :: byte) < 64"
  by (rule sextetI) (simp_all add: bit_simps)

lemmas sextets = sextet_first sextet_second sextet_third sextet_fourth

section \<open>Decoding what was encoded\<close>

lemma next_sym_symbol: "unat w < 64 \<Longrightarrow> next_sym (cb64 ! unat w # ys) = (w + 1, ys)"
  using decode_sextet [of w] by simp

lemma next_sym_noise: "decode_sym c = 0 \<Longrightarrow> next_sym (c # ys) = next_sym ys"
  by simp

lemma decode_noise: "decode_sym (CHR ''='') = 0" "decode_sym (CHR 0x0D) = 0" "decode_sym (CHR 0x0A) = 0"
  by code_simp+

lemma fill_symbol:
  "unat w < 64 \<Longrightarrow> i < 4 \<Longrightarrow> ys \<noteq> [] \<Longrightarrow>
     fill_block i inp len (cb64 ! unat w # ys) = fill_block (Suc i) (inp[i := w]) (Suc len) ys"
  using decode_sextet [of w] by (subst fill_block.simps) (simp add: next_sym_symbol)

lemma fill_full: "fill_block (Suc (Suc (Suc (Suc 0)))) inp len ys = (inp, len, ys)"
  by (subst fill_block.simps) simp

lemma fill_noise_end:
  "i < 4 \<Longrightarrow> next_sym ys = (0, []) \<Longrightarrow> ys \<noteq> [] \<Longrightarrow> fill_block i inp len ys = (inp[i := 0], len, [])"
  by (subst fill_block.simps) simp

lemma fill_noise: "decode_sym c = 0 \<Longrightarrow> i < 4 \<Longrightarrow> ys \<noteq> [] \<Longrightarrow> fill_block i inp len (c # ys) = fill_block i inp len ys"
  by (subst (1 2) fill_block.simps) simp

lemma decode_loop_Nil [simp]: "decode_loop inp [] = []"
  by (subst decode_loop.simps) simp

lemma decode_loop_noise: "decode_sym c = 0 \<Longrightarrow> decode_loop inp (c # ys) = decode_loop inp ys"
proof (cases "ys = []")
  case True
  assume "decode_sym c = 0"
  with True show ?thesis
    by (subst decode_loop.simps) (simp add: fill_noise_end)
next
  case False
  assume "decode_sym c = 0"
  with False show ?thesis
    by (subst (1 2) decode_loop.simps) (simp add: fill_noise)
qed

lemma decode_loop_crlf: "decode_loop inp (crlf @ ys) = decode_loop inp ys"
  by (simp add: crlf_def decode_loop_noise decode_noise)

lemma list_of_4: "length xs = 4 \<longleftrightarrow> (\<exists>a b c d. xs = [a, b, c, d])"
  by (auto simp: length_Suc_conv numeral_eq_Suc)

lemma fill_four:
  assumes "unat w0 < 64" "unat w1 < 64" "unat w2 < 64" "unat w3 < 64" "ys \<noteq> []" "length inp = 4"
  shows "fill_block 0 inp 0 (cb64 ! unat w0 # cb64 ! unat w1 # cb64 ! unat w2 # cb64 ! unat w3 # ys)
    = ([w0, w1, w2, w3], 4, ys)"
  using assms by (auto simp: fill_symbol fill_full list_of_4)

lemma fill_two:
  assumes "unat w0 < 64" "unat w1 < 64" "length inp = 4"
  shows "fill_block 0 inp 0 (cb64 ! unat w0 # cb64 ! unat w1 # ''=='' @ crlf) = ([w0, w1, 0, inp ! 3], 2, [])"
  using assms by (auto simp: fill_symbol list_of_4 fill_noise_end crlf_def decode_noise)

lemma fill_three:
  assumes "unat w0 < 64" "unat w1 < 64" "unat w2 < 64" "length inp = 4"
  shows "fill_block 0 inp 0 (cb64 ! unat w0 # cb64 ! unat w1 # cb64 ! unat w2 # ''='' @ crlf) = ([w0, w1, w2, 0], 3, [])"
  using assms by (auto simp: fill_symbol list_of_4 fill_noise_end crlf_def decode_noise)

lemma decode_loop_fill:
  "fill_block 0 inp 0 s = (inp', Suc n, rest) \<Longrightarrow> s \<noteq> [] \<Longrightarrow>
     decode_loop inp s = map char_of_byte (take n (decodeblock inp')) @ decode_loop inp' rest"
  by (subst decode_loop.simps) simp

lemma decode_full_block:
  assumes "length inp = 4" "ys \<noteq> []"
  shows "\<exists>inp'. length inp' = 4 \<and>
    decode_loop inp (encodeblock a b c 3 @ ys) = map char_of_byte [a, b, c] @ decode_loop inp' ys"
proof -
  let ?w0 = "drop_bit 2 a" and ?w1 = "push_bit 4 (a AND 0x03) OR drop_bit 4 (b AND 0xf0)"
  let ?w2 = "push_bit 2 (b AND 0x0f) OR drop_bit 6 (c AND 0xc0)" and ?w3 = "c AND 0x3f"
  have dec: "decodeblock [?w0, ?w1, ?w2, ?w3] = [a, b, c]"
    using decode_first [of a b] decode_second [of a b c] decode_third [of b c] by simp
  have "fill_block 0 inp 0 (encodeblock a b c 3 @ ys) = ([?w0, ?w1, ?w2, ?w3], Suc 3, ys)"
    using fill_four [OF sextets assms(2,1), of a a b b c c] by simp
  then have "decode_loop inp (encodeblock a b c 3 @ ys) =
      map char_of_byte (take 3 [a, b, c]) @ decode_loop [?w0, ?w1, ?w2, ?w3] ys"
    unfolding dec [symmetric] by (rule decode_loop_fill) simp
  then show ?thesis
    by (intro exI [of _ "[?w0, ?w1, ?w2, ?w3]"]) simp
qed

lemma decode_block_2:
  assumes "length inp = 4"
  shows "decode_loop inp (encodeblock a b c 2 @ crlf) = map char_of_byte [a, b]"
proof -
  let ?w0 = "drop_bit 2 a" and ?w1 = "push_bit 4 (a AND 0x03) OR drop_bit 4 (b AND 0xf0)"
  let ?w2 = "push_bit 2 (b AND 0x0f) OR drop_bit 6 (c AND 0xc0)"
  have dec: "take 2 (decodeblock [?w0, ?w1, ?w2, 0]) = [a, b]"
    using decode_first [of a b] decode_second [of a b c] by (simp add: numeral_2_eq_2)
  have "fill_block 0 inp 0 (encodeblock a b c 2 @ crlf) = ([?w0, ?w1, ?w2, 0], Suc 2, [])"
    using fill_three [OF sextets(1-3) assms, of a a b b c] by simp
  then have "decode_loop inp (encodeblock a b c 2 @ crlf) =
      map char_of_byte (take 2 (decodeblock [?w0, ?w1, ?w2, 0])) @ decode_loop [?w0, ?w1, ?w2, 0] []"
    by (rule decode_loop_fill) simp
  then show ?thesis by (simp only: dec) simp
qed

lemma decode_block_1:
  assumes "length inp = 4"
  shows "decode_loop inp (encodeblock a b c 1 @ crlf) = [char_of_byte a]"
proof -
  let ?w0 = "drop_bit 2 a" and ?w1 = "push_bit 4 (a AND 0x03) OR drop_bit 4 (b AND 0xf0)"
  have dec: "take 1 (decodeblock [?w0, ?w1, 0, inp ! 3]) = [a]"
    using decode_first [of a b] by simp
  have "fill_block 0 inp 0 (encodeblock a b c 1 @ crlf) = ([?w0, ?w1, 0, inp ! 3], Suc 1, [])"
    using fill_two [OF sextets(1,2) assms, of a a b] by simp
  then have "decode_loop inp (encodeblock a b c 1 @ crlf) =
      map char_of_byte (take 1 (decodeblock [?w0, ?w1, 0, inp ! 3])) @ decode_loop [?w0, ?w1, 0, inp ! 3] []"
    by (rule decode_loop_fill) simp
  then show ?thesis by (simp only: dec) simp
qed

lemma encode_loop_Nil [simp]: "encode_loop ls b [] = []"
  by (subst encode_loop.simps) simp

lemma encode_loop_eq_Nil [simp]: "encode_loop ls b src = [] \<longleftrightarrow> src = []"
  by (subst encode_loop.simps) (auto simp: Let_def)

lemma encode_last:
  assumes "src \<noteq> []" "length src \<le> 3"
  shows "encode_loop ls b src =
    encodeblock (pad_byte src 0) (pad_byte src 1) (pad_byte src 2) (length src) @ crlf"
  using assms by (subst encode_loop.simps) (simp add: Let_def)

lemma encode_more:
  "src \<noteq> [] \<Longrightarrow> \<exists>sep b'. (sep = [] \<or> sep = crlf) \<and> encode_loop ls b (x # y # z # src) =
     encodeblock (byte_of x) (byte_of y) (byte_of z) 3 @ sep @ encode_loop ls b' src"
  using encode_loop.simps [of ls b "x # y # z # src"]
  by (auto simp: Let_def pad_byte_def numeral_2_eq_2 numeral_3_eq_3 simp del: encodeblock.simps)

lemma block_cases:
  obtains "src = []" | x where "src = [x]" | x y where "src = [x, y]" | x y z where "src = [x, y, z]"
    | x y z rest where "src = x # y # z # rest" "rest \<noteq> []"
  by (metis list.exhaust)

lemma decode_encode_loop: "length inp = 4 \<Longrightarrow> decode_loop inp (encode_loop ls b src) = src"
proof (induction "length src" arbitrary: src inp b rule: less_induct)
  case less
  show ?case
  proof (cases src rule: block_cases)
    case (5 x y z rest)
    from encode_more [OF 5(2), of ls b x y z, folded 5(1)]
    obtain sep b' where sep: "sep = [] \<or> sep = crlf" and e: "encode_loop ls b src =
        encodeblock (byte_of x) (byte_of y) (byte_of z) 3 @ sep @ encode_loop ls b' rest"
      by (elim exE conjE) (rule that)
    obtain inp' where inp': "length inp' = 4" "decode_loop inp (encode_loop ls b src) =
        map char_of_byte [byte_of x, byte_of y, byte_of z] @ decode_loop inp' (sep @ encode_loop ls b' rest)"
      using decode_full_block [OF less(2)] 5(2) unfolding e by (metis append_is_Nil_conv encode_loop_eq_Nil)
    have "decode_loop inp' (sep @ encode_loop ls b' rest) = rest"
      using sep less(1) [of rest inp' b'] inp'(1) 5(1) decode_loop_crlf by auto
    then show ?thesis using inp'(2) 5(1) by simp
  next
    case (4 x y z)
    have "crlf \<noteq> []" by (simp add: crlf_def)
    from decode_full_block [OF less(2) this, of "byte_of x" "byte_of y" "byte_of z"]
    show ?thesis using 4 decode_loop_crlf [of _ "[]"]
      by (auto simp: encode_last pad_byte_def numeral_2_eq_2 numeral_3_eq_3 simp del: encodeblock.simps)
  next
    case (3 x y)
    show ?thesis using decode_block_2 [OF less(2), of "byte_of x" "byte_of y" 0]
      by (simp add: 3 encode_last pad_byte_def numeral_2_eq_2 del: encodeblock.simps)
  next
    case (2 x)
    show ?thesis using decode_block_1 [OF less(2), of "byte_of x" 0 0]
      by (simp add: 2 encode_last pad_byte_def del: encodeblock.simps)
  qed simp
qed

section \<open>Properties\<close>

text \<open>
  C33. Whatever the line length asked for (also zero or negative), and whatever the uninitialised
  input block of the decoder holds, decoding an encoded byte string gives it back.
\<close>

theorem base64_roundtrip: "length memory = 4 \<Longrightarrow> decode64 memory (encode64 source linesize) = source"
  by (simp add: decode64_def encode64_def decode_encode_loop)

lemma base64_roundtrip_witness:
  "length [0, 7, 255, 3 :: byte] = 4 \<and> decode64 [0, 7, 255, 3] (encode64 ''kvalobs'' 4) = ''kvalobs''"
  using base64_roundtrip [of "[0, 7, 255, 3]" "''kvalobs''" 4] by simp

text \<open>
  C2. The decoder drops the last byte of a text whose final block is complete and not followed by
  any other character: \<^verbatim>\<open>QUJD\<close> is the code of \<^verbatim>\<open>ABC\<close>, and the decoder returns \<^verbatim>\<open>AB\<close>; with a
  trailing newline it returns all of it.
\<close>

theorem base64_needs_trailer:
  "decode64 [a, b, c, d] ''QUJD'' = ''AB'' \<and> decode64 [a, b, c, d] (''QUJD'' @ [CHR 0x0A]) = ''ABC''"
proof -
  have sym: "next_sym (CHR ''Q'' # ys) = (17, ys)" "next_sym (CHR ''U'' # ys) = (21, ys)"
      "next_sym (CHR ''J'' # ys) = (10, ys)" "next_sym (CHR ''D'' # ys) = (4, ys)" for ys
    by code_simp+
  have "fill_block 0 [a, b, c, d] 0 ''QUJD'' = ([16, 20, 9, 0], Suc 2, [])"
    by (simp add: fill_block.simps sym del: next_sym.simps)
  moreover have "fill_block 0 [a, b, c, d] 0 (''QUJD'' @ [CHR 0x0A]) = ([16, 20, 9, 3], Suc 3, [CHR 0x0A])"
    by (simp add: fill_block.simps sym del: next_sym.simps)
  moreover have "map char_of_byte (take 2 (decodeblock [16, 20, 9, 0])) = ''AB''"
      "map char_of_byte (take 3 (decodeblock [16, 20, 9, 3])) = ''ABC''"
    by code_simp+
  ultimately show ?thesis
    unfolding decode64_def
    by (simp add: decode_loop_fill decode_loop_noise decode_noise del: decodeblock.simps)
qed

end
