(* ===== verification/Decode_Codes.thy ===== *)
theory Decode_Codes
  imports Complex_Main Kv_Prelude
begin

text \<open>
  Code tables of \<^verbatim>\<open>src/lib/decodeutility\<close> (visibility VV, cloud base HL and hshs, the time
  window of an observation) and the list of known parameters of
  \<^verbatim>\<open>src/lib/kvalobs/paramlist.cc\<close>. A \<^verbatim>\<open>float\<close> argument is a real: the codes only
  depend on its rounded value.
\<close>

section \<open>C library functions\<close>

definition isspace :: "char \<Rightarrow> bool" where
  "isspace c = (of_char c \<in> {9, 10, 11, 12, 13, 32 :: nat})"

definition isdigit :: "char \<Rightarrow> bool" where
  "isdigit c = (48 \<le> (of_char c :: nat) \<and> (of_char c :: nat) \<le> 57)"

definition digits_val :: "string \<Rightarrow> int" where
  "digits_val s = foldl (\<lambda>a c. 10 * a + (of_char c - 48)) 0 (takeWhile isdigit s)"

text \<open>\<^verbatim>\<open>atoi\<close> on a number that fits an \<^verbatim>\<open>int\<close>.\<close>

definition atoi :: "string \<Rightarrow> int" where
  "atoi s = (case dropWhile isspace s of
       [] \<Rightarrow> 0
     | c # cs \<Rightarrow> if c = CHR ''-'' then - digits_val cs else if c = CHR ''+'' then digits_val cs
                else digits_val (c # cs))"

text \<open>\<^verbatim>\<open>round\<close>: halfway cases away from zero.\<close>

definition c_round :: "real \<Rightarrow> int" where
  "c_round x = (if x < 0 then - \<lfloor>- x + 1 / 2\<rfloor> else \<lfloor>x + 1 / 2\<rfloor>)"

text \<open>The conversion \<^verbatim>\<open>%02d\<close>.\<close>

definition fmt02 :: "int \<Rightarrow> string" where
  "fmt02 i = (let s = show_int i in replicate (2 - length s) (CHR ''0'') @ s)"

section \<open>Visibility\<close>

definition VV :: "string \<Rightarrow> string" where
  "VV spVal =
     (if spVal = [] then []
      else let iVV = atoi spVal in
        if iVV = 0 then ''0''
        else if iVV > 0 \<and> iVV \<le> 50 then show_int (iVV * 100)
        else if iVV > 50 \<and> iVV < 56 then show_int (- iVV)
        else if iVV \<ge> 56 \<and> iVV \<le> 80 then show_int ((iVV - 50) * 1000)
        else if iVV > 80 \<and> iVV < 89 then show_int (((iVV - 81) * 5 + 35) * 1000)
        else if iVV = 89 then ''75000''
        else [])"

definition VVKode_int :: "int \<Rightarrow> string" where
  "VVKode_int im =
     (if im < 0 then []
      else if im = 0 then ''00''
      else if im > 0 \<and> im \<le> 5000 then fmt02 (c_div im 100)
      else if im < 6000 then ''50''
      else if im \<ge> 6000 \<and> im \<le> 30000 then fmt02 (c_div im 1000 + 50)
      else if im < 35000 then ''80''
      else if im < 40000 then ''81''
      else if im < 45000 then ''82''
      else if im < 50000 then ''83''
      else if im < 55000 then ''84''
      else if im < 60000 then ''85''
      else if im < 65000 then ''86''
      else if im < 70000 then ''87''
      else if im = 70000 then ''88''
      else ''89'')"

definition VVKode :: "real \<Rightarrow> string" where
  "VVKode m = VVKode_int (c_round m)"

section \<open>Cloud base\<close>

definition HL :: "string \<Rightarrow> string" where
  "HL spVal =
     (if spVal = [] \<or> length spVal \<noteq> 1 then []
      else let c = spVal ! 0 in
        if c = CHR ''0'' then ''0'' else if c = CHR ''1'' then ''50'' else if c = CHR ''2'' then ''100''
        else if c = CHR ''3'' then ''200'' else if c = CHR ''4'' then ''300'' else if c = CHR ''5'' then ''600''
        else if c = CHR ''6'' then ''1000'' else if c = CHR ''7'' then ''1500'' else if c = CHR ''8'' then ''2000''
        else if c = CHR ''9'' then ''2500'' else if c = CHR ''X'' \<or> c = CHR ''x'' then ''-3'' else [])"

definition HLKode_int :: "int \<Rightarrow> char" where
  "HLKode_int im =
     (if im < 0 then CHR ''X''
      else if im \<ge> 0 \<and> im < 50 then CHR ''0''
      else if im \<ge> 50 \<and> im < 100 then CHR ''1''
      else if im \<ge> 100 \<and> im < 200 then CHR ''2''
      else if im \<ge> 200 \<and> im < 300 then CHR ''3''
      else if im \<ge> 300 \<and> im < 600 then CHR ''4''
      else if im \<ge> 600 \<and> im < 1000 then CHR ''5''
      else if im \<ge> 1000 \<and> im < 1500 then CHR ''6''
      else if im \<ge> 1500 \<and> im < 2000 then CHR ''7''
      else if im \<ge> 2000 \<and> im < 2500 then CHR ''8''
      else CHR ''9'')"

definition HLKode :: "real \<Rightarrow> char" where
  "HLKode m = HLKode_int (c_round m)"

definition V456 :: "int \<Rightarrow> int" where
  "V456 val =
     (if val = 12 then 1 else if val = 11 then 2 else if val = 10 then 3 else if val = 16 then 4
      else if val = 15 then 5 else if val = 14 then 7 else if val = 13 then 8 else if val = 17 then 10
      else if val = 18 then 12 else if val = 19 then 17 else if val = 20 then 20 else if val = 21 then 29
      else -1)"

definition int_max :: int where
  "int_max = 2147483647"

definition hsCode2m :: "int \<Rightarrow> int" where
  "hsCode2m code =
     (if code < 0 \<or> code > 99 \<or> code > 50 \<and> code < 56 then int_max
      else if code \<le> 50 then code * 30
      else if code \<le> 80 then (code - 56) * 300 + 1800
      else if code < 89 then (code - 81) * 1500 + 10500
      else if code = 89 then 21000
      else if code = 90 then 0
      else if code = 91 then 50
      else if code = 92 then 100
      else if code = 93 then 200
      else if code = 94 then 300
      else if code = 95 then 600
      else if code = 96 then 1000
      else if code = 97 then 1500
      else if code = 98 then 2000
      else if code = 99 then 2500
      else int_max)"

definition hs2Code :: "int \<Rightarrow> string" where
  "hs2Code hs =
     (if hs < 0 then []
      else fmt02 (if hs \<le> 1500 then c_div hs 30
                  else if hs < 1800 then 50
                  else if hs \<le> 9000 then c_div (hs - 1800) 300 + 56
                  else if hs < 10500 then 80
                  else if hs \<le> 21000 then c_div (hs - 10500) 1500 + 81
                  else 89))"

section \<open>Time window\<close>

record kvTypes =
  types_typeID :: int
  format :: string
  earlyobs :: int
  lateobs :: int
  read :: string
  obspgm :: string
  comment :: string

text \<open>The seconds from \<open>obt\<close> to \<open>now\<close> are given by the time library.\<close>

definition getUseinfo7Code :: "('t \<Rightarrow> 't \<Rightarrow> int) \<Rightarrow> int \<Rightarrow> 't \<Rightarrow> 't \<Rightarrow> kvTypes list \<Rightarrow> int" where
  "getUseinfo7Code total_seconds typeId now obt typeList =
     (case List.find (\<lambda>t. types_typeID t = typeId) typeList of
        None \<Rightarrow> -1
      | Some it \<Rightarrow>
          let diff = c_div (total_seconds now obt) 60 in
          if diff > lateobs it then 4
          else if diff < -1 * earlyobs it then 3
          else 0)"

section \<open>Parameters\<close>

record Param =
  kode :: string
  param_id :: int
  isScalar :: bool

definition ParamPredicate :: "Param \<Rightarrow> Param \<Rightarrow> bool" where
  "ParamPredicate a1 a2 = (kode a1 < kode a2)"

type_synonym ParamList = "Param list"

interpretation pl: keyed_order kode ParamPredicate "\<lambda>p. True"
  by unfold_locales (simp add: ParamPredicate_def)

definition findParamIdInList :: "ParamList \<Rightarrow> int \<Rightarrow> string" where
  "findParamIdInList ps i =
     (case List.find (\<lambda>p. param_id p = i) ps of Some p \<Rightarrow> kode p | None \<Rightarrow> [])"

definition findParamInList :: "ParamList \<Rightarrow> string \<Rightarrow> Param option" where
  "findParamInList ps name = sset_find ParamPredicate \<lparr>kode = name, param_id = -1, isScalar = False\<rparr> ps"

fun params_agree :: "ParamList \<Rightarrow> ParamList \<Rightarrow> bool" where
  "params_agree (old # olds) (new # news) =
     (if kode new \<noteq> kode old \<or> param_id new \<noteq> param_id old \<or> isScalar new \<noteq> isScalar old then False
      else params_agree olds news)"
| "params_agree olds news = (news = [])"

definition isParamListsEqual :: "ParamList \<Rightarrow> ParamList \<Rightarrow> bool" where
  "isParamListsEqual oldList newList =
     (if length oldList \<noteq> length newList then False else params_agree oldList newList)"

definition isTextParam_name :: "string \<Rightarrow> ParamList \<Rightarrow> bool" where
  "isTextParam_name paramName params =
     (case findParamInList params paramName of None \<Rightarrow> False | Some param \<Rightarrow> \<not> isScalar param)"

fun isTextParam_id :: "int \<Rightarrow> ParamList \<Rightarrow> bool" where
  "isTextParam_id paramid [] = False"
| "isTextParam_id paramid (p # ps) =
     (if param_id p = paramid then \<not> isScalar p else isTextParam_id paramid ps)"

section \<open>Lemmas\<close>

lemma c_round_of_int [simp]: "c_round (of_int i) = i"
proof (cases "i < 0")
  case True
  have "\<lfloor>real_of_int (- i) + 1 / 2\<rfloor> = - i" by linarith
  with True show ?thesis by (simp add: c_round_def)
next
  case False
  have "\<lfloor>real_of_int i + 1 / 2\<rfloor> = i" by linarith
  with False show ?thesis by (simp add: c_round_def)
qed

definition digit_step :: "int \<Rightarrow> char \<Rightarrow> int" where
  "digit_step a c = 10 * a + (of_char c - 48)"

lemma show_nat_digits: "list_all isdigit (show_nat n)"
proof (induction n rule: show_nat.induct)
  case (1 n)
  have "isdigit (char_of (48 + k))" if "k < 10" for k :: nat
    using that by (simp add: isdigit_def)
  with 1 show ?case
    by (subst show_nat.simps) simp
qed

lemma digit_step_show_nat: "foldl digit_step 0 (show_nat n) = int n"
proof (induction n rule: show_nat.induct)
  case (1 n)
  have "digit_step a (char_of (48 + k)) = 10 * a + int k" if "k < 10" for a and k :: nat
  proof -
    have "(of_char (char_of (48 + k) :: char) :: int) = int (of_char (char_of (48 + k) :: char))"
      by (simp only: of_nat_of_char)
    then show ?thesis
      using that by (simp add: digit_step_def)
  qed
  moreover have "10 * int (n div 10) + int (n mod 10) = int n"
    by presburger
  ultimately show ?case
    using 1 by (subst show_nat.simps) simp
qed

lemma digits_val_all: "list_all isdigit s \<Longrightarrow> digits_val s = foldl digit_step 0 s"
proof -
  assume "list_all isdigit s"
  then have "takeWhile isdigit s = s"
    by (simp add: list_all_iff takeWhile_eq_all_conv)
  moreover have "(\<lambda>a c. 10 * a + (of_char c - 48)) = digit_step"
    by (simp add: fun_eq_iff digit_step_def)
  ultimately show ?thesis
    by (simp only: digits_val_def)
qed

lemma isdigit_chars: "\<not> isdigit (CHR ''-'')" "\<not> isdigit (CHR ''+'')" "isdigit (CHR ''0'')" "isdigit c \<Longrightarrow> \<not> isspace c"
  by (auto simp: isdigit_def isspace_def)

lemma atoi_digits: "s \<noteq> [] \<Longrightarrow> list_all isdigit s \<Longrightarrow> atoi s = foldl digit_step 0 s"
  by (cases s) (auto simp: atoi_def digits_val_all isdigit_chars)

lemma digit_step_zeros: "foldl digit_step 0 (replicate n (CHR ''0'')) = 0"
  by (induction n) (simp_all add: digit_step_def)

lemma atoi_show_int [simp]: "atoi (show_int i) = i"
proof (cases "i < 0")
  case True
  then show ?thesis
    by (simp add: show_int_def atoi_def isspace_def digits_val_all show_nat_digits digit_step_show_nat)
next
  case False
  then show ?thesis
    by (simp add: show_int_def atoi_digits show_nat_digits digit_step_show_nat)
qed

lemma atoi_fmt02 [simp]: "0 \<le> i \<Longrightarrow> atoi (fmt02 i) = i"
proof -
  assume "0 \<le> i"
  then have "fmt02 i = replicate (2 - length (show_nat (nat i))) (CHR ''0'') @ show_nat (nat i)"
    by (simp add: fmt02_def show_int_def Let_def)
  with \<open>0 \<le> i\<close> show ?thesis
    by (simp add: atoi_digits show_nat_digits digit_step_zeros digit_step_show_nat isdigit_chars
        list_all_iff [of _ "replicate _ _"])
qed

lemma fmt02_nonempty [simp]: "fmt02 i \<noteq> []"
  by (simp add: fmt02_def show_int_def Let_def)

definition code_range :: "int \<Rightarrow> bool" where
  "code_range c = (0 \<le> c \<and> c \<le> 89 \<and> \<not> (50 < c \<and> c < 56))"

text \<open>The metres of a visibility code in closed form.\<close>

definition vv_metres :: "int \<Rightarrow> int" where
  "vv_metres c = (if c \<le> 50 then c * 100 else if c \<le> 80 then (c - 50) * 1000
     else if c < 89 then (c - 81) * 5000 + 35000 else 75000)"

lemma atoi_literals: "atoi ''0'' = 0" "atoi ''75000'' = 75000"
  by code_simp+

lemma VV_metres: "code_range c \<Longrightarrow> atoi (VV (fmt02 c)) = vv_metres c"
  by (auto simp: VV_def vv_metres_def code_range_def Let_def atoi_literals)

lemma fmt02_codes: "fmt02 50 = ''50''" "fmt02 0 = ''00''" "fmt02 80 = ''80''" "fmt02 81 = ''81''" "fmt02 82 = ''82''"
  "fmt02 83 = ''83''" "fmt02 84 = ''84''" "fmt02 85 = ''85''" "fmt02 86 = ''86''" "fmt02 87 = ''87''"
  "fmt02 88 = ''88''" "fmt02 89 = ''89''"
  by code_simp+

text \<open>The code chosen for a height of 0 to 70000 metres, as a number.\<close>

definition vv_code :: "int \<Rightarrow> int" where
  "vv_code im = (if im \<le> 5000 then im div 100 else if im < 6000 then 50
     else if im \<le> 30000 then im div 1000 + 50 else if im < 35000 then 80 else (im - 35000) div 5000 + 81)"

lemma VVKode_code:
  assumes "0 \<le> im" "im \<le> 70000"
  shows "VVKode_int im = fmt02 (vv_code im)"
proof -
  consider "im \<le> 30000" | "30000 < im" "im < 35000" | "35000 \<le> im"
    by linarith
  then show ?thesis
  proof cases
    case 1
    then show ?thesis using assms by (auto simp: VVKode_int_def vv_code_def fmt02_codes)
  next
    case 2
    then show ?thesis by (simp add: VVKode_int_def vv_code_def fmt02_codes)
  next
    case 3
    define k where "k = (im - 35000) div 5000"
    have k: "k \<in> {0, 1, 2, 3, 4, 5, 6, 7}" "5000 * k \<le> im - 35000" "im - 35000 < 5000 * (k + 1)"
      using assms 3 unfolding k_def by auto
    have "vv_code im = k + 81" using 3 by (simp add: vv_code_def k_def)
    moreover have "k = 7 \<Longrightarrow> im = 70000" using k assms by simp
    ultimately show ?thesis
      using k 3 assms by (auto simp: VVKode_int_def fmt02_codes)
  qed
qed

lemma vv_code_floor:
  assumes "0 \<le> im" "im \<le> 70000"
  shows "code_range (vv_code im)" "vv_metres (vv_code im) \<le> im"
    "code_range c \<Longrightarrow> vv_metres c \<le> im \<Longrightarrow> c \<le> vv_code im"
proof -
  show "code_range (vv_code im)"
    using assms unfolding code_range_def vv_code_def by auto
  show "vv_metres (vv_code im) \<le> im"
    using assms unfolding vv_metres_def vv_code_def by auto
  show "code_range c \<Longrightarrow> vv_metres c \<le> im \<Longrightarrow> c \<le> vv_code im"
    using assms unfolding vv_metres_def vv_code_def code_range_def by (auto split: if_splits)
qed

lemma VVKode_metres: "code_range c \<Longrightarrow> VVKode_int (vv_metres c) = fmt02 c"
proof (cases "c = 89")
  case True
  then show ?thesis by (simp add: vv_metres_def VVKode_int_def fmt02_codes)
next
  case False
  assume c: "code_range c"
  with False have "0 \<le> vv_metres c" "vv_metres c \<le> 70000"
    by (auto simp: code_range_def vv_metres_def)
  moreover have "vv_code (vv_metres c) = c"
    using c False by (auto simp: code_range_def vv_metres_def vv_code_def)
  ultimately show ?thesis by (simp add: VVKode_code)
qed

definition hs_code :: "int \<Rightarrow> int" where
  "hs_code hs = (if hs \<le> 1500 then hs div 30 else if hs < 1800 then 50
     else if hs \<le> 9000 then (hs - 1800) div 300 + 56 else if hs < 10500 then 80
     else if hs \<le> 21000 then (hs - 10500) div 1500 + 81 else 89)"

lemma hs2Code_code: "0 \<le> hs \<Longrightarrow> hs2Code hs = fmt02 (hs_code hs)"
  by (simp add: hs2Code_def hs_code_def)

lemma HL_table: "list_all (\<lambda>c. HLKode_int (atoi (HL [c])) = c) ''0123456789X''"
  by code_simp

lemma HLKode_HL: "c \<in> set ''0123456789X'' \<Longrightarrow> HLKode (of_int (atoi (HL [c]))) = c"
  using HL_table by (simp only: HLKode_def c_round_of_int list_all_iff)

lemma isParamListsEqual_iff: "isParamListsEqual old new \<longleftrightarrow> old = new"
proof -
  have "length old = length new \<Longrightarrow> params_agree old new \<longleftrightarrow> old = new"
    by (induction old new rule: params_agree.induct) auto
  then show ?thesis
    by (auto simp: isParamListsEqual_def)
qed

lemma findParamInList_insert:
  "findParamInList ps (kode p) = None \<Longrightarrow>
     findParamInList (sset_insert ParamPredicate p ps) name =
       (if name = kode p then Some p else findParamInList ps name)"
proof -
  let ?q = "\<lparr>kode = name, param_id = -1, isScalar = False\<rparr>"
  assume "findParamInList ps (kode p) = None"
  then have "sset_find ParamPredicate p ps = None"
    by (simp add: findParamInList_def sset_find_def ParamPredicate_def)
  from pl.find_insert_new [where x = p and z = ?q and s = ps, OF _ _ _ this]
  show ?thesis
    by (simp add: findParamInList_def list_all_iff)
qed

section \<open>Properties\<close>

text \<open>
  The visibility tables agree: the metres that VV prints for a code 00..50 or 56..89 are
  coded back to the same code.
\<close>

theorem visibility_code_roundtrip:
  "0 \<le> c \<Longrightarrow> c \<le> 89 \<Longrightarrow> \<not> (50 < c \<and> c < 56) \<Longrightarrow>
     VVKode (of_int (atoi (VV (fmt02 c)))) = fmt02 c"
  by (simp add: VVKode_def VV_metres VVKode_metres code_range_def)

lemma visibility_code_roundtrip_witness: "(0 \<le> (61::int) \<and> (61::int) \<le> 89 \<and> \<not> (50 < (61::int) \<and> (61::int) < 56)) \<and>
    VVKode (of_int (atoi (VV (fmt02 61)))) = fmt02 61"
  using visibility_code_roundtrip [of 61] by simp

text \<open>
  A visibility of 0 to 70 km is coded by the greatest code whose distance it reaches.
\<close>

theorem visibility_code_greatest:
  assumes "0 \<le> im" "im \<le> 70000"
  shows "\<exists>c. VVKode (of_int im) = fmt02 c \<and> 0 \<le> c \<and> c \<le> 88 \<and> \<not> (50 < c \<and> c < 56)
    \<and> atoi (VV (fmt02 c)) \<le> im
    \<and> (\<forall>c'. 0 \<le> c' \<and> c' \<le> 89 \<and> \<not> (50 < c' \<and> c' < 56) \<and> atoi (VV (fmt02 c')) \<le> im \<longrightarrow> c' \<le> c)"
proof (intro exI conjI allI impI)
  show "VVKode (of_int im) = fmt02 (vv_code im)"
    using assms by (simp add: VVKode_def VVKode_code)
  have r: "code_range (vv_code im)" "vv_metres (vv_code im) \<le> im"
    using vv_code_floor assms by blast+
  show "0 \<le> vv_code im" "vv_code im \<le> 88" "\<not> (50 < vv_code im \<and> vv_code im < 56)"
    using r assms by (auto simp: code_range_def vv_metres_def split: if_splits)
  show "atoi (VV (fmt02 (vv_code im))) \<le> im"
    using r by (simp add: VV_metres)
  fix c' assume "0 \<le> c' \<and> c' \<le> 89 \<and> \<not> (50 < c' \<and> c' < 56) \<and> atoi (VV (fmt02 c')) \<le> im"
  then have "code_range c'" "vv_metres c' \<le> im"
    by (auto simp: code_range_def simp flip: VV_metres)
  then show "c' \<le> vv_code im"
    using vv_code_floor(3) assms by blast
qed

lemma visibility_code_greatest_witness: "(0 \<le> (5999::int) \<and> (5999::int) \<le> 70000) \<and>
    (\<exists>c. VVKode (of_int 5999) = fmt02 c \<and> 0 \<le> c \<and> c \<le> 88 \<and> \<not> (50 < c \<and> c < 56)
    \<and> atoi (VV (fmt02 c)) \<le> 5999
    \<and> (\<forall>c'. 0 \<le> c' \<and> c' \<le> 89 \<and> \<not> (50 < c' \<and> c' < 56) \<and> atoi (VV (fmt02 c')) \<le> 5999 \<longrightarrow> c' \<le> c))"
  using visibility_code_greatest [of 5999] by simp

text \<open>
  A cloud base in metres is coded by the greatest hshs code 00..88 whose height it reaches,
  code 89 above 21000 metres; the height of every code 00..88 is coded back to that code, and
  negative heights have no code.
\<close>

theorem cloud_base_code_greatest:
  assumes "0 \<le> hs"
  shows "\<exists>c. hs2Code hs = fmt02 c \<and> 0 \<le> c \<and> c \<le> 89 \<and> hsCode2m c \<le> hs
    \<and> (\<forall>c'. 0 \<le> c' \<and> c' \<le> 88 \<and> hsCode2m c' \<le> hs \<and> hsCode2m c' \<noteq> int_max \<longrightarrow> c' \<le> c)
    \<and> (\<forall>c'. 0 \<le> c' \<and> c' \<le> 88 \<and> hsCode2m c' = hs \<and> hsCode2m c' \<noteq> int_max \<longrightarrow> c' = c)"
proof (intro exI conjI allI impI)
  show "hs2Code hs = fmt02 (hs_code hs)"
    using assms by (rule hs2Code_code)
  show "0 \<le> hs_code hs" "hs_code hs \<le> 89" "hsCode2m (hs_code hs) \<le> hs"
    using assms by (auto simp: hs_code_def hsCode2m_def)
  show "c' \<le> hs_code hs" if "0 \<le> c' \<and> c' \<le> 88 \<and> hsCode2m c' \<le> hs \<and> hsCode2m c' \<noteq> int_max" for c'
    using that assms by (auto simp: hs_code_def hsCode2m_def split: if_splits)
  show "c' = hs_code hs" if "0 \<le> c' \<and> c' \<le> 88 \<and> hsCode2m c' = hs \<and> hsCode2m c' \<noteq> int_max" for c'
    using that by (auto simp: hs_code_def hsCode2m_def split: if_splits)
qed

lemma cloud_base_code_greatest_witness: "0 \<le> (1799::int) \<and>
    (\<exists>c. hs2Code 1799 = fmt02 c \<and> 0 \<le> c \<and> c \<le> 89 \<and> hsCode2m c \<le> 1799
    \<and> (\<forall>c'. 0 \<le> c' \<and> c' \<le> 88 \<and> hsCode2m c' \<le> 1799 \<and> hsCode2m c' \<noteq> int_max \<longrightarrow> c' \<le> c)
    \<and> (\<forall>c'. 0 \<le> c' \<and> c' \<le> 88 \<and> hsCode2m c' = 1799 \<and> hsCode2m c' \<noteq> int_max \<longrightarrow> c' = c))"
  using cloud_base_code_greatest [of 1799] by simp

text \<open>
  C4. With windows that are not negative, an observation of a known type is in time (code 0)
  exactly when it arrives less than \<open>lateobs + 1\<close> whole minutes after and less than
  \<open>earlyobs + 1\<close> whole minutes before the observation time: the difference is truncated
  towards zero on both sides.
\<close>

theorem useinfo7_window:
  assumes "List.find (\<lambda>t. types_typeID t = typeId) typeList = Some it" "0 \<le> lateobs it" "0 \<le> earlyobs it"
  shows "getUseinfo7Code total_seconds typeId now obt typeList =
    (if total_seconds now obt \<ge> 60 * (lateobs it + 1) then 4
     else if total_seconds now obt \<le> - 60 * (earlyobs it + 1) then 3 else 0)"
proof -
  let ?s = "total_seconds now obt"
  have "c_div ?s 60 > lateobs it \<longleftrightarrow> ?s \<ge> 60 * (lateobs it + 1)"
    using assms(2) by (cases "0 \<le> ?s") (auto simp: c_div_neg)
  moreover have "c_div ?s 60 < - earlyobs it \<longleftrightarrow> ?s \<le> - 60 * (earlyobs it + 1)"
    using assms(3) by (cases "0 \<le> ?s") (auto simp: c_div_neg)
  ultimately show ?thesis
    using assms(1) by (simp add: getUseinfo7Code_def Let_def)
qed

lemma useinfo7_window_witness:
  "getUseinfo7Code (\<lambda>a b. a - b) 7 100959 100000
     [\<lparr>types_typeID = 7, format = [], earlyobs = 5, lateobs = 15, read = [], obspgm = [], comment = []\<rparr>] = 0"
  using useinfo7_window [of 7
    "[\<lparr>types_typeID = 7, format = [], earlyobs = 5, lateobs = 15, read = [], obspgm = [], comment = []\<rparr>]"
    "\<lparr>types_typeID = 7, format = [], earlyobs = 5, lateobs = 15, read = [], obspgm = [], comment = []\<rparr>"
    "\<lambda>a b. a - b" 100959 100000] by simp

end
