(* ===== verification/Data_Flag.thy ===== *)
theory Data_Flag
  imports Kv_Prelude
begin

text \<open>
  The 64 bit quality flags of an observed value (\<^verbatim>\<open>src/lib/kvalobs/flag\<close>): sixteen hexadecimal
  characters, one nibble per control (\<open>kvControlInfo\<close>) or per usage code (\<open>kvUseInfo\<close>). The
  base class is the record \<open>dataFlag\<close>; the two subclasses add operations and, for the control
  flag, static tables that are a state of their own (\<open>controlTables\<close>). The usage codes computed
  by \<^verbatim>\<open>kvUseInfo::setUseFlags\<close> are one definition per nibble. Log messages are not modelled.
\<close>

section \<open>kvDataFlag\<close>

record dataFlag =
  nibbles :: "char list"

definition kvDataFlag_size :: nat where
  "kvDataFlag_size = 16"

definition legal :: "int \<Rightarrow> bool" where
  "legal i \<longleftrightarrow> i \<ge> 0 \<and> i < 16"

definition chartoint :: "char \<Rightarrow> int" where
  "chartoint c =
     (let v = schar c in
      if v \<ge> 48 \<and> v \<le> 57 then v - 48
      else if v \<ge> 65 \<and> v \<le> 70 then v - 65 + 10
      else 0)"

definition inttochar :: "int \<Rightarrow> char" where
  "inttochar i =
     (if i \<ge> 0 \<and> i \<le> 9 then char_of (nat (48 + i))
      else if i \<ge> 10 \<and> i \<le> 15 then char_of (nat (65 + i - 10))
      else CHR ''0'')"

definition clear_flag :: dataFlag where
  "clear_flag = \<lparr>nibbles = replicate kvDataFlag_size CHR ''0''\<rparr>"

definition flag_of_array :: "char list \<Rightarrow> dataFlag" where
  "flag_of_array f = clear_flag\<lparr>nibbles := map (\<lambda>i. f ! i) [0..<kvDataFlag_size]\<rparr>"

definition flag_of_string :: "string \<Rightarrow> dataFlag" where
  "flag_of_string s =
     (if length s \<ge> kvDataFlag_size
      then clear_flag\<lparr>nibbles := map (\<lambda>i. s ! i) [0..<kvDataFlag_size]\<rparr>
      else clear_flag)"

definition flagstring :: "dataFlag \<Rightarrow> string" where
  "flagstring d = map (\<lambda>i. nibbles d ! i) [0..<kvDataFlag_size]"

definition cflag :: "dataFlag \<Rightarrow> int \<Rightarrow> char" where
  "cflag d index =
     (let i = narrow_char index in
      if i < 0 \<or> i \<ge> int kvDataFlag_size then CHR ''-'' else nibbles d ! nat i)"

definition flag :: "dataFlag \<Rightarrow> int \<Rightarrow> int" where
  "flag d index =
     (let i = narrow_char index in
      if i < 0 \<or> i \<ge> int kvDataFlag_size then 0 else chartoint (nibbles d ! nat i))"

definition set_flag :: "dataFlag \<Rightarrow> int \<Rightarrow> int \<Rightarrow> dataFlag" where
  "set_flag d index c =
     (let i = narrow_char index in
      if i < 0 \<or> i \<ge> int kvDataFlag_size \<or> \<not> legal c then d
      else d\<lparr>nibbles := (nibbles d)[nat i := inttochar c]\<rparr>)"

definition flag_eq :: "dataFlag \<Rightarrow> dataFlag \<Rightarrow> bool" where
  "flag_eq a b \<longleftrightarrow> list_all (\<lambda>i. nibbles a ! i = nibbles b ! i) [0..<kvDataFlag_size]"

definition show_flag :: "dataFlag \<Rightarrow> string" where
  "show_flag d =
     ''['' @ concat (map (\<lambda>i. cflag d (int i) # ''|'') [0..<kvDataFlag_size - 1])
       @ [cflag d (int (kvDataFlag_size - 1))] @ '']''"

text \<open>
  Assignment from the base class, as both subclasses define it: nibble by nibble through
  \<open>set\<close> and \<open>flag\<close>, which replaces every character that is no hexadecimal digit by zero.
\<close>

definition assign_flag :: "dataFlag \<Rightarrow> dataFlag \<Rightarrow> dataFlag" where
  "assign_flag d rhs = fold (\<lambda>i x. set_flag x (int i) (flag rhs (int i))) [0..<kvDataFlag_size] d"

section \<open>kvControlInfo\<close>

type_synonym kvControlInfo = dataFlag
type_synonym kvUseInfo = dataFlag

datatype main_qc = Main_qc1 | Main_qc2d | Main_qc2m | Main_hqc

datatype c_flags = F_fagg | F_fr | F_fcc | F_fs | F_fnum | F_fpos | F_fmis | F_ftime
  | F_fw | F_fstat | F_fcp | F_fclim | F_fd | F_fpre | F_fcombi | F_fhqc

fun cval :: "c_flags \<Rightarrow> int" where
  "cval F_fagg = 0" | "cval F_fr = 1" | "cval F_fcc = 2" | "cval F_fs = 3"
| "cval F_fnum = 4" | "cval F_fpos = 5" | "cval F_fmis = 6" | "cval F_ftime = 7"
| "cval F_fw = 8" | "cval F_fstat = 9" | "cval F_fcp = 10" | "cval F_fclim = 11"
| "cval F_fd = 12" | "cval F_fpre = 13" | "cval F_fcombi = 14" | "cval F_fhqc = 15"

record kvQcxInfo =
  medium_qcx :: string
  main_qcx :: string
  controlpart :: int
  qcx_comment :: string

record controlTables =
  lockedControlFlags :: "(int \<times> c_flags) list"
  mainQCXint :: "(string \<times> main_qc) list"
  qcxinfolist :: "kvQcxInfo list"
  mainQCX :: "(string \<times> main_qc) list"
  controlPart :: "(string \<times> int) list"

definition no_tables :: controlTables where
  "no_tables = \<lparr>lockedControlFlags = [], mainQCXint = [], qcxinfolist = [], mainQCX = [],
     controlPart = []\<rparr>"

definition init_tables :: "controlTables \<Rightarrow> controlTables" where
  "init_tables t =
     (let t1 = (if lockedControlFlags t = []
                then t\<lparr>lockedControlFlags :=
                  fold (\<lambda>f m. smap_put (cval f) f m)
                    [F_fr, F_fcc, F_fs, F_fnum, F_fpos, F_fmis, F_ftime, F_fw, F_fstat, F_fcp,
                     F_fclim, F_fd, F_fpre, F_fcombi, F_fhqc] []\<rparr>
                else t)
      in if mainQCXint t1 = []
         then t1\<lparr>mainQCXint :=
           fold (\<lambda>(s, q) m. smap_put s q m)
             [(''QC1'', Main_qc1), (''QC2d'', Main_qc2d), (''QC2m'', Main_qc2m),
              (''HQC'', Main_hqc)] []\<rparr>
         else t1)"

definition load_qcx :: "kvQcxInfo \<Rightarrow> controlTables \<Rightarrow> controlTables" where
  "load_qcx q t =
     (let t1 = (case map_of (mainQCXint t) (main_qcx q) of
                  None \<Rightarrow> t
                | Some m \<Rightarrow> t\<lparr>mainQCX := smap_put (medium_qcx q) m (mainQCX t)\<rparr>)
      in t1\<lparr>controlPart := smap_put (medium_qcx q) (controlpart q) (controlPart t1)\<rparr>)"

definition setQcxInfo :: "kvQcxInfo list \<Rightarrow> controlTables \<Rightarrow> controlTables" where
  "setQcxInfo qcxi t = fold load_qcx qcxi (t\<lparr>qcxinfolist := qcxi, mainQCX := [], controlPart := []\<rparr>)"

definition getControlFlag :: "controlTables \<Rightarrow> kvControlInfo \<Rightarrow> string \<Rightarrow> int option" where
  "getControlFlag t ci qcx =
     (case map_of (controlPart t) qcx of Some part \<Rightarrow> Some (flag ci part) | None \<Rightarrow> None)"

definition setControlFlag :: "controlTables \<Rightarrow> kvControlInfo \<Rightarrow> string \<Rightarrow> int \<Rightarrow> kvControlInfo \<times> bool" where
  "setControlFlag t ci qcx control =
     (case map_of (controlPart t) qcx of
        Some nibble \<Rightarrow> (set_flag ci nibble control, True)
      | None \<Rightarrow> (ci, False))"

definition forceControlFlag :: "kvControlInfo \<Rightarrow> c_flags \<Rightarrow> int \<Rightarrow> kvControlInfo \<times> bool" where
  "forceControlFlag ci cf control = (set_flag ci (cval cf) control, True)"

definition qc1Done :: "kvControlInfo \<Rightarrow> bool" where
  "qc1Done ci \<longleftrightarrow> flag ci (cval F_fr) \<noteq> 0 \<or> flag ci (cval F_fcc) \<noteq> 0 \<or> flag ci (cval F_fs) \<noteq> 0
     \<or> flag ci (cval F_fnum) \<noteq> 0 \<or> flag ci (cval F_fpos) \<noteq> 0 \<or> flag ci (cval F_fcp) \<noteq> 0
     \<or> flag ci (cval F_fd) \<noteq> 0 \<or> flag ci (cval F_fpre) \<noteq> 0 \<or> flag ci (cval F_fcombi) \<noteq> 0"

definition qc2dDone :: "kvControlInfo \<Rightarrow> bool" where
  "qc2dDone ci \<longleftrightarrow> flag ci (cval F_fs) > 3 \<or> flag ci (cval F_ftime) \<noteq> 0
     \<or> flag ci (cval F_fw) \<noteq> 0 \<or> flag ci (cval F_fstat) \<noteq> 0"

definition qc2mDone :: "kvControlInfo \<Rightarrow> bool" where
  "qc2mDone ci \<longleftrightarrow> flag ci (cval F_fclim) \<noteq> 0 \<or> flag ci (cval F_fd) > 6"

definition qc2Done :: "kvControlInfo \<Rightarrow> bool" where
  "qc2Done ci \<longleftrightarrow> qc2dDone ci \<or> qc2mDone ci"

definition hqcDone :: "kvControlInfo \<Rightarrow> bool" where
  "hqcDone ci \<longleftrightarrow> flag ci (cval F_fhqc) \<noteq> 0"

definition set_MissingFlag :: "kvControlInfo \<Rightarrow> int \<Rightarrow> kvControlInfo" where
  "set_MissingFlag ci v = (if v \<ge> 0 \<and> v \<le> 3 then set_flag ci (cval F_fmis) v else ci)"

definition MissingFlag :: "kvControlInfo \<Rightarrow> int" where
  "MissingFlag ci = flag ci (cval F_fmis)"

section \<open>kvUseInfo\<close>

definition clear_useinfo :: kvUseInfo where
  "clear_useinfo = \<lparr>nibbles = map (\<lambda>i. if i < 5 then CHR ''9'' else CHR ''0'') [0..<kvDataFlag_size]\<rparr>"

text \<open>The local constants of \<^verbatim>\<open>setUseFlags\<close>: one per nibble of the control flag.\<close>

record cinfoFlags =
  k_fagg :: int
  k_fr :: int
  k_fcc :: int
  k_fs :: int
  k_fnum :: int
  k_fpos :: int
  k_fmis :: int
  k_ftime :: int
  k_fw :: int
  k_fstat :: int
  k_fcp :: int
  k_fclim :: int
  k_fd :: int
  k_fpre :: int
  k_fcombi :: int
  k_fhqc :: int

definition read_cinfo :: "kvControlInfo \<Rightarrow> cinfoFlags" where
  "read_cinfo ci =
     \<lparr>k_fagg = flag ci (cval F_fagg), k_fr = flag ci (cval F_fr), k_fcc = flag ci (cval F_fcc),
      k_fs = flag ci (cval F_fs), k_fnum = flag ci (cval F_fnum), k_fpos = flag ci (cval F_fpos),
      k_fmis = flag ci (cval F_fmis), k_ftime = flag ci (cval F_ftime), k_fw = flag ci (cval F_fw),
      k_fstat = flag ci (cval F_fstat), k_fcp = flag ci (cval F_fcp),
      k_fclim = flag ci (cval F_fclim), k_fd = flag ci (cval F_fd), k_fpre = flag ci (cval F_fpre),
      k_fcombi = flag ci (cval F_fcombi), k_fhqc = flag ci (cval F_fhqc)\<rparr>"

definition useflag0 :: "kvControlInfo \<Rightarrow> int" where
  "useflag0 ci =
     (if qc1Done ci \<and> qc2Done ci \<and> hqcDone ci then 1
      else if \<not> qc1Done ci \<and> qc2Done ci \<and> hqcDone ci then 2
      else if qc1Done ci \<and> \<not> qc2Done ci \<and> hqcDone ci then 3
      else if \<not> qc1Done ci \<and> \<not> qc2Done ci \<and> hqcDone ci then 4
      else if qc1Done ci \<and> qc2Done ci \<and> \<not> hqcDone ci then 5
      else if \<not> qc1Done ci \<and> qc2Done ci \<and> \<not> hqcDone ci then 6
      else if qc1Done ci \<and> \<not> qc2Done ci \<and> \<not> hqcDone ci then 7
      else 9)"

definition useflag1 :: "cinfoFlags \<Rightarrow> int \<Rightarrow> int" where
  "useflag1 k ui7 =
     (let fd = k_fd k; fmis = k_fmis k;
          collected = (fd = 2 \<or> fd = 4 \<or> fd = 7 \<or> fd = 8 \<or> fd = 9 \<or> fd = 10) in
      if fmis = 1 \<or> fmis = 3 then 8
      else if (fd = 0 \<or> fd = 1) \<and> ui7 = 0 then 0
      else if (fd = 0 \<or> fd = 1) \<and> ui7 > 0 then 1
      else if fd = 3 \<and> ui7 = 0 then 2
      else if collected \<and> ui7 = 0 then 3
      else if fd = 3 \<and> ui7 > 0 then 4
      else if collected \<and> ui7 > 0 then 5
      else 9)"

definition useflag2 :: "cinfoFlags \<Rightarrow> int" where
  "useflag2 k =
     (if k_fmis k = 1 \<or> k_fmis k = 3 then 9
      else if k_fhqc k = 1 \<or> k_fhqc k = 2 then 0
      else if k_fagg k > 4 \<or> k_fr k = 6 \<or> k_fr k = 10 \<or> k_fcc k \<ge> 10 \<or> k_fcp k \<ge> 10
        \<or> k_fs k \<ge> 8 \<or> k_ftime k = 1 \<or> k_ftime k = 2 \<or> k_fnum k = 6 \<or> k_fw k = 10
        \<or> k_fpos k \<ge> 4 \<or> k_fd k = 2 \<or> k_fd k = 4 \<or> k_fd k \<ge> 7 \<or> k_fpre k \<ge> 4 \<or> k_fclim k = 3
        \<or> k_fcombi k \<ge> 9 \<or> k_fhqc k = 4 \<or> k_fhqc k \<ge> 6 then 3
      else if k_fagg k = 3 \<or> ((k_fr k = 4 \<or> k_fr k = 5) \<and> k_fcombi k \<noteq> 2 \<and> k_fcombi k \<noteq> 1)
        \<or> k_fcc k = 3 \<or> k_fcc k = 4 \<or> k_fcc k = 6 \<or> k_fcc k = 7 \<or> k_fcp k = 3 \<or> k_fcp k = 4
        \<or> k_fcp k = 6 \<or> k_fcp k = 7 \<or> k_fs k = 3 \<or> k_fw k = 3 \<or> k_fpos k = 3 \<or> k_fstat k = 2
        \<or> k_fd k = 3 then 2
      else if k_fagg k = 2 \<or> k_fr k = 2 \<or> k_fr k = 3 \<or> k_fcc k = 2 \<or> k_fcp k = 2 \<or> k_fs k = 2
        \<or> k_fs k = 7 \<or> k_fw k = 2 \<or> k_fclim k = 2 \<or> k_fcombi k = 2 then 1
      else if k_fagg k = 1 \<or> k_fr k = 1 \<or> k_fcc k = 1 \<or> k_fcp k = 1 \<or> k_fs k = 1 \<or> k_fs k = 4
        \<or> k_fw k = 1 \<or> k_fpos k = 1 \<or> k_fstat k = 1 \<or> k_fclim k = 1 \<or> k_fd k = 1
        \<or> k_fcombi k = 1 then 0
      else 9)"

definition useflag3 :: "cinfoFlags \<Rightarrow> int" where
  "useflag3 k =
     (if k_fmis k = 3 then 9
      else if k_fd k = 9 \<or> k_fd k = 10 \<or> k_fagg k = 8 then 5
      else if k_fd k = 7 \<or> k_fd k = 8 \<or> k_fagg k = 9 then 6
      else if k_fhqc k = 5 \<or> k_fagg k = 5 \<or> (k_ftime k = 1 \<and> k_fmis k = 1) then 2
      else if k_fhqc k = 7 \<or> k_fagg k = 4 \<or> k_fr k = 10 \<or> k_fs k = 9 \<or> k_fpre k = 4
        \<or> (k_ftime k = 1 \<and> k_fmis k = 4) then 1
      else if k_fhqc k = 1 \<or> k_fhqc k = 2 then 0
      else if k_fmis k = 2 then 8
      else if k_fmis k = 1 then 4
      else if k_fagg k = 6 \<or> k_fcc k = 10 \<or> k_fcc k = 11 \<or> k_fcp k = 10 \<or> k_fcp k = 11
        \<or> k_fs k = 10 \<or> k_fpos k = 4 \<or> k_fpre k = 4 \<or> k_fclim k = 3
        \<or> ((k_fnum k = 6 \<or> k_ftime k = 2) \<and> k_fmis k = 4) then 3
      else 0)"

definition useflag4 :: "cinfoFlags \<Rightarrow> int \<Rightarrow> int" where
  "useflag4 k ui2 =
     (if ui2 = 0 then 0
      else if k_fhqc k \<ge> 4 then 9
      else if k_fd k = 2 \<or> k_fd k = 4 \<or> k_fd k \<ge> 7 \<or> k_fr k = 7 then 9
      else if (k_fr k = 10 \<or> (7 > k_fr k \<and> k_fr k > 1)) \<and> k_fcc k \<le> 1 \<and> k_fcp k \<le> 1 \<and> k_fs k \<le> 1
        \<and> k_fnum k \<le> 5 \<and> k_fpos k \<le> 1 \<and> k_ftime k \<le> 1 \<and> k_fw k \<le> 1 \<and> k_fstat k \<le> 1
        \<and> k_fclim k \<le> 1 then 1
      else if (k_fcc k = 2 \<or> k_fcc k = 3 \<or> k_fcc k = 6 \<or> k_fcc k = 9 \<or> k_fcc k = 10 \<or> k_fcc k = 13
        \<or> k_fcp k = 2 \<or> k_fcp k = 3 \<or> k_fcp k = 10) \<and> k_fs k \<le> 1 \<and> k_fnum k \<le> 5 \<and> k_fpos k \<le> 1
        \<and> k_ftime k \<le> 1 \<and> k_fw k \<le> 1 \<and> k_fstat k \<le> 1 \<and> k_fclim k \<le> 1 then 2
      else if (k_fs k > 1 \<or> k_fpos k > 1) \<and> k_fnum k \<le> 5 \<and> k_ftime k \<le> 1 \<and> k_fw k \<le> 1
        \<and> k_fstat k \<le> 1 \<and> k_fclim k \<le> 1 then 3
      else if (k_fcc k = 4 \<or> k_fcc k = 7 \<or> k_fcc k = 11 \<or> k_fcp k = 4 \<or> k_fcp k = 7 \<or> k_fcp k = 11)
        \<and> k_fnum k \<le> 5 \<and> k_ftime k \<le> 1 \<and> k_fw k \<le> 1 \<and> k_fstat k \<le> 1 \<and> k_fclim k \<le> 1 then 4
      else if (k_fw k > 1 \<or> k_fclim k > 1) \<and> k_fnum k \<le> 5 \<and> k_ftime k \<le> 1 \<and> k_fstat k \<le> 1 then 5
      else if k_ftime k > 1 \<and> k_fnum k \<le> 5 \<and> k_fstat k \<le> 1 then 6
      else if k_fnum k > 5 \<and> k_fstat k \<le> 1 then 7
      else if k_fstat k > 1 then 8
      else 9)"

text \<open>\<^verbatim>\<open>if (b) ui[15]++\<close>, once for each of the twelve controls in the order of the source.\<close>

definition useflag15 :: "cinfoFlags \<Rightarrow> int" where
  "useflag15 k =
     fold (\<lambda>b n. if b then n + 1 else n)
       [k_fhqc k > 0, k_fr k > 1, k_fcc k > 1, k_fcp k > 1, k_fs k > 1, k_fnum k > 1, k_fpos k > 1,
        k_ftime k > 1, k_fw k > 1, k_fstat k > 1, k_fclim k > 1, k_fpre k > 1] 0"

definition useflags :: "kvUseInfo \<Rightarrow> kvControlInfo \<Rightarrow> int list" where
  "useflags u cinfo =
     (let ui = map (\<lambda>i. flag u (int i)) [0..<kvDataFlag_size];
          k = read_cinfo cinfo;
          ui = ui[0 := useflag0 cinfo];
          ui = ui[1 := useflag1 k (ui ! 7)];
          ui = ui[2 := useflag2 k];
          ui = ui[3 := useflag3 k];
          ui = ui[4 := useflag4 k (ui ! 2)];
          ui = ui[15 := useflag15 k]
      in ui)"

definition setUseFlags :: "kvUseInfo \<Rightarrow> kvControlInfo \<Rightarrow> kvUseInfo" where
  "setUseFlags u cinfo =
     (let ui = useflags u cinfo in
      fold (\<lambda>i d. set_flag d (int i) (ui ! i)) [0..<kvDataFlag_size] u)"

definition addToErrorCount :: "kvUseInfo \<Rightarrow> kvUseInfo" where
  "addToErrorCount u = (let c = flag u 15 + 1; c = (if c > 15 then 15 else c) in set_flag u 15 c)"

definition ErrorCount :: "kvUseInfo \<Rightarrow> int" where
  "ErrorCount u = flag u 15"

definition set_Confidence :: "kvUseInfo \<Rightarrow> int \<Rightarrow> kvUseInfo" where
  "set_Confidence u c =
     (if c < 0 \<or> c > 100 then u else set_flag (set_flag u 8 (c div 16)) 9 (c mod 16))"

definition Confidence :: "kvUseInfo \<Rightarrow> int" where
  "Confidence u = flag u 8 * 16 + flag u 9"

definition set_HQCid :: "kvUseInfo \<Rightarrow> int \<Rightarrow> kvUseInfo" where
  "set_HQCid u c =
     (if c < 0 \<or> c > 255 then u else set_flag (set_flag u 13 (c div 16)) 14 (c mod 16))"

definition HQCid :: "kvUseInfo \<Rightarrow> int" where
  "HQCid u = flag u 13 * 16 + flag u 14"

section \<open>The nibble store contract\<close>

text \<open>
  What the clients of a data flag rely on: sixteen cells, a legal value written to a cell is
  read back from it and from no other cell, an illegal value or an index out of range changes
  nothing.
\<close>

locale nibble_store =
  fixes get :: "'d \<Rightarrow> int \<Rightarrow> int"
    and put :: "'d \<Rightarrow> int \<Rightarrow> int \<Rightarrow> 'd"
    and wf :: "'d \<Rightarrow> bool"
  assumes wf_put: "wf d \<Longrightarrow> wf (put d i v)"
    and get_range: "0 \<le> get d i \<and> get d i < 16"
    and get_put: "wf d \<Longrightarrow> 0 \<le> i \<Longrightarrow> i < 16 \<Longrightarrow> 0 \<le> j \<Longrightarrow> j < 16 \<Longrightarrow>
      get (put d i v) j = (if i = j \<and> legal v then v else get d j)"
begin

lemma wf_fold: "wf d \<Longrightarrow> wf (fold (\<lambda>i d. put d (int i) (f i)) is d)"
  by (induction "is" arbitrary: d) (auto simp: wf_put)

lemma get_fold:
  assumes "wf d" "distinct is" "\<forall>i \<in> set is. i < 16 \<and> legal (f i)" "j < 16"
  shows "get (fold (\<lambda>i d. put d (int i) (f i)) is d) (int j) = (if j \<in> set is then f j else get d (int j))"
  using assms
proof (induction "is" arbitrary: d)
  case Nil
  then show ?case by simp
next
  case (Cons i "is")
  then have "get (put d (int i) (f i)) (int j) = (if i = j then f i else get d (int j))"
    by (simp add: get_put)
  with Cons show ?case
    by (auto simp: wf_put)
qed

text \<open>Two cells hold a byte: the upper nibble at \<open>p\<close>, the lower one at \<open>q\<close>.\<close>

lemma byte_get:
  assumes "wf d" "0 \<le> p" "p < 16" "0 \<le> q" "q < 16" "p \<noteq> q" "0 \<le> c" "c < 256"
  shows "get (put (put d p (c div 16)) q (c mod 16)) p * 16 + get (put (put d p (c div 16)) q (c mod 16)) q = c"
proof -
  have "legal (c div 16)" "legal (c mod 16)"
    using assms by (auto simp: legal_def)
  then show ?thesis
    using assms by (simp add: get_put wf_put)
qed

lemma byte_frame:
  assumes "wf d" "0 \<le> p" "p < 16" "0 \<le> q" "q < 16" "0 \<le> j" "j < 16" "j \<noteq> p" "j \<noteq> q"
  shows "get (put (put d p v) q w) j = get d j"
  using assms by (simp add: get_put wf_put)

end

definition wf_flag :: "dataFlag \<Rightarrow> bool" where
  "wf_flag d \<longleftrightarrow> length (nibbles d) = kvDataFlag_size"

lemma chartoint_range: "0 \<le> chartoint c \<and> chartoint c < 16"
  by (simp add: chartoint_def Let_def)

lemma legal_cases:
  assumes "legal v"
  obtains "v = 0" | "v = 1" | "v = 2" | "v = 3" | "v = 4" | "v = 5" | "v = 6" | "v = 7"
    | "v = 8" | "v = 9" | "v = 10" | "v = 11" | "v = 12" | "v = 13" | "v = 14" | "v = 15"
proof -
  have "v = 0 \<or> v = 1 \<or> v = 2 \<or> v = 3 \<or> v = 4 \<or> v = 5 \<or> v = 6 \<or> v = 7 \<or> v = 8 \<or> v = 9 \<or>
    v = 10 \<or> v = 11 \<or> v = 12 \<or> v = 13 \<or> v = 14 \<or> v = 15"
    using assms unfolding legal_def by presburger
  then show thesis using that by blast
qed

lemma of_char_char_of_small: "n < 256 \<Longrightarrow> (of_char (char_of n) :: int) = int n"
proof -
  assume "n < 256"
  then have "(of_char (char_of n) :: nat) = n" by simp
  then show ?thesis
    by (metis of_nat_of_char)
qed

lemma chartoint_inttochar [flag_simps]:
  assumes "legal v"
  shows "chartoint (inttochar v) = v"
proof (cases "v \<le> 9")
  case True
  then have "schar (inttochar v) = 48 + v"
    using assms of_char_char_of_small [of "nat (48 + v)"] by (auto simp: legal_def schar_def inttochar_def Let_def)
  then show ?thesis using True assms by (simp add: chartoint_def legal_def)
next
  case False
  then have "schar (inttochar v) = 55 + v"
    using assms of_char_char_of_small [of "nat (55 + v)"] by (auto simp: legal_def schar_def inttochar_def Let_def)
  then show ?thesis using False assms by (simp add: chartoint_def legal_def)
qed

lemma flag_range: "0 \<le> flag d i \<and> flag d i < 16"
  using chartoint_range by (simp add: flag_def Let_def)

lemma flag_legal [simp]: "legal (flag d i)"
  using flag_range by (simp add: legal_def)

lemma wf_set_flag [kv_invs, simp]: "wf_flag d \<Longrightarrow> wf_flag (set_flag d i v)"
  by (simp add: wf_flag_def set_flag_def Let_def)

lemma flag_set_flag:
  assumes "wf_flag d" "0 \<le> i" "i < 16" "0 \<le> j" "j < 16"
  shows "flag (set_flag d i v) j = (if i = j \<and> legal v then v else flag d j)"
  using assms
  by (auto simp: flag_def set_flag_def Let_def wf_flag_def kvDataFlag_size_def nth_list_update
      chartoint_inttochar)

interpretation nib: nibble_store flag set_flag wf_flag
  by unfold_locales (simp_all add: flag_set_flag flag_range)

lemma wf_clear_flag [kv_invs, simp]: "wf_flag clear_flag"
  by (simp add: wf_flag_def clear_flag_def)

lemma wf_clear_useinfo [kv_invs, simp]: "wf_flag clear_useinfo"
  by (simp add: wf_flag_def clear_useinfo_def)

lemma wf_flag_of_string [kv_invs, simp]: "wf_flag (flag_of_string s)"
  by (simp add: wf_flag_def flag_of_string_def clear_flag_def)

lemma wf_flag_of_array [kv_invs, simp]: "wf_flag (flag_of_array f)"
  by (simp add: wf_flag_def flag_of_array_def)

lemma flag_clear_flag [flag_simps, simp]: "flag clear_flag i = 0"
proof -
  have "flag clear_flag i = 0" if "0 \<le> narrow_char i" "narrow_char i < 16"
    using that by (simp add: flag_def clear_flag_def kvDataFlag_size_def chartoint_def schar_def)
  moreover have "flag clear_flag i = 0" if "\<not> (0 \<le> narrow_char i \<and> narrow_char i < 16)"
    using that by (auto simp: flag_def Let_def kvDataFlag_size_def)
  ultimately show ?thesis
    by blast
qed

lemma flagstring_wf: "wf_flag d \<Longrightarrow> flagstring d = nibbles d"
  unfolding flagstring_def wf_flag_def by (metis map_nth)

section \<open>Legality of the usage codes\<close>

lemma useflag0_cases: "useflag0 ci \<in> {1, 2, 3, 4, 5, 6, 7, 9}"
  by (simp add: useflag0_def)

lemma useflag1_cases: "useflag1 k u \<in> {0, 1, 2, 3, 4, 5, 8, 9}"
  by (simp add: useflag1_def Let_def)

lemma useflag2_cases: "useflag2 k \<in> {0, 1, 2, 3, 9}"
  by (simp add: useflag2_def)

lemma useflag3_cases: "useflag3 k \<in> {0, 1, 2, 3, 4, 5, 6, 8, 9}"
  by (simp add: useflag3_def)

lemma useflag4_cases: "useflag4 k u \<in> {0, 1, 2, 3, 4, 5, 6, 7, 8, 9}"
  by (simp add: useflag4_def)

lemma fold_count: "fold (\<lambda>b (n::int). if b then n + 1 else n) bs m = m + int (length (filter id bs))"
  by (induction bs arbitrary: m) auto

lemma useflag15_count:
  "useflag15 k = int (length (filter id
     [k_fhqc k > 0, k_fr k > 1, k_fcc k > 1, k_fcp k > 1, k_fs k > 1, k_fnum k > 1, k_fpos k > 1,
      k_ftime k > 1, k_fw k > 1, k_fstat k > 1, k_fclim k > 1, k_fpre k > 1]))"
  unfolding useflag15_def fold_count by simp

lemma useflag15_range: "0 \<le> useflag15 k \<and> useflag15 k \<le> 12"
proof -
  have "length (filter id bs) \<le> length bs" for bs
    by simp
  from this [of "[k_fhqc k > 0, k_fr k > 1, k_fcc k > 1, k_fcp k > 1, k_fs k > 1, k_fnum k > 1,
      k_fpos k > 1, k_ftime k > 1, k_fw k > 1, k_fstat k > 1, k_fclim k > 1, k_fpre k > 1]"]
  show ?thesis unfolding useflag15_count by simp
qed

lemma legal_useflag0 [simp]: "legal (useflag0 ci)"
  using useflag0_cases [of ci] by (auto simp only: legal_def insert_iff empty_iff)

lemma legal_useflag1 [simp]: "legal (useflag1 k u)"
  using useflag1_cases [of k u] by (auto simp only: legal_def insert_iff empty_iff)

lemma legal_useflag2 [simp]: "legal (useflag2 k)"
  using useflag2_cases [of k] by (auto simp only: legal_def insert_iff empty_iff)

lemma legal_useflag3 [simp]: "legal (useflag3 k)"
  using useflag3_cases [of k] by (auto simp only: legal_def insert_iff empty_iff)

lemma legal_useflag4 [simp]: "legal (useflag4 k u)"
  using useflag4_cases [of k u] by (auto simp only: legal_def insert_iff empty_iff)

lemma legal_useflag15 [simp]: "legal (useflag15 k)"
  using useflag15_range [of k] by (simp add: legal_def)

lemma length_useflags [simp]: "length (useflags u ci) = 16"
  by (simp add: useflags_def Let_def kvDataFlag_size_def)

lemma nth_useflags:
  assumes "i < 16"
  shows "useflags u ci ! i =
    (if i = 0 then useflag0 ci else if i = 1 then useflag1 (read_cinfo ci) (flag u 7)
     else if i = 2 then useflag2 (read_cinfo ci) else if i = 3 then useflag3 (read_cinfo ci)
     else if i = 4 then useflag4 (read_cinfo ci) (useflag2 (read_cinfo ci))
     else if i = 15 then useflag15 (read_cinfo ci) else flag u (int i))"
  using assms by (simp add: useflags_def Let_def kvDataFlag_size_def nth_list_update)

lemma legal_nth_useflags: "i < 16 \<Longrightarrow> legal (useflags u ci ! i)"
  by (simp add: nth_useflags)

lemma wf_setUseFlags [kv_invs, simp]: "wf_flag u \<Longrightarrow> wf_flag (setUseFlags u ci)"
  by (simp add: setUseFlags_def Let_def nib.wf_fold)

lemma flag_setUseFlags:
  "wf_flag u \<Longrightarrow> i < 16 \<Longrightarrow> flag (setUseFlags u ci) (int i) = useflags u ci ! i"
  by (simp add: setUseFlags_def Let_def nib.get_fold legal_nth_useflags kvDataFlag_size_def)

section \<open>Helper lemmas of the properties\<close>

lemma nibbles_fold_set_flag:
  assumes "wf_flag d" "\<forall>i < 16. legal (f i)" "n \<le> 16"
  shows "nibbles (fold (\<lambda>i d. set_flag d (int i) (f i)) [0..<n] d) =
           map (\<lambda>i. inttochar (f i)) [0..<n] @ drop n (nibbles d)"
  using assms(3)
proof (induction n)
  case 0
  then show ?case by simp
next
  case (Suc n)
  have "length (nibbles d) = 16"
    using assms(1) by (simp add: wf_flag_def kvDataFlag_size_def)
  then have "drop n (nibbles d) = nibbles d ! n # drop (Suc n) (nibbles d)"
    using Suc.prems by (simp add: Cons_nth_drop_Suc)
  with Suc assms(2) show ?case
    by (simp add: set_flag_def Let_def kvDataFlag_size_def list_update_append)
qed

lemma nibbles_setUseFlags:
  "wf_flag u \<Longrightarrow> nibbles (setUseFlags u ci) = map (\<lambda>i. inttochar (useflags u ci ! i)) [0..<16]"
  by (simp add: setUseFlags_def Let_def kvDataFlag_size_def nibbles_fold_set_flag legal_nth_useflags
      wf_flag_def)

lemma useflags_cong: "(\<And>i. 5 \<le> i \<Longrightarrow> i < 15 \<Longrightarrow> flag u (int i) = flag u' (int i)) \<Longrightarrow> useflags u ci = useflags u' ci"
proof (rule list_eq_nthI)
  assume eq: "\<And>i. 5 \<le> i \<Longrightarrow> i < 15 \<Longrightarrow> flag u (int i) = flag u' (int i)"
  from eq [of 7] have "flag u 7 = flag u' 7"
    by simp
  with eq show "\<And>i. i < length (useflags u ci) \<Longrightarrow> useflags u ci ! i = useflags u' ci ! i"
    by (auto simp: nth_useflags)
qed simp

lemma useflags_setUseFlags: "wf_flag u \<Longrightarrow> useflags (setUseFlags u ci) ci = useflags u ci"
  by (rule useflags_cong) (simp add: flag_setUseFlags nth_useflags)

lemma controlPart_load: "controlPart (load_qcx q t) = smap_put (medium_qcx q) (controlpart q) (controlPart t)"
  by (simp add: load_qcx_def Let_def split: option.split)

lemma controlPart_fold_load:
  "map_of (controlPart (fold load_qcx qs t)) =
     map_of (controlPart t) ++ map_of (map (\<lambda>q. (medium_qcx q, controlpart q)) (rev qs))"
  by (induction qs arbitrary: t) (simp_all add: controlPart_load)

lemma map_of_find: "map_of (map (\<lambda>q. (f q, g q)) xs) x = map_option g (find (\<lambda>q. f q = x) xs)"
  by (induction xs) auto

lemma controlPart_setQcxInfo:
  "map_of (controlPart (setQcxInfo qs t)) = map_of (map (\<lambda>q. (medium_qcx q, controlpart q)) (rev qs))"
  by (simp add: setQcxInfo_def controlPart_fold_load)

section \<open>Properties\<close>

text \<open>
  C1. Writing a nibble through \<^verbatim>\<open>kvDataFlag::set\<close>: the flag keeps its sixteen characters, the
  addressed nibble (the index after its conversion to \<^verbatim>\<open>char\<close>) holds a legal value afterwards, an
  illegal value or a position out of range changes nothing, and every other nibble is unchanged.
\<close>

theorem set_flag_spec:
  assumes "wf_flag d"
  shows "wf_flag (set_flag d i v) \<and>
    (\<forall>j. 0 \<le> j \<and> j < 16 \<longrightarrow>
       flag (set_flag d i v) j = (if narrow_char i = j \<and> legal v then v else flag d j)) \<and>
    (\<not> legal v \<or> narrow_char i < 0 \<or> 16 \<le> narrow_char i \<longrightarrow> set_flag d i v = d)"
proof (intro conjI allI impI)
  show "wf_flag (set_flag d i v)"
    using assms by simp
  show "set_flag d i v = d" if "\<not> legal v \<or> narrow_char i < 0 \<or> 16 \<le> narrow_char i"
    using that by (auto simp: set_flag_def Let_def kvDataFlag_size_def)
  fix j :: int
  assume j: "0 \<le> j \<and> j < 16"
  show "flag (set_flag d i v) j = (if narrow_char i = j \<and> legal v then v else flag d j)"
  proof (cases "0 \<le> narrow_char i \<and> narrow_char i < 16")
    case True
    then have "set_flag d i v = set_flag d (narrow_char i) v"
      by (simp add: set_flag_def)
    then show ?thesis
      using flag_set_flag [OF assms, of "narrow_char i" j v] True j by simp
  next
    case False
    then show ?thesis
      using j by (auto simp: set_flag_def Let_def kvDataFlag_size_def)
  qed
qed

theorem set_flag_spec_witness:
  "wf_flag clear_flag \<and> flag (set_flag clear_flag 262 7) 6 = 7"
proof -
  have n: "narrow_char 262 = 6" by (simp add: narrow_char_def)
  have "flag (set_flag clear_flag 262 7) 6 = (if narrow_char 262 = 6 \<and> legal 7 then 7 else flag clear_flag 6)"
    using set_flag_spec [OF wf_clear_flag, of 262 7] by auto
  then show ?thesis using n by (simp add: legal_def)
qed

text \<open>
  A flag and its sixteen character string are the same thing: parsing the printed flag gives
  the flag back, and printing a parsed string gives its first sixteen characters, or sixteen
  zeros when the string is too short.
\<close>

theorem flag_string_roundtrip:
  "flagstring (flag_of_string s) = (if 16 \<le> length s then take 16 s else replicate 16 CHR ''0'') \<and>
   (wf_flag d \<longrightarrow> flag_of_string (flagstring d) = d)"
proof (intro conjI impI)
  show "flagstring (flag_of_string s) = (if 16 \<le> length s then take 16 s else replicate 16 CHR ''0'')"
    by (rule list_eq_nthI) (auto simp: flagstring_def flag_of_string_def kvDataFlag_size_def clear_flag_def)
  assume wf: "wf_flag d"
  then have "map (\<lambda>i. nibbles d ! i) [0..<kvDataFlag_size] = nibbles d"
    unfolding wf_flag_def by (metis map_nth)
  with wf have "nibbles (flag_of_string (flagstring d)) = nibbles d"
    by (simp add: flagstring_wf flag_of_string_def wf_flag_def clear_flag_def)
  then show "flag_of_string (flagstring d) = d"
    by simp
qed

theorem flag_string_roundtrip_witness:
  "wf_flag clear_useinfo \<and> flag_of_string (flagstring clear_useinfo) = clear_useinfo"
  using flag_string_roundtrip [of "[]" clear_useinfo] by simp

text \<open>
  C3. \<^verbatim>\<open>kvUseInfo::setUseFlags\<close> computes usage codes 0 to 4 and 15 from the control flag and keeps
  every other nibble, in particular the confidence and the identity of the HQC operator; calling
  it again with the same control flag changes nothing.
\<close>

theorem setUseFlags_frame_idempotent:
  assumes "wf_flag u"
  shows "wf_flag (setUseFlags u ci) \<and>
    (\<forall>i. 5 \<le> i \<and> i < 15 \<longrightarrow> flag (setUseFlags u ci) i = flag u i) \<and>
    Confidence (setUseFlags u ci) = Confidence u \<and> HQCid (setUseFlags u ci) = HQCid u \<and>
    setUseFlags (setUseFlags u ci) ci = setUseFlags u ci"
proof -
  have frame: "flag (setUseFlags u ci) i = flag u i" if "5 \<le> i" "i < 15" for i
    using flag_setUseFlags [OF assms, of "nat i" ci] that by (auto simp: nth_useflags nat_eq_iff)
  have "nibbles (setUseFlags (setUseFlags u ci) ci) = nibbles (setUseFlags u ci)"
    using assms by (simp add: nibbles_setUseFlags useflags_setUseFlags)
  then show ?thesis
    using assms frame by (simp add: Confidence_def HQCid_def)
qed

theorem setUseFlags_frame_idempotent_witness:
  "wf_flag clear_useinfo \<and> HQCid (setUseFlags clear_useinfo (set_flag clear_flag 15 1)) = HQCid clear_useinfo"
  using setUseFlags_frame_idempotent [OF wf_clear_useinfo, of "set_flag clear_flag 15 1"] by simp

text \<open>
  Usage code 0 says exactly which control levels a value has passed: two control flags get
  the same code if and only if they agree on QC1, QC2 and HQC, and code 9 means none of them.
\<close>

theorem control_level_code:
  assumes "wf_flag u" "wf_flag u'"
  shows "(flag (setUseFlags u ci) 0 = flag (setUseFlags u' ci') 0 \<longleftrightarrow>
      (qc1Done ci \<longleftrightarrow> qc1Done ci') \<and> (qc2Done ci \<longleftrightarrow> qc2Done ci') \<and> (hqcDone ci \<longleftrightarrow> hqcDone ci')) \<and>
    (flag (setUseFlags u ci) 0 = 9 \<longleftrightarrow> \<not> qc1Done ci \<and> \<not> qc2Done ci \<and> \<not> hqcDone ci)"
proof -
  have "flag (setUseFlags u ci) 0 = useflag0 ci" "flag (setUseFlags u' ci') 0 = useflag0 ci'"
    using flag_setUseFlags [of u 0 ci] flag_setUseFlags [of u' 0 ci'] assms by (simp_all add: nth_useflags)
  then show ?thesis
    by (simp add: useflag0_def)
qed

theorem control_level_code_witness:
  "wf_flag clear_useinfo \<and> flag (setUseFlags clear_useinfo clear_flag) 0 = 9"
  using control_level_code [OF wf_clear_useinfo wf_clear_useinfo, of clear_flag clear_flag]
  by (simp add: qc1Done_def qc2Done_def qc2dDone_def qc2mDone_def hqcDone_def)

text \<open>
  Usage code 15, the error count, is the number of controls that found an error: HQC with a
  nonzero nibble and the eleven automatic controls with a nibble above one. It never exceeds
  twelve, so the nibble never saturates.
\<close>

theorem error_count_exact:
  assumes "wf_flag u"
  shows "ErrorCount (setUseFlags u ci) =
      (if 0 < flag ci (cval F_fhqc) then 1 else 0) +
      int (card {f \<in> {F_fr, F_fcc, F_fcp, F_fs, F_fnum, F_fpos, F_ftime, F_fw, F_fstat, F_fclim, F_fpre}.
                 1 < flag ci (cval f)}) \<and>
    ErrorCount (setUseFlags u ci) \<le> 12"
proof -
  define l where "l = [F_fr, F_fcc, F_fcp, F_fs, F_fnum, F_fpos, F_ftime, F_fw, F_fstat, F_fclim, F_fpre]"
  let ?P = "\<lambda>f. 1 < flag ci (cval f)"
  have set_l: "set l = {F_fr, F_fcc, F_fcp, F_fs, F_fnum, F_fpos, F_ftime, F_fw, F_fstat, F_fclim, F_fpre}"
    and "distinct l"
    by (simp_all add: l_def)
  have "ErrorCount (setUseFlags u ci) = useflag15 (read_cinfo ci)"
    using flag_setUseFlags [OF assms, of 15 ci] by (simp add: ErrorCount_def nth_useflags)
  also have "\<dots> = int (length (filter id ((0 < flag ci (cval F_fhqc)) # map ?P l)))"
    unfolding useflag15_count l_def by (simp only: read_cinfo_def list.map cinfoFlags.simps)
  also have "\<dots> = (if 0 < flag ci (cval F_fhqc) then 1 else 0) + int (length (filter ?P l))"
    by (simp add: filter_map comp_def)
  also have "length (filter ?P l) = card {f \<in> set l. ?P f}"
    using \<open>distinct l\<close> by (simp add: distinct_length_filter Int_def conj_commute)
  finally show ?thesis
    using useflag15_range [of "read_cinfo ci"] \<open>ErrorCount (setUseFlags u ci) = useflag15 (read_cinfo ci)\<close>
    unfolding set_l by simp
qed

theorem error_count_exact_witness:
  "wf_flag clear_useinfo \<and> ErrorCount (setUseFlags clear_useinfo (set_flag clear_flag 1 4)) \<le> 12"
  using error_count_exact [OF wf_clear_useinfo, of "set_flag clear_flag 1 4"] by simp

text \<open>
  The two-nibble fields of the usage flag: a confidence between 0 and 100 and an operator
  identity between 0 and 255 are read back as they were set, values out of range are ignored, and
  neither field disturbs the other or the error count.
\<close>

theorem useinfo_byte_fields:
  assumes "wf_flag u"
  shows "Confidence (set_Confidence u c) = (if 0 \<le> c \<and> c \<le> 100 then c else Confidence u) \<and>
    HQCid (set_HQCid u h) = (if 0 \<le> h \<and> h \<le> 255 then h else HQCid u) \<and>
    HQCid (set_Confidence u c) = HQCid u \<and> Confidence (set_HQCid u h) = Confidence u \<and>
    ErrorCount (set_HQCid (set_Confidence u c) h) = ErrorCount u"
proof -
  have wf: "wf_flag (set_Confidence u c)"
    using assms by (simp add: set_Confidence_def)
  have "Confidence (set_Confidence u c) = (if 0 \<le> c \<and> c \<le> 100 then c else Confidence u)"
    using nib.byte_get [OF assms, of 8 9 c] by (simp add: Confidence_def set_Confidence_def)
  moreover have "HQCid (set_HQCid u h) = (if 0 \<le> h \<and> h \<le> 255 then h else HQCid u)"
    using nib.byte_get [OF assms, of 13 14 h] by (simp add: HQCid_def set_HQCid_def)
  moreover have "flag (set_Confidence u c) j = flag u j" if "10 \<le> j" "j < 16" for j
    using nib.byte_frame [OF assms, of 8 9 j] that by (simp add: set_Confidence_def)
  moreover have "flag (set_HQCid d h) j = flag d j" if "wf_flag d" "0 \<le> j" "j < 16" "j \<noteq> 13" "j \<noteq> 14" for d j
    using nib.byte_frame [OF that(1), of 13 14 j] that by (simp add: set_HQCid_def)
  ultimately show ?thesis
    using assms wf by (simp add: HQCid_def Confidence_def ErrorCount_def)
qed

theorem useinfo_byte_fields_witness:
  "wf_flag clear_useinfo \<and> Confidence (set_Confidence clear_useinfo 87) = 87"
  using useinfo_byte_fields [OF wf_clear_useinfo, of 87 0] by simp

text \<open>
  C7. Control flags by check type: once the static tables are loaded, the last loaded entry of a
  medium qcx decides its nibble, setting the flag of a known check type is read back by
  \<^verbatim>\<open>getControlFlag\<close> when the value is legal and the control part is a nibble, whatever the main qcx
  of the entry is, and an unknown check type is reported and leaves the flag alone.
\<close>

theorem control_flag_by_qcx:
  assumes "wf_flag ci"
  shows "case find (\<lambda>q. medium_qcx q = qcx) (rev qs) of
      None \<Rightarrow> setControlFlag (setQcxInfo qs t) ci qcx v = (ci, False) \<and>
        getControlFlag (setQcxInfo qs t) ci qcx = None
    | Some q \<Rightarrow> setControlFlag (setQcxInfo qs t) ci qcx v = (set_flag ci (controlpart q) v, True) \<and>
        getControlFlag (setQcxInfo qs t) ci qcx = Some (flag ci (controlpart q)) \<and>
        (legal v \<and> 0 \<le> controlpart q \<and> controlpart q < 16 \<longrightarrow>
          getControlFlag (setQcxInfo qs t) (fst (setControlFlag (setQcxInfo qs t) ci qcx v)) qcx = Some v)"
  using assms
  by (auto simp: setControlFlag_def getControlFlag_def controlPart_setQcxInfo map_of_find flag_set_flag
      split: option.split)

theorem control_flag_by_qcx_witness:
  "wf_flag clear_flag \<and>
   snd (setControlFlag (setQcxInfo [\<lparr>medium_qcx = ''QC1-1'', main_qcx = ''QC1'', controlpart = 1, qcx_comment = []\<rparr>]
     (init_tables no_tables)) clear_flag ''QC1-1'' 4)"
  using control_flag_by_qcx [OF wf_clear_flag, where qcx = "''QC1-1''" and v = 4 and t = "init_tables no_tables" and
      qs = "[\<lparr>medium_qcx = ''QC1-1'', main_qcx = ''QC1'', controlpart = 1, qcx_comment = []\<rparr>]"]
  by simp

end
