(* ===== verification/Kv_Data.thy ===== *)
theory Kv_Data
  imports Complex_Main Data_Flag
begin

text \<open>
  One observed value (\<^verbatim>\<open>kvData\<close>) and the operations on it of \<^verbatim>\<open>src/lib/kvalobs/kvDataOperations.cc\<close>:
  the state of the value kept in the nibble \<open>fmis\<close>, rejection and correction, the manual (HQC)
  operations, the factory of missing values, and the comparators that order values in sets.
  Points in time are an arbitrary linear order \<open>'t\<close>; the clock and the test for the special value
  "not a date time" are arguments. A \<^verbatim>\<open>double\<close> is a real: values are only stored and compared.
\<close>

unbundle bit_operations_syntax

section \<open>kvData\<close>

record 't kvData =
  stationID :: int
  obstime :: 't
  original :: real
  paramID :: int
  tbtime :: 't
  typeID :: int
  sensor :: int
  level :: int
  corrected :: real
  controlinfo :: kvControlInfo
  useinfo :: kvUseInfo
  cfailed :: string

definition kvData_clean :: "'t \<Rightarrow> 't kvData" where
  "kvData_clean now =
     \<lparr>stationID = 0, obstime = now, original = 0, paramID = 0, tbtime = now, typeID = 0, sensor = 0,
      level = 0, corrected = 0, controlinfo = clear_flag, useinfo = clear_useinfo, cfailed = []\<rparr>"

definition kvData_set :: "int \<Rightarrow> 't \<Rightarrow> real \<Rightarrow> int \<Rightarrow> 't \<Rightarrow> int \<Rightarrow> int \<Rightarrow> int \<Rightarrow> real \<Rightarrow> kvControlInfo
    \<Rightarrow> kvUseInfo \<Rightarrow> string \<Rightarrow> 't kvData" where
  "kvData_set pos obt org par tbt typ sen lvl cor cin uin fai =
     \<lparr>stationID = pos, obstime = obt, original = org, paramID = par, tbtime = tbt, typeID = typ,
      sensor = sen, level = lvl, corrected = cor, controlinfo = cin, useinfo = uin, cfailed = fai\<rparr>"

definition kvData_set_original :: "'t kvData \<Rightarrow> int \<Rightarrow> 't \<Rightarrow> real \<Rightarrow> int \<Rightarrow> 't \<Rightarrow> int \<Rightarrow> int \<Rightarrow> 't kvData" where
  "kvData_set_original d pos obt org par tbt typ lvl =
     d\<lparr>stationID := pos, obstime := obt, original := org, paramID := par, tbtime := tbt, typeID := typ,
       level := lvl, corrected := org\<rparr>"

definition createSortIndex :: "('t \<Rightarrow> string) \<Rightarrow> 't kvData \<Rightarrow> string" where
  "createSortIndex show_time d =
     show_int (stationID d) @ show_int (paramID d) @ show_int (sensor d) @ show_int (level d)
       @ show_time (obstime d)"

definition kvData_set_useinfo :: "'t kvData \<Rightarrow> int \<Rightarrow> int \<Rightarrow> 't kvData" where
  "kvData_set_useinfo d f newVal = d\<lparr>useinfo := set_flag (useinfo d) f newVal\<rparr>"

section \<open>State of a value\<close>

definition rejectedValue :: real where
  "rejectedValue = -32766"

definition missingValue :: real where
  "missingValue = -32767"

definition kv_missing :: "'t kvData \<Rightarrow> bool" where
  "kv_missing d \<longleftrightarrow> flag (controlinfo d) (cval F_fmis) = 3"

definition kv_rejected :: "'t kvData \<Rightarrow> bool" where
  "kv_rejected d \<longleftrightarrow> flag (controlinfo d) (cval F_fmis) = 2"

definition kv_valid :: "'t kvData \<Rightarrow> bool" where
  "kv_valid d \<longleftrightarrow> \<not> kv_missing d \<and> \<not> kv_rejected d"

definition kv_corrected :: "'t kvData \<Rightarrow> bool" where
  "kv_corrected d \<longleftrightarrow> (let m = flag (controlinfo d) (cval F_fmis) in m \<noteq> 0 \<and> m \<noteq> 3)"

definition original_missing :: "'t kvData \<Rightarrow> bool" where
  "original_missing d \<longleftrightarrow> flag (controlinfo d) (cval F_fmis) AND 1 \<noteq> 0"

definition hqc_touched :: "'t kvData \<Rightarrow> bool" where
  "hqc_touched d \<longleftrightarrow> flag (controlinfo d) (cval F_fhqc) \<noteq> 0"

definition has_model_value :: "'t kvData \<Rightarrow> bool" where
  "has_model_value d \<longleftrightarrow> flag (controlinfo d) (cval F_fnum) = 6 \<and> \<not> hqc_touched d"

definition kv_reject :: "'t kvData \<Rightarrow> 't kvData" where
  "kv_reject d =
     (if kv_valid d then
        let ci = controlinfo d;
            old_fmis = flag ci (cval F_fmis);
            new_fmis = old_fmis OR 2;
            new_fmis = new_fmis AND 3;
            d1 = d\<lparr>controlinfo := set_flag ci (cval F_fmis) new_fmis\<rparr>
        in d1\<lparr>corrected := (if original_missing d1 then missingValue else rejectedValue)\<rparr>
      else d)"

definition kv_correct :: "'t kvData \<Rightarrow> real \<Rightarrow> 't kvData" where
  "kv_correct d new_val =
     (let ci = controlinfo d;
          old_fmis = flag ci (cval F_fmis);
          new_fmis = (if old_fmis AND 1 \<noteq> 0 then 1 else 4)
      in d\<lparr>controlinfo := set_flag ci (cval F_fmis) new_fmis, corrected := new_val\<rparr>)"

section \<open>kvDataFactory\<close>

record 't kvDataFactory =
  f_stationID :: int
  f_obstime :: 't
  f_typeID :: int
  f_sensor :: int
  f_level :: int

definition factory_of_data :: "'t kvData \<Rightarrow> 't kvDataFactory" where
  "factory_of_data d =
     \<lparr>f_stationID = stationID d, f_obstime = obstime d, f_typeID = typeID d, f_sensor = sensor d,
      f_level = level d\<rparr>"

definition factory_getData :: "('t \<Rightarrow> bool) \<Rightarrow> 't \<Rightarrow> 't kvDataFactory \<Rightarrow> real \<Rightarrow> int \<Rightarrow> 't \<Rightarrow> 't kvData" where
  "factory_getData is_not_a_date_time now f val param ot =
     kvData_set (f_stationID f) (if is_not_a_date_time ot then f_obstime f else ot) val param now
       (f_typeID f) (f_sensor f) (f_level f) val clear_flag clear_useinfo []"

definition factory_getMissing :: "('t \<Rightarrow> bool) \<Rightarrow> 't \<Rightarrow> 't kvDataFactory \<Rightarrow> int \<Rightarrow> 't \<Rightarrow> 't kvData" where
  "factory_getMissing is_not_a_date_time now f param ot =
     (let ret = factory_getData is_not_a_date_time now f missingValue param ot
      in ret\<lparr>controlinfo := set_flag (controlinfo ret) (cval F_fmis) 3\<rparr>)"

definition getMissingKvData :: "('t \<Rightarrow> bool) \<Rightarrow> 't \<Rightarrow> 't \<Rightarrow> int \<Rightarrow> 't \<Rightarrow> int \<Rightarrow> int \<Rightarrow> int \<Rightarrow> int \<Rightarrow> 't kvData" where
  "getMissingKvData is_not_a_date_time not_a_date_time now stid ot param typ sen lvl =
     factory_getMissing is_not_a_date_time now
       \<lparr>f_stationID = stid, f_obstime = ot, f_typeID = typ, f_sensor = sen, f_level = lvl\<rparr> param not_a_date_time"

section \<open>Manual quality control\<close>

definition setFhqc :: "'t kvData \<Rightarrow> int \<Rightarrow> 't kvData" where
  "setFhqc d val = d\<lparr>controlinfo := set_flag (controlinfo d) (cval F_fhqc) val\<rparr>"

definition hqc_accept :: "'t kvData \<Rightarrow> 't kvData" where
  "hqc_accept d = setFhqc d 1"

definition hqc_reject :: "'t kvData \<Rightarrow> 't kvData" where
  "hqc_reject d = setFhqc (kv_reject d) 10"

definition hqc_correct :: "'t kvData \<Rightarrow> real \<Rightarrow> 't kvData" where
  "hqc_correct d new_val = setFhqc (kv_correct d new_val) 7"

definition hqc_interpol :: "'t kvData \<Rightarrow> real \<Rightarrow> 't kvData" where
  "hqc_interpol d new_val = setFhqc (kv_correct d new_val) 5"

definition hqc_distribute :: "'t kvData \<Rightarrow> real \<Rightarrow> 't kvData" where
  "hqc_distribute d new_val =
     (let d1 = kv_correct d new_val;
          old_fd = flag (controlinfo d1) (cval F_fd);
          new_fd = (if old_fd = 4 \<or> old_fd = 8 \<or> old_fd = 10 then 10 else 9);
          ci = set_flag (set_flag (controlinfo d1) (cval F_fd) new_fd) (cval F_fhqc) 6
      in d1\<lparr>controlinfo := ci\<rparr>)"

definition hqc_auto_correct :: "'t kvData \<Rightarrow> real \<Rightarrow> 't kvData" where
  "hqc_auto_correct d new_val =
     (if flag (controlinfo d) (cval F_fd) < 2 \<or> flag (controlinfo d) (cval F_fd) = 3 then
        if original_missing d then hqc_interpol d new_val else hqc_correct d new_val
      else hqc_distribute d new_val)"

definition hqc_corrected :: "'t kvData \<Rightarrow> bool" where
  "hqc_corrected d \<longleftrightarrow> (let f = flag (controlinfo d) (cval F_fhqc) in f \<ge> 5 \<and> f \<le> 7)"

definition hqc_accepted :: "'t kvData \<Rightarrow> bool" where
  "hqc_accepted d \<longleftrightarrow> flag (controlinfo d) (cval F_fhqc) = 1"

definition hqc_rejected :: "'t kvData \<Rightarrow> bool" where
  "hqc_rejected d \<longleftrightarrow> flag (controlinfo d) (cval F_fhqc) = 10"

section \<open>Comparators\<close>

text \<open>The character \<^verbatim>\<open>'0'\<close> is 48: a sensor is stored as a number or as a digit character.\<close>

definition eq_sensor :: "int \<Rightarrow> int \<Rightarrow> bool" where
  "eq_sensor sA sB \<longleftrightarrow> sA = sB \<or> \<bar>sA - sB\<bar> = 48"

function strip_sensor :: "int \<Rightarrow> int" where
  "strip_sensor s = (if s \<ge> 48 then strip_sensor (s - 48) else s)"
  by pat_completeness auto
termination
  by (relation "measure nat") auto

declare strip_sensor.simps [simp del]

definition lt_sensor :: "int \<Rightarrow> int \<Rightarrow> bool" where
  "lt_sensor sA sB \<longleftrightarrow> strip_sensor sA < strip_sensor sB"

definition lt_kvData :: "'t::linorder kvData \<Rightarrow> 't kvData \<Rightarrow> bool" where
  "lt_kvData a b =
     (if stationID a \<noteq> stationID b then stationID a < stationID b
      else if typeID a \<noteq> typeID b then typeID a < typeID b
      else if level a \<noteq> level b then level a < level b
      else if \<not> eq_sensor (sensor a) (sensor b) then lt_sensor (sensor a) (sensor b)
      else if obstime a \<noteq> obstime b then obstime a < obstime b
      else paramID a < paramID b)"

definition same_kvData :: "'t kvData \<Rightarrow> 't kvData \<Rightarrow> bool" where
  "same_kvData a b \<longleftrightarrow> stationID a = stationID b \<and> typeID a = typeID b \<and> level a = level b
     \<and> eq_sensor (sensor a) (sensor b) \<and> obstime a = obstime b \<and> paramID a = paramID b"

definition lt_kvData_without_paramID :: "'t::linorder kvData \<Rightarrow> 't kvData \<Rightarrow> bool" where
  "lt_kvData_without_paramID a b =
     (if stationID a \<noteq> stationID b then stationID a < stationID b
      else if obstime a \<noteq> obstime b then obstime a < obstime b
      else if typeID a \<noteq> typeID b then typeID a < typeID b
      else if level a \<noteq> level b then level a < level b
      else lt_sensor (sensor a) (sensor b))"

definition same_obs_and_parameter :: "'t kvData \<Rightarrow> 't kvData \<Rightarrow> bool" where
  "same_obs_and_parameter a b \<longleftrightarrow> stationID a = stationID b \<and> paramID a = paramID b
     \<and> obstime a = obstime b \<and> typeID a = typeID b \<and> eq_sensor (sensor a) (sensor b)
     \<and> level a = level b"

definition exactly_equal_ex_tbtime :: "'t kvData \<Rightarrow> 't kvData \<Rightarrow> bool" where
  "exactly_equal_ex_tbtime a b \<longleftrightarrow> same_obs_and_parameter a b
     \<and> \<bar>original a - original b\<bar> < 1 / 100 \<and> \<bar>corrected a - corrected b\<bar> < 1 / 100
     \<and> flag_eq (controlinfo a) (controlinfo b) \<and> flag_eq (useinfo a) (useinfo b)
     \<and> cfailed a = cfailed b"

definition exactly_equal :: "'t kvData \<Rightarrow> 't kvData \<Rightarrow> bool" where
  "exactly_equal a b \<longleftrightarrow> exactly_equal_ex_tbtime a b \<and> tbtime a = tbtime b"

section \<open>Lemmas\<close>

definition wf_data :: "'t kvData \<Rightarrow> bool" where
  "wf_data d \<longleftrightarrow> wf_flag (controlinfo d) \<and> wf_flag (useinfo d)"

lemmas data_state_defs = kv_missing_def kv_rejected_def kv_valid_def kv_corrected_def
  original_missing_def hqc_touched_def hqc_corrected_def hqc_accepted_def hqc_rejected_def

lemma strip_sensor_mod: "0 \<le> s \<Longrightarrow> strip_sensor s = s mod 48"
proof (induction s rule: strip_sensor.induct)
  case (1 s)
  show ?case
  proof (cases "s \<ge> 48")
    case True
    with 1 have "strip_sensor (s - 48) = (s - 48) mod 48"
      by simp
    moreover have "(s - 48) mod 48 = s mod 48"
      by (metis minus_mod_self2)
    ultimately show ?thesis
      using True by (simp add: strip_sensor.simps [of s])
  next
    case False
    with 1 show ?thesis by (simp add: strip_sensor.simps [of s])
  qed
qed

definition plain_sensor :: "'t kvData \<Rightarrow> bool" where
  "plain_sensor d \<longleftrightarrow> 0 \<le> sensor d \<and> sensor d < 96"

definition data_key :: "'t::linorder kvData \<Rightarrow> int \<times> int \<times> int \<times> int \<times> 't \<times> int" where
  "data_key d = (stationID d, typeID d, level d, sensor d mod 48, obstime d, paramID d)"

lemma mod_48: "0 \<le> a \<Longrightarrow> a < 96 \<Longrightarrow> (a::int) mod 48 = (if a < 48 then a else a - 48)"
proof -
  assume a: "0 \<le> a" "a < 96"
  have "a mod 48 = (a - 48) mod 48"
    by (metis minus_mod_self2)
  moreover have "(a - 48) mod 48 = a - 48" if "\<not> a < 48"
    using a that by (intro mod_pos_pos_trivial) auto
  moreover have "a mod 48 = a" if "a < 48"
    using a that by simp
  ultimately show ?thesis by presburger
qed

lemma eq_sensor_mod:
  "0 \<le> a \<Longrightarrow> a < 96 \<Longrightarrow> 0 \<le> b \<Longrightarrow> b < 96 \<Longrightarrow> eq_sensor a b \<longleftrightarrow> a mod 48 = b mod 48"
  by (auto simp: eq_sensor_def mod_48)

lemma lt_kvData_key: "plain_sensor a \<Longrightarrow> plain_sensor b \<Longrightarrow> lt_kvData a b \<longleftrightarrow> data_key a < data_key b"
  by (auto simp: lt_kvData_def data_key_def plain_sensor_def eq_sensor_mod lt_sensor_def strip_sensor_mod
      less_prod_def)

lemma same_kvData_key: "plain_sensor a \<Longrightarrow> plain_sensor b \<Longrightarrow> same_kvData a b \<longleftrightarrow> data_key a = data_key b"
  by (auto simp: same_kvData_def data_key_def plain_sensor_def eq_sensor_mod)

interpretation kvd: keyed_order data_key lt_kvData plain_sensor
  by unfold_locales (rule lt_kvData_key)

section \<open>The nibble fmis\<close>

text \<open>Values of \<open>fmis\<close> after the operations, for each of its sixteen values before.\<close>

lemma fmis_reject_bits: "legal v \<Longrightarrow> v \<noteq> 2 \<Longrightarrow> v \<noteq> 3 \<Longrightarrow> (v OR 2) AND 3 = (if v AND 1 \<noteq> 0 then 3 else 2)"
  by (erule legal_cases) simp_all

lemma legal_consts [simp]: "legal 0" "legal 1" "legal 2" "legal 3" "legal 4" "legal 5" "legal 6" "legal 7"
  "legal 9" "legal 10"
  by (simp_all add: legal_def)

lemma flag_reject_fmis:
  assumes "wf_data d" "kv_valid d"
  shows "flag (controlinfo (kv_reject d)) 6 = (if original_missing d then 3 else 2)"
  using assms fmis_reject_bits [of "flag (controlinfo d) 6"]
  by (simp add: kv_reject_def Let_def data_state_defs flag_set_flag wf_data_def)

lemma flag_correct_fmis:
  "wf_data d \<Longrightarrow> flag (controlinfo (kv_correct d x)) 6 = (if original_missing d then 1 else 4)"
  by (simp add: kv_correct_def Let_def original_missing_def flag_set_flag wf_data_def)

lemma wf_kv_correct [kv_invs, simp]: "wf_data d \<Longrightarrow> wf_data (kv_correct d x)"
  by (simp add: wf_data_def kv_correct_def Let_def)

lemma wf_kv_reject [kv_invs, simp]: "wf_data d \<Longrightarrow> wf_data (kv_reject d)"
  by (simp add: wf_data_def kv_reject_def Let_def)

lemma wf_setFhqc [kv_invs, simp]: "wf_data d \<Longrightarrow> wf_data (setFhqc d v)"
  by (simp add: wf_data_def setFhqc_def)

lemma wf_hqc_distribute [kv_invs, simp]: "wf_data d \<Longrightarrow> wf_data (hqc_distribute d x)"
  using wf_kv_correct [of d x] by (simp add: wf_data_def hqc_distribute_def Let_def del: wf_kv_correct)

lemma wf_hqc_auto_correct [kv_invs, simp]: "wf_data d \<Longrightarrow> wf_data (hqc_auto_correct d x)"
  by (simp add: hqc_auto_correct_def hqc_interpol_def hqc_correct_def)

lemma correct_fields [simp]:
  "corrected (kv_correct d x) = x" "original (kv_correct d x) = original d"
  "useinfo (kv_correct d x) = useinfo d"
  by (simp_all add: kv_correct_def Let_def)

lemma flag_correct_frame:
  "wf_data d \<Longrightarrow> 0 \<le> j \<Longrightarrow> j < 16 \<Longrightarrow> j \<noteq> 6 \<Longrightarrow> flag (controlinfo (kv_correct d x)) j = flag (controlinfo d) j"
  by (simp add: kv_correct_def Let_def flag_set_flag wf_data_def)

lemma flag_setFhqc:
  "wf_data d \<Longrightarrow> 0 \<le> j \<Longrightarrow> j < 16 \<Longrightarrow> legal v \<Longrightarrow>
   flag (controlinfo (setFhqc d v)) j = (if j = 15 then v else flag (controlinfo d) j)"
  by (simp add: setFhqc_def flag_set_flag wf_data_def)

lemma setFhqc_fields [simp]: "corrected (setFhqc d v) = corrected d" "original (setFhqc d v) = original d"
  "useinfo (setFhqc d v) = useinfo d"
  by (simp_all add: setFhqc_def)

lemma flag_distribute:
  assumes "wf_data d" "0 \<le> j" "j < 16"
  shows "flag (controlinfo (hqc_distribute d x)) j =
    (if j = 15 then 6
     else if j = 12 then (if flag (controlinfo d) 12 \<in> {4, 8, 10} then 10 else 9)
     else if j = 6 then (if original_missing d then 1 else 4)
     else flag (controlinfo d) j)"
proof -
  have wf: "wf_flag (controlinfo (kv_correct d x))"
    using wf_kv_correct [OF assms(1)] by (simp add: wf_data_def del: wf_kv_correct)
  show ?thesis
    using assms wf flag_correct_frame [OF assms(1), of 12 x] flag_correct_frame [OF assms(1), of j x]
      flag_correct_fmis [OF assms(1), of x]
    by (auto simp: hqc_distribute_def Let_def flag_set_flag)
qed

lemma hqc_distribute_fields [simp]: "corrected (hqc_distribute d x) = x" "original (hqc_distribute d x) = original d"
  by (simp_all add: hqc_distribute_def Let_def)

text \<open>The nibbles of the control flag after an automatic choice of correction method.\<close>

lemma flag_auto_correct:
  assumes "wf_data d"
  shows "flag (controlinfo (hqc_auto_correct d x)) 6 = (if original_missing d then 1 else 4)"
    and "flag (controlinfo (hqc_auto_correct d x)) 15 =
      (if flag (controlinfo d) 12 \<in> {0, 1, 3} then if original_missing d then 5 else 7 else 6)"
    and "flag (controlinfo (hqc_auto_correct d x)) 12 =
      (if flag (controlinfo d) 12 \<in> {0, 1, 3} then flag (controlinfo d) 12
       else if flag (controlinfo d) 12 \<in> {4, 8, 10} then 10 else 9)"
    and "flag (controlinfo (hqc_auto_correct d x)) 0 = flag (controlinfo d) 0"
proof -
  have choice: "flag (controlinfo d) 12 < 2 \<or> flag (controlinfo d) 12 = 3 \<longleftrightarrow> flag (controlinfo d) 12 \<in> {0, 1, 3}"
    using flag_range [of "controlinfo d" 12] by auto
  note rules = hqc_auto_correct_def choice hqc_interpol_def hqc_correct_def flag_setFhqc flag_correct_fmis
    flag_correct_frame flag_distribute assms
  show "flag (controlinfo (hqc_auto_correct d x)) 6 = (if original_missing d then 1 else 4)"
    by (simp add: rules)
  show "flag (controlinfo (hqc_auto_correct d x)) 15 =
      (if flag (controlinfo d) 12 \<in> {0, 1, 3} then if original_missing d then 5 else 7 else 6)"
    by (simp add: rules)
  show "flag (controlinfo (hqc_auto_correct d x)) 12 =
      (if flag (controlinfo d) 12 \<in> {0, 1, 3} then flag (controlinfo d) 12
       else if flag (controlinfo d) 12 \<in> {4, 8, 10} then 10 else 9)"
    by (simp add: rules)
  show "flag (controlinfo (hqc_auto_correct d x)) 0 = flag (controlinfo d) 0"
    by (simp add: rules)
qed

lemma auto_correct_fields [simp]: "corrected (hqc_auto_correct d x) = x" "original (hqc_auto_correct d x) = original d"
  by (simp_all add: hqc_auto_correct_def hqc_interpol_def hqc_correct_def)

section \<open>Properties\<close>

text \<open>
  C1. The comparator \<^verbatim>\<open>lt_kvData\<close> is a strict weak order on values whose sensor is a small number or
  a digit character (below 96): irreflexive and transitive, and two values are equivalent exactly
  when \<^verbatim>\<open>same_kvData\<close> holds, which is then an equivalence. A set of values ordered by it is
  therefore a map from station, type, level, sensor, time and parameter.
\<close>

theorem lt_kvData_strict_weak_order:
  assumes "plain_sensor a" "plain_sensor b" "plain_sensor c"
  shows "\<not> lt_kvData a a \<and>
    (lt_kvData a b \<and> lt_kvData b c \<longrightarrow> lt_kvData a c) \<and>
    (\<not> lt_kvData a b \<and> \<not> lt_kvData b a \<longleftrightarrow> same_kvData a b) \<and>
    same_kvData a a \<and> (same_kvData a b \<and> same_kvData b c \<longrightarrow> same_kvData a c)"
  using assms kvd.lt_irrefl [of a] kvd.lt_trans [of a b c] kvd.equiv_key [of a b]
  by (auto simp: same_kvData_key)

theorem lt_kvData_strict_weak_order_witness:
  "plain_sensor ((kvData_clean (0::int))\<lparr>sensor := 48\<rparr>) \<and>
   same_kvData ((kvData_clean (0::int))\<lparr>sensor := 48\<rparr>) ((kvData_clean 0)\<lparr>sensor := 48\<rparr>)"
proof -
  have "plain_sensor ((kvData_clean (0::int))\<lparr>sensor := 48\<rparr>)"
    by (simp add: plain_sensor_def)
  with lt_kvData_strict_weak_order [OF this this this] show ?thesis by blast
qed

text \<open>
  C2. Without a bound on the sensor the comparator is no strict weak order: sensors 0 and 96 are
  neither equal for \<^verbatim>\<open>eq_sensor\<close> nor ordered by \<^verbatim>\<open>lt_sensor\<close>, so the parameter is not compared, and
  three values exist where the first and the third are ordered although both are equivalent to
  the second.
\<close>

theorem lt_kvData_sensor_96:
  "\<exists>a b c :: int kvData. \<not> lt_kvData a b \<and> \<not> lt_kvData b a \<and> \<not> lt_kvData b c \<and> \<not> lt_kvData c b \<and> lt_kvData a c"
proof -
  let ?a = "kvData_clean 0 :: int kvData"
  let ?b = "?a\<lparr>sensor := 96\<rparr>"
  let ?c = "?a\<lparr>paramID := 1\<rparr>"
  have "\<not> lt_kvData ?a ?b \<and> \<not> lt_kvData ?b ?a \<and> \<not> lt_kvData ?b ?c \<and> \<not> lt_kvData ?c ?b \<and> lt_kvData ?a ?c"
    by (simp add: lt_kvData_def kvData_clean_def eq_sensor_def lt_sensor_def strip_sensor_mod)
  then show ?thesis by blast
qed



text \<open>
  A manual correction leaves a valid value, marked as touched and corrected by HQC, with the
  new corrected value and the original untouched, and the usage code 3 computed from it says how
  the value was corrected: 5 for a redistributed collection, 2 for an interpolated missing value,
  1 for a corrected value (when no aggregation flag is set).
\<close>

theorem hqc_correction_reported:
  assumes "wf_data d"
  shows "kv_valid (hqc_auto_correct d x) \<and> hqc_touched (hqc_auto_correct d x) \<and>
    hqc_corrected (hqc_auto_correct d x) \<and> corrected (hqc_auto_correct d x) = x \<and>
    original (hqc_auto_correct d x) = original d \<and>
    original_missing (hqc_auto_correct d x) = original_missing d \<and>
    (flag (controlinfo d) (cval F_fagg) = 0 \<longrightarrow>
      flag (setUseFlags (useinfo d) (controlinfo (hqc_auto_correct d x))) 3 =
        (if flag (controlinfo d) (cval F_fd) \<notin> {0, 1, 3} then 5 else if original_missing d then 2 else 1))"
proof -
  let ?c = "controlinfo (hqc_auto_correct d x)"
  have "flag (setUseFlags (useinfo d) ?c) 3 = useflag3 (read_cinfo ?c)"
    using flag_setUseFlags [of "useinfo d" 3 ?c] assms by (simp add: wf_data_def nth_useflags)
  then show ?thesis
    using flag_auto_correct [OF assms, of x]
    by (simp add: data_state_defs useflag3_def read_cinfo_def)
qed

theorem hqc_correction_reported_witness:
  "wf_data (kvData_clean (0::int)) \<and>
   flag (setUseFlags clear_useinfo (controlinfo (hqc_auto_correct (kvData_clean (0::int)) 3))) 3 = 1"
proof -
  have "wf_data (kvData_clean (0::int))"
    by (simp add: wf_data_def kvData_clean_def)
  with hqc_correction_reported [OF this, of 3] show ?thesis
    by (simp add: kvData_clean_def original_missing_def)
qed

end
