(* ===== verification/Kv_Text_Data.thy ===== *)
theory Kv_Text_Data
  imports Kv_Prelude
begin

text \<open>
  One text observation (\<^verbatim>\<open>src/lib/kvalobs/kvTextData.cc\<close>), its factory and its comparators
  (\<^verbatim>\<open>kvTextDataOperations.cc\<close>), and the identity of an observation (\<^verbatim>\<open>kvStationInfo.h\<close>). As for
  numeric values, points in time are a linear order, and the clock and the test for "not a date time"
  are arguments.
\<close>

record 't kvTextData =
  txt_stationID :: int
  txt_obstime :: 't
  txt_original :: string
  txt_paramID :: int
  txt_tbtime :: 't
  txt_typeID :: int

definition kvTextData_set :: "int \<Rightarrow> 't \<Rightarrow> string \<Rightarrow> int \<Rightarrow> 't \<Rightarrow> int \<Rightarrow> 't kvTextData" where
  "kvTextData_set sta obt org pid tbt typ =
     \<lparr>txt_stationID = sta, txt_obstime = obt, txt_original = org, txt_paramID = pid, txt_tbtime = tbt,
      txt_typeID = typ\<rparr>"

record 't kvTextDataFactory =
  tf_stationID :: int
  tf_typeID :: int
  tf_obstime :: 't

definition text_factory_of_data :: "'t kvTextData \<Rightarrow> 't kvTextDataFactory" where
  "text_factory_of_data d =
     \<lparr>tf_stationID = txt_stationID d, tf_typeID = txt_typeID d, tf_obstime = txt_obstime d\<rparr>"

definition text_factory_getData :: "('t \<Rightarrow> bool) \<Rightarrow> 't \<Rightarrow> 't kvTextDataFactory \<Rightarrow> string \<Rightarrow> int \<Rightarrow> 't \<Rightarrow> 't kvTextData" where
  "text_factory_getData is_not_a_date_time now f val paramID obsTime =
     kvTextData_set (tf_stationID f) (if is_not_a_date_time obsTime then tf_obstime f else obsTime)
       val paramID now (tf_typeID f)"

definition lt_kvTextData :: "'t::linorder kvTextData \<Rightarrow> 't kvTextData \<Rightarrow> bool" where
  "lt_kvTextData a b =
     (if txt_stationID a \<noteq> txt_stationID b then txt_stationID a < txt_stationID b
      else if txt_typeID a \<noteq> txt_typeID b then txt_typeID a < txt_typeID b
      else if txt_obstime a \<noteq> txt_obstime b then txt_obstime a < txt_obstime b
      else txt_paramID a < txt_paramID b)"

definition text_same_obs_and_parameter :: "'t kvTextData \<Rightarrow> 't kvTextData \<Rightarrow> bool" where
  "text_same_obs_and_parameter a b =
     (txt_stationID a = txt_stationID b \<and> txt_paramID a = txt_paramID b
      \<and> txt_obstime a = txt_obstime b \<and> txt_typeID a = txt_typeID b)"

definition text_exactly_equal_ex_tbtime :: "'t kvTextData \<Rightarrow> 't kvTextData \<Rightarrow> bool" where
  "text_exactly_equal_ex_tbtime a b =
     (text_same_obs_and_parameter a b \<and> txt_original a = txt_original b)"

definition text_key :: "'t kvTextData \<Rightarrow> int \<times> int \<times> 't \<times> int" where
  "text_key d = (txt_stationID d, txt_typeID d, txt_obstime d, txt_paramID d)"

interpretation txd: keyed_order text_key lt_kvTextData "\<lambda>d. True"
  by unfold_locales (auto simp: text_key_def lt_kvTextData_def)

section \<open>kvStationInfo\<close>

record 't kvStationInfo =
  si_stationID :: int
  si_obstime :: 't
  si_typeID :: int

definition lt_kvStationInfo :: "'t::linorder kvStationInfo \<Rightarrow> 't kvStationInfo \<Rightarrow> bool" where
  "lt_kvStationInfo a b =
     (if si_stationID a \<noteq> si_stationID b then si_stationID a < si_stationID b
      else if si_obstime a \<noteq> si_obstime b then si_obstime a < si_obstime b
      else si_typeID a < si_typeID b)"

definition info_key :: "'t kvStationInfo \<Rightarrow> int \<times> 't \<times> int" where
  "info_key i = (si_stationID i, si_obstime i, si_typeID i)"

interpretation sti: keyed_order info_key lt_kvStationInfo "\<lambda>i. True"
  by unfold_locales (auto simp: info_key_def lt_kvStationInfo_def)

lemma info_key_inject [simp]: "info_key a = info_key (b :: 't kvStationInfo) \<longleftrightarrow> a = b"
  by (cases a; cases b) (simp add: info_key_def)

lemma set_insert_info: "set (sset_insert lt_kvStationInfo x s) = insert x (set s)"
proof (induction s)
  case (Cons y s)
  have "\<not> lt_kvStationInfo x y \<Longrightarrow> \<not> lt_kvStationInfo y x \<Longrightarrow> x = y"
    using sti.equiv_key [of x y] by simp
  with Cons show ?case by auto
qed simp

end
