(* ===== verification/Kvalobs_Data.thy ===== *)
theory Kvalobs_Data
  imports Kv_Data Kv_Text_Data
begin

text \<open>
  The content of a serialized message (\<^verbatim>\<open>src/lib/decodeutility/kvalobsdata.cc\<close>) and the tree
  that holds it (\<^verbatim>\<open>sorteddata.h\<close>): observations by station, type, observation time, table time,
  sensor, level and parameter. Every level of the tree is a \<^verbatim>\<open>std::set\<close> ordered by its key, here
  an ordered map; \<^verbatim>\<open>operator[]\<close> creates the entry it does not find, also on a constant object.
  The abstract view of the tree is the partial map \<open>data_get\<close> (\<open>text_get\<close> for texts).
\<close>

section \<open>The tree\<close>

record DataContent =
  dc_original :: real
  dc_corrected :: real
  dc_controlinfo :: kvControlInfo
  dc_useinfo :: kvUseInfo
  dc_cfailed :: string

definition DataContent_of :: "'t kvData \<Rightarrow> DataContent" where
  "DataContent_of d =
     \<lparr>dc_original = original d, dc_corrected = corrected d, dc_controlinfo = controlinfo d,
      dc_useinfo = useinfo d, dc_cfailed = cfailed d\<rparr>"

type_synonym Level = "(int \<times> DataContent) list"
type_synonym Sensor = "(int \<times> Level) list"

record TbTime =
  sensors :: "(int \<times> Sensor) list"
  textData :: "(int \<times> string) list"

record 't ObsTime =
  tbTimes :: "('t \<times> TbTime) list"
  invalidate_flag :: bool

type_synonym 't TypeID = "('t \<times> 't ObsTime) list"
type_synonym 't StationID = "(int \<times> 't TypeID) list"
type_synonym 't Observations = "(int \<times> 't StationID) list"

abbreviation new_TbTime :: TbTime where
  "new_TbTime \<equiv> \<lparr>sensors = [], textData = []\<rparr>"

abbreviation new_ObsTime :: "'t ObsTime" where
  "new_ObsTime \<equiv> \<lparr>tbTimes = [], invalidate_flag = False\<rparr>"

text \<open>The reference \<^verbatim>\<open>obs[station][type][obstime]\<close>: its value, and its modification by \<open>f\<close>.\<close>

definition at_obstime :: "'t::linorder Observations \<Rightarrow> int \<Rightarrow> int \<Rightarrow> 't \<Rightarrow> 't ObsTime" where
  "at_obstime obs station typ obt = smap_at new_ObsTime (smap_at [] (smap_at [] obs station) typ) obt"

definition upd_obstime :: "int \<Rightarrow> int \<Rightarrow> 't \<Rightarrow> ('t ObsTime \<Rightarrow> 't ObsTime) \<Rightarrow> 't::linorder Observations \<Rightarrow> 't Observations" where
  "upd_obstime station typ obt f obs =
     smap_upd [] station (smap_upd [] typ (smap_upd new_ObsTime obt f)) obs"

definition level_count :: "Level \<Rightarrow> nat" where
  "level_count l = sum_list (map (\<lambda>p. 1) l)"

definition sensor_count :: "Sensor \<Rightarrow> nat" where
  "sensor_count s = sum_list (map (\<lambda>(k, l). level_count l) s)"

definition tbtime_count :: "TbTime \<Rightarrow> nat" where
  "tbtime_count t = sum_list (map (\<lambda>(k, s). sensor_count s) (sensors t)) + sum_list (map (\<lambda>p. 1) (textData t))"

definition obs_count :: "'t Observations \<Rightarrow> nat" where
  "obs_count obs =
     sum_list (map (\<lambda>(s, tys). sum_list (map (\<lambda>(t, obts).
       sum_list (map (\<lambda>(o', ob). sum_list (map (\<lambda>(tb, t). tbtime_count t) (tbTimes ob))) obts)) tys)) obs)"

section \<open>KvalobsData\<close>

record ('t, 'r) KvalobsData =
  overwrite :: bool
  kd_obs :: "'t Observations"
  correctedMessages :: "'r list"
  created :: 't

definition new_KvalobsData :: "'t \<Rightarrow> ('t, 'r) KvalobsData" where
  "new_KvalobsData not_a_date_time =
     \<lparr>overwrite = False, kd_obs = [], correctedMessages = [], created = not_a_date_time\<rparr>"

definition kd_empty :: "('t, 'r) KvalobsData \<Rightarrow> bool" where
  "kd_empty kd = (obs_count (kd_obs kd) = 0)"

definition kd_size :: "('t, 'r) KvalobsData \<Rightarrow> nat" where
  "kd_size kd = obs_count (kd_obs kd)"

definition plain_sensor_of :: "int \<Rightarrow> int" where
  "plain_sensor_of s = (if s \<ge> 48 then s - 48 else s)"

definition removeExisting :: "'t::linorder kvData \<Rightarrow> 't Observations \<Rightarrow> 't Observations" where
  "removeExisting d =
     (let s = plain_sensor_of (sensor d) in
      upd_obstime (stationID d) (typeID d) (obstime d)
        (\<lambda>o'. o'\<lparr>tbTimes := smap_map
           (\<lambda>tb. tb\<lparr>sensors := smap_upd [] s (smap_upd [] (level d) (smap_del (paramID d))) (sensors tb)\<rparr>)
           (tbTimes o')\<rparr>))"

definition removeExisting_text :: "'t::linorder kvTextData \<Rightarrow> 't Observations \<Rightarrow> 't Observations" where
  "removeExisting_text d =
     upd_obstime (txt_stationID d) (txt_typeID d) (txt_obstime d)
       (\<lambda>o'. o'\<lparr>tbTimes := smap_map (\<lambda>tb. tb\<lparr>sensors := smap_del (txt_paramID d) (sensors tb)\<rparr>) (tbTimes o')\<rparr>)"

text \<open>\<open>is_special\<close> and \<open>neg_infin\<close> are the time library's test and value.\<close>

definition insert_obs :: "('t \<Rightarrow> bool) \<Rightarrow> 't \<Rightarrow> 't::linorder kvData \<Rightarrow> 't Observations \<Rightarrow> 't Observations" where
  "insert_obs is_special neg_infin d obs =
     (let obs = removeExisting d obs;
          s = plain_sensor_of (sensor d);
          tb = (if is_special (tbtime d) then neg_infin else tbtime d)
      in upd_obstime (stationID d) (typeID d) (obstime d)
           (\<lambda>o'. o'\<lparr>tbTimes := smap_upd new_TbTime tb
              (\<lambda>t. t\<lparr>sensors := smap_upd [] s (smap_upd [] (level d)
                 (smap_put (paramID d) (DataContent_of d))) (sensors t)\<rparr>) (tbTimes o')\<rparr>) obs)"

definition insert_text_obs :: "('t \<Rightarrow> bool) \<Rightarrow> 't \<Rightarrow> 't::linorder kvTextData \<Rightarrow> 't Observations \<Rightarrow> 't Observations" where
  "insert_text_obs is_special neg_infin d obs =
     (let obs = removeExisting_text d obs;
          tb = (if is_special (txt_tbtime d) then neg_infin else txt_tbtime d)
      in upd_obstime (txt_stationID d) (txt_typeID d) (txt_obstime d)
           (\<lambda>o'. o'\<lparr>tbTimes := smap_upd new_TbTime tb
              (\<lambda>t. t\<lparr>textData := smap_put (txt_paramID d) (txt_original d) (textData t)\<rparr>) (tbTimes o')\<rparr>) obs)"

definition kd_insert :: "('t \<Rightarrow> bool) \<Rightarrow> 't \<Rightarrow> 't::linorder kvData \<Rightarrow> ('t, 'r) KvalobsData \<Rightarrow> ('t, 'r) KvalobsData" where
  "kd_insert is_special neg_infin d kd = kd\<lparr>kd_obs := insert_obs is_special neg_infin d (kd_obs kd)\<rparr>"

definition kd_insert_text :: "('t \<Rightarrow> bool) \<Rightarrow> 't \<Rightarrow> 't::linorder kvTextData \<Rightarrow> ('t, 'r) KvalobsData \<Rightarrow> ('t, 'r) KvalobsData" where
  "kd_insert_text is_special neg_infin d kd = kd\<lparr>kd_obs := insert_text_obs is_special neg_infin d (kd_obs kd)\<rparr>"

definition KvalobsData_of :: "('t \<Rightarrow> bool) \<Rightarrow> 't \<Rightarrow> 't \<Rightarrow> 't::linorder kvData list \<Rightarrow> 't kvTextData list \<Rightarrow> ('t, 'r) KvalobsData" where
  "KvalobsData_of is_special neg_infin not_a_date_time dat tdat =
     fold (kd_insert_text is_special neg_infin) tdat
       (fold (kd_insert is_special neg_infin) dat (new_KvalobsData not_a_date_time))"

definition setMessageCorrectsThisRejection :: "'r \<Rightarrow> ('t, 'r) KvalobsData \<Rightarrow> ('t, 'r) KvalobsData" where
  "setMessageCorrectsThisRejection r kd = kd\<lparr>correctedMessages := correctedMessages kd @ [r]\<rparr>"

definition kd_clear :: "('t, 'r) KvalobsData \<Rightarrow> ('t, 'r) KvalobsData" where
  "kd_clear kd = kd\<lparr>overwrite := False, kd_obs := []\<rparr>"

definition set_created :: "(string \<Rightarrow> 't) \<Rightarrow> 't \<Rightarrow> string \<Rightarrow> ('t, 'r) KvalobsData \<Rightarrow> ('t, 'r) KvalobsData" where
  "set_created time_from_string_nothrow not_a_date_time isotimestamp kd =
     (if isotimestamp = [] then kd\<lparr>created := not_a_date_time\<rparr>
      else kd\<lparr>created := time_from_string_nothrow isotimestamp\<rparr>)"

subsection \<open>Listing\<close>

definition flat_data :: "bool \<Rightarrow> 't \<Rightarrow> 't Observations \<Rightarrow> 't kvData list" where
  "flat_data setTbtime tb obs =
     [kvData_set st ot (dc_original c) par (if setTbtime then tb else tbt) ty sen lev (dc_corrected c)
        (dc_controlinfo c) (dc_useinfo c) (dc_cfailed c).
      (st, tys) \<leftarrow> obs, (ty, ots) \<leftarrow> tys, (ot, o') \<leftarrow> ots, (tbt, t) \<leftarrow> tbTimes o',
      (sen, levs) \<leftarrow> sensors t, (lev, ps) \<leftarrow> levs, (par, c) \<leftarrow> ps]"

definition flat_text :: "bool \<Rightarrow> 't \<Rightarrow> 't Observations \<Rightarrow> 't kvTextData list" where
  "flat_text setTbtime tb obs =
     [kvTextData_set st ot org par (if setTbtime then tb else tbt) ty.
      (st, tys) \<leftarrow> obs, (ty, ots) \<leftarrow> tys, (ot, o') \<leftarrow> ots, (tbt, t) \<leftarrow> tbTimes o',
      (par, org) \<leftarrow> textData t]"

definition kd_data :: "('t::linorder, 'r) KvalobsData \<Rightarrow> bool \<Rightarrow> 't \<Rightarrow> 't kvData list" where
  "kd_data kd setTbtime tb = sort_by lt_kvData (flat_data setTbtime tb (kd_obs kd))"

definition kd_text :: "('t::linorder, 'r) KvalobsData \<Rightarrow> bool \<Rightarrow> 't \<Rightarrow> 't kvTextData list" where
  "kd_text kd setTbtime tb = sort_by lt_kvTextData (flat_text setTbtime tb (kd_obs kd))"

definition kd_getData :: "('t::linorder, 'r) KvalobsData \<Rightarrow> 't \<Rightarrow> 't kvData list \<times> 't kvTextData list" where
  "kd_getData kd tb = (kd_data kd True tb, kd_text kd True tb)"

subsection \<open>Invalidation\<close>

definition kd_invalidate :: "bool \<Rightarrow> int \<Rightarrow> int \<Rightarrow> 't \<Rightarrow> ('t::linorder, 'r) KvalobsData \<Rightarrow> ('t, 'r) KvalobsData" where
  "kd_invalidate doit station typ obt kd =
     kd\<lparr>kd_obs := upd_obstime station typ obt (\<lambda>o'. o'\<lparr>invalidate_flag := doit\<rparr>) (kd_obs kd)\<rparr>"

text \<open>The query is made on a constant object, but its set is mutable: the entry is created.\<close>

definition isInvalidate :: "int \<Rightarrow> int \<Rightarrow> 't \<Rightarrow> ('t::linorder, 'r) KvalobsData \<Rightarrow> bool \<times> ('t, 'r) KvalobsData" where
  "isInvalidate station typ obt kd =
     (let obs' = upd_obstime station typ obt (\<lambda>o'. o') (kd_obs kd)
      in (invalidate_flag (at_obstime obs' station typ obt), kd\<lparr>kd_obs := obs'\<rparr>))"

definition getInvalidate :: "('t, 'r) KvalobsData \<Rightarrow> (int \<times> int \<times> 't) list" where
  "getInvalidate kd =
     [(st, ty, ot). (st, tys) \<leftarrow> kd_obs kd, (ty, ots) \<leftarrow> tys, (ot, o') \<leftarrow> ots, invalidate_flag o']"

definition summary :: "('t::linorder, 'r) KvalobsData \<Rightarrow> 't kvStationInfo list" where
  "summary kd =
     fold (sset_insert lt_kvStationInfo)
       [\<lparr>si_stationID = st, si_obstime = ot, si_typeID = ty\<rparr>. (st, tys) \<leftarrow> kd_obs kd, (ty, ots) \<leftarrow> tys, (ot, o') \<leftarrow> ots] []"

section \<open>Abstract view\<close>

definition at_tbtime :: "'t::linorder Observations \<Rightarrow> int \<Rightarrow> int \<Rightarrow> 't \<Rightarrow> 't \<Rightarrow> TbTime" where
  "at_tbtime obs st ty ot tb = smap_at new_TbTime (tbTimes (at_obstime obs st ty ot)) tb"

definition level_get :: "(int \<times> Sensor) list \<Rightarrow> int \<Rightarrow> int \<Rightarrow> int \<Rightarrow> DataContent option" where
  "level_get ss sen lev par = map_of (smap_at [] (smap_at [] ss sen) lev) par"

definition data_get :: "'t::linorder Observations \<Rightarrow> int \<Rightarrow> int \<Rightarrow> 't \<Rightarrow> 't \<Rightarrow> int \<Rightarrow> int \<Rightarrow> int \<Rightarrow> DataContent option" where
  "data_get obs st ty ot tb sen lev par = level_get (sensors (at_tbtime obs st ty ot tb)) sen lev par"

definition text_get :: "'t::linorder Observations \<Rightarrow> int \<Rightarrow> int \<Rightarrow> 't \<Rightarrow> 't \<Rightarrow> int \<Rightarrow> string option" where
  "text_get obs st ty ot tb par = map_of (textData (at_tbtime obs st ty ot tb)) par"

lemma at_upd_obstime [simp]:
  "at_obstime (upd_obstime s t o' f obs) st ty ot =
     (if st = s \<and> ty = t \<and> ot = o' then f (at_obstime obs s t o') else at_obstime obs st ty ot)"
  by (simp add: at_obstime_def upd_obstime_def)

lemma level_get_Nil [simp]: "level_get [] sen lev par = None"
  by (simp add: level_get_def)

lemma level_get_upd:
  "level_get (smap_upd [] s (smap_upd [] l f) ss) sen lev par =
     (if sen = s \<and> lev = l then map_of (f (smap_at [] (smap_at [] ss s) l)) par else level_get ss sen lev par)"
  by (simp add: level_get_def)

lemma level_get_del: "level_get (smap_del k ss) sen lev par = (if sen = k then None else level_get ss sen lev par)"
  by (simp add: level_get_def smap_at_def)

lemma sensors_map: "sensors (smap_at new_TbTime (smap_map f m) tb) =
    (if map_of m tb = None then [] else sensors (f (smap_at new_TbTime m tb)))"
  by (simp add: smap_at_map) (simp add: smap_at_def split: option.split)

lemma texts_map: "textData (smap_at new_TbTime (smap_map (\<lambda>t. t\<lparr>sensors := f t\<rparr>) m) tb) =
    textData (smap_at new_TbTime m tb)"
  by (simp add: smap_at_map) (simp add: smap_at_def split: option.split)

lemma smap_at_absent: "map_of m k = None \<Longrightarrow> smap_at d m k = d"
  by (simp add: smap_at_def)

text \<open>Removal of the value under every table time.\<close>

lemma data_get_removeExisting:
  "data_get (removeExisting d obs) st ty ot tb sen lev par =
     (if st = stationID d \<and> ty = typeID d \<and> ot = obstime d \<and> sen = plain_sensor_of (sensor d)
         \<and> lev = level d \<and> par = paramID d then None
      else data_get obs st ty ot tb sen lev par)"
  by (auto simp: removeExisting_def data_get_def at_tbtime_def sensors_map level_get_upd smap_at_absent Let_def)
    (simp_all add: level_get_def)

lemma text_get_removeExisting: "text_get (removeExisting d obs) st ty ot tb par = text_get obs st ty ot tb par"
  by (simp add: removeExisting_def text_get_def at_tbtime_def texts_map Let_def)

lemma data_get_removeExisting_text:
  "data_get (removeExisting_text d obs) st ty ot tb sen lev par =
     (if st = txt_stationID d \<and> ty = txt_typeID d \<and> ot = txt_obstime d \<and> sen = txt_paramID d then None
      else data_get obs st ty ot tb sen lev par)"
  by (auto simp: removeExisting_text_def data_get_def at_tbtime_def sensors_map level_get_del smap_at_absent)

lemma text_get_removeExisting_text: "text_get (removeExisting_text d obs) st ty ot tb par = text_get obs st ty ot tb par"
  by (simp add: removeExisting_text_def text_get_def at_tbtime_def texts_map)

lemma data_get_upd_level:
  "data_get (upd_obstime s t o' (\<lambda>ob. ob\<lparr>tbTimes := smap_upd new_TbTime tb
       (\<lambda>tm. tm\<lparr>sensors := smap_upd [] sn (smap_upd [] l (smap_put p c)) (sensors tm)\<rparr>) (tbTimes ob)\<rparr>) obs)
     st ty ot tb' sen lev par =
   (if st = s \<and> ty = t \<and> ot = o' \<and> tb' = tb \<and> sen = sn \<and> lev = l \<and> par = p then Some c
    else data_get obs st ty ot tb' sen lev par)"
  by (auto simp: data_get_def at_tbtime_def level_get_upd) (simp_all add: level_get_def)

lemma text_get_upd_level:
  "text_get (upd_obstime s t o' (\<lambda>ob. ob\<lparr>tbTimes := smap_upd new_TbTime tb
       (\<lambda>tm. tm\<lparr>sensors := f tm\<rparr>) (tbTimes ob)\<rparr>) obs) st ty ot tb' par = text_get obs st ty ot tb' par"
  by (simp add: text_get_def at_tbtime_def)

lemma data_get_upd_text:
  "data_get (upd_obstime s t o' (\<lambda>ob. ob\<lparr>tbTimes := smap_upd new_TbTime tb
       (\<lambda>tm. tm\<lparr>textData := f tm\<rparr>) (tbTimes ob)\<rparr>) obs) st ty ot tb' sen lev par =
     data_get obs st ty ot tb' sen lev par"
  by (simp add: data_get_def at_tbtime_def)

lemma text_get_upd_text:
  "text_get (upd_obstime s t o' (\<lambda>ob. ob\<lparr>tbTimes := smap_upd new_TbTime tb
       (\<lambda>tm. tm\<lparr>textData := smap_put p v (textData tm)\<rparr>) (tbTimes ob)\<rparr>) obs) st ty ot tb' par =
     (if st = s \<and> ty = t \<and> ot = o' \<and> tb' = tb \<and> par = p then Some v else text_get obs st ty ot tb' par)"
  by (auto simp: text_get_def at_tbtime_def)

lemmas tree_get = data_get_removeExisting text_get_removeExisting data_get_removeExisting_text
  text_get_removeExisting_text data_get_upd_level text_get_upd_level data_get_upd_text text_get_upd_text

section \<open>Well-formedness\<close>

definition TbTime_ok :: "TbTime \<Rightarrow> bool" where
  "TbTime_ok t = (smap_all (smap_all (smap_all (\<lambda>c. True))) (sensors t) \<and> smap_all (\<lambda>c. True) (textData t))"

definition ObsTime_ok :: "'t::linorder ObsTime \<Rightarrow> bool" where
  "ObsTime_ok o' = smap_all TbTime_ok (tbTimes o')"

definition obs_ok :: "'t::linorder Observations \<Rightarrow> bool" where
  "obs_ok obs = smap_all (smap_all (smap_all ObsTime_ok)) obs"

lemma obs_ok_Nil [simp]: "obs_ok []"
  by (simp add: obs_ok_def)

lemma obs_ok_upd: "obs_ok obs \<Longrightarrow> (\<And>v. ObsTime_ok v \<Longrightarrow> ObsTime_ok (f v)) \<Longrightarrow> obs_ok (upd_obstime s t o' f obs)"
  unfolding obs_ok_def upd_obstime_def
  by (intro smap_all_upd) (simp_all add: ObsTime_ok_def)

lemma ObsTime_ok_map: "ObsTime_ok v \<Longrightarrow> (\<And>t. TbTime_ok t \<Longrightarrow> TbTime_ok (f t)) \<Longrightarrow>
    ObsTime_ok (v\<lparr>tbTimes := smap_map f (tbTimes v)\<rparr>)"
  by (simp add: ObsTime_ok_def smap_all_map)

lemma ObsTime_ok_upd: "ObsTime_ok v \<Longrightarrow> (\<And>t. TbTime_ok t \<Longrightarrow> TbTime_ok (f t)) \<Longrightarrow>
    ObsTime_ok (v\<lparr>tbTimes := smap_upd new_TbTime tb f (tbTimes v)\<rparr>)"
  unfolding ObsTime_ok_def
  by (simp, rule smap_all_upd, assumption, simp add: TbTime_ok_def, blast)

lemma TbTime_ok_level: "TbTime_ok t \<Longrightarrow> (\<And>ps. smap_all (\<lambda>c. True) ps \<Longrightarrow> smap_all (\<lambda>c. True) (f ps)) \<Longrightarrow>
    TbTime_ok (t\<lparr>sensors := smap_upd [] s (smap_upd [] l f) (sensors t)\<rparr>)"
  unfolding TbTime_ok_def
  by (simp, intro smap_all_upd) (auto intro: smap_all_upd)

lemma obs_ok_insert [kv_invs]: "obs_ok obs \<Longrightarrow> obs_ok (insert_obs sp ni d obs)"
  unfolding insert_obs_def removeExisting_def Let_def
  by (intro obs_ok_upd ObsTime_ok_map ObsTime_ok_upd TbTime_ok_level smap_all_put smap_all_del) simp_all

lemma obs_ok_insert_text [kv_invs]: "obs_ok obs \<Longrightarrow> obs_ok (insert_text_obs sp ni d obs)"
  unfolding insert_text_obs_def removeExisting_text_def Let_def
  by (intro obs_ok_upd ObsTime_ok_map ObsTime_ok_upd) (auto simp: TbTime_ok_def smap_all_put smap_all_del)

lemma obs_ok_KvalobsData_of: "obs_ok (kd_obs (KvalobsData_of sp ni nadt ds ts))"
proof -
  have i: "obs_ok (kd_obs kd) \<Longrightarrow> obs_ok (kd_obs (fold (kd_insert sp ni) ds kd))" for kd :: "('a, 'b) KvalobsData"
    by (induction ds arbitrary: kd) (simp_all add: kd_insert_def obs_ok_insert)
  have t: "obs_ok (kd_obs kd) \<Longrightarrow> obs_ok (kd_obs (fold (kd_insert_text sp ni) ts kd))" for kd :: "('a, 'b) KvalobsData"
    by (induction ts arbitrary: kd) (simp_all add: kd_insert_text_def obs_ok_insert_text)
  show ?thesis
    by (simp add: KvalobsData_of_def i t new_KvalobsData_def)
qed

section \<open>The list of values\<close>

lemma kvData_set_content:
  "x = kvData_set st ot (dc_original c) par tb ty sen lev (dc_corrected c) (dc_controlinfo c) (dc_useinfo c)
       (dc_cfailed c) \<longleftrightarrow>
     st = stationID x \<and> ot = obstime x \<and> par = paramID x \<and> tb = tbtime x \<and> ty = typeID x \<and> sen = sensor x
     \<and> lev = level x \<and> c = DataContent_of x"
  by (cases x; cases c) (auto simp: kvData_set_def DataContent_of_def)

lemma flat_data_chain:
  "x \<in> set (flat_data False tb obs) \<longleftrightarrow>
     (\<exists>tys. (stationID x, tys) \<in> set obs \<and> (\<exists>ots. (typeID x, ots) \<in> set tys \<and>
        (\<exists>o'. (obstime x, o') \<in> set ots \<and> (\<exists>t. (tbtime x, t) \<in> set (tbTimes o') \<and>
           (\<exists>levs. (sensor x, levs) \<in> set (sensors t) \<and> (\<exists>ps. (level x, ps) \<in> set levs \<and>
              (paramID x, DataContent_of x) \<in> set ps))))))"
  unfolding flat_data_def mem_concat_pairs mem_map_pairs kvData_set_content if_False by blast

lemma flat_data_get:
  fixes obs :: "'t::linorder Observations" and x :: "'t kvData"
  assumes "obs_ok obs"
  shows "x \<in> set (flat_data False tb obs) \<longleftrightarrow>
    data_get obs (stationID x) (typeID x) (obstime x) (tbtime x) (sensor x) (level x) (paramID x)
      = Some (DataContent_of x)"
proof -
  have o1: "smap_all (smap_all (smap_all ObsTime_ok)) obs"
    using assms by (simp add: obs_ok_def)
  have o2: "smap_all (smap_all ObsTime_ok) (smap_at [] obs (stationID x))"
    using smap_all_at [OF o1] by simp
  have o3: "smap_all ObsTime_ok (smap_at [] (smap_at [] obs (stationID x)) (typeID x))"
    using smap_all_at [OF o2] by simp
  have o4: "ObsTime_ok (at_obstime obs (stationID x) (typeID x) (obstime x))"
    unfolding at_obstime_def by (rule smap_all_at [OF o3]) (simp add: ObsTime_ok_def)
  have o5: "TbTime_ok (at_tbtime obs (stationID x) (typeID x) (obstime x) (tbtime x))"
    unfolding at_tbtime_def
    by (rule smap_all_at [OF o4 [unfolded ObsTime_ok_def]]) (simp add: TbTime_ok_def)
  have o6: "smap_all (smap_all (\<lambda>c. True))
      (smap_at [] (sensors (at_tbtime obs (stationID x) (typeID x) (obstime x) (tbtime x))) (sensor x))"
    by (rule smap_all_at [OF o5 [unfolded TbTime_ok_def, THEN conjunct1]]) simp
  have o7: "smap_all (\<lambda>c. True) (smap_at [] (smap_at [] (sensors (at_tbtime obs (stationID x) (typeID x)
      (obstime x) (tbtime x))) (sensor x)) (level x))"
    using smap_all_at [OF o6] by simp
  define L where "L levs \<longleftrightarrow> (\<exists>ps. (level x, ps) \<in> set levs \<and> (paramID x, DataContent_of x) \<in> set ps)" for levs
  define S where "S t \<longleftrightarrow> (\<exists>levs. (sensor x, levs) \<in> set (sensors t) \<and> L levs)" for t :: TbTime
  define T where "T o' \<longleftrightarrow> (\<exists>t. (tbtime x, t) \<in> set (tbTimes o') \<and> S t)" for o' :: "'t ObsTime"
  define U where "U ots \<longleftrightarrow> (\<exists>o'. (obstime x, o') \<in> set ots \<and> T o')" for ots
  define Y where "Y tys \<longleftrightarrow> (\<exists>ots. (typeID x, ots) \<in> set tys \<and> U ots)" for tys
  have "x \<in> set (flat_data False tb obs) \<longleftrightarrow> (\<exists>tys. (stationID x, tys) \<in> set obs \<and> Y tys)"
    unfolding flat_data_chain L_def S_def T_def U_def Y_def by (rule refl)
  also have "\<dots> \<longleftrightarrow> Y (smap_at [] obs (stationID x))"
    by (rule smap_all_ex_at [OF o1]) (simp add: Y_def)
  also have "\<dots> \<longleftrightarrow> U (smap_at [] (smap_at [] obs (stationID x)) (typeID x))"
    unfolding Y_def by (rule smap_all_ex_at [OF o2]) (simp add: U_def)
  also have "\<dots> \<longleftrightarrow> T (at_obstime obs (stationID x) (typeID x) (obstime x))"
    unfolding U_def at_obstime_def by (rule smap_all_ex_at [OF o3]) (simp add: T_def)
  also have "\<dots> \<longleftrightarrow> S (at_tbtime obs (stationID x) (typeID x) (obstime x) (tbtime x))"
    unfolding T_def at_tbtime_def by (rule smap_all_ex_at [OF o4 [unfolded ObsTime_ok_def]]) (simp add: S_def)
  also have "\<dots> \<longleftrightarrow> L (smap_at [] (sensors (at_tbtime obs (stationID x) (typeID x) (obstime x) (tbtime x))) (sensor x))"
    unfolding S_def by (rule smap_all_ex_at [OF o5 [unfolded TbTime_ok_def, THEN conjunct1]]) (simp add: L_def)
  also have "\<dots> \<longleftrightarrow> (paramID x, DataContent_of x) \<in> set (smap_at [] (smap_at [] (sensors (at_tbtime obs
      (stationID x) (typeID x) (obstime x) (tbtime x))) (sensor x)) (level x))"
    unfolding L_def by (rule smap_all_ex_at [OF o6]) simp
  also have "\<dots> \<longleftrightarrow> data_get obs (stationID x) (typeID x) (obstime x) (tbtime x) (sensor x) (level x) (paramID x)
      = Some (DataContent_of x)"
    unfolding data_get_def level_get_def by (rule smap_all_mem [OF o7])
  finally show ?thesis .
qed

text \<open>A value as it is stored: the sensor is a number, a special table time is minus infinity.\<close>

definition stored :: "('t \<Rightarrow> bool) \<Rightarrow> 't \<Rightarrow> 't kvData \<Rightarrow> 't kvData" where
  "stored is_special neg_infin d =
     d\<lparr>sensor := plain_sensor_of (sensor d), tbtime := (if is_special (tbtime d) then neg_infin else tbtime d)\<rparr>"

definition same_place :: "'t kvData \<Rightarrow> 't kvData \<Rightarrow> bool" where
  "same_place a b = (stationID a = stationID b \<and> typeID a = typeID b \<and> obstime a = obstime b
     \<and> sensor a = sensor b \<and> level a = level b \<and> paramID a = paramID b)"

lemma DataContent_of_stored [simp]: "DataContent_of (stored sp ni d) = DataContent_of d"
  by (simp add: DataContent_of_def stored_def)

lemma data_get_insert:
  "data_get (insert_obs sp ni d obs) st ty ot tb sen lev par =
     (if st = stationID d \<and> ty = typeID d \<and> ot = obstime d \<and> sen = plain_sensor_of (sensor d)
         \<and> lev = level d \<and> par = paramID d
      then if tb = (if sp (tbtime d) then ni else tbtime d) then Some (DataContent_of d) else None
      else data_get obs st ty ot tb sen lev par)"
  by (simp add: insert_obs_def tree_get Let_def)

lemma kvData_ext:
  "stationID x = stationID y \<Longrightarrow> obstime x = obstime y \<Longrightarrow> tbtime x = tbtime y \<Longrightarrow> typeID x = typeID y \<Longrightarrow>
   sensor x = sensor y \<Longrightarrow> level x = level y \<Longrightarrow> paramID x = paramID y \<Longrightarrow>
   DataContent_of x = DataContent_of y \<Longrightarrow> x = (y :: 't kvData)"
  by (cases x; cases y) (simp add: DataContent_of_def)

lemma flat_data_insert:
  assumes "obs_ok obs"
  shows "x \<in> set (flat_data False tb (insert_obs sp ni d obs)) \<longleftrightarrow>
    x = stored sp ni d \<or> x \<in> set (flat_data False tb obs) \<and> \<not> same_place x (stored sp ni d)"
proof -
  have "x = stored sp ni d \<longleftrightarrow> same_place x (stored sp ni d) \<and> tbtime x = tbtime (stored sp ni d)
      \<and> DataContent_of x = DataContent_of d"
    using kvData_ext [of x "stored sp ni d"] by (auto simp: same_place_def)
  then show ?thesis
    unfolding flat_data_get [OF assms] flat_data_get [OF obs_ok_insert [OF assms]] data_get_insert
    by (auto simp: same_place_def stored_def)
qed

lemma obs_count_lists: "obs_count obs = length (flat_data b tb obs) + length (flat_text b' tb' obs)"
  unfolding obs_count_def tbtime_count_def sensor_count_def level_count_def flat_data_def flat_text_def
  by (simp add: length_concat case_prod_unfold comp_def sum_list_addf sum_list_triv)

lemma set_fold_info: "set (fold (sset_insert lt_kvStationInfo) xs s) = set xs \<union> set s"
  by (induction xs arbitrary: s) (auto simp: set_insert_info)

definition observation_in :: "'t::linorder Observations \<Rightarrow> int \<Rightarrow> int \<Rightarrow> 't \<Rightarrow> bool" where
  "observation_in os st ty ot = (\<exists>tys ots o'. (st, tys) \<in> set os \<and> (ty, ots) \<in> set tys \<and> (ot, o') \<in> set ots)"

lemma summary_set: "\<lparr>si_stationID = st, si_obstime = ot, si_typeID = ty\<rparr> \<in> set (summary kd) \<longleftrightarrow>
    observation_in (kd_obs kd) st ty ot"
  unfolding summary_def set_fold_info Un_iff mem_concat_pairs mem_map_pairs observation_in_def
  by auto

lemma smap_upd_mem: "(k, f (smap_at d m k)) \<in> set (smap_upd d k f m)"
  by (rule map_of_SomeD) simp

lemma upd_obstime_mem: "observation_in (upd_obstime st ty ot f os) st ty ot"
  unfolding observation_in_def upd_obstime_def using smap_upd_mem by metis

section \<open>Properties\<close>

text \<open>
  C31. After a value is inserted in well-formed content, the listing holds the value as stored (sensor
  as a number, special table time as minus infinity) and exactly those values that were there before
  and differ from it in station, type, observation time, sensor, level or parameter: a value that was
  there under another table time is replaced. Well-formedness is kept.
\<close>

theorem insert_replaces:
  assumes "obs_ok (kd_obs kd)"
  shows "set (kd_data (kd_insert is_special neg_infin d kd) False tb) =
      insert (stored is_special neg_infin d)
        {x \<in> set (kd_data kd False tb). \<not> same_place x (stored is_special neg_infin d)}
    \<and> obs_ok (kd_obs (kd_insert is_special neg_infin d kd))"
  using flat_data_insert [OF assms] obs_ok_insert [OF assms]
  by (auto simp: kd_data_def kd_insert_def)

lemma insert_replaces_witness:
  "set (kd_data (kd_insert (\<lambda>t. False) 0
       \<lparr>stationID = 1, obstime = 10, original = 2, paramID = 211, tbtime = 12, typeID = 4, sensor = 48, level = 0,
        corrected = 2, controlinfo = clear_flag, useinfo = clear_useinfo, cfailed = []\<rparr>
       (new_KvalobsData 0 :: (nat, unit) KvalobsData)) False 0) =
     {\<lparr>stationID = 1, obstime = 10, original = 2, paramID = 211, tbtime = 12, typeID = 4, sensor = 0, level = 0,
        corrected = 2, controlinfo = clear_flag, useinfo = clear_useinfo, cfailed = []\<rparr>}"
  using insert_replaces [of "new_KvalobsData 0 :: (nat, unit) KvalobsData" "\<lambda>t. False" 0
      "\<lparr>stationID = 1, obstime = 10, original = 2, paramID = 211, tbtime = 12, typeID = 4, sensor = 48, level = 0,
        corrected = 2, controlinfo = clear_flag, useinfo = clear_useinfo, cfailed = []\<rparr>" 0]
  by (simp add: new_KvalobsData_def kd_data_def sort_by_def flat_data_def stored_def plain_sensor_of_def)

text \<open>
  The abstract view: an insertion changes the partial map at the place of the value only; there it
  holds the value under its table time and nothing under any other table time. Texts are not touched.
\<close>

theorem insert_get:
  "data_get (kd_obs (kd_insert is_special neg_infin d kd)) st ty ot tb sen lev par =
     (if st = stationID d \<and> ty = typeID d \<and> ot = obstime d \<and> sen = plain_sensor_of (sensor d)
         \<and> lev = level d \<and> par = paramID d
      then if tb = (if is_special (tbtime d) then neg_infin else tbtime d) then Some (DataContent_of d) else None
      else data_get (kd_obs kd) st ty ot tb sen lev par)
   \<and> text_get (kd_obs (kd_insert is_special neg_infin d kd)) st ty ot tb par = text_get (kd_obs kd) st ty ot tb par"
  by (simp add: kd_insert_def data_get_insert) (simp add: insert_obs_def tree_get Let_def)

text \<open>
  Inserting a text removes the numeric values of the observation whose sensor number equals the
  text's parameter number, and keeps a text of the same parameter that is stored under another table
  time: the removal addresses the sensors instead of the texts.
\<close>

theorem insert_text_erases_sensor:
  "data_get (kd_obs (kd_insert_text is_special neg_infin d kd)) st ty ot tb sen lev par =
     (if st = txt_stationID d \<and> ty = txt_typeID d \<and> ot = txt_obstime d \<and> sen = txt_paramID d then None
      else data_get (kd_obs kd) st ty ot tb sen lev par)
   \<and> text_get (kd_obs (kd_insert_text is_special neg_infin d kd)) st ty ot tb par =
     (if st = txt_stationID d \<and> ty = txt_typeID d \<and> ot = txt_obstime d \<and> par = txt_paramID d
         \<and> tb = (if is_special (txt_tbtime d) then neg_infin else txt_tbtime d) then Some (txt_original d)
      else text_get (kd_obs kd) st ty ot tb par)"
  by (simp add: kd_insert_text_def insert_text_obs_def tree_get Let_def)

text \<open>
  C4. \<^verbatim>\<open>size()\<close> is the number of listed values and texts (parameters, not observations), and
  \<^verbatim>\<open>empty()\<close> says that both listings are empty; neither depends on the table time asked for.
\<close>

theorem size_counts_parameters:
  "kd_size kd = length (kd_data kd b tb) + length (kd_text kd b' tb')
   \<and> (kd_empty kd \<longleftrightarrow> kd_data kd b tb = [] \<and> kd_text kd b' tb' = [])"
proof -
  have "obs_count (kd_obs kd) = length (kd_data kd b tb) + length (kd_text kd b' tb')"
    using obs_count_lists [of "kd_obs kd" b tb b' tb'] by (simp add: kd_data_def kd_text_def)
  then show ?thesis
    by (auto simp: kd_size_def kd_empty_def)
qed

text \<open>
  C5. The query \<^verbatim>\<open>isInvalidate\<close> answers what \<^verbatim>\<open>invalidate\<close> last set, but it also enters the observation
  it is asked about in the object: the summary afterwards has it.
\<close>

theorem isInvalidate_enters_summary:
  assumes "isInvalidate st ty ot (kd_invalidate doit st' ty' ot' kd) = (answer, kd')"
  shows "answer = (if st = st' \<and> ty = ty' \<and> ot = ot' then doit else invalidate_flag (at_obstime (kd_obs kd) st ty ot))
    \<and> \<lparr>si_stationID = st, si_obstime = ot, si_typeID = ty\<rparr> \<in> set (summary kd')"
proof -
  let ?obs = "kd_obs (kd_invalidate doit st' ty' ot' kd)"
  have kd': "kd_obs kd' = upd_obstime st ty ot (\<lambda>o'. o') ?obs"
    and ans: "answer = invalidate_flag (at_obstime (upd_obstime st ty ot (\<lambda>o'. o') ?obs) st ty ot)"
    using assms by (auto simp: isInvalidate_def Let_def)
  have "answer = (if st = st' \<and> ty = ty' \<and> ot = ot' then doit else invalidate_flag (at_obstime (kd_obs kd) st ty ot))"
    unfolding ans by (simp add: kd_invalidate_def)
  moreover have "\<lparr>si_stationID = st, si_obstime = ot, si_typeID = ty\<rparr> \<in> set (summary kd')"
    unfolding summary_set kd' by (rule upd_obstime_mem)
  ultimately show ?thesis by simp
qed

lemma isInvalidate_enters_summary_witness:
  "\<exists>answer kd'. isInvalidate 7 2 (5::nat) (kd_invalidate True 1 2 3 (new_KvalobsData 0 :: (nat, unit) KvalobsData)) = (answer, kd')
     \<and> answer = False \<and> \<lparr>si_stationID = 7, si_obstime = 5, si_typeID = 2\<rparr> \<in> set (summary kd')"
proof -
  obtain answer kd' where e: "isInvalidate 7 2 (5::nat)
      (kd_invalidate True 1 2 3 (new_KvalobsData 0 :: (nat, unit) KvalobsData)) = (answer, kd')"
    by fastforce
  from isInvalidate_enters_summary [OF e]
  have "answer = False \<and> \<lparr>si_stationID = 7, si_obstime = 5, si_typeID = 2\<rparr> \<in> set (summary kd')"
    by (simp add: new_KvalobsData_def at_obstime_def)
  with e show ?thesis by blast
qed

end
