(* ===== verification/Data_Container.thy ===== *)
theory Data_Container
  imports Kvalobs_Data
begin

text \<open>
  The view of a message that the decoders use (\<^verbatim>\<open>src/lib/decodeutility/KvDataContainer.cc\<close>): values
  grouped by station, type and observation time, searches and counts. The container holds a pointer to
  the message; \<open>None\<close> stands for the null pointer, and a result \<open>None\<close> for its dereference. Also the side
  table of \<^verbatim>\<open>kvalobsdata.cc\<close> that keeps producer and message id by the address of the object.
\<close>

section \<open>Grouping\<close>

type_synonym ('t, 'x) by_obstime = "('t \<times> 'x list) list"
type_synonym ('t, 'x) by_station = "(int \<times> (int \<times> ('t, 'x) by_obstime) list) list"
type_synonym ('t, 'r) KvDataContainer = "('t, 'r) KvalobsData option"

definition push_obstime :: "'t::linorder \<Rightarrow> 'x \<Rightarrow> ('t, 'x) by_obstime \<Rightarrow> ('t, 'x) by_obstime" where
  "push_obstime ot x m = smap_upd [] ot (\<lambda>l. l @ [x]) m"

definition push_station :: "int \<Rightarrow> int \<Rightarrow> 't::linorder \<Rightarrow> 'x \<Rightarrow> ('t, 'x) by_station \<Rightarrow> ('t, 'x) by_station" where
  "push_station st ty ot x m = smap_upd [] st (smap_upd [] ty (push_obstime ot x)) m"

definition kc_text_all :: "('t::linorder, 'r) KvDataContainer \<Rightarrow> 't \<Rightarrow> (nat \<times> ('t, 't kvTextData) by_station) option" where
  "kc_text_all kc tb = map_option (\<lambda>kd.
     fold (\<lambda>x (n, m). (Suc n, push_station (txt_stationID x) (txt_typeID x) (txt_obstime x) x m))
       (kd_text kd True tb) (0, [])) kc"

definition kc_data_all :: "('t::linorder, 'r) KvDataContainer \<Rightarrow> 't \<Rightarrow> (nat \<times> ('t, 't kvData) by_station) option" where
  "kc_data_all kc tb = map_option (\<lambda>kd.
     fold (\<lambda>x (n, m). (Suc n, push_station (stationID x) (typeID x) (obstime x) x m))
       (kd_data kd True tb) (0, [])) kc"

definition kc_text_of :: "('t::linorder, 'r) KvDataContainer \<Rightarrow> int \<Rightarrow> int \<Rightarrow> 't \<Rightarrow> bool \<Rightarrow> (nat \<times> ('t, 't kvTextData) by_obstime) option" where
  "kc_text_of kc stationid typeId tb setTbTime = map_option (\<lambda>kd.
     fold (\<lambda>x (n, m). if txt_stationID x \<noteq> stationid \<or> txt_typeID x \<noteq> typeId then (n, m)
                       else (n + 1, push_obstime (txt_obstime x) x m))
       (kd_text kd setTbTime tb) (0, [])) kc"

definition kc_data_of :: "('t::linorder, 'r) KvDataContainer \<Rightarrow> int \<Rightarrow> int \<Rightarrow> 't \<Rightarrow> bool \<Rightarrow> (nat \<times> ('t, 't kvData) by_obstime) option" where
  "kc_data_of kc stationid typeId tb setTbTime = map_option (\<lambda>kd.
     fold (\<lambda>x (n, m). if stationID x \<noteq> stationid \<or> typeID x \<noteq> typeId then (n, m)
                       else (n + 1, push_obstime (obstime x) x m))
       (kd_data kd setTbTime tb) (0, [])) kc"

section \<open>Searches and counts\<close>

text \<open>\<open>nadt\<close> is the default table time, "not a date time". \<open>Some None\<close> is the answer false.\<close>

definition kc_find_data :: "'t \<Rightarrow> ('t::linorder, 'r) KvDataContainer \<Rightarrow> int \<Rightarrow> int \<Rightarrow> int \<Rightarrow> 't \<Rightarrow> int \<Rightarrow> int \<Rightarrow> 't kvData option option" where
  "kc_find_data nadt kc stationid typeId paramid obt sen lev =
     (case kc_data_of kc stationid typeId nadt True of
        None \<Rightarrow> None
      | Some (n, tmpData) \<Rightarrow>
          if n = 0 then Some None
          else Some (List.find (\<lambda>x. paramID x = paramid \<and> sensor x = sen \<and> level x = lev) (smap_at [] tmpData obt)))"

definition kc_find_text :: "'t \<Rightarrow> ('t::linorder, 'r) KvDataContainer \<Rightarrow> int \<Rightarrow> int \<Rightarrow> int \<Rightarrow> 't \<Rightarrow> 't kvTextData option option" where
  "kc_find_text nadt kc stationid typeId paramid obt =
     (case kc_text_of kc stationid typeId nadt True of
        None \<Rightarrow> None
      | Some (n, tmpData) \<Rightarrow>
          if n = 0 then Some None
          else Some (List.find (\<lambda>x. txt_paramID x = paramid) (smap_at [] tmpData obt)))"

definition kc_count_all :: "'t \<Rightarrow> ('t::linorder, 'r) KvDataContainer \<Rightarrow> nat option" where
  "kc_count_all nadt kc =
     Option.bind (kc_data_all kc nadt) (\<lambda>(n, dat). Option.bind (kc_text_all kc nadt) (\<lambda>(k, txt). Some (n + k)))"

definition kc_count :: "('t \<Rightarrow> bool) \<Rightarrow> 't \<Rightarrow> ('t::linorder, 'r) KvDataContainer \<Rightarrow> int \<Rightarrow> int \<Rightarrow> 't \<Rightarrow> nat option" where
  "kc_count is_special nadt kc stationid typeId obt =
     Option.bind (kc_data_of kc stationid typeId nadt True) (\<lambda>(n, dat).
     Option.bind (kc_text_of kc stationid typeId nadt True) (\<lambda>(k, txt).
       Some (if is_special obt then n + k
             else length (smap_at [] dat obt) + length (smap_at [] txt obt))))"

definition stationInfos :: "'t \<Rightarrow> ('t::linorder, 'r) KvDataContainer \<Rightarrow> (int \<times> int) list option" where
  "stationInfos nadt kc = map_option (\<lambda>kd.
     let stInfo = fold (\<lambda>x. smap_upd [] (stationID x) (smap_upd (0::nat) (typeID x) Suc)) (kd_data kd False nadt) []
     in rev [(sid, tid). (sid, types) \<leftarrow> stInfo, (tid, n) \<leftarrow> types]) kc"

section \<open>Producer and message id\<close>

record BCI =
  producer :: string
  msgid :: string

type_synonym 'p bciMap = "'p \<Rightarrow> BCI option"

definition getBci :: "'p bciMap \<Rightarrow> 'p \<Rightarrow> BCI option" where
  "getBci m t = m t"

definition setBci :: "'p bciMap \<Rightarrow> 'p \<Rightarrow> 'p bciMap" where
  "setBci m t = (case m t of Some b \<Rightarrow> m | None \<Rightarrow> m(t \<mapsto> \<lparr>producer = [], msgid = []\<rparr>))"

definition delBci :: "'p bciMap \<Rightarrow> 'p \<Rightarrow> 'p bciMap" where
  "delBci m t = (case m t of Some b \<Rightarrow> m(t := None) | None \<Rightarrow> m)"

definition producer_of :: "'p bciMap \<Rightarrow> 'p \<Rightarrow> string" where
  "producer_of m t = (case getBci m t of None \<Rightarrow> [] | Some b \<Rightarrow> producer b)"

definition msgid_of :: "'p bciMap \<Rightarrow> 'p \<Rightarrow> string" where
  "msgid_of m t = (case getBci m t of None \<Rightarrow> [] | Some b \<Rightarrow> msgid b)"

definition set_producer :: "'p bciMap \<Rightarrow> 'p \<Rightarrow> string \<Rightarrow> 'p bciMap" where
  "set_producer m t name = (let m = setBci m t in case m t of None \<Rightarrow> m | Some b \<Rightarrow> m(t \<mapsto> b\<lparr>producer := name\<rparr>))"

definition set_msgid :: "'p bciMap \<Rightarrow> 'p \<Rightarrow> string \<Rightarrow> 'p bciMap" where
  "set_msgid m t i = (let m = setBci m t in case m t of None \<Rightarrow> m | Some b \<Rightarrow> m(t \<mapsto> b\<lparr>msgid := i\<rparr>))"

text \<open>The part of the copy constructor that concerns the side table: the new object is at \<open>t\<close>, the source at \<open>d\<close>.\<close>

definition copyBci :: "'p bciMap \<Rightarrow> 'p \<Rightarrow> 'p \<Rightarrow> 'p bciMap" where
  "copyBci m t d =
     (let m = setBci m t;
          m = (case m t of None \<Rightarrow> m | Some b \<Rightarrow> m(t \<mapsto> b\<lparr>msgid := msgid_of m d\<rparr>))
      in case m t of None \<Rightarrow> m | Some b \<Rightarrow> m(t \<mapsto> b\<lparr>producer := producer_of m d\<rparr>))"

section \<open>Lemmas\<close>

lemma push_fold:
  "fold (\<lambda>x (n, m). if P x then (n, m) else (n + 1, push_obstime (ot x) x m)) xs (k, m0) =
     (k + length (filter (\<lambda>x. \<not> P x) xs), fold (\<lambda>x. push_obstime (ot x) x) (filter (\<lambda>x. \<not> P x) xs) m0)"
  by (induction xs arbitrary: k m0) auto

lemma count_fold: "fold (\<lambda>x (n, m). (Suc n, F x m)) xs (k, m0) = (k + length xs, fold F xs m0)"
  by (induction xs arbitrary: k m0) auto

lemma at_push_fold:
  "smap_at [] (fold (\<lambda>x. push_obstime (ot x) x) xs m0) t = smap_at [] m0 t @ filter (\<lambda>x. ot x = t) xs"
  by (induction xs arbitrary: m0) (auto simp: push_obstime_def)

lemma kc_data_of_at:
  "kc_data_of (Some kd) st ty tb b = Some (length (filter (\<lambda>x. stationID x = st \<and> typeID x = ty) (kd_data kd b tb)),
     fold (\<lambda>x. push_obstime (obstime x) x) (filter (\<lambda>x. stationID x = st \<and> typeID x = ty) (kd_data kd b tb)) [])"
  unfolding kc_data_of_def by (simp add: push_fold)

lemma kc_text_of_at:
  "kc_text_of (Some kd) st ty tb b = Some (length (filter (\<lambda>x. txt_stationID x = st \<and> txt_typeID x = ty) (kd_text kd b tb)),
     fold (\<lambda>x. push_obstime (txt_obstime x) x) (filter (\<lambda>x. txt_stationID x = st \<and> txt_typeID x = ty) (kd_text kd b tb)) [])"
  unfolding kc_text_of_def by (simp add: push_fold)

lemma find_filter: "List.find P (filter Q xs) = List.find (\<lambda>x. Q x \<and> P x) xs"
  by (induction xs) auto

lemma kc_find_data_list:
  "kc_find_data nadt (Some kd) st ty par ot sen lev =
     Some (List.find (\<lambda>x. stationID x = st \<and> typeID x = ty \<and> obstime x = ot \<and> paramID x = par
       \<and> sensor x = sen \<and> level x = lev) (kd_data kd True nadt))"
proof -
  let ?l = "filter (\<lambda>x. stationID x = st \<and> typeID x = ty) (kd_data kd True nadt)"
  have "List.find (\<lambda>x. paramID x = par \<and> sensor x = sen \<and> level x = lev) (filter (\<lambda>x. obstime x = ot) ?l) =
      List.find (\<lambda>x. stationID x = st \<and> typeID x = ty \<and> obstime x = ot \<and> paramID x = par
       \<and> sensor x = sen \<and> level x = lev) (kd_data kd True nadt)"
    unfolding find_filter by (rule arg_cong [where f = "\<lambda>P. List.find P _"]) auto
  moreover have "?l = [] \<Longrightarrow> List.find (\<lambda>x. stationID x = st \<and> typeID x = ty \<and> obstime x = ot \<and> paramID x = par
       \<and> sensor x = sen \<and> level x = lev) (kd_data kd True nadt) = None"
    by (auto simp: find_None_iff filter_empty_conv)
  ultimately show ?thesis
    by (simp add: kc_find_data_def kc_data_of_at at_push_fold)
qed

lemma flat_data_set_tb: "flat_data True tb os = map (\<lambda>x. x\<lparr>tbtime := tb\<rparr>) (flat_data False tb' os)"
  unfolding flat_data_def
  by (simp add: map_concat comp_def case_prod_unfold kvData_set_def)

lemma flat_data_insert_text:
  "obs_ok os \<Longrightarrow> set (flat_data False tb (insert_text_obs sp ni d os)) \<subseteq> set (flat_data False tb os)"
proof
  fix x assume os: "obs_ok os" and "x \<in> set (flat_data False tb (insert_text_obs sp ni d os))"
  then show "x \<in> set (flat_data False tb os)"
    unfolding flat_data_get [OF os] flat_data_get [OF obs_ok_insert_text [OF os]]
    by (auto simp: insert_text_obs_def tree_get Let_def split: if_splits)
qed

lemma flat_data_inserts:
  "obs_ok (kd_obs kd) \<Longrightarrow> obs_ok (kd_obs (fold (kd_insert sp ni) ds kd)) \<and>
     set (flat_data False tb (kd_obs (fold (kd_insert sp ni) ds kd)))
       \<subseteq> set (flat_data False tb (kd_obs kd)) \<union> stored sp ni ` set ds"
proof (induction ds arbitrary: kd)
  case (Cons d ds)
  let ?kd = "kd_insert sp ni d kd"
  have ok: "obs_ok (kd_obs ?kd)"
    using Cons.prems by (simp add: kd_insert_def obs_ok_insert)
  have "set (flat_data False tb (kd_obs ?kd)) \<subseteq> insert (stored sp ni d) (set (flat_data False tb (kd_obs kd)))"
    using flat_data_insert [OF Cons.prems] by (auto simp: kd_insert_def)
  with Cons.IH [OF ok] show ?case by auto
qed simp

lemma flat_data_insert_texts:
  "obs_ok (kd_obs kd) \<Longrightarrow>
     set (flat_data False tb (kd_obs (fold (kd_insert_text sp ni) ts kd))) \<subseteq> set (flat_data False tb (kd_obs kd))"
proof (induction ts arbitrary: kd)
  case (Cons t ts)
  have "obs_ok (kd_obs (kd_insert_text sp ni t kd))"
    using Cons.prems by (simp add: kd_insert_text_def obs_ok_insert_text)
  from Cons.IH [OF this]
  have "set (flat_data False tb (kd_obs (fold (kd_insert_text sp ni) (t # ts) kd)))
      \<subseteq> set (flat_data False tb (kd_obs (kd_insert_text sp ni t kd)))"
    by simp
  also have "\<dots> \<subseteq> set (flat_data False tb (kd_obs kd))"
    using flat_data_insert_text [OF Cons.prems, of tb sp ni t] by (simp add: kd_insert_text_def)
  finally show ?case .
qed simp

lemma flat_data_of: "set (flat_data False tb (kd_obs (KvalobsData_of sp ni nadt ds ts :: ('t::linorder, 'r) KvalobsData))) \<subseteq> stored sp ni ` set ds"
proof -
  let ?kd = "new_KvalobsData nadt :: ('t, 'r) KvalobsData"
  have ok: "obs_ok (kd_obs ?kd)" and "flat_data False tb (kd_obs ?kd) = []"
    by (simp_all add: new_KvalobsData_def flat_data_def)
  then show ?thesis
    using flat_data_inserts [OF ok, of sp ni ds tb]
      flat_data_insert_texts [of "fold (kd_insert sp ni) ds ?kd" tb sp ni ts]
    by (auto simp: KvalobsData_of_def)
qed

section \<open>Properties\<close>

text \<open>
  A search by station, type, parameter, time, sensor and level finds exactly the first listed value
  with these attributes, the grouped views and the counts agree with the listing of the message.
\<close>

theorem container_agrees_with_listing:
  "kc_find_data nadt (Some kd) st ty par ot sen lev =
     Some (List.find (\<lambda>x. stationID x = st \<and> typeID x = ty \<and> obstime x = ot \<and> paramID x = par
       \<and> sensor x = sen \<and> level x = lev) (kd_data kd True nadt))
   \<and> kc_count_all nadt (Some kd) = Some (kd_size kd)
   \<and> (\<not> is_special ot \<longrightarrow> kc_count is_special nadt (Some kd) st ty ot =
       Some (length (filter (\<lambda>x. stationID x = st \<and> typeID x = ty \<and> obstime x = ot) (kd_data kd True nadt))
           + length (filter (\<lambda>x. txt_stationID x = st \<and> txt_typeID x = ty \<and> txt_obstime x = ot) (kd_text kd True nadt))))"
proof (intro conjI impI)
  show "kc_count_all nadt (Some kd) = Some (kd_size kd)"
    using obs_count_lists [of "kd_obs kd" True nadt True nadt]
    by (simp add: kc_count_all_def kc_data_all_def kc_text_all_def count_fold kd_size_def kd_data_def kd_text_def)
  show "kc_count is_special nadt (Some kd) st ty ot =
       Some (length (filter (\<lambda>x. stationID x = st \<and> typeID x = ty \<and> obstime x = ot) (kd_data kd True nadt))
           + length (filter (\<lambda>x. txt_stationID x = st \<and> txt_typeID x = ty \<and> txt_obstime x = ot) (kd_text kd True nadt)))"
    if "\<not> is_special ot"
    using that by (simp add: kc_count_def kc_data_of_at kc_text_of_at at_push_fold conj_assoc)
qed (rule kc_find_data_list)

lemma container_agrees_with_listing_witness:
  "kc_count (\<lambda>t. t = 0) (0::nat) (Some (new_KvalobsData 0 :: (nat, unit) KvalobsData)) 1 2 3 = Some 0"
  using container_agrees_with_listing [of 0 "new_KvalobsData 0 :: (nat, unit) KvalobsData" 1 2 0 3 0 0 "\<lambda>t. t = 0"]
  by (simp add: new_KvalobsData_def kd_data_def kd_text_def flat_data_def flat_text_def sort_by_def)

text \<open>
  C2. A value with a sensor below 96 is never found when the search names the sensor by a digit character,
  which is what the default argument \<^verbatim>\<open>'0'\<close> does: stored sensors are numbers below 48.
\<close>

theorem find_by_sensor_character:
  assumes "\<forall>d \<in> set ds. sensor d < 96" "48 \<le> sen"
  shows "kc_find_data nadt (Some (KvalobsData_of is_special neg_infin nadt ds ts :: ('t::linorder, 'r) KvalobsData)) st ty par ot sen lev = Some None"
proof -
  let ?kd = "KvalobsData_of is_special neg_infin nadt ds ts :: ('t, 'r) KvalobsData"
  have "sensor x < 48" if x: "x \<in> set (kd_data ?kd True nadt)" for x
  proof -
    obtain y where y: "y \<in> set (flat_data False nadt (kd_obs ?kd))"
        "sensor x = sensor y"
      using x by (fastforce simp: kd_data_def flat_data_set_tb [of nadt _ nadt])
    then obtain d where "d \<in> set ds" "y = stored is_special neg_infin d"
      using flat_data_of by fastforce
    then show ?thesis
      using assms(1) y(2) by (auto simp: stored_def plain_sensor_of_def)
  qed
  then show ?thesis
    using assms(2) unfolding kc_find_data_list by (fastforce simp: find_None_iff)
qed

lemma find_by_sensor_character_witness:
  "kc_find_data 0 (Some (KvalobsData_of (\<lambda>t. False) 0 0
       [\<lparr>stationID = 1, obstime = 10, original = 2, paramID = 211, tbtime = 12, typeID = 4, sensor = 48, level = 0,
        corrected = 2, controlinfo = clear_flag, useinfo = clear_useinfo, cfailed = []\<rparr>] [] :: (nat, unit) KvalobsData))
     1 4 211 10 48 0 = Some None"
  using find_by_sensor_character [of "[\<lparr>stationID = 1, obstime = 10, original = 2, paramID = 211, tbtime = 12,
      typeID = 4, sensor = 48, level = 0, corrected = 2, controlinfo = clear_flag, useinfo = clear_useinfo,
      cfailed = []\<rparr>]" 48 "0::nat" "\<lambda>t. False" 0 "[]" 1 4 211 10 0] by simp

text \<open>
  Producer and message id follow the life of the object: what is set is read back, a copy starts with
  those of its source and is independent of it, and nothing survives the destruction of the object.
\<close>

theorem producer_lifetime:
  "producer_of (set_producer m t p) u = (if u = t then p else producer_of m u)
   \<and> msgid_of (set_producer m t p) u = msgid_of m u
   \<and> msgid_of (set_msgid m t p) u = (if u = t then p else msgid_of m u)
   \<and> producer_of (set_msgid m t p) u = producer_of m u
   \<and> producer_of (copyBci m t d) u = (if u = t then producer_of m d else producer_of m u)
   \<and> msgid_of (copyBci m t d) u = (if u = t then msgid_of m d else msgid_of m u)
   \<and> producer_of (delBci m t) u = (if u = t then [] else producer_of m u)"
  by (auto simp: producer_of_def msgid_of_def getBci_def set_producer_def set_msgid_def copyBci_def setBci_def
      delBci_def Let_def split: option.split)

end
