(* ===== verification/Qa_Signature.thy ===== *)
theory Qa_Signature
  imports Decode_Codes
begin

text \<open>
  What a check needs (\<^verbatim>\<open>src/kvQabased/src/db/returntypes\<close>): signatures of checks as sets of data
  requirements, the translation between abstract and concrete parameters, the choice of station
  metadata, and the cron string that says when a check is active. The grammars are parsed by Boost.Spirit
  and the strings are split by Boost; their results are arguments of the definitions. Exceptions are
  values of \<open>sig_error\<close>.
\<close>

datatype sig_error = Invalid string | InvalidMeta string string | DefinedTwice string
  | Nonmatching | NoMatch | MultipleMatch

section \<open>DataRequirement::Parameter\<close>

record Parameter =
  baseName :: string
  p_level :: int
  p_sensor :: int
  p_typeid :: int
  metaDataParamName :: string
  metaDataType :: string

definition null_parameter :: int where
  "null_parameter = -2147483648"

definition new_Parameter :: Parameter where
  "new_Parameter = \<lparr>baseName = [], p_level = null_parameter, p_sensor = null_parameter, p_typeid = null_parameter,
     metaDataParamName = [], metaDataType = []\<rparr>"

definition haveLevel :: "Parameter \<Rightarrow> bool" where
  "haveLevel p = (p_level p \<noteq> null_parameter)"

definition haveSensor :: "Parameter \<Rightarrow> bool" where
  "haveSensor p = (p_sensor p \<noteq> null_parameter)"

definition haveType :: "Parameter \<Rightarrow> bool" where
  "haveType p = (p_typeid p \<noteq> null_parameter)"

definition hasMetaData :: "Parameter \<Rightarrow> bool" where
  "hasMetaData p = (metaDataParamName p \<noteq> [])"

definition param_str :: "Parameter \<Rightarrow> string" where
  "param_str p =
     (if haveLevel p \<or> haveSensor p \<or> haveType p then
        baseName p @ ''&'' @ (if haveLevel p then show_int (p_level p) else [])
          @ ''&'' @ (if haveSensor p then show_int (p_sensor p) else [])
          @ ''&'' @ (if haveType p then show_int (p_typeid p) else [])
      else baseName p)"

definition lt_Parameter :: "Parameter \<Rightarrow> Parameter \<Rightarrow> bool" where
  "lt_Parameter a b = (param_str a < param_str b)"

interpretation prm: keyed_order param_str lt_Parameter "\<lambda>p. True"
  by unfold_locales (simp add: lt_Parameter_def)

text \<open>The parser of one parameter yields the name and the numbers that are given.\<close>

type_synonym param_parser = "string \<Rightarrow> (string \<times> int option \<times> int option \<times> int option) option"

definition given :: "int option \<Rightarrow> int" where
  "given v = (case v of None \<Rightarrow> null_parameter | Some i \<Rightarrow> i)"

definition Parameter_parse :: "param_parser \<Rightarrow> string \<Rightarrow> sig_error + Parameter" where
  "Parameter_parse spirit parameterString =
     (case spirit parameterString of
        None \<Rightarrow> Inl (Invalid parameterString)
      | Some (n, l, s, t) \<Rightarrow> Inr (new_Parameter\<lparr>baseName := n, p_level := given l, p_sensor := given s, p_typeid := given t\<rparr>))"

text \<open>The position of the last underscore splits the name of a metadata parameter.\<close>

fun find_last_of :: "char \<Rightarrow> string \<Rightarrow> nat option" where
  "find_last_of c [] = None"
| "find_last_of c (x # xs) =
     (case find_last_of c xs of Some i \<Rightarrow> Some (Suc i) | None \<Rightarrow> if x = c then Some 0 else None)"

definition parseAsConcreteMetaParameter :: "Parameter \<Rightarrow> Parameter option" where
  "parseAsConcreteMetaParameter p =
     (case find_last_of (CHR ''_'') (baseName p) of
        None \<Rightarrow> None
      | Some splitPoint \<Rightarrow>
          Some (p\<lparr>metaDataParamName := take splitPoint (baseName p),
                 metaDataType := drop (splitPoint + 1) (baseName p)\<rparr>))"

section \<open>DataRequirement\<close>

record DataRequirement =
  requirementType :: string
  parameter :: "Parameter list"
  station :: "int list"
  firstTime :: int
  lastTime :: int
  isConcrete :: bool

definition new_DataRequirement :: "bool \<Rightarrow> DataRequirement" where
  "new_DataRequirement concrete =
     \<lparr>requirementType = [], parameter = [], station = [], firstTime = 0, lastTime = 0, isConcrete = concrete\<rparr>"

text \<open>What the grammar of a requirement yields: type, parameter texts, stations, last and first time.\<close>

type_synonym req_parser = "string \<Rightarrow> (string \<times> string list \<times> int list \<times> int option \<times> int option) option"

fun all_results :: "('e + 'a) list \<Rightarrow> 'e + 'a list" where
  "all_results [] = Inr []"
| "all_results (r # rs) = res_bind r (\<lambda>x. res_bind (all_results rs) (\<lambda>xs. Inr (x # xs)))"

definition concrete_meta :: "string \<Rightarrow> Parameter \<Rightarrow> sig_error + Parameter" where
  "concrete_meta signature p =
     (case parseAsConcreteMetaParameter p of None \<Rightarrow> Inl (InvalidMeta (baseName p) signature) | Some q \<Rightarrow> Inr q)"

definition time_or_0 :: "int option \<Rightarrow> int" where
  "time_or_0 v = (case v of None \<Rightarrow> 0 | Some t \<Rightarrow> t)"

definition mk_DataRequirement :: "req_parser \<Rightarrow> param_parser \<Rightarrow> string \<Rightarrow> int \<Rightarrow> bool \<Rightarrow> sig_error + DataRequirement" where
  "mk_DataRequirement spirit pspirit signature stationid isConcreteSpecification =
     (if signature = [] then Inr (new_DataRequirement isConcreteSpecification)
      else case spirit signature of
        None \<Rightarrow> Inl (Invalid signature)
      | Some (typ, ptexts, stations, l, f) \<Rightarrow>
          res_bind (all_results (map (Parameter_parse pspirit) ptexts)) (\<lambda>params.
            let stations' = (if stationid \<in> set stations then stations else stations @ [stationid]);
                l = time_or_0 l; f = time_or_0 f;
                (l, f) = (if l < f then (f, l) else (l, f))
            in res_bind (if isConcreteSpecification \<and> typ = ''meta''
                         then all_results (map (concrete_meta signature) params) else Inr params) (\<lambda>params.
                 Inr \<lparr>requirementType = typ, parameter = params, station = stations', firstTime = f, lastTime = l,
                      isConcrete = isConcreteSpecification\<rparr>)))"

definition req_empty :: "DataRequirement \<Rightarrow> bool" where
  "req_empty r = (parameter r = [] \<and> station r = [])"

definition haveParameter :: "DataRequirement \<Rightarrow> string \<Rightarrow> bool" where
  "haveParameter r b = list_ex (\<lambda>p. baseName p = b) (parameter r)"

definition haveStation :: "DataRequirement \<Rightarrow> int \<Rightarrow> bool" where
  "haveStation r what = (what \<in> set (station r))"

text \<open>A map with parameters as keys is ordered by their text.\<close>

type_synonym ParameterTranslation = "(string \<times> Parameter) list"

definition getTranslation :: "DataRequirement \<Rightarrow> DataRequirement \<Rightarrow> sig_error + ParameterTranslation" where
  "getTranslation from to =
     (if length (parameter from) \<noteq> length (parameter to) then Inl Nonmatching
      else Inr (fold (\<lambda>(a, b). smap_put (param_str a) b) (zip (parameter from) (parameter to)) []))"

section \<open>CheckSignature\<close>

type_synonym CheckSignature = "(string \<times> DataRequirement) list"

definition add_requirement :: "string \<Rightarrow> DataRequirement \<Rightarrow> CheckSignature \<Rightarrow> sig_error + CheckSignature" where
  "add_requirement signature justParsed reqs =
     (let inMemory = smap_at (new_DataRequirement False) reqs (requirementType justParsed) in
      if \<not> req_empty inMemory then Inl (DefinedTwice signature)
      else Inr (smap_put (requirementType justParsed) justParsed reqs))"

fun parse_parts :: "(string \<Rightarrow> sig_error + DataRequirement) \<Rightarrow> string \<Rightarrow> string list \<Rightarrow> CheckSignature \<Rightarrow> sig_error + CheckSignature" where
  "parse_parts mk signature [] reqs = Inr reqs"
| "parse_parts mk signature (part # parts) reqs =
     res_bind (mk part) (\<lambda>r. res_bind (add_requirement signature r reqs) (parse_parts mk signature parts))"

definition CheckSignature_parse :: "(string \<Rightarrow> string list) \<Rightarrow> req_parser \<Rightarrow> param_parser \<Rightarrow> string \<Rightarrow> int \<Rightarrow> bool
    \<Rightarrow> sig_error + CheckSignature" where
  "CheckSignature_parse split_bar spirit pspirit signature stationid isConcreteSpecification =
     parse_parts (\<lambda>part. mk_DataRequirement spirit pspirit part stationid isConcreteSpecification) signature
       (split_bar signature) []"

definition get_requirement :: "CheckSignature \<Rightarrow> string \<Rightarrow> DataRequirement option" where
  "get_requirement reqs name = map_of reqs name"

section \<open>Station metadata\<close>

record StationParam =
  sp_stationid :: int
  sp_paramid :: string
  sp_sensor :: int
  sp_level :: int
  sp_qcx :: string
  sp_metadata :: string

definition lt_StationParam :: "StationParam \<Rightarrow> StationParam \<Rightarrow> bool" where
  "lt_StationParam a b =
     (sp_qcx a < sp_qcx b \<or> sp_stationid a < sp_stationid b \<or> sp_paramid a < sp_paramid b
      \<or> sp_sensor a < sp_sensor b \<or> sp_level a < sp_level b)"

text \<open>The loop carries the number of level matches and the last of them.\<close>

fun find_loop :: "int \<Rightarrow> int \<Rightarrow> nat \<Rightarrow> int \<times> int \<times> string \<Rightarrow> StationParam list \<Rightarrow> sig_error + int \<times> int \<times> string" where
  "find_loop lev sen levels levelMatch [] =
     (if levels = 1 then Inr levelMatch else if levels = 0 then Inl NoMatch else Inl MultipleMatch)"
| "find_loop lev sen levels levelMatch (param # ps) =
     (if sp_level param = lev \<and> sp_sensor param = sen then Inr (lev, sen, sp_metadata param)
      else if sp_level param = lev then find_loop lev sen (Suc levels) (lev, sp_sensor param, sp_metadata param) ps
      else find_loop lev sen levels levelMatch ps)"

definition StationParamList_find :: "StationParam list \<Rightarrow> int \<Rightarrow> int \<Rightarrow> sig_error + int \<times> int \<times> string" where
  "StationParamList_find ps lev sen = find_loop lev sen 0 (0, 0, []) ps"

definition filterStationParam :: "StationParam list \<Rightarrow> string \<Rightarrow> int \<Rightarrow> string \<Rightarrow> StationParam list" where
  "filterStationParam s qcx stationid paramid =
     filter (\<lambda>e. sp_stationid e = stationid \<and> sp_paramid e = paramid \<and> sp_qcx e = qcx) s"

section \<open>Cron strings\<close>

record CronString =
  isempty :: bool
  numbers :: "int list list"

text \<open>
  \<open>split_space\<close> trims and splits at white space, \<open>split_comma\<close> at commas, \<open>is_int\<close> says whether the
  trimmed text converts to an \<^verbatim>\<open>int\<close>.
\<close>

definition cron_field :: "(string \<Rightarrow> string list) \<Rightarrow> (string \<Rightarrow> bool) \<Rightarrow> string \<Rightarrow> int list" where
  "cron_field split_comma is_int field =
     (if field \<noteq> ''*'' then map atoi (filter is_int (split_comma field)) else [])"

definition unpackString :: "(string \<Rightarrow> string list) \<Rightarrow> (string \<Rightarrow> string list) \<Rightarrow> (string \<Rightarrow> bool) \<Rightarrow> string \<Rightarrow> CronString" where
  "unpackString split_space split_comma is_int s =
     (let v = split_space s in
      if length v < 5 then \<lparr>isempty = True, numbers = replicate 5 []\<rparr>
      else \<lparr>isempty = list_all (\<lambda>field. field = ''*'') (take 5 v),
            numbers = map (cron_field split_comma is_int) (take 5 v)\<rparr>)"

text \<open>The fields are checked from the year to the minute; \<open>thistime\<close> is the broken-down time.\<close>

fun check_fields :: "int list list \<Rightarrow> int list \<Rightarrow> nat \<Rightarrow> bool" where
  "check_fields nums thistime 0 = True"
| "check_fields nums thistime (Suc i) =
     (if nums ! i \<noteq> [] \<and> thistime ! i \<notin> set (nums ! i) then False else check_fields nums thistime i)"

definition active :: "CronString \<Rightarrow> int list \<Rightarrow> bool" where
  "active c thistime = (if isempty c then True else check_fields (numbers c) thistime 5)"

section \<open>Lemmas\<close>

lemma find_last_of_None: "find_last_of c s = None \<longleftrightarrow> c \<notin> set s"
  by (induction s) (auto split: option.splits)

lemma find_last_of_Some:
  "find_last_of c s = Some i \<Longrightarrow> i < length s \<and> s = take i s @ c # drop (Suc i) s \<and> c \<notin> set (drop (Suc i) s)"
proof (induction s arbitrary: i)
  case (Cons x xs)
  show ?case
  proof (cases "find_last_of c xs")
    case None
    then have "x = c \<and> i = 0 \<and> c \<notin> set xs"
      using Cons.prems find_last_of_None [of c xs] by (auto split: if_splits)
    then show ?thesis by simp
  next
    case (Some j)
    then have "i = Suc j" using Cons.prems by simp
    with Cons.IH [OF Some] show ?thesis by auto
  qed
qed simp

lemma all_results_Inr: "all_results rs = Inr xs \<longleftrightarrow> rs = map Inr xs"
  by (induction rs arbitrary: xs) (auto simp: res_bind_Inr_iff Cons_eq_map_conv)

lemma check_fields_iff:
  "check_fields nums thistime n \<longleftrightarrow> (\<forall>i<n. nums ! i = [] \<or> thistime ! i \<in> set (nums ! i))"
  by (induction n) (auto simp: less_Suc_eq)

lemma find_loop_spec:
  "find_loop lev sen k lm ps =
     (case List.find (\<lambda>p. sp_level p = lev \<and> sp_sensor p = sen) ps of
        Some p \<Rightarrow> Inr (lev, sen, sp_metadata p)
      | None \<Rightarrow>
          let ms = filter (\<lambda>p. sp_level p = lev) ps in
          if k + length ms = 1 then Inr (if ms = [] then lm else (lev, sp_sensor (last ms), sp_metadata (last ms)))
          else if k + length ms = 0 then Inl NoMatch else Inl MultipleMatch)"
  by (induction ps arbitrary: k lm) (auto simp: Let_def split: option.splits)

lemma smap_fold_zip:
  "distinct (map param_str as) \<Longrightarrow> length as = length bs \<Longrightarrow>
     map_of (fold (\<lambda>(a, b). smap_put (param_str a) b) (zip as bs) m) =
       map_of m ++ map_of (zip (map param_str as) bs)"
proof (induction as bs arbitrary: m rule: list_induct2')
  case (4 a as b bs)
  then have d: "param_str a \<notin> dom (map_of (zip (map param_str as) bs))"
    by simp
  have "((map_of m)(param_str a \<mapsto> b)) ++ map_of (zip (map param_str as) bs)
      = map_of m ++ ((map_of (zip (map param_str as) bs))(param_str a \<mapsto> b))"
    using d by (auto simp: map_add_def fun_eq_iff dom_def split: option.split)
  then show ?case using 4 by (simp only: zip_Cons_Cons list.map map_of.simps fold_simps case_prod_conv
        map_of_smap_put fst_conv snd_conv distinct.simps list.size)
qed auto

lemma concrete_meta_split:
  "concrete_meta signature p = Inr q \<Longrightarrow>
     baseName q = metaDataParamName q @ CHR ''_'' # metaDataType q \<and> CHR ''_'' \<notin> set (metaDataType q)"
  using find_last_of_Some [of "CHR ''_''" "baseName p"]
  by (auto simp: concrete_meta_def parseAsConcreteMetaParameter_def split: option.splits)

lemma mk_DataRequirement_Inr:
  assumes "mk_DataRequirement spirit pspirit signature stationid b = Inr r" "signature \<noteq> []"
  shows "firstTime r \<le> lastTime r" "stationid \<in> set (station r)" "isConcrete r = b"
    "b \<and> requirementType r = ''meta'' \<Longrightarrow> p \<in> set (parameter r) \<Longrightarrow>
       baseName p = metaDataParamName p @ CHR ''_'' # metaDataType p \<and> CHR ''_'' \<notin> set (metaDataType p)"
proof -
  obtain ty ptexts stations l f params params' where p: "spirit signature = Some (ty, ptexts, stations, l, f)"
      "(if b \<and> ty = ''meta'' then all_results (map (concrete_meta signature) params) else Inr params) = Inr params'"
    and r: "r = \<lparr>requirementType = ty, parameter = params',
      station = (if stationid \<in> set stations then stations else stations @ [stationid]),
      firstTime = snd (if time_or_0 l < time_or_0 f then (time_or_0 f, time_or_0 l) else (time_or_0 l, time_or_0 f)),
      lastTime = fst (if time_or_0 l < time_or_0 f then (time_or_0 f, time_or_0 l) else (time_or_0 l, time_or_0 f)),
      isConcrete = b\<rparr>"
    using assms
    by (auto simp: mk_DataRequirement_def res_bind_Inr_iff Let_def case_prod_unfold split: option.splits)
  show "firstTime r \<le> lastTime r" "stationid \<in> set (station r)" "isConcrete r = b"
    by (simp_all add: r)
  assume m: "b \<and> requirementType r = ''meta''" and "p \<in> set (parameter r)"
  then have "p \<in> set params'" "map (concrete_meta signature) params = map Inr params'"
    using p(2) by (simp_all add: r all_results_Inr)
  then obtain q where "concrete_meta signature q = Inr p"
    by (metis ex_map_conv image_eqI image_set)
  then show "baseName p = metaDataParamName p @ CHR ''_'' # metaDataType p \<and> CHR ''_'' \<notin> set (metaDataType p)"
    by (rule concrete_meta_split)
qed

lemma parse_parts_keeps:
  assumes "parse_parts mk signature parts reqs = Inr reqs'" "map_of reqs t = Some r" "\<not> req_empty r"
  shows "map_of reqs' t = Some r"
  using assms
proof (induction parts arbitrary: reqs)
  case (Cons part parts)
  then obtain r' reqs1 where s: "mk part = Inr r'" "add_requirement signature r' reqs = Inr reqs1"
      "parse_parts mk signature parts reqs1 = Inr reqs'"
    by (auto simp: res_bind_Inr_iff)
  have "requirementType r' \<noteq> t"
    using s(2) Cons.prems(2,3) by (auto simp: add_requirement_def smap_at_def Let_def split: if_splits)
  then have "map_of reqs1 t = Some r"
    using s(2) Cons.prems(2) by (auto simp: add_requirement_def Let_def split: if_splits)
  with Cons.IH [OF s(3)] Cons.prems(3) show ?case by simp
qed simp

lemma parse_parts_has:
  assumes "parse_parts mk signature parts reqs = Inr reqs'" "part \<in> set parts"
  shows "\<exists>r. mk part = Inr r \<and> (\<not> req_empty r \<longrightarrow> map_of reqs' (requirementType r) = Some r)"
  using assms
proof (induction parts arbitrary: reqs)
  case (Cons part' parts)
  then obtain r' reqs1 where s: "mk part' = Inr r'" "add_requirement signature r' reqs = Inr reqs1"
      "parse_parts mk signature parts reqs1 = Inr reqs'"
    by (auto simp: res_bind_Inr_iff)
  show ?case
  proof (cases "part = part'")
    case True
    have "map_of reqs1 (requirementType r') = Some r'"
      using s(2) by (auto simp: add_requirement_def Let_def split: if_splits)
    with parse_parts_keeps [OF s(3)] s(1) True show ?thesis by blast
  next
    case False
    with Cons.IH [OF s(3)] Cons.prems(2) show ?thesis by simp
  qed
qed simp

section \<open>Properties\<close>

text \<open>
  A requirement that is accepted covers its own station, its time range is ordered whichever way it
  was written, and every parameter of a concrete metadata requirement is split at its last underscore.
\<close>

theorem requirement_wellformed:
  assumes "mk_DataRequirement spirit pspirit signature stationid isConcreteSpecification = Inr r" "signature \<noteq> []"
  shows "firstTime r \<le> lastTime r \<and> haveStation r stationid \<and> \<not> req_empty r
    \<and> (isConcrete r \<and> requirementType r = ''meta'' \<longrightarrow> (\<forall>p \<in> set (parameter r).
         baseName p = metaDataParamName p @ CHR ''_'' # metaDataType p \<and> CHR ''_'' \<notin> set (metaDataType p)))"
  using mk_DataRequirement_Inr [OF assms] by (auto simp: haveStation_def req_empty_def)

lemma requirement_wellformed_witness:
  "\<exists>r. mk_DataRequirement (\<lambda>s. Some (''meta'', [''RR_24_max''], [], Some (-60), Some 0)) (\<lambda>s. Some (s, None, None, None))
       ''meta;RR_24_max;;-60,0'' 18700 True = Inr r
     \<and> firstTime r \<le> lastTime r \<and> haveStation r 18700 \<and> map metaDataParamName (parameter r) = [''RR_24'']"
proof -
  let ?sp = "\<lambda>s. Some (''meta'', [''RR_24_max''], [], Some (-60), Some 0)" and ?pp = "\<lambda>s. Some (s, None, None, None)"
  have "\<exists>r. mk_DataRequirement ?sp ?pp ''meta;RR_24_max;;-60,0'' 18700 True = Inr r
      \<and> map metaDataParamName (parameter r) = [''RR_24'']"
    by (simp add: mk_DataRequirement_def Parameter_parse_def concrete_meta_def parseAsConcreteMetaParameter_def
        new_Parameter_def time_or_0_def)
  then obtain r where r: "mk_DataRequirement ?sp ?pp ''meta;RR_24_max;;-60,0'' 18700 True = Inr r"
      "map metaDataParamName (parameter r) = [''RR_24'']"
    by (elim exE conjE)
  from requirement_wellformed [OF r(1)]
  have "firstTime r \<le> lastTime r \<and> haveStation r 18700" by simp
  with r show ?thesis by (intro exI [of _ r] conjI) (simp_all only:)
qed

text \<open>
  Abstract and concrete parameters correspond by position: a requirement of another length is refused,
  otherwise the translation maps each parameter (told apart by its text) to the one at the same place.
\<close>

theorem translation_positional:
  assumes "distinct (map param_str (parameter from))"
  shows "if length (parameter from) \<noteq> length (parameter to) then getTranslation from to = Inl Nonmatching
    else \<exists>t. getTranslation from to = Inr t \<and> (\<forall>i < length (parameter from).
      map_of t (param_str (parameter from ! i)) = Some (parameter to ! i))"
proof (cases "length (parameter from) = length (parameter to)")
  case True
  have "map_of (zip (map param_str (parameter from)) (parameter to)) (param_str (parameter from ! i)) = Some (parameter to ! i)"
    if "i < length (parameter from)" for i
    using that True assms map_of_zip_nth [of "map param_str (parameter from)" "parameter to" i] by simp
  with True show ?thesis
    by (simp add: getTranslation_def smap_fold_zip [OF assms True])
qed (simp add: getTranslation_def)

lemma translation_positional_witness:
  "getTranslation ((new_DataRequirement False)\<lparr>parameter := [new_Parameter\<lparr>baseName := ''X''\<rparr>]\<rparr>) (new_DataRequirement True)
     = Inl Nonmatching"
  using translation_positional [of "(new_DataRequirement False)\<lparr>parameter := [new_Parameter\<lparr>baseName := ''X''\<rparr>]\<rparr>"
      "new_DataRequirement True"]
  by (simp add: new_DataRequirement_def)

text \<open>
  When a signature is accepted, every non-empty part of it has been accepted as a requirement, and that
  requirement is the one found under its type: no part hides another.
\<close>

theorem signature_parts_kept:
  assumes "CheckSignature_parse split_bar spirit pspirit signature stationid b = Inr reqs"
    "part \<in> set (split_bar signature)" "part \<noteq> []"
  shows "\<exists>r. mk_DataRequirement spirit pspirit part stationid b = Inr r
    \<and> get_requirement reqs (requirementType r) = Some r"
proof -
  obtain r where r: "mk_DataRequirement spirit pspirit part stationid b = Inr r"
      "\<not> req_empty r \<longrightarrow> map_of reqs (requirementType r) = Some r"
    using parse_parts_has [OF assms(1) [unfolded CheckSignature_parse_def] assms(2)] by blast
  moreover have "\<not> req_empty r"
    using mk_DataRequirement_Inr(2) [OF r(1) assms(3)] by (auto simp: req_empty_def)
  ultimately show ?thesis
    by (auto simp: get_requirement_def)
qed

lemma signature_parts_kept_witness:
  "\<exists>reqs r. CheckSignature_parse (\<lambda>s. [s]) (\<lambda>s. Some (''obs'', [''TA''], [], None, None)) (\<lambda>s. Some (s, None, None, None))
       ''obs;TA;;'' 18700 False = Inr reqs \<and> get_requirement reqs (requirementType r) = Some r \<and> requirementType r = ''obs''"
proof -
  let ?sp = "\<lambda>s. Some (''obs'', [''TA''], [], None, None)" and ?pp = "\<lambda>s. Some (s, None, None, None)"
  obtain reqs where r: "CheckSignature_parse (\<lambda>s. [s]) ?sp ?pp ''obs;TA;;'' 18700 False = Inr reqs"
    by (simp add: CheckSignature_parse_def add_requirement_def mk_DataRequirement_def Parameter_parse_def
        new_DataRequirement_def req_empty_def Let_def)
  obtain r where "mk_DataRequirement ?sp ?pp ''obs;TA;;'' 18700 False = Inr r" "get_requirement reqs (requirementType r) = Some r"
    using signature_parts_kept [OF r, of "''obs;TA;;''"] by auto
  then have "get_requirement reqs (requirementType r) = Some r \<and> requirementType r = ''obs''"
    by (auto simp: mk_DataRequirement_def Parameter_parse_def Let_def)
  with r show ?thesis by blast
qed

text \<open>
  Metadata is chosen by level and sensor when both match (the first such entry), else by level when
  exactly one entry has that level; then the sensor returned is that of the entry found.
\<close>

theorem station_param_choice:
  "StationParamList_find ps lev sen =
     (case List.find (\<lambda>p. sp_level p = lev \<and> sp_sensor p = sen) ps of
        Some p \<Rightarrow> Inr (lev, sen, sp_metadata p)
      | None \<Rightarrow> (case filter (\<lambda>p. sp_level p = lev) ps of
          [] \<Rightarrow> Inl NoMatch
        | [p] \<Rightarrow> Inr (lev, sp_sensor p, sp_metadata p)
        | _ \<Rightarrow> Inl MultipleMatch))"
  unfolding StationParamList_find_def find_loop_spec by (auto simp: Let_def split: option.split list.split)

text \<open>
  The order used for the set of station metadata is not an order: each of two entries can be less than
  the other, and being equivalent says only that all five fields agree.
\<close>

theorem station_param_order_broken:
  "\<exists>a b. lt_StationParam a b \<and> lt_StationParam b a"
proof -
  let ?a = "\<lparr>sp_stationid = 1, sp_paramid = ''TA'', sp_sensor = 1, sp_level = 0, sp_qcx = ''QC1-1'', sp_metadata = []\<rparr>"
  let ?b = "\<lparr>sp_stationid = 2, sp_paramid = ''TA'', sp_sensor = 0, sp_level = 0, sp_qcx = ''QC1-1'', sp_metadata = []\<rparr>"
  have "lt_StationParam ?a ?b \<and> lt_StationParam ?b ?a"
    by (simp add: lt_StationParam_def)
  then show ?thesis by blast
qed

text \<open>
  A check is active at a time exactly when each of the five fields admits it: a field admits every time
  when none of its items is a number. A string with fewer than five fields is always active.
\<close>

theorem cron_active:
  "active (unpackString split_space split_comma is_int s) thistime \<longleftrightarrow>
     length (split_space s) < 5 \<or>
     (\<forall>i<5. split_space s ! i = ''*'' \<or> filter is_int (split_comma (split_space s ! i)) = []
        \<or> thistime ! i \<in> atoi ` set (filter is_int (split_comma (split_space s ! i))))"
proof (cases "length (split_space s) < 5")
  case False
  let ?v = "split_space s"
  have field: "cron_field split_comma is_int (?v ! i) = [] \<or> thistime ! i \<in> set (cron_field split_comma is_int (?v ! i)) \<longleftrightarrow>
      ?v ! i = ''*'' \<or> filter is_int (split_comma (?v ! i)) = [] \<or> thistime ! i \<in> atoi ` set (filter is_int (split_comma (?v ! i)))" for i
    by (auto simp: cron_field_def)
  have "list_all (\<lambda>f. f = ''*'') (take 5 ?v) \<Longrightarrow> i < 5 \<Longrightarrow> ?v ! i = ''*''" for i
    using False by (simp add: list_all_length)
  with False field show ?thesis
    by (auto simp: active_def unpackString_def check_fields_iff Let_def)
qed (simp add: active_def unpackString_def Let_def)

lemma cron_active_witness:
  "active (unpackString (\<lambda>s. [''0'', ''12'', ''*'', ''*'', ''*'']) (\<lambda>f. [f]) (\<lambda>f. True) ''0 12 * * *'') [0, 12, 5, 6, 0]
   \<and> \<not> active (unpackString (\<lambda>s. [''0'', ''12'', ''*'', ''*'', ''*'']) (\<lambda>f. [f]) (\<lambda>f. True) ''0 12 * * *'') [0, 13, 5, 6, 0]"
proof -
  have a: "atoi ''0'' = 0" "atoi ''12'' = 12" by code_simp+
  have five: "(\<forall>i<5. P i) \<longleftrightarrow> P 0 \<and> P 1 \<and> P 2 \<and> P 3 \<and> P (4 :: nat)" for P
    by (auto simp: less_Suc_eq numeral_eq_Suc)
  show ?thesis
    using cron_active [of "\<lambda>s. [''0'', ''12'', ''*'', ''*'', ''*'']" "\<lambda>f. [f]" "\<lambda>f. True" "''0 12 * * *''" "[0, 12, 5, 6, 0]"]
      cron_active [of "\<lambda>s. [''0'', ''12'', ''*'', ''*'', ''*'']" "\<lambda>f. [f]" "\<lambda>f. True" "''0 12 * * *''" "[0, 13, 5, 6, 0]"]
    by (simp add: a five)
qed

end
