(* ===== verification/Qa_Database.thy ===== *)
theory Qa_Database
  imports Kv_Data Kv_Text_Data Qa_Signature
begin

text \<open>
  The database layers of kvQabased (\<^verbatim>\<open>src/kvQabased/src/db\<close>): the choice among several values of a
  parameter (\<^verbatim>\<open>databaseResultFilter.cpp\<close>), the cache of one observation (\<^verbatim>\<open>DataCache.h\<close>,
  \<^verbatim>\<open>CachedDatabaseAccess.cpp\<close>) and the delayed writes (\<^verbatim>\<open>DelayedSaveDatabaseAccess.cpp\<close>). The database
  below is an argument: a function that answers or fails with an error \<open>'e\<close>. Cached constants are kept in
  ordered maps; a shared pointer that is null is \<open>None\<close>.
\<close>

section \<open>databaseResultFilter\<close>

datatype filter_error = UnequalCounts | NoSuchStationParam string | PastTheEnd | BadValue string

fun find_index :: "('a \<Rightarrow> bool) \<Rightarrow> 'a list \<Rightarrow> nat option" where
  "find_index P [] = None"
| "find_index P (x # xs) = (if P x then Some 0 else map_option Suc (find_index P xs))"

text \<open>
  \<open>to_lower\<close>, \<open>split\<close> (at semicolons and newlines) and \<open>to_float\<close> are Boost's. Advancing the iterator beyond
  the last element is the error \<open>PastTheEnd\<close>.
\<close>

definition parseStationParam :: "(string \<Rightarrow> string) \<Rightarrow> (string \<Rightarrow> string list) \<Rightarrow> (string \<Rightarrow> real option) \<Rightarrow> string \<Rightarrow> string
    \<Rightarrow> filter_error + real" where
  "parseStationParam to_lower split to_float metadataToParse wanted =
     (let params = split metadataToParse in
      if length params mod 2 \<noteq> 0 then Inl UnequalCounts
      else case find_index (\<lambda>s. s = to_lower wanted \<or> to_lower s = to_lower wanted) params of
        None \<Rightarrow> Inl (NoSuchStationParam wanted)
      | Some i \<Rightarrow>
          if i + length params div 2 \<ge> length params then Inl PastTheEnd
          else case to_float (params ! (i + length params div 2)) of
            None \<Rightarrow> Inl (BadValue (params ! (i + length params div 2)))
          | Some v \<Rightarrow> Inr v)"

definition filterTypeId :: "('x \<Rightarrow> int) \<Rightarrow> 'x list \<Rightarrow> int \<Rightarrow> 'x list" where
  "filterTypeId typ dat preferredTypeId =
     (let typeSortedData = fold (\<lambda>x. smap_upd [] (typ x) (\<lambda>l. l @ [x])) dat [] in
      if length typeSortedData > 1 then
        case map_of typeSortedData preferredTypeId of
          Some preferred \<Rightarrow> preferred
        | None \<Rightarrow> snd (last typeSortedData)
      else dat)"

text \<open>The values are collected in the type \<open>T\<close> that \<open>conv\<close> converts to; the comparison is made on \<^verbatim>\<open>int\<close>.\<close>

definition filter_lowest :: "(int \<Rightarrow> int) \<Rightarrow> ('x \<Rightarrow> int) \<Rightarrow> 'x list \<Rightarrow> 'x list" where
  "filter_lowest conv f dat =
     (let values = fold (\<lambda>x. sset_insert (<) (conv (f x))) dat [] in
      if length values > 1 then filter (\<lambda>x. f x = hd values) dat else dat)"

definition result_filter :: "'t kvData list \<Rightarrow> int \<Rightarrow> 't kvData list" where
  "result_filter dat preferredTypeId =
     filter_lowest narrow_char sensor (filter_lowest (\<lambda>i. i) level (filterTypeId typeID dat preferredTypeId))"

definition result_filter_text :: "'t kvTextData list \<Rightarrow> int \<Rightarrow> 't kvTextData list" where
  "result_filter_text dat preferredTypeId = filterTypeId txt_typeID dat preferredTypeId"

section \<open>DataCache\<close>

record ('t, 'x) DataCache =
  dc_si :: "'t kvStationInfo"
  dc_cache :: "(string \<times> int \<times> 'x list) list"

text \<open>\<open>plus_minutes\<close> is the time library's addition; \<open>obt\<close> is the observation time of an element.\<close>

definition cache_getData :: "('t::linorder \<Rightarrow> int \<Rightarrow> 't) \<Rightarrow> ('x \<Rightarrow> 't) \<Rightarrow> ('t, 'x) DataCache \<Rightarrow> 'x list \<Rightarrow> 't kvStationInfo
    \<Rightarrow> Parameter \<Rightarrow> int \<Rightarrow> 'x list option" where
  "cache_getData plus_minutes obt c out si par minuteOffset =
     (if si \<noteq> dc_si c then None
      else case map_of (dc_cache c) (param_str par) of
        None \<Rightarrow> None
      | Some (timeOffset, dat) \<Rightarrow>
          if timeOffset > minuteOffset then None
          else Some (out @ filter (\<lambda>x. obt x \<ge> plus_minutes (si_obstime (dc_si c)) minuteOffset) dat))"

definition cache_setData :: "'x list \<Rightarrow> 't kvStationInfo \<Rightarrow> Parameter \<Rightarrow> int \<Rightarrow> ('t, 'x) DataCache \<Rightarrow> ('t, 'x) DataCache" where
  "cache_setData toSet si par minuteOffset c =
     (if si \<noteq> dc_si c then c
      else c\<lparr>dc_cache := smap_put (param_str par) (minuteOffset, toSet) (dc_cache c)\<rparr>)"

section \<open>CachedDatabaseAccess\<close>

text \<open>The common shape of \<^verbatim>\<open>getData\<close>, \<^verbatim>\<open>getTextData\<close> and \<^verbatim>\<open>getModelData\<close>; a database appends its rows to \<open>out\<close>.\<close>

definition cached_getData :: "('t::linorder \<Rightarrow> int \<Rightarrow> 't) \<Rightarrow> ('x \<Rightarrow> 't) \<Rightarrow> ('t kvStationInfo \<Rightarrow> Parameter \<Rightarrow> int \<Rightarrow> 'e + 'x list)
    \<Rightarrow> 'x list \<Rightarrow> 't kvStationInfo \<Rightarrow> Parameter \<Rightarrow> int \<Rightarrow> ('t, 'x) DataCache \<Rightarrow> ('e + 'x list) \<times> ('t, 'x) DataCache" where
  "cached_getData plus_minutes obt base out si par minuteOffset c =
     (case cache_getData plus_minutes obt c out si par minuteOffset of
        Some out' \<Rightarrow> (Inr out', c)
      | None \<Rightarrow> (case base si par minuteOffset of
          Inl e \<Rightarrow> (Inl e, c)
        | Inr rows \<Rightarrow> (Inr (out @ rows), cache_setData (out @ rows) si par minuteOffset c)))"

definition check_type_of :: "string \<Rightarrow> string" where
  "check_type_of qcx = (case find_last_of (CHR ''-'') qcx of None \<Rightarrow> qcx | Some i \<Rightarrow> take i qcx)"

text \<open>The positions are shared by all objects of the process; every failure is kept as \<open>-32767\<close>.\<close>

definition getQcxFlagPosition :: "(string \<Rightarrow> 'e + int) \<Rightarrow> string \<Rightarrow> (string \<times> int) list \<Rightarrow> (string + int) \<times> (string \<times> int) list" where
  "getQcxFlagPosition base qcx positions =
     (let positions = (case map_of positions qcx of
            Some p \<Rightarrow> positions
          | None \<Rightarrow> smap_put qcx (case base qcx of Inl e \<Rightarrow> -32767 | Inr v \<Rightarrow> v) positions);
          p = smap_at 0 positions qcx
      in (if p < 0 then Inl (check_type_of qcx) else Inr p, positions))"

definition getAlgorithm :: "(string \<Rightarrow> 'e + 'g) \<Rightarrow> string \<Rightarrow> (string \<times> 'g option) list \<Rightarrow> ('e + 'g) \<times> (string \<times> 'g option) list" where
  "getAlgorithm base name algorithms =
     (case smap_at None algorithms name of
        Some a \<Rightarrow> (Inr a, algorithms)
      | None \<Rightarrow> (case base name of
          Inl e \<Rightarrow> (Inl e, smap_put name None algorithms)
        | Inr a \<Rightarrow> (Inr a, smap_put name (Some a) algorithms)))"

text \<open>The last query for a station parameter; the sensor and level of a new object are not initialised.\<close>

record 't StationParamSpec =
  q_si :: "'t kvStationInfo"
  q_parameter :: string
  q_sensor :: int
  q_level :: int
  q_qcx :: string
  q_result :: string

definition getStationParam :: "('t kvStationInfo \<Rightarrow> string \<Rightarrow> int \<Rightarrow> int \<Rightarrow> string \<Rightarrow> 'e + string) \<Rightarrow> 't kvStationInfo \<Rightarrow> string \<Rightarrow> int
    \<Rightarrow> int \<Rightarrow> string \<Rightarrow> 't StationParamSpec \<Rightarrow> ('e + string) \<times> 't StationParamSpec" where
  "getStationParam base si par sen lev qcx q =
     (if si \<noteq> q_si q \<or> par \<noteq> q_parameter q \<or> sen \<noteq> q_sensor q \<or> lev \<noteq> q_level q \<or> qcx \<noteq> q_qcx q then
        (case base si par sen lev qcx of
           Inl e \<Rightarrow> (Inl e, q)
         | Inr r \<Rightarrow> (Inr r, \<lparr>q_si = si, q_parameter = par, q_sensor = sen, q_level = lev, q_qcx = qcx, q_result = r\<rparr>))
      else (Inr (q_result q), q))"

definition getStation :: "(int \<Rightarrow> 'e + 's) \<Rightarrow> int \<Rightarrow> (int \<times> 's option) list \<Rightarrow> 's option \<times> (int \<times> 's option) list" where
  "getStation base stationid stations =
     (case map_of stations stationid of
        Some s \<Rightarrow> (s, stations)
      | None \<Rightarrow>
          let s = (case base stationid of Inl e \<Rightarrow> None | Inr s \<Rightarrow> Some s)
          in (s, smap_put stationid s stations))"

section \<open>DelayedSaveDatabaseAccess\<close>

text \<open>\<open>db\<close> is the state of the database below, \<open>savedData\<close> the set of values ordered by \<open>lt_kvData\<close>.\<close>

record ('t, 'db) DelayedSave =
  savedData :: "'t kvData list"
  db :: 'db

definition delayed_getData :: "('t::linorder, 'db) DelayedSave \<Rightarrow> 'e + 't kvData list \<Rightarrow> 'e + 't kvData list" where
  "delayed_getData s fromDb =
     res_bind fromDb (\<lambda>rows. Inr (map (\<lambda>x. case sset_find lt_kvData x (savedData s) of None \<Rightarrow> x | Some y \<Rightarrow> y) rows))"

definition delayed_write :: "'t::linorder kvData list \<Rightarrow> ('t, 'db) DelayedSave \<Rightarrow> ('t, 'db) DelayedSave" where
  "delayed_write dat s =
     s\<lparr>savedData := fold (\<lambda>x sv. sset_insert lt_kvData x (sset_erase lt_kvData x sv)) dat (savedData s)\<rparr>"

definition delayed_commit :: "('t kvData list \<Rightarrow> 'db \<Rightarrow> 'e + 'db) \<Rightarrow> ('db \<Rightarrow> 'e + 'db) \<Rightarrow> ('t, 'db) DelayedSave
    \<Rightarrow> 'e + ('t, 'db) DelayedSave" where
  "delayed_commit base_write base_commit s =
     (if savedData s \<noteq> [] then
        res_bind (base_write (savedData s) (db s)) (\<lambda>d. res_bind (base_commit d) (\<lambda>d. Inr (s\<lparr>db := d, savedData := []\<rparr>)))
      else res_bind (base_commit (db s)) (\<lambda>d. Inr (s\<lparr>db := d\<rparr>)))"

definition delayed_rollback :: "('db \<Rightarrow> 'e + 'db) \<Rightarrow> ('t, 'db) DelayedSave \<Rightarrow> 'e + ('t, 'db) DelayedSave" where
  "delayed_rollback base_rollback s =
     (let s = s\<lparr>savedData := []\<rparr> in res_bind (base_rollback (db s)) (\<lambda>d. Inr (s\<lparr>db := d\<rparr>)))"

section \<open>Lemmas: choice of values\<close>

interpretation ints: keyed_order "\<lambda>i :: int. i" "(<)" "\<lambda>i. True"
  by unfold_locales simp

lemma set_insert_int: "set (sset_insert (<) (x :: int) s) = insert x (set s)"
  by (induction s) auto

lemma values_fold:
  "sorted_wrt (<) s \<Longrightarrow> sorted_wrt (<) (fold (\<lambda>x. sset_insert (<) (g x :: int)) xs s) \<and>
     set (fold (\<lambda>x. sset_insert (<) (g x)) xs s) = set s \<union> g ` set xs"
proof (induction xs arbitrary: s)
  case (Cons x xs)
  have "sorted_wrt (<) (sset_insert (<) (g x) s)"
    using ints.sorted_insert [of s "g x"] Cons.prems by (simp add: list_all_iff)
  from Cons.IH [OF this] show ?case
    by (auto simp: set_insert_int)
qed simp

lemma sorted_hd_Min: "sorted_wrt (<) (v :: int list) \<Longrightarrow> v \<noteq> [] \<Longrightarrow> hd v = Min (set v)"
  by (cases v) (auto simp: Min_insert2 less_imp_le)

lemma short_list_same: "length v \<le> 1 \<Longrightarrow> a \<in> set v \<Longrightarrow> b \<in> set v \<Longrightarrow> a = b"
  by (cases v) auto

lemma filter_lowest_Min:
  assumes "\<And>x. x \<in> set dat \<Longrightarrow> conv (f x) = f x" "dat \<noteq> []"
  shows "filter_lowest conv f dat = filter (\<lambda>x. f x = Min (f ` set dat)) dat"
proof -
  define v where "v = fold (\<lambda>x. sset_insert (<) (conv (f x))) dat []"
  have v: "sorted_wrt (<) v" "set v = f ` set dat"
    using values_fold [of "[]" "\<lambda>x. conv (f x)" dat] assms(1) by (auto simp: v_def image_iff)
  then have ne: "v \<noteq> []" using assms(2) by auto
  show ?thesis
  proof (cases "length v > 1")
    case True
    then show ?thesis
      using sorted_hd_Min [OF v(1) ne] v(2) by (simp add: filter_lowest_def v_def [symmetric] Let_def)
  next
    case False
    have "Min (f ` set dat) \<in> set v"
      unfolding v(2) using assms(2) by (intro Min_in) auto
    then have "f x = Min (f ` set dat)" if "x \<in> set dat" for x
      using short_list_same [of v "f x" "Min (f ` set dat)"] False v(2) that by auto
    then have "filter (\<lambda>x. f x = Min (f ` set dat)) dat = dat"
      by (simp add: filter_id_conv)
    with False show ?thesis
      by (simp add: filter_lowest_def v_def [symmetric] Let_def)
  qed
qed

lemma groups_fold:
  "smap_ok m \<Longrightarrow> smap_ok (fold (\<lambda>x. smap_upd [] (typ x) (\<lambda>l. l @ [x])) xs m) \<and>
     fst ` set (fold (\<lambda>x. smap_upd [] (typ x) (\<lambda>l. l @ [x])) xs m) = fst ` set m \<union> typ ` set xs \<and>
     (\<forall>k. smap_at [] (fold (\<lambda>x. smap_upd [] (typ x) (\<lambda>l. l @ [x])) xs m) k = smap_at [] m k @ filter (\<lambda>x. typ x = k) xs)"
proof (induction xs arbitrary: m)
  case (Cons x xs)
  have ok: "smap_ok (smap_upd [] (typ x) (\<lambda>l. l @ [x]) m)"
    using Cons.prems by (simp add: smap_upd_def)
  have "fst ` set (smap_upd [] (typ x) (\<lambda>l. l @ [x]) m) = insert (typ x) (fst ` set m)"
    by (simp add: smap_upd_def)
  with Cons.IH [OF ok] show ?case by auto
qed simp

lemma smap_last:
  assumes "smap_ok m" "m \<noteq> []"
  shows "fst (last m) = Max (fst ` set m)" "map_of m (fst (last m)) = Some (snd (last m))"
proof -
  obtain ys y where m: "m = ys @ [y]"
    using assms(2) by (metis rev_exhaust)
  have "\<And>k. k \<in> fst ` set ys \<Longrightarrow> k < fst y"
    using assms(1) by (auto simp: m sorted_wrt_append)
  then show "fst (last m) = Max (fst ` set m)"
    by (auto simp: m Max_insert2 less_imp_le)
  show "map_of m (fst (last m)) = Some (snd (last m))"
    using assms smap_ok_distinct [OF assms(1)] by simp
qed

lemma filterTypeId_choice:
  assumes "dat \<noteq> []"
  shows "filterTypeId typ dat p =
    filter (\<lambda>x. typ x = (if p \<in> typ ` set dat then p else Max (typ ` set dat))) dat"
proof -
  define g where "g = fold (\<lambda>x. smap_upd [] (typ x) (\<lambda>l. l @ [x])) dat []"
  have g: "smap_ok g" "fst ` set g = typ ` set dat" "\<And>k. smap_at [] g k = filter (\<lambda>x. typ x = k) dat"
    using groups_fold [of "[]" "typ" dat] by (simp_all add: g_def)
  then have ne: "g \<noteq> []" using assms by auto
  have grp: "map_of g k = Some l \<Longrightarrow> l = filter (\<lambda>x. typ x = k) dat" for k l
    using g(3) [of k] by (simp add: smap_at_def)
  have none: "map_of g k = None \<longleftrightarrow> k \<notin> typ ` set dat" for k
    using g(2) by (simp add: map_of_eq_None_iff)
  show ?thesis
  proof (cases "length g > 1")
    case True
    then show ?thesis
    proof (cases "map_of g p")
      case None
      then show ?thesis
        using True smap_last [OF g(1) ne] grp none [of p] g(2)
        by (simp add: filterTypeId_def g_def [symmetric] Let_def)
    next
      case (Some l)
      then have "p \<in> typ ` set dat" using none [of p] by simp
      with Some True grp [OF Some] show ?thesis
        by (simp add: filterTypeId_def g_def [symmetric] Let_def)
    qed
  next
    case False
    let ?k = "if p \<in> typ ` set dat then p else Max (typ ` set dat)"
    have in_g: "(if p \<in> typ ` set dat then p else Max (typ ` set dat)) \<in> fst ` set g"
      unfolding g(2) using assms by (simp add: Max_in)
    have "typ x = (if p \<in> typ ` set dat then p else Max (typ ` set dat))" if "x \<in> set dat" for x
    proof (rule short_list_same [of "map fst g"])
      show "length (map fst g) \<le> 1" using False by simp
      show "typ x \<in> set (map fst g)" using g(2) that by simp
      show "?k \<in> set (map fst g)" using in_g by simp
    qed
    then have "\<forall>x \<in> set dat. typ x = ?k" by blast
    then have "filter (\<lambda>x. typ x = ?k) dat = dat"
      by (simp only: filter_id_conv)
    moreover have "filterTypeId typ dat p = dat"
      using False by (simp add: filterTypeId_def g_def [symmetric])
    ultimately show ?thesis by (simp only:)
  qed
qed

lemma filter_Min_nonempty: "dat \<noteq> [] \<Longrightarrow> filter (\<lambda>x. f x = Min (f ` set dat)) dat \<noteq> []"
proof -
  assume "dat \<noteq> []"
  then have "Min (f ` set dat) \<in> f ` set dat" by (intro Min_in) auto
  then show ?thesis by (auto simp: filter_empty_conv)
qed

lemma filterTypeId_nonempty: "dat \<noteq> [] \<Longrightarrow> filterTypeId typ dat p \<noteq> []"
proof -
  assume d: "dat \<noteq> []"
  then have "(if p \<in> typ ` set dat then p else Max (typ ` set dat)) \<in> typ ` set dat"
    by (simp add: Max_in)
  with d show ?thesis by (auto simp: filterTypeId_choice filter_empty_conv)
qed

section \<open>Lemmas: delayed writes\<close>

abbreviation latest :: "'t::linorder kvData list \<Rightarrow> 't kvData \<Rightarrow> 't kvData option" where
  "latest ds x \<equiv> List.find (\<lambda>d. same_kvData x d) (rev ds)"

abbreviation save_all :: "'t::linorder kvData list \<Rightarrow> 't kvData list \<Rightarrow> 't kvData list" where
  "save_all ds sv \<equiv> fold (\<lambda>x sv. sset_insert lt_kvData x (sset_erase lt_kvData x sv)) ds sv"

lemma find_append: "List.find P (xs @ ys) = (case List.find P xs of None \<Rightarrow> List.find P ys | Some x \<Rightarrow> Some x)"
  by (induction xs) auto

lemma save_all_ok:
  "list_all plain_sensor ds \<Longrightarrow> list_all plain_sensor sv \<Longrightarrow> sorted_wrt lt_kvData sv \<Longrightarrow>
     list_all plain_sensor (save_all ds sv) \<and> sorted_wrt lt_kvData (save_all ds sv)"
  by (induction ds arbitrary: sv)
    (simp_all add: kvd.list_all_insert kvd.list_all_erase kvd.sorted_insert kvd.sorted_erase)

lemma find_save_all:
  "list_all plain_sensor ds \<Longrightarrow> list_all plain_sensor sv \<Longrightarrow> plain_sensor x \<Longrightarrow>
     sset_find lt_kvData x (save_all ds sv) = (case latest ds x of None \<Rightarrow> sset_find lt_kvData x sv | Some d \<Rightarrow> Some d)"
proof (induction ds arbitrary: sv)
  case (Cons d ds)
  let ?sv = "sset_insert lt_kvData d (sset_erase lt_kvData d sv)"
  have p: "plain_sensor d" "list_all plain_sensor ds" "list_all plain_sensor ?sv"
    using Cons.prems by (simp_all add: kvd.list_all_insert kvd.list_all_erase)
  have "sset_find lt_kvData x ?sv = (if same_kvData x d then Some d else sset_find lt_kvData x sv)"
    using kvd.find_replace [of d x sv] p(1) Cons.prems by (simp add: same_kvData_key)
  then show ?case
    using Cons.IH [OF p(2,3) Cons.prems(3)] by (auto simp: find_append split: option.splits)
qed simp

section \<open>Properties\<close>

text \<open>
  The filter of a query result leaves the values of one type, one level and one sensor, in their order:
  the preferred type if there is a value of it, else the highest; then the lowest level; then the lowest sensor.
  A result that is not empty stays so.
\<close>

theorem result_filter_choice:
  assumes "dat \<noteq> []" "\<forall>x \<in> set dat. - 128 \<le> sensor x \<and> sensor x < 128"
  shows "\<exists>T L S. result_filter dat preferredTypeId = filter (\<lambda>x. typeID x = T \<and> level x = L \<and> sensor x = S) dat
    \<and> result_filter dat preferredTypeId \<noteq> []
    \<and> T = (if preferredTypeId \<in> typeID ` set dat then preferredTypeId else Max (typeID ` set dat))
    \<and> L = Min (level ` {x \<in> set dat. typeID x = T})
    \<and> S = Min (sensor ` {x \<in> set dat. typeID x = T \<and> level x = L})"
proof -
  define T where "T = (if preferredTypeId \<in> typeID ` set dat then preferredTypeId else Max (typeID ` set dat))"
  define d1 where "d1 = filterTypeId typeID dat preferredTypeId"
  have d1: "d1 = filter (\<lambda>x. typeID x = T) dat" "d1 \<noteq> []"
    using filterTypeId_choice [OF assms(1)] filterTypeId_nonempty [OF assms(1)] by (simp_all add: d1_def T_def)
  define L where "L = Min (level ` set d1)"
  define d2 where "d2 = filter_lowest (\<lambda>i. i) level d1"
  have d2: "d2 = filter (\<lambda>x. level x = L) d1" "d2 \<noteq> []"
    using filter_lowest_Min [of d1 "\<lambda>i. i" level] filter_Min_nonempty [OF d1(2), of level] d1(2)
    by (simp_all add: d2_def L_def)
  define S where "S = Min (sensor ` set d2)"
  have "narrow_char (sensor x) = sensor x" if "x \<in> set d2" for x
    using that assms(2) by (auto simp: d2(1) d1(1))
  then have r: "result_filter dat preferredTypeId = filter (\<lambda>x. sensor x = S) d2"
    using filter_lowest_Min [of d2 narrow_char sensor] d2(2)
    by (simp add: result_filter_def d1_def [symmetric] d2_def [symmetric] S_def)
  show ?thesis
  proof (intro exI conjI)
    show "result_filter dat preferredTypeId = filter (\<lambda>x. typeID x = T \<and> level x = L \<and> sensor x = S) dat"
      by (simp add: r d2(1) d1(1) conj_assoc)
    show "result_filter dat preferredTypeId \<noteq> []"
      unfolding r S_def by (rule filter_Min_nonempty [OF d2(2)])
  qed (simp_all add: T_def L_def S_def d2(1) d1(1))
qed

text \<open>
  Values that were written are read back before they are committed: a query gives, for every row of the
  database, the value of the row that was written last, else what it gave before.
\<close>

theorem delayed_reads_writes:
  assumes "list_all plain_sensor dat" "list_all plain_sensor (savedData s)" "list_all plain_sensor rows"
    "delayed_getData s (Inr rows) = Inr before"
  shows "delayed_getData (delayed_write dat s) (Inr rows :: 'e + 't::linorder kvData list) =
    Inr (map (\<lambda>(x, old). case latest dat x of Some d \<Rightarrow> d | None \<Rightarrow> old) (zip rows before))"
proof -
  have b: "before = map (\<lambda>x. case sset_find lt_kvData x (savedData s) of None \<Rightarrow> x | Some y \<Rightarrow> y) rows"
    using assms(4) by (simp add: delayed_getData_def)
  have "map (\<lambda>(x, old). case latest dat x of Some d \<Rightarrow> d | None \<Rightarrow> old) (zip rows before) =
      map (\<lambda>x. case latest dat x of Some d \<Rightarrow> d
        | None \<Rightarrow> (case sset_find lt_kvData x (savedData s) of None \<Rightarrow> x | Some y \<Rightarrow> y)) rows"
    unfolding b by (induction rows) auto
  moreover have "plain_sensor x" if "x \<in> set rows" for x
    using that assms(3) by (simp add: list_all_iff)
  ultimately show ?thesis
    using assms(1,2) by (simp add: delayed_getData_def delayed_write_def find_save_all split: option.split)
qed

definition row :: "int \<Rightarrow> real \<Rightarrow> nat kvData" where
  "row par v = \<lparr>stationID = 1, obstime = 10, original = v, paramID = par, tbtime = 12, typeID = 4, sensor = 0, level = 0,
     corrected = v, controlinfo = clear_flag, useinfo = clear_useinfo, cfailed = []\<rparr>"

lemma row_same [simp]: "same_kvData (row p v) (row q w) \<longleftrightarrow> p = q"
  by (simp add: row_def same_kvData_def eq_sensor_def)

lemma row_plain [simp]: "plain_sensor (row p v)"
  by (simp add: row_def plain_sensor_def)

lemma result_filter_choice_witness:
  "\<exists>T L S. result_filter [row 211 2] 4 = filter (\<lambda>x. typeID x = T \<and> level x = L \<and> sensor x = S) [row 211 2]
    \<and> result_filter [row 211 2] 4 \<noteq> [] \<and> T = 4"
proof -
  have a: "[row 211 2] \<noteq> []" "\<forall>x \<in> set [row 211 2]. - 128 \<le> sensor x \<and> sensor x < 128"
    by (simp_all add: row_def)
  have "typeID ` set [row 211 2] = {4}" by (simp add: row_def)
  then have T: "(if 4 \<in> typeID ` set [row 211 2] then 4 else Max (typeID ` set [row 211 2])) = 4" by simp
  from result_filter_choice [OF a, of 4, unfolded T]
  obtain T L S where "result_filter [row 211 2] 4 = filter (\<lambda>x. typeID x = T \<and> level x = L \<and> sensor x = S) [row 211 2]"
      "result_filter [row 211 2] 4 \<noteq> []" "T = 4"
    by (elim exE conjE)
  then show ?thesis by (intro exI conjI)
qed

lemma delayed_reads_writes_witness:
  "delayed_getData (delayed_write [row 211 2, row 211 3] \<lparr>savedData = [], db = ()\<rparr>) (Inr [row 211 1, row 262 5] :: unit + nat kvData list)
     = Inr [row 211 3, row 262 5]"
  using delayed_reads_writes [of "[row 211 2, row 211 3]" "\<lparr>savedData = [], db = ()\<rparr>" "[row 211 1, row 262 5]" "[row 211 1, row 262 5]"]
  by (simp add: delayed_getData_def sset_find_def)

text \<open>
  C12. A commit hands every value that was written since the last commit or rollback to the database once, in
  its latest version and in the order of keys, and then forgets it; when the database fails, nothing is forgotten.
\<close>

theorem commit_writes_latest:
  assumes "list_all plain_sensor dat" "dat \<noteq> []" "savedData s = []"
  shows "\<exists>l. sorted_wrt lt_kvData l \<and> set l = {x \<in> set dat. latest dat x = Some x}
    \<and> delayed_commit base_write base_commit (delayed_write dat s) =
        res_bind (base_write l (db s)) (\<lambda>d. res_bind (base_commit d) (\<lambda>d. Inr (s\<lparr>db := d, savedData := []\<rparr>)))"
proof -
  let ?l = "save_all dat []"
  have ok: "list_all plain_sensor ?l" "sorted_wrt lt_kvData ?l"
    using save_all_ok [OF assms(1), of "[]"] by simp_all
  have fnd: "sset_find lt_kvData x ?l = latest dat x" if "plain_sensor x" for x
    using find_save_all [OF assms(1) _ that, of "[]"] by (simp add: sset_find_def split: option.split)
  have mem: "x \<in> set ?l \<longleftrightarrow> x \<in> set dat \<and> latest dat x = Some x" for x
  proof
    assume x: "x \<in> set ?l"
    then have "plain_sensor x" using ok(1) by (simp add: list_all_iff)
    then have "latest dat x = Some x"
      using kvd.find_mem [OF ok x, of x] fnd by simp
    then show "x \<in> set dat \<and> latest dat x = Some x"
      by (metis find_Some_iff2 nth_mem set_rev)
  next
    assume x: "x \<in> set dat \<and> latest dat x = Some x"
    then have "plain_sensor x" using assms(1) by (simp add: list_all_iff)
    then show "x \<in> set ?l"
      using kvd.find_Some_key [OF _ ok(1), of x x] fnd x by simp
  qed
  have "?l \<noteq> []"
  proof -
    have p: "plain_sensor (last dat)" using assms(1,2) by (simp add: list_all_iff)
    have "latest dat (last dat) = Some (last dat)"
      using assms(2) same_kvData_key [OF p p] by (cases dat rule: rev_cases) auto
    with mem [of "last dat"] assms(2) show ?thesis by auto
  qed
  then show ?thesis
    using ok(2) mem assms(3) by (intro exI [of _ ?l]) (auto simp: delayed_commit_def delayed_write_def)
qed

lemma commit_writes_latest_witness:
  "delayed_commit (\<lambda>l d. Inr (d @ l)) (\<lambda>d. Inr d :: unit + nat kvData list)
      (delayed_write [row 211 2] \<lparr>savedData = [], db = []\<rparr>) = Inr \<lparr>savedData = [], db = [row 211 2]\<rparr>"
proof -
  let ?s = "\<lparr>savedData = [], db = []\<rparr> :: (nat, nat kvData list) DelayedSave"
  obtain l where l: "set l = {row 211 2}" "sorted_wrt lt_kvData l"
      "delayed_commit (\<lambda>l d. Inr (d @ l)) (\<lambda>d. Inr d :: unit + nat kvData list) (delayed_write [row 211 2] ?s)
         = Inr (?s\<lparr>db := l, savedData := []\<rparr>)"
    using commit_writes_latest [of "[row 211 2]" ?s "\<lambda>l d. Inr (d @ l)" "\<lambda>d. Inr d :: unit + nat kvData list"]
    by (auto cong: conj_cong)
  have "length l \<le> 1"
    using l(1,2) kvd.lt_irrefl [of "row 211 2"] by (cases l; cases "tl l") auto
  with l(1) have "l = [row 211 2]" by (cases l) auto
  with l(3) show ?thesis by simp
qed

text \<open>
  C4. The cache is transparent: when the database answers by the text of the parameter only and its answer for
  a later start is the part of the answer for an earlier start from that time on, every query through the cache
  gives what the database gives, and the cache keeps holding answers of the database.
\<close>

definition cache_ok :: "('t kvStationInfo \<Rightarrow> Parameter \<Rightarrow> int \<Rightarrow> 'e + 'x list) \<Rightarrow> ('t, 'x) DataCache \<Rightarrow> bool" where
  "cache_ok base c = (\<forall>par off rows. map_of (dc_cache c) (param_str par) = Some (off, rows) \<longrightarrow> base (dc_si c) par off = Inr rows)"

theorem cache_transparent:
  assumes by_text: "\<And>si p q. param_str p = param_str q \<Longrightarrow> base si p = base si q"
    and ranged: "\<And>si p m n rows. m \<le> n \<Longrightarrow> base si p m = Inr rows \<Longrightarrow>
      base si p n = Inr (filter (\<lambda>x. obt x \<ge> plus_minutes (si_obstime si) n) rows)"
    and ok: "cache_ok base c"
  shows "fst (cached_getData plus_minutes obt base [] si par minuteOffset c) = base si par minuteOffset
    \<and> cache_ok base (snd (cached_getData plus_minutes obt base [] si par minuteOffset c))"
proof (cases "cache_getData plus_minutes obt c [] si par minuteOffset")
  case (Some out)
  then obtain m rows where "si = dc_si c" "map_of (dc_cache c) (param_str par) = Some (m, rows)" "m \<le> minuteOffset"
      "out = filter (\<lambda>x. obt x \<ge> plus_minutes (si_obstime si) minuteOffset) rows"
    by (auto simp: cache_getData_def split: if_splits option.splits)
  then have "base si par minuteOffset = Inr out"
    using ok ranged [of m minuteOffset si par rows] by (simp add: cache_ok_def)
  then show ?thesis
    using ok by (simp add: cached_getData_def Some)
next
  case None
  have "cache_ok base (cache_setData rows si par minuteOffset c)" if "base si par minuteOffset = Inr rows" for rows
  proof -
    have "base (dc_si c) p minuteOffset = Inr rows" if "param_str p = param_str par" "si = dc_si c" for p
      using by_text [OF that(1), of si] \<open>base si par minuteOffset = Inr rows\<close> that(2) by simp
    then show ?thesis
      using ok by (auto simp: cache_ok_def cache_setData_def split: if_splits)
  qed
  then show ?thesis
    using ok by (auto simp: cached_getData_def None split: sum.split)
qed

definition every_hour :: "int kvStationInfo \<Rightarrow> Parameter \<Rightarrow> int \<Rightarrow> unit + int list" where
  "every_hour si par m = Inr (filter (\<lambda>t. t \<ge> si_obstime si + m) [0, 60, 120, 180])"

lemma cache_transparent_witness:
  "fst (cached_getData (+) (\<lambda>t. t) every_hour [] \<lparr>si_stationID = 1, si_obstime = 180, si_typeID = 4\<rparr> new_Parameter (-60)
      \<lparr>dc_si = \<lparr>si_stationID = 1, si_obstime = 180, si_typeID = 4\<rparr>, dc_cache = [([], -120, [60, 120, 180])]\<rparr>)
    = Inr [120, 180]"
proof -
  let ?si = "\<lparr>si_stationID = 1, si_obstime = 180, si_typeID = 4\<rparr> :: int kvStationInfo"
  let ?c = "\<lparr>dc_si = ?si, dc_cache = [([], -120, [60, 120, 180])]\<rparr> :: (int, int) DataCache"
  have "cache_ok every_hour ?c"
    by (simp add: cache_ok_def every_hour_def)
  moreover have "every_hour si p n = Inr (filter (\<lambda>x. x \<ge> si_obstime si + n) rows)"
    if "m \<le> n" "every_hour si p m = Inr rows" for si p m n rows
    using that by (auto simp: every_hour_def)
  moreover have "every_hour si p = every_hour si q" for si p q
    by (simp add: every_hour_def fun_eq_iff)
  ultimately have "fst (cached_getData (+) (\<lambda>t. t) every_hour [] ?si new_Parameter (-60) ?c) = every_hour ?si new_Parameter (-60)"
    using cache_transparent [where base = every_hour and obt = "\<lambda>t. t" and plus_minutes = "(+)" and c = ?c
      and si = ?si and par = new_Parameter and minuteOffset = "-60"] by blast
  then show ?thesis by (simp add: every_hour_def)
qed

text \<open>
  One failed look-up of the flag position of a check is final: whatever the database answers later, the
  check is reported as unknown as long as the process lives.
\<close>

theorem qcx_failure_is_cached:
  assumes "map_of positions qcx = None" "base qcx = Inl e"
  shows "\<exists>positions'. getQcxFlagPosition base qcx positions = (Inl (check_type_of qcx), positions')
    \<and> (\<forall>later. getQcxFlagPosition later qcx positions' = (Inl (check_type_of qcx), positions'))"
  using assms by (simp add: getQcxFlagPosition_def Let_def)

lemma qcx_failure_is_cached_witness:
  "getQcxFlagPosition (\<lambda>q. Inr 12 :: unit + int) ''QC1-2-100''
     (snd (getQcxFlagPosition (\<lambda>q. Inl ()) ''QC1-2-100'' [])) = (Inl ''QC1-2'', [(''QC1-2-100'', -32767)])"
proof -
  obtain p where p: "getQcxFlagPosition (\<lambda>q. Inl () :: unit + int) ''QC1-2-100'' [] = (Inl (check_type_of ''QC1-2-100''), p)"
      "\<forall>later :: string \<Rightarrow> unit + int. getQcxFlagPosition later ''QC1-2-100'' p = (Inl (check_type_of ''QC1-2-100'') :: string + int, p)"
    using qcx_failure_is_cached [of "[]" "''QC1-2-100''" "\<lambda>q. Inl () :: unit + int" "()"] by auto
  moreover have "p = [(''QC1-2-100'', -32767)]"
    using p(1) by (simp add: getQcxFlagPosition_def Let_def)
  moreover have "check_type_of ''QC1-2-100'' = ''QC1-2''"
    by (simp add: check_type_of_def)
  ultimately show ?thesis by simp
qed

lemma find_index_append:
  "find_index P (xs @ ys) =
     (case find_index P xs of Some i \<Rightarrow> Some i | None \<Rightarrow> map_option (\<lambda>i. length xs + i) (find_index P ys))"
  by (induction xs) (cases "find_index P ys"; auto split: option.split)+

lemma find_index_less: "find_index P xs = Some i \<Longrightarrow> i < length xs"
  by (induction xs arbitrary: i) (auto split: if_splits)

text \<open>
  Metadata is a row of names followed by a row of as many values. The value of the first name that
  matches, without regard to case, is returned. When no name matches but a value does, the search runs past
  the end of the row of values.
\<close>

theorem station_param_value:
  assumes "split meta = names @ vals" "length names = length vals"
  shows "parseStationParam to_lower split to_float meta wanted =
    (let hit = (\<lambda>s. s = to_lower wanted \<or> to_lower s = to_lower wanted) in
     case find_index hit names of
       Some i \<Rightarrow> (case to_float (vals ! i) of Some v \<Rightarrow> Inr v | None \<Rightarrow> Inl (BadValue (vals ! i)))
     | None \<Rightarrow> if list_ex hit vals then Inl PastTheEnd else Inl (NoSuchStationParam wanted))"
proof -
  let ?hit = "\<lambda>s. s = to_lower wanted \<or> to_lower s = to_lower wanted"
  have half: "length (names @ vals) mod 2 = 0" "length (names @ vals) div 2 = length vals"
    using assms(2) by simp_all
  have none: "find_index ?hit vals = None \<longleftrightarrow> \<not> list_ex ?hit vals"
    by (induction vals) auto
  show ?thesis
  proof (cases "find_index ?hit names")
    case None
    then show ?thesis
      using half none assms by (cases "find_index ?hit vals")
        (simp_all add: parseStationParam_def find_index_append Let_def)
  next
    case (Some i)
    then have "i < length vals" using find_index_less [OF Some] assms(2) by simp
    moreover have "(names @ vals) ! (i + length vals) = vals ! i"
      using assms(2) by (metis add.commute nth_append_length_plus)
    ultimately show ?thesis
      using Some half assms by (simp add: parseStationParam_def find_index_append Let_def split: option.split)
  qed
qed

lemma station_param_value_witness:
  "parseStationParam (\<lambda>s. s) (\<lambda>s. [''max'', ''min'', ''30'', ''max2'']) (\<lambda>s. Some 30) [] ''max2'' = Inl PastTheEnd"
  using station_param_value [of "\<lambda>s. [''max'', ''min'', ''30'', ''max2'']" "[]" "[''max'', ''min'']" "[''30'', ''max2'']"
      "\<lambda>s. s" "\<lambda>s. Some 30" "''max2''"] by simp

end
