(* ===== verification/Qa_Store.thy ===== *)
theory Qa_Store
  imports Qa_Database "HOL-Library.Sublist"
begin

text \<open>
  The data of one check (\<^verbatim>\<open>src/kvQabased/src/scriptcreate\<close>): collecting observations, texts, model data
  and metadata for the parameters of a check (\<^verbatim>\<open>DataStore.cpp\<close>), handing them to the script
  (\<^verbatim>\<open>populateScript.cpp\<close>), reading the names of the script's results (\<^verbatim>\<open>ScriptResultIdentifier.cpp\<close>) and
  applying them (\<^verbatim>\<open>DataStore::apply\<close>, \<^verbatim>\<open>KvalobsCheckScript.cpp\<close>). The database is a record of functions.
  A map whose keys are parameters is ordered by their text, which tells parameters apart; the entry keeps
  the parameter. A pointer to a value in the store is the text of its parameter and its index.
\<close>

datatype 'e store_error = UnableToGetData string | InvalidParameter string | NoSuchData | NoMetadata string
  | MissingModelData | InternalError | NullDereference | UnknownModification | SignatureError sig_error
  | FilterError filter_error | SyntaxError string | UndefinedCorrectionType string | ScriptFailed
  | NoInterpreter | DbError 'e

definition lift_error :: "('a \<Rightarrow> 'e store_error) \<Rightarrow> 'a + 'x \<Rightarrow> 'e store_error + 'x" where
  "lift_error f r = (case r of Inl e \<Rightarrow> Inl (f e) | Inr x \<Rightarrow> Inr x)"

record 't Observation =
  obs_id :: int
  obs_stationID :: int
  obs_typeID :: int
  obs_obstime :: 't
  obs_tbtime :: 't

definition stationInfo :: "'t Observation \<Rightarrow> 't kvStationInfo" where
  "stationInfo o' = \<lparr>si_stationID = obs_stationID o', si_obstime = obs_obstime o', si_typeID = obs_typeID o'\<rparr>"

record 't kvModelData =
  md_stationID :: int
  md_obstime :: 't
  md_paramID :: int
  md_level :: int
  md_modelID :: int
  md_original :: real

section \<open>fillMissing\<close>

type_synonym 'x by_parameter = "(string \<times> Parameter \<times> 'x list) list"

definition all_times :: "('x \<Rightarrow> 't::linorder) \<Rightarrow> 'x by_parameter \<Rightarrow> 't list" where
  "all_times obt m = fold (\<lambda>(k, p, xs). fold (\<lambda>x. sset_insert (<) (obt x)) xs) m []"

definition insert_missing :: "('x \<Rightarrow> 't::linorder) \<Rightarrow> ('t \<Rightarrow> 'x) \<Rightarrow> 't \<Rightarrow> 'x list \<Rightarrow> 'x list" where
  "insert_missing obt factory t xs =
     (let before = takeWhile (\<lambda>x. obt x > t) xs; found = dropWhile (\<lambda>x. obt x > t) xs in
      if found = [] \<or> obt (hd found) \<noteq> t then before @ factory t # found else xs)"

definition fill_list :: "('x \<Rightarrow> 't::linorder) \<Rightarrow> ('x \<Rightarrow> 't \<Rightarrow> 'x) \<Rightarrow> 't list \<Rightarrow> 'x list \<Rightarrow> 'x list" where
  "fill_list obt factory ts xs = fold (insert_missing obt (factory (hd xs))) (rev ts) xs"

fun fill_all :: "('x \<Rightarrow> 't::linorder) \<Rightarrow> ('x \<Rightarrow> 't \<Rightarrow> 'x) \<Rightarrow> 't list \<Rightarrow> 'x by_parameter \<Rightarrow> 'e store_error + 'x by_parameter" where
  "fill_all obt factory ts [] = Inr []"
| "fill_all obt factory ts ((k, p, xs) # m) =
     (if xs = [] then Inl InternalError
      else res_bind (fill_all obt factory ts m) (\<lambda>m'. Inr ((k, p, fill_list obt factory ts xs) # m')))"

definition fillMissing :: "('x \<Rightarrow> 't::linorder) \<Rightarrow> ('x \<Rightarrow> 't \<Rightarrow> 'x) \<Rightarrow> 'x by_parameter \<Rightarrow> 'e store_error + 'x by_parameter" where
  "fillMissing obt factory m = fill_all obt factory (all_times obt m) m"

definition data_factory :: "('t \<Rightarrow> bool) \<Rightarrow> 't \<Rightarrow> 't kvData \<Rightarrow> 't \<Rightarrow> 't kvData" where
  "data_factory is_not_a_date_time now d t = factory_getMissing is_not_a_date_time now (factory_of_data d) 0 t"

definition text_data_factory :: "'t kvTextData \<Rightarrow> 't \<Rightarrow> 't kvTextData" where
  "text_data_factory d t = kvTextData_set (txt_stationID d) t ''-32767'' 0 (txt_tbtime d) (txt_typeID d)"

section \<open>Collecting the data\<close>

text \<open>The database as the store sees it, for the observation that is checked.\<close>

record ('t, 'e, 's) store_db =
  db_getData :: "Parameter \<Rightarrow> int \<Rightarrow> 'e + 't kvData list"
  db_getTextData :: "Parameter \<Rightarrow> int \<Rightarrow> 'e + 't kvTextData list"
  db_getModelData :: "Parameter \<Rightarrow> int \<Rightarrow> 'e + 't kvModelData list"
  db_getStationParamAll :: "string \<Rightarrow> string \<Rightarrow> 'e + StationParam list"
  db_getStation :: "int \<Rightarrow> 'e + 's"
  db_getQcxFlagPosition :: "string \<Rightarrow> 'e + int"

text \<open>What the library gives: the clock, the special time and its test, the string functions of the metadata.\<close>

record 't env =
  now :: 't
  not_a_date_time :: 't
  is_not_a_date_time :: "'t \<Rightarrow> bool"
  meta_lower :: "string \<Rightarrow> string"
  meta_split :: "string \<Rightarrow> string list"
  meta_float :: "string \<Rightarrow> real option"

fun for_each :: "('p \<Rightarrow> 'a \<Rightarrow> 'e + 'a) \<Rightarrow> 'p list \<Rightarrow> 'a \<Rightarrow> 'e + 'a" where
  "for_each f [] a = Inr a"
| "for_each f (p # ps) a = res_bind (f p a) (for_each f ps)"

definition translate :: "ParameterTranslation \<Rightarrow> Parameter \<Rightarrow> 'e store_error + Parameter" where
  "translate t p = (case map_of t (param_str p) of None \<Rightarrow> Inl (UnableToGetData (baseName p)) | Some a \<Rightarrow> Inr a)"

definition missing_obs :: "'t env \<Rightarrow> 't Observation \<Rightarrow> Parameter \<Rightarrow> 't kvData" where
  "missing_obs env o' p =
     getMissingKvData (is_not_a_date_time env) (not_a_date_time env) (now env) (obs_stationID o') (obs_obstime o') 0
       (if haveType p then p_typeid p else obs_typeID o') (if haveSensor p then p_sensor p else 0)
       (if haveLevel p then p_level p else 0)"

definition populateObs :: "'t::linorder env \<Rightarrow> ('t, 'e, 's) store_db \<Rightarrow> 't Observation \<Rightarrow> DataRequirement \<Rightarrow> DataRequirement
    \<Rightarrow> 't kvData by_parameter \<Rightarrow> 'e store_error + 't kvData by_parameter" where
  "populateObs env db' o' abstractReq concreteReq dat =
     res_bind (lift_error SignatureError (getTranslation concreteReq abstractReq)) (\<lambda>tr.
     res_bind (for_each (\<lambda>p m.
         res_bind (translate tr p) (\<lambda>a.
         res_bind (lift_error DbError (db_getData db' p (firstTime concreteReq))) (\<lambda>dbdata.
           let dbdata = (if dbdata = [] then [missing_obs env o' p] else dbdata)
           in Inr (smap_put (param_str a) (a, dbdata) m)))) (parameter concreteReq) dat) (\<lambda>dat.
       fillMissing obstime (data_factory (is_not_a_date_time env) (now env)) dat))"

definition populateRefObs :: "'t::linorder env \<Rightarrow> ('t, 'e, 's) store_db \<Rightarrow> 't Observation \<Rightarrow> DataRequirement \<Rightarrow> DataRequirement
    \<Rightarrow> 't kvTextData by_parameter \<Rightarrow> 'e store_error + 't kvTextData by_parameter" where
  "populateRefObs env db' o' abstractReq concreteReq ref =
     res_bind (lift_error SignatureError (getTranslation concreteReq abstractReq)) (\<lambda>tr.
     res_bind (for_each (\<lambda>p m.
         res_bind (translate tr p) (\<lambda>a.
         res_bind (lift_error DbError (db_getTextData db' p (firstTime concreteReq))) (\<lambda>textData.
           let textData = (if textData = []
                 then [kvTextData_set (obs_stationID o') (obs_obstime o') [] 0 (not_a_date_time env) (obs_typeID o')]
                 else textData);
               (a', old) = smap_at (a, []) m (param_str a)
           in Inr (smap_put (param_str a) (a', old @ textData) m)))) (parameter concreteReq) ref) (\<lambda>ref.
       fillMissing txt_obstime text_data_factory ref))"

definition populateModel :: "('t, 'e, 's) store_db \<Rightarrow> DataRequirement \<Rightarrow> DataRequirement
    \<Rightarrow> 't kvModelData by_parameter \<Rightarrow> 'e store_error + 't kvModelData by_parameter" where
  "populateModel db' abstractReq concreteReq models =
     res_bind (lift_error SignatureError (getTranslation concreteReq abstractReq)) (\<lambda>tr.
     for_each (\<lambda>p m.
         res_bind (translate tr p) (\<lambda>a.
         res_bind (lift_error DbError (db_getModelData db' p (firstTime concreteReq))) (\<lambda>modelData.
           if modelData \<noteq> [] then Inr (smap_put (param_str a) (a, modelData) m) else Inl MissingModelData)))
       (parameter concreteReq) models)"

definition findMetaParameter :: "ParameterTranslation \<Rightarrow> Parameter \<Rightarrow> 'e store_error + Parameter \<times> Parameter" where
  "findMetaParameter tr p =
     (case map_of tr (param_str p) of
        None \<Rightarrow> Inl (UnableToGetData (param_str p))
      | Some a \<Rightarrow> if \<not> hasMetaData p then Inl (UnableToGetData (param_str p)) else Inr (p, a))"

text \<open>The loop of \<^verbatim>\<open>findMetadata\<close>: number of matches, exact match and level match so far.\<close>

definition meta_step :: "string \<Rightarrow> StationParam list \<Rightarrow> Parameter \<Rightarrow> nat \<times> string \<times> string \<Rightarrow> nat \<times> string \<times> string" where
  "meta_step metaParam ps obsParam s =
     (if baseName obsParam \<noteq> metaParam then s
      else case s of (nMatch, exactMatch, levelMatch) \<Rightarrow>
        let sen = (if haveSensor obsParam then p_sensor obsParam else 0);
            lev = (if haveLevel obsParam then p_level obsParam else 0)
        in case StationParamList_find ps lev sen of
             Inr (l, s', metadata) \<Rightarrow>
               if s' \<noteq> sen then (nMatch + 1, exactMatch, metadata) else (nMatch + 1, metadata, levelMatch)
           | Inl MultipleMatch \<Rightarrow> (nMatch + 2, exactMatch, levelMatch)
           | Inl e \<Rightarrow> (nMatch, exactMatch, levelMatch))"

definition findMetadata :: "string \<Rightarrow> DataRequirement \<Rightarrow> StationParam list \<Rightarrow> 'e store_error + string" where
  "findMetadata metaParam concreteObsReq ps =
     (case fold (meta_step metaParam ps) (parameter concreteObsReq) (0, [], []) of
        (nMatch, exactMatch, levelMatch) \<Rightarrow>
          if nMatch = 0 then Inl (NoMetadata metaParam)
          else if nMatch > 1 then Inl (NoMetadata metaParam)
          else if exactMatch \<noteq> [] then Inr exactMatch
          else Inr levelMatch)"

definition populateMeta :: "'t env \<Rightarrow> ('t, 'e, 's) store_db \<Rightarrow> string \<Rightarrow> DataRequirement \<Rightarrow> DataRequirement \<Rightarrow> DataRequirement
    \<Rightarrow> real by_parameter \<Rightarrow> 'e store_error + real by_parameter" where
  "populateMeta env db' qcx concreteObsReq abstractReq concreteReq meta =
     res_bind (lift_error SignatureError (getTranslation concreteReq abstractReq)) (\<lambda>tr.
     for_each (\<lambda>p m.
         res_bind (findMetaParameter tr p) (\<lambda>(c, a).
         res_bind (lift_error DbError (db_getStationParamAll db' (metaDataParamName c) qcx)) (\<lambda>ps.
         res_bind (findMetadata (metaDataParamName c) concreteObsReq ps) (\<lambda>metadata.
         res_bind (lift_error FilterError
             (parseStationParam (meta_lower env) (meta_split env) (meta_float env) metadata (metaDataType c))) (\<lambda>val.
           let (a', old) = smap_at (a, []) m (param_str a)
           in Inr (smap_put (param_str a) (a', old @ [val]) m))))))
       (parameter concreteReq) meta)"

section \<open>DataStore\<close>

record ('t, 's) DataStore =
  store_data :: "'t kvData by_parameter"
  refData :: "'t kvTextData by_parameter"
  modelData :: "'t kvModelData by_parameter"
  metaData :: "real by_parameter"
  observation :: "'t Observation"
  store_station :: "'s option"
  store_qcx :: string
  flagPosition :: int
  modified :: "(string \<times> nat) list"

text \<open>A station the database does not know is the fixed unknown station, here \<open>None\<close>.\<close>

definition populateStation :: "('t, 'e, 's) store_db \<Rightarrow> 't Observation \<Rightarrow> 's option" where
  "populateStation db' o' = (case db_getStation db' (obs_stationID o') of Inl e \<Rightarrow> None | Inr s \<Rightarrow> Some s)"

text \<open>Both signatures have the requirement, or neither; else they do not match.\<close>

definition both :: "DataRequirement option \<Rightarrow> DataRequirement option \<Rightarrow> 'm \<Rightarrow> (DataRequirement \<Rightarrow> DataRequirement \<Rightarrow> 'e store_error + 'm)
    \<Rightarrow> 'e store_error + 'm" where
  "both abstractReq concreteReq none f =
     (case (abstractReq, concreteReq) of
        (None, None) \<Rightarrow> Inr none
      | (Some a, Some c) \<Rightarrow> f a c
      | _ \<Rightarrow> Inl (UnableToGetData ''check- and algorithm signature does not match''))"

definition mk_DataStore :: "'t::linorder env \<Rightarrow> ('t, 'e, 's) store_db \<Rightarrow> 't Observation \<Rightarrow> string \<Rightarrow> CheckSignature \<Rightarrow> CheckSignature
    \<Rightarrow> 'e store_error + ('t, 's) DataStore" where
  "mk_DataStore env db' o' qcx abstractSig concreteSig =
     res_bind (both (get_requirement abstractSig ''obs'') (get_requirement concreteSig ''obs'') []
         (\<lambda>a c. populateObs env db' o' a c [])) (\<lambda>dat.
     res_bind (both (get_requirement abstractSig ''refobs'') (get_requirement concreteSig ''refobs'') []
         (\<lambda>a c. populateRefObs env db' o' a c [])) (\<lambda>ref.
     res_bind (both (get_requirement abstractSig ''model'') (get_requirement concreteSig ''model'') []
         (\<lambda>a c. populateModel db' a c [])) (\<lambda>models.
     res_bind (both (get_requirement abstractSig ''meta'') (get_requirement concreteSig ''meta'') []
         (\<lambda>a c. case get_requirement concreteSig ''obs'' of
            None \<Rightarrow> Inl NullDereference
          | Some co \<Rightarrow> populateMeta env db' qcx co a c [])) (\<lambda>meta.
     res_bind (lift_error DbError (db_getQcxFlagPosition db' qcx)) (\<lambda>pos.
       Inr \<lparr>store_data = dat, refData = ref, modelData = models, metaData = meta, observation = o',
            store_station = populateStation db' o',
            store_qcx = qcx, flagPosition = pos, modified = []\<rparr>)))))"

section \<open>Results of a script\<close>

datatype CorrectionType = Undefined | Flag | Corrected | Missing

record ScriptResultIdentifier =
  res_parameter :: string
  timeIndex :: int
  stationIndex :: int
  correctionType :: CorrectionType

text \<open>\<open>regex\<close> matches \<^verbatim>\<open>(\w+)_(\d+)_(\d+)_([A-Za-z]+)\<close> and gives the four parts, the numbers converted.\<close>

type_synonym result_regex = "string \<Rightarrow> (string \<times> int \<times> int \<times> string) option"

definition mk_ScriptResultIdentifier :: "result_regex \<Rightarrow> string \<Rightarrow> 'e store_error + ScriptResultIdentifier" where
  "mk_ScriptResultIdentifier regex identifier =
     (case regex identifier of
        None \<Rightarrow> Inl (SyntaxError identifier)
      | Some (p, t, s, c) \<Rightarrow>
          if c = ''flag'' then Inr \<lparr>res_parameter = p, timeIndex = t, stationIndex = s, correctionType = Flag\<rparr>
          else if c = ''corrected'' then Inr \<lparr>res_parameter = p, timeIndex = t, stationIndex = s, correctionType = Corrected\<rparr>
          else if c = ''missing'' then Inr \<lparr>res_parameter = p, timeIndex = t, stationIndex = s, correctionType = Missing\<rparr>
          else Inl (UndefinedCorrectionType c))"

definition show_ScriptResultIdentifier :: "ScriptResultIdentifier \<Rightarrow> string" where
  "show_ScriptResultIdentifier r =
     res_parameter r @ ''_'' @ show_int (timeIndex r) @ ''_'' @ show_int (stationIndex r) @ ''_''
       @ (case correctionType r of Flag \<Rightarrow> ''flag'' | Corrected \<Rightarrow> ''corrected'' | Missing \<Rightarrow> ''missing'' | Undefined \<Rightarrow> ''undefined'')"

text \<open>\<^verbatim>\<open>static_cast<int>\<close> of a \<^verbatim>\<open>double\<close> truncates.\<close>

definition c_trunc :: "real \<Rightarrow> int" where
  "c_trunc x = (if x < 0 then - \<lfloor>- x\<rfloor> else \<lfloor>x\<rfloor>)"

definition setFlag :: "'t kvData \<Rightarrow> int \<Rightarrow> int \<Rightarrow> bool \<Rightarrow> 't kvData \<times> bool" where
  "setFlag d flagIndex newValue regardlessOfOldValue =
     (let ci = controlinfo d; oldValue = flag ci flagIndex in
      if oldValue < newValue \<or> regardlessOfOldValue
      then (d\<lparr>controlinfo := set_flag ci flagIndex newValue\<rparr>, True) else (d, False))"

definition updateCfailed :: "'t kvData \<Rightarrow> string \<Rightarrow> int \<Rightarrow> 't kvData \<times> bool" where
  "updateCfailed d qcx newValue =
     (if newValue > 1
      then (d\<lparr>cfailed := (if cfailed d \<noteq> [] then cfailed d @ '','' else []) @ qcx\<rparr>, True) else (d, False))"

text \<open>The set of modified values holds pointers and is ordered by the values they point to.\<close>

definition deref :: "'t kvData by_parameter \<Rightarrow> string \<times> nat \<Rightarrow> 't kvData" where
  "deref m p = snd (the (map_of m (fst p))) ! snd p"

definition insert_modified :: "'t::linorder kvData by_parameter \<Rightarrow> string \<times> nat \<Rightarrow> (string \<times> nat) list \<Rightarrow> (string \<times> nat) list" where
  "insert_modified m = sset_insert (\<lambda>p q. lt_kvData (deref m p) (deref m q))"

definition put_value :: "string \<Rightarrow> nat \<Rightarrow> 't kvData \<Rightarrow> 't kvData by_parameter \<Rightarrow> 't kvData by_parameter" where
  "put_value k i d m = (case map_of m k of None \<Rightarrow> m | Some (p, xs) \<Rightarrow> smap_put k (p, xs[i := d]) m)"

text \<open>
  The change of one value: the value afterwards and whether it is entered as modified. The value of a flag is
  the truncated result; the comparisons with 2 and 3 are made on the untruncated one.
\<close>

definition modify :: "int \<Rightarrow> string \<Rightarrow> CorrectionType \<Rightarrow> real \<Rightarrow> 't kvData \<Rightarrow> 'e store_error + 't kvData \<times> bool" where
  "modify flagPos qcx ct value d =
     (case ct of
        Flag \<Rightarrow> let (d, m1) = setFlag d flagPos (c_trunc value) False; (d, m2) = updateCfailed d qcx (c_trunc value)
                in Inr (d, m1 \<or> m2)
      | Corrected \<Rightarrow> Inr (d\<lparr>corrected := value\<rparr>, True)
      | Missing \<Rightarrow> let (d, m) = setFlag d 6 (c_trunc value) True
                  in Inr (if value = 2 then d\<lparr>corrected := -32766\<rparr> else if value = 3 then d\<lparr>corrected := -32767\<rparr> else d, True)
      | Undefined \<Rightarrow> Inl UnknownModification)"

text \<open>
  The parameter of the result is converted by the parser of parameters before it is looked up; the index is
  compared as an unsigned number, so a negative one is out of range.
\<close>

definition apply_result :: "param_parser \<Rightarrow> ScriptResultIdentifier \<Rightarrow> real \<Rightarrow> ('t::linorder, 's) DataStore \<Rightarrow> 'e store_error + ('t, 's) DataStore" where
  "apply_result pspirit r value st =
     res_bind (lift_error SignatureError (Parameter_parse pspirit (res_parameter r))) (\<lambda>par.
       case map_of (store_data st) (param_str par) of
         None \<Rightarrow> Inl (InvalidParameter (res_parameter r))
       | Some (p, xs) \<Rightarrow>
           if timeIndex r < 0 \<or> length xs \<le> nat (timeIndex r) then Inl NoSuchData
           else let k = param_str par; i = nat (timeIndex r) in
             res_bind (modify (flagPosition st) (store_qcx st) (correctionType r) value (xs ! i)) (\<lambda>(d, changed).
               let dat = put_value k i d (store_data st)
               in Inr (st\<lparr>store_data := dat,
                         modified := (if changed then insert_modified dat (k, i) (modified st) else modified st)\<rparr>)))"

definition getModified :: "('t, 's) DataStore \<Rightarrow> 't kvData list" where
  "getModified st = map (deref (store_data st)) (modified st)"

section \<open>Input of a script\<close>

record ScriptInput =
  input_name :: string
  numeric :: "(string \<times> real) list"
  numericList :: "(string \<times> real list) list"
  stringList :: "(string \<times> string list) list"

definition new_ScriptInput :: "string \<Rightarrow> ScriptInput" where
  "new_ScriptInput n = \<lparr>input_name = n, numeric = [], numericList = [], stringList = []\<rparr>"

definition add_num :: "string \<Rightarrow> real \<Rightarrow> ScriptInput \<Rightarrow> ScriptInput" where
  "add_num n v i = i\<lparr>numeric := smap_put n v (numeric i)\<rparr>"

definition add_list :: "string \<Rightarrow> real list \<Rightarrow> ScriptInput \<Rightarrow> ScriptInput" where
  "add_list n v i = i\<lparr>numericList := smap_put n v (numericList i)\<rparr>"

definition adds :: "string \<Rightarrow> string list \<Rightarrow> ScriptInput \<Rightarrow> ScriptInput" where
  "adds n v i = i\<lparr>stringList := smap_put n v (stringList i)\<rparr>"

definition have_missing_value :: "int \<Rightarrow> bool" where
  "have_missing_value missingFlag = (missingFlag mod 2 \<noteq> 0)"

text \<open>Minutes from the first time of the list, truncated; \<open>secs\<close> are the seconds between two times.\<close>

definition time_offsets :: "('t \<Rightarrow> 't \<Rightarrow> int) \<Rightarrow> 't list \<Rightarrow> real list" where
  "time_offsets secs ts = map (\<lambda>t. of_int (c_div (secs t (hd ts)) 60)) ts"

definition control_values :: "'t kvData \<Rightarrow> real list" where
  "control_values x = map (\<lambda>i. of_int (flag (controlinfo x) (int i))) [0..<16]"

definition add_obs_param :: "string \<times> Parameter \<times> 't kvData list \<Rightarrow> ScriptInput \<times> nat \<Rightarrow> ScriptInput \<times> nat" where
  "add_obs_param e s =
     (case (e, s) of ((k, p, xs), (input, missingCount)) \<Rightarrow>
        let missing = map (\<lambda>x. flag (controlinfo x) 6) xs; n = baseName p;
            input = add_list n (map original xs) input;
            input = add_list (n @ ''_missing'') (map of_int missing) input;
            input = add_list (n @ ''_controlinfo'') (concat (map control_values xs)) input;
            input = (if xs = [] then input
                     else add_num (n @ ''_level'') (of_int (level (hd xs)))
                       (add_num (n @ ''_sensor'') (of_int (sensor (hd xs)))
                         (add_num (n @ ''_typeid'') (of_int (typeID (hd xs))) input)))
        in (input, missingCount + length (filter have_missing_value missing)))"

definition addObsDataToScript :: "('t \<Rightarrow> 't \<Rightarrow> int) \<Rightarrow> 't kvData by_parameter \<Rightarrow> 'e store_error + ScriptInput" where
  "addObsDataToScript secs obsdata =
     (case obsdata of
        [] \<Rightarrow> Inl NullDereference
      | (k, p, dl) # rest \<Rightarrow>
          let timeoffset = time_offsets secs (map obstime dl);
              (input, missingCount) = fold add_obs_param obsdata (new_ScriptInput ''obs'', 0);
              input = add_num ''obs_numtimes'' (of_nat (length timeoffset)) input;
              input = add_num ''obs_missing'' (of_nat missingCount) input
          in Inr (add_list ''obs_timeoffset'' timeoffset input))"

definition text_missing :: "'t kvTextData \<Rightarrow> bool" where
  "text_missing x = (txt_original x = [] \<or> txt_original x = ''-32767'')"

definition addRefObsDataToScript :: "('t \<Rightarrow> 't \<Rightarrow> int) \<Rightarrow> 't kvTextData by_parameter \<Rightarrow> ScriptInput option" where
  "addRefObsDataToScript secs refobsdata =
     (case refobsdata of
        [] \<Rightarrow> None
      | (k, p, dl) # rest \<Rightarrow>
          let timeoffset = time_offsets secs (map txt_obstime dl);
              input = fold (\<lambda>(k, p, xs) i.
                add_list (baseName p @ ''_missing'') (map (\<lambda>x. if text_missing x then 3 else 0) xs)
                  (adds (baseName p) (map txt_original xs) i)) refobsdata (new_ScriptInput ''refobs'');
              missingCount = sum_list (map (\<lambda>(k, p, xs). length (filter text_missing xs)) refobsdata);
              input = add_num ''refobs_numtimes'' (of_nat (length timeoffset)) input;
              input = add_num ''refobs_missing'' (of_nat missingCount) input
          in Some (add_list ''refobs_timeoffset'' timeoffset input))"

definition addModelDataToScript :: "('t \<Rightarrow> 't \<Rightarrow> int) \<Rightarrow> 't kvModelData by_parameter \<Rightarrow> ScriptInput option" where
  "addModelDataToScript secs modeldata =
     (case modeldata of
        [] \<Rightarrow> None
      | (k, p, dl) # rest \<Rightarrow>
          let timeoffset = time_offsets secs (map md_obstime dl);
              input = fold (\<lambda>(k, p, xs) i.
                add_list (baseName p @ ''_missing'') (map (\<lambda>x. if md_original x = -32767 then 3 else 0) xs)
                  (add_list (baseName p) (map md_original xs) i)) modeldata (new_ScriptInput ''model'');
              missingCount = sum_list (map (\<lambda>(k, p, xs). length (filter (\<lambda>x. md_original x = -32767) xs)) modeldata);
              input = add_num ''model_numtimes'' (of_nat (length timeoffset)) input;
              input = add_num ''model_missing'' (of_nat missingCount) input
          in Some (add_list ''model_timeoffset'' timeoffset input))"

definition addMetaDataToScript :: "real by_parameter \<Rightarrow> ScriptInput option" where
  "addMetaDataToScript metadata =
     (if metadata = [] then None
      else let input = fold (\<lambda>(k, p, xs). add_list (baseName p) xs) metadata (new_ScriptInput ''meta'');
               input = add_num ''meta_numtimes'' 1 input;
               input = add_list ''meta_timeoffset'' [0] input
           in Some (add_num ''meta_missing'' 0 input))"

text \<open>\<open>lat_lon\<close> gives the position of a station (of the unknown station for \<open>None\<close>), \<open>date_time\<close> the date and time of day.\<close>

definition addDataToScript :: "('t \<Rightarrow> 't \<Rightarrow> int) \<Rightarrow> ('s option \<Rightarrow> real \<times> real) \<Rightarrow> ('t \<Rightarrow> real list) \<Rightarrow> ('t, 's) DataStore
    \<Rightarrow> 'e store_error + ScriptInput list" where
  "addDataToScript secs lat_lon date_time st =
     (let general = add_num ''observation_stationid'' (of_int (obs_stationID (observation st))) (new_ScriptInput ''general'');
          general = add_num ''observation_typeid'' (of_int (obs_typeID (observation st))) general;
          general = add_num ''station_latitude'' (fst (lat_lon (store_station st))) general;
          general = add_num ''station_longitude'' (snd (lat_lon (store_station st))) general;
          general = add_list ''obstime'' (date_time (obs_obstime (observation st))) general
      in res_bind (addObsDataToScript secs (store_data st)) (\<lambda>o'.
           Inr ([general, o'] @ List.map_filter (\<lambda>i. i)
             [addRefObsDataToScript secs (refData st), addModelDataToScript secs (modelData st), addMetaDataToScript (metaData st)])))"

section \<open>Running a check\<close>

text \<open>
  The interpreter turns the inputs into an exit code and named numbers, sorted by name. \<open>getInterpreter\<close>
  knows language 1 only.
\<close>

definition getInterpreter :: "'i \<Rightarrow> int \<Rightarrow> 'i option" where
  "getInterpreter perl kvalobsCode = (if kvalobsCode = 1 then Some perl else None)"

definition run_script :: "result_regex \<Rightarrow> param_parser \<Rightarrow> (ScriptInput list \<Rightarrow> int \<times> (string \<times> real) list) \<Rightarrow> ScriptInput list
    \<Rightarrow> ('t::linorder, 's) DataStore \<Rightarrow> 'e store_error + 't kvData list" where
  "run_script regex pspirit interpreter inputs st =
     (case interpreter inputs of (exitCode, ret) \<Rightarrow>
        if exitCode \<noteq> 0 then Inl ScriptFailed
        else res_bind (for_each (\<lambda>(name, value) st.
               res_bind (mk_ScriptResultIdentifier regex name) (\<lambda>r. apply_result pspirit r value st)) ret st) (\<lambda>st.
             Inr (getModified st)))"

section \<open>Lemmas\<close>

abbreviation newest_first :: "('x \<Rightarrow> 't::linorder) \<Rightarrow> 'x list \<Rightarrow> bool" where
  "newest_first obt xs \<equiv> sorted_wrt (\<lambda>x y. obt x > obt y) xs"

lemma insert_missing_simps:
  "insert_missing obt f t [] = [f t]"
  "insert_missing obt f t (x # xs) =
     (if obt x > t then x # insert_missing obt f t xs else if obt x = t then x # xs else f t # x # xs)"
  by (auto simp: insert_missing_def Let_def)

lemma insert_missing_times: "obt (f t) = t \<Longrightarrow> obt ` set (insert_missing obt f t xs) = insert t (obt ` set xs)"
  by (induction xs) (auto simp: insert_missing_simps)

lemma insert_missing_sorted: "obt (f t) = t \<Longrightarrow> newest_first obt xs \<Longrightarrow> newest_first obt (insert_missing obt f t xs)"
proof (induction xs)
  case (Cons x xs)
  have "y \<in> set (insert_missing obt f t xs) \<Longrightarrow> obt y \<in> insert t (obt ` set xs)" for y
    using insert_missing_times [of obt f t xs] Cons.prems(1) by auto
  with Cons show ?case
    by (fastforce simp: insert_missing_simps)
qed (simp add: insert_missing_simps)

lemma insert_missing_subseq: "subseq xs (insert_missing obt f t xs)"
  by (induction xs) (auto simp: insert_missing_simps)

lemma fold_insert_missing:
  assumes "\<And>t. t \<in> set ts \<Longrightarrow> obt (f t) = t" "newest_first obt xs"
  shows "newest_first obt (fold (insert_missing obt f) ts xs)
    \<and> obt ` set (fold (insert_missing obt f) ts xs) = set ts \<union> obt ` set xs
    \<and> subseq xs (fold (insert_missing obt f) ts xs)"
  using assms
proof (induction ts arbitrary: xs)
  case (Cons t ts)
  have "newest_first obt (insert_missing obt f t xs)"
    using Cons.prems by (intro insert_missing_sorted) auto
  from Cons.IH [OF _ this] Cons.prems(1) insert_missing_times [of obt f t xs] insert_missing_subseq [of xs obt f t]
  show ?case by (auto intro: subseq_order.trans)
qed simp

lemma set_insert_time: "set (sset_insert (<) (x :: 't::linorder) s) = insert x (set s)"
  by (induction s) auto

lemma sorted_insert_time: "sorted_wrt (<) s \<Longrightarrow> sorted_wrt (<) (sset_insert (<) (x :: 't::linorder) s)"
  by (induction s) (auto simp: set_insert_time)

lemma times_fold:
  "sorted_wrt (<) s \<Longrightarrow> sorted_wrt (<) (fold (\<lambda>x. sset_insert (<) (obt x :: 't::linorder)) xs s) \<and>
     set (fold (\<lambda>x. sset_insert (<) (obt x)) xs s) = set s \<union> obt ` set xs"
  by (induction xs arbitrary: s) (auto simp: set_insert_time sorted_insert_time)

lemma all_times_fold:
  "sorted_wrt (<) s \<Longrightarrow>
     sorted_wrt (<) (fold (\<lambda>(k, p, xs). fold (\<lambda>x. sset_insert (<) (obt x :: 't::linorder)) xs) m s) \<and>
     set (fold (\<lambda>(k, p, xs). fold (\<lambda>x. sset_insert (<) (obt x)) xs) m s) = set s \<union> (\<Union>(k, p, xs) \<in> set m. obt ` set xs)"
proof (induction m arbitrary: s)
  case (Cons e m)
  obtain k p xs where "e = (k, p, xs)" by (cases e)
  with Cons times_fold [OF Cons.prems, of obt xs] show ?case by auto
qed simp

lemma all_times_set:
  "sorted_wrt (<) (all_times obt m)" "set (all_times obt m) = (\<Union>(k, p, xs) \<in> set m. obt ` set xs)"
  using all_times_fold [of "[]" obt m] by (simp_all add: all_times_def)

lemma fill_list_times:
  assumes "xs \<noteq> []" "newest_first obt xs" "sorted_wrt (<) ts" "obt ` set xs \<subseteq> set ts"
    "\<And>t. t \<in> set ts \<Longrightarrow> obt (factory (hd xs) t) = t"
  shows "map obt (fill_list obt factory ts xs) = rev ts \<and> subseq xs (fill_list obt factory ts xs)"
proof -
  let ?r = "fill_list obt factory ts xs"
  have r: "newest_first obt ?r" "obt ` set ?r = set ts" "subseq xs ?r"
    using fold_insert_missing [of "rev ts" obt "factory (hd xs)" xs] assms
    by (auto simp: fill_list_def)
  have "sorted_wrt (<) (rev (map obt ?r))"
    using r(1) by (simp add: sorted_wrt_rev sorted_wrt_map)
  moreover have "set (rev (map obt ?r)) = set ts"
    using r(2) by simp
  ultimately have "rev (map obt ?r) = ts"
    using strict_sorted_equal assms(3) by blast
  with r(3) show ?thesis by (metis rev_rev_ident)
qed

lemma fill_all_spec:
  assumes "\<And>k p xs. (k, p, xs) \<in> set m \<Longrightarrow> xs \<noteq> [] \<and> newest_first obt xs \<and> obt ` set xs \<subseteq> set ts"
    "sorted_wrt (<) ts" "\<And>x t. t \<in> set ts \<Longrightarrow> obt (factory x t) = t"
  shows "\<exists>m'. fill_all obt factory ts m = (Inr m' :: 'e store_error + _) \<and>
    list_all2 (\<lambda>(k, p, xs) (k', p', xs'). k' = k \<and> p' = p \<and> map obt xs' = rev ts \<and> subseq xs xs') m m'"
  using assms(1)
proof (induction m)
  case (Cons e m)
  obtain k p xs where e: "e = (k, p, xs)" by (cases e)
  obtain m' where m': "fill_all obt factory ts m = (Inr m' :: 'e store_error + _)"
      "list_all2 (\<lambda>(k, p, xs) (k', p', xs'). k' = k \<and> p' = p \<and> map obt xs' = rev ts \<and> subseq xs xs') m m'"
    using Cons by fastforce
  have "xs \<noteq> []" "map obt (fill_list obt factory ts xs) = rev ts \<and> subseq xs (fill_list obt factory ts xs)"
    using Cons.prems [of k p xs] fill_list_times [of xs obt ts factory] assms(2,3) by (simp_all add: e)
  with m' show ?case by (simp add: e)
qed simp

lemma data_factory_obstime: "\<not> nadt t \<Longrightarrow> obstime (data_factory nadt n d t) = t"
  by (simp add: data_factory_def factory_getMissing_def factory_getData_def kvData_set_def Let_def)

lemma map_of_put_value:
  "map_of m k = Some (p, xs) \<Longrightarrow> map_of (put_value k i d m) = (map_of m)(k \<mapsto> (p, xs[i := d]))"
  by (simp add: put_value_def)

lemma modify_flag:
  assumes "wf_flag (controlinfo d)" "0 \<le> pos" "pos < 16" "0 \<le> c_trunc value" "c_trunc value < 16"
  shows "\<exists>d' b. modify pos qcx Flag value d = (Inr (d', b) :: 'e store_error + _)
    \<and> (\<forall>j. 0 \<le> j \<and> j < 16 \<longrightarrow> flag (controlinfo d') j =
         (if j = pos then max (flag (controlinfo d) pos) (c_trunc value) else flag (controlinfo d) j))
    \<and> d' = d\<lparr>controlinfo := controlinfo d', cfailed := cfailed d'\<rparr>
    \<and> cfailed d' = (if c_trunc value > 1 then (if cfailed d \<noteq> [] then cfailed d @ '','' else []) @ qcx else cfailed d)
    \<and> (b \<longleftrightarrow> d' \<noteq> d \<or> c_trunc value > 1)"
proof -
  have legal: "legal (c_trunc value)" using assms(4,5) by (simp add: legal_def)
  have "flag (controlinfo d) pos < c_trunc value \<Longrightarrow>
      controlinfo d \<noteq> set_flag (controlinfo d) pos (c_trunc value)"
    using flag_set_flag [OF assms(1-3) assms(2,3), of "c_trunc value"] legal by auto
  then show ?thesis
    using flag_set_flag [OF assms(1-3), where v = "c_trunc value"] legal
    by (auto simp: modify_def setFlag_def updateCfailed_def Let_def max_def dest: arg_cong [where f = controlinfo])
qed

section \<open>Properties\<close>

text \<open>
  When every parameter has at least one value and its values come with the newest first, filling in the
  missing ones succeeds and gives all parameters the same times: all times of any parameter, newest first. No
  value is lost or moved.
\<close>

theorem fill_missing_common_times:
  assumes "\<forall>(k, p, xs) \<in> set m. xs \<noteq> [] \<and> sorted_wrt (\<lambda>x y. obstime x > obstime y) xs \<and> (\<forall>x \<in> set xs. \<not> nadt (obstime x))"
  shows "\<exists>m'. fillMissing obstime (data_factory nadt n) m = (Inr m' :: 'e store_error + 't::linorder kvData by_parameter) \<and>
    list_all2 (\<lambda>(k, p, xs) (k', p', xs'). k' = k \<and> p' = p \<and> map obstime xs' = rev (all_times obstime m) \<and> subseq xs xs') m m'"
  unfolding fillMissing_def
proof (rule fill_all_spec)
  show "sorted_wrt (<) (all_times obstime m)" by (rule all_times_set(1))
  show "xs \<noteq> [] \<and> newest_first obstime xs \<and> obstime ` set xs \<subseteq> set (all_times obstime m)"
    if "(k, p, xs) \<in> set m" for k p xs
    using that assms unfolding all_times_set(2) by fastforce
  show "obstime (data_factory nadt n x t) = t" if "t \<in> set (all_times obstime m)" for x t
  proof (rule data_factory_obstime)
    show "\<not> nadt t" using that assms unfolding all_times_set(2) by fastforce
  qed
qed

lemma fill_missing_common_times_witness:
  "\<exists>m'. fillMissing obstime (data_factory (\<lambda>t. False) 0)
       [(''X'', new_Parameter, [(row 211 1)\<lparr>obstime := 20\<rparr>, row 211 2]), (''Y'', new_Parameter, [row 262 3])]
     = (Inr m' :: unit store_error + nat kvData by_parameter) \<and> map (\<lambda>(k, p, xs). map obstime xs) m' = [[20, 10], [20, 10]]"
proof -
  let ?m = "[(''X'', new_Parameter, [(row 211 1)\<lparr>obstime := 20\<rparr>, row 211 2]), (''Y'', new_Parameter, [row 262 3])]"
  have "\<forall>(k, p, xs) \<in> set ?m. xs \<noteq> [] \<and> sorted_wrt (\<lambda>x y. obstime x > obstime y) xs \<and> (\<forall>x \<in> set xs. \<not> False)"
    by (simp add: row_def)
  from fill_missing_common_times [OF this, of 0, where 'e = unit]
  obtain m' where m': "fillMissing obstime (data_factory (\<lambda>t. False) 0) ?m = (Inr m' :: unit store_error + nat kvData by_parameter)"
      "list_all2 (\<lambda>(k, p, xs) (k', p', xs'). k' = k \<and> p' = p \<and> map obstime xs' = rev (all_times obstime ?m) \<and> subseq xs xs') ?m m'"
    by (elim exE conjE)
  have "all_times obstime ?m = [10, 20]"
    by (simp add: all_times_def row_def)
  then have "map (\<lambda>(k, p, xs). map obstime xs) m' = [[20, 10], [20, 10]]"
    using m'(2) by (auto simp: list_all2_Cons1)
  with m'(1) show ?thesis by (intro exI [of _ m'] conjI)
qed

text \<open>
  A flag that a script returns for a value in the store raises the flag of the check to it and never
  lowers it, touches no other flag, value or parameter, and enters the check in the list of failed checks
  exactly when it is above 1.
\<close>

theorem apply_flag_raises:
  assumes "Parameter_parse pspirit (res_parameter r) = Inr par" "map_of (store_data st) (param_str par) = Some (p, xs)"
    "0 \<le> timeIndex r" "nat (timeIndex r) < length xs" "correctionType r = Flag"
    "wf_flag (controlinfo (xs ! nat (timeIndex r)))" "0 \<le> flagPosition st" "flagPosition st < 16"
    "0 \<le> c_trunc value" "c_trunc value < 16"
  shows "\<exists>st' d'. apply_result pspirit r value st = (Inr st' :: 'e store_error + ('t::linorder, 's) DataStore)
    \<and> map_of (store_data st') = (map_of (store_data st))(param_str par \<mapsto> (p, xs[nat (timeIndex r) := d']))
    \<and> (let d = xs ! nat (timeIndex r) in
        d' = d\<lparr>controlinfo := controlinfo d', cfailed := cfailed d'\<rparr>
        \<and> (\<forall>j. 0 \<le> j \<and> j < 16 \<longrightarrow> flag (controlinfo d') j =
             (if j = flagPosition st then max (flag (controlinfo d) j) (c_trunc value) else flag (controlinfo d) j))
        \<and> cfailed d' = (if c_trunc value > 1 then (if cfailed d \<noteq> [] then cfailed d @ '','' else []) @ store_qcx st else cfailed d)
        \<and> (d' = d \<longrightarrow> c_trunc value \<le> 1 \<longrightarrow> modified st' = modified st))"
proof -
  let ?d = "xs ! nat (timeIndex r)"
  obtain d' b where m: "modify (flagPosition st) (store_qcx st) Flag value ?d = (Inr (d', b) :: 'e store_error + _)"
      "\<forall>j. 0 \<le> j \<and> j < 16 \<longrightarrow> flag (controlinfo d') j =
         (if j = flagPosition st then max (flag (controlinfo ?d) (flagPosition st)) (c_trunc value) else flag (controlinfo ?d) j)"
      "d' = ?d\<lparr>controlinfo := controlinfo d', cfailed := cfailed d'\<rparr>"
      "cfailed d' = (if c_trunc value > 1 then (if cfailed ?d \<noteq> [] then cfailed ?d @ '','' else []) @ store_qcx st else cfailed ?d)"
      "b \<longleftrightarrow> d' \<noteq> ?d \<or> c_trunc value > 1"
    using modify_flag [OF assms(6-10), of "store_qcx st", where 'e = 'e] by (elim exE conjE)
  let ?k = "param_str par" and ?i = "nat (timeIndex r)"
  let ?dat = "put_value ?k ?i d' (store_data st)"
  let ?st' = "st\<lparr>store_data := ?dat, modified := (if b then insert_modified ?dat (?k, ?i) (modified st) else modified st)\<rparr>"
  have "apply_result pspirit r value st = (Inr ?st' :: 'e store_error + ('t, 's) DataStore)"
    using assms(1-5) m(1) by (simp add: apply_result_def lift_error_def Let_def)
  moreover have "map_of (store_data ?st') = (map_of (store_data st))(?k \<mapsto> (p, xs[?i := d']))"
    using map_of_put_value [OF assms(2)] by simp
  moreover have "d' = ?d \<longrightarrow> c_trunc value \<le> 1 \<longrightarrow> modified ?st' = modified st"
    using m(5) by auto
  ultimately show ?thesis
    using m(2,3,4) unfolding Let_def by (intro exI [of _ ?st'] exI [of _ d'] conjI) (simp_all del: fun_upd_apply)
qed

lemma apply_flag_raises_witness:
  "\<exists>st' d'. apply_result (\<lambda>s. Some (s, None, None, None))
      \<lparr>res_parameter = ''X'', timeIndex = 0, stationIndex = 0, correctionType = Flag\<rparr> 4
      \<lparr>store_data = [(''X'', new_Parameter, [row 211 1])], refData = [], modelData = [], metaData = [],
       observation = \<lparr>obs_id = 1, obs_stationID = 1, obs_typeID = 4, obs_obstime = 10, obs_tbtime = 11\<rparr>, store_station = Some (),
       store_qcx = ''QC1-1'', flagPosition = 1, modified = []\<rparr> = (Inr st' :: unit store_error + (nat, unit) DataStore)
     \<and> map_of (store_data st') ''X'' = Some (new_Parameter, [d']) \<and> cfailed d' = ''QC1-1''"
proof -
  let ?pp = "\<lambda>s. Some (s, None, None, None)"
  let ?r = "\<lparr>res_parameter = ''X'', timeIndex = 0, stationIndex = 0, correctionType = Flag\<rparr>"
  let ?st = "\<lparr>store_data = [(''X'', new_Parameter, [row 211 1])], refData = [], modelData = [], metaData = [],
       observation = \<lparr>obs_id = 1, obs_stationID = 1, obs_typeID = 4, obs_obstime = 10, obs_tbtime = 11\<rparr>, store_station = Some (),
       store_qcx = ''QC1-1'', flagPosition = 1, modified = []\<rparr> :: (nat, unit) DataStore"
  let ?par = "new_Parameter\<lparr>baseName := ''X''\<rparr>"
  have par: "Parameter_parse ?pp (res_parameter ?r) = Inr ?par" "param_str ?par = ''X''"
    by (simp_all add: Parameter_parse_def new_Parameter_def given_def param_str_def haveLevel_def haveSensor_def haveType_def)
  have v: "c_trunc 4 = 4" by (simp add: c_trunc_def)
  have h: "map_of (store_data ?st) (param_str ?par) = Some (new_Parameter, [row 211 1])" "0 \<le> timeIndex ?r"
      "nat (timeIndex ?r) < length [row 211 1]" "correctionType ?r = Flag"
      "wf_flag (controlinfo ([row 211 1] ! nat (timeIndex ?r)))" "0 \<le> flagPosition ?st" "flagPosition ?st < 16"
      "0 \<le> c_trunc 4" "c_trunc 4 < 16"
    by (simp_all add: par(2) v row_def)
  have "controlinfo (row 211 1) = clear_flag" "cfailed (row 211 1) = []"
    by (simp_all add: row_def)
  with apply_flag_raises [OF par(1) h, where 'e = unit] show ?thesis
    unfolding par(2) v Let_def by fastforce
qed

text \<open>
  A check without a requirement for observations cannot be run: the script input is built from the first
  observed parameter, which does not exist, and a check with metadata then uses a requirement that is not there.
\<close>

theorem check_without_obs:
  assumes "get_requirement abstractSig ''obs'' = None" "get_requirement concreteSig ''obs'' = None"
    "mk_DataStore env db' o' qcx abstractSig concreteSig = (r :: 'e store_error + ('t::linorder, 's) DataStore)"
  shows "(\<forall>st. r = Inr st \<longrightarrow> addDataToScript secs lat_lon date_time st = (Inl NullDereference :: 'e store_error + _))
    \<and> (get_requirement abstractSig ''refobs'' = None \<and> get_requirement concreteSig ''refobs'' = None
       \<and> get_requirement abstractSig ''model'' = None \<and> get_requirement concreteSig ''model'' = None
       \<and> get_requirement abstractSig ''meta'' \<noteq> None \<and> get_requirement concreteSig ''meta'' \<noteq> None \<longrightarrow> r = Inl NullDereference)"
proof
  show "\<forall>st. r = Inr st \<longrightarrow> addDataToScript secs lat_lon date_time st = (Inl NullDereference :: 'e store_error + _)"
  proof (intro allI impI)
    fix st assume "r = Inr st"
    then have "store_data st = []"
      using assms by (auto simp: mk_DataStore_def both_def res_bind_Inr_iff)
    then show "addDataToScript secs lat_lon date_time st = (Inl NullDereference :: 'e store_error + _)"
      by (simp add: addDataToScript_def addObsDataToScript_def Let_def)
  qed
qed (use assms in \<open>auto simp: mk_DataStore_def both_def\<close>)

lemma check_without_obs_witness:
  "mk_DataStore \<lparr>now = 0, not_a_date_time = 0, is_not_a_date_time = (\<lambda>t. False), meta_lower = (\<lambda>s. s), meta_split = (\<lambda>s. []),
        meta_float = (\<lambda>s. None)\<rparr>
      (\<lparr>db_getData = (\<lambda>p t. Inr []), db_getTextData = (\<lambda>p t. Inr []), db_getModelData = (\<lambda>p t. Inr []),
        db_getStationParamAll = (\<lambda>p q. Inr []), db_getStation = (\<lambda>i. Inr ()), db_getQcxFlagPosition = (\<lambda>q. Inr 1)\<rparr> :: (nat, unit, unit) store_db)
      \<lparr>obs_id = 1, obs_stationID = 1, obs_typeID = 1, obs_obstime = 5, obs_tbtime = 6\<rparr> ''QC1-1''
      [(''meta'', new_DataRequirement False)] [(''meta'', new_DataRequirement True)] = Inl NullDereference"
  using check_without_obs [OF _ _ refl, of "[(''meta'', new_DataRequirement False)]" "[(''meta'', new_DataRequirement True)]"
      "\<lparr>now = 0, not_a_date_time = 0, is_not_a_date_time = (\<lambda>t. False), meta_lower = (\<lambda>s. s), meta_split = (\<lambda>s. []),
        meta_float = (\<lambda>s. None)\<rparr>"
      "\<lparr>db_getData = (\<lambda>p t. Inr []), db_getTextData = (\<lambda>p t. Inr []), db_getModelData = (\<lambda>p t. Inr []),
        db_getStationParamAll = (\<lambda>p q. Inr []), db_getStation = (\<lambda>i. Inr ()), db_getQcxFlagPosition = (\<lambda>q. Inr 1)\<rparr> :: (nat, unit, unit) store_db"
      "\<lparr>obs_id = 1, obs_stationID = 1, obs_typeID = 1, obs_obstime = 5, obs_tbtime = 6\<rparr>" "''QC1-1''"]
  by (simp add: get_requirement_def)

end
