(* ===== verification/Qa_Runner.thy ===== *)
theory Qa_Runner
  imports Qa_Store
begin

text \<open>
  The run of all checks on one observation (\<^verbatim>\<open>src/kvQabased/src/CheckRunner.cpp\<close>): which checks run, the reset
  of the flags, the loop over the checks inside a transaction that is rolled back unless it is committed, and
  the retries of the whole run. Attempts of a run are numbered; what an attempt comes to is a function of its
  number. Exceptions are values of \<open>check_exn\<close>.
\<close>

section \<open>Retries\<close>

datatype ('r, 'x) outcome = Done 'r | SerializeError | Aborted | Failed 'x

datatype ('r, 'x) observation_result = Returned 'r | TooManySerializeErrors | ThrownSerialize | ThrownAborted | Thrown 'x

text \<open>At most 256 attempts as long as the database reports serialization errors; the number of attempts made so far is carried.\<close>

datatype ('r, 'x) inner = Finish "('r, 'x) observation_result" | Retry

fun serialize_loop :: "(nat \<Rightarrow> ('r, 'x) outcome) \<Rightarrow> nat \<Rightarrow> nat \<Rightarrow> ('r, 'x) inner \<times> nat" where
  "serialize_loop attempt 0 n = (Finish TooManySerializeErrors, n)"
| "serialize_loop attempt (Suc i) n =
     (case attempt n of
        Done r \<Rightarrow> (Finish (Returned r), n + 1)
      | SerializeError \<Rightarrow> serialize_loop attempt i (n + 1)
      | Aborted \<Rightarrow> (Retry, n + 1)
      | Failed x \<Rightarrow> (Finish (Thrown x), n + 1))"

text \<open>The two nested loops of three rounds each are nine rounds; a round that was aborted is followed by the next.\<close>

fun abort_loop :: "(nat \<Rightarrow> ('r, 'x) outcome) \<Rightarrow> nat \<Rightarrow> nat \<Rightarrow> ('r, 'x) observation_result \<times> nat" where
  "abort_loop attempt 0 n =
     ((case attempt n of Done r \<Rightarrow> Returned r | SerializeError \<Rightarrow> ThrownSerialize | Aborted \<Rightarrow> ThrownAborted | Failed x \<Rightarrow> Thrown x), n + 1)"
| "abort_loop attempt (Suc k) n =
     (case serialize_loop attempt 256 n of
        (Finish r, n') \<Rightarrow> (r, n')
      | (Retry, n') \<Rightarrow> abort_loop attempt k n')"

definition shouldRunAnyChecks :: "'t Observation \<Rightarrow> bool" where
  "shouldRunAnyChecks o' = (obs_typeID o' > 0)"

text \<open>Without checks the message is completed from the database; the result is the message and the number of attempts.\<close>

definition newObservation :: "'t Observation \<Rightarrow> ('r, 'x) outcome \<Rightarrow> (nat \<Rightarrow> ('r, 'x) outcome) \<Rightarrow> ('r, 'x) observation_result \<times> nat" where
  "newObservation o' completed attempt =
     (if \<not> shouldRunAnyChecks o'
      then ((case completed of Done r \<Rightarrow> Returned r | SerializeError \<Rightarrow> ThrownSerialize | Aborted \<Rightarrow> ThrownAborted | Failed x \<Rightarrow> Thrown x), 0)
      else abort_loop attempt 9 0)"

section \<open>Which checks run\<close>

record kvChecks =
  check_qcx :: string
  checkname :: string
  checksignature :: string
  check_active :: string

definition isShip :: "'t kvStationInfo \<Rightarrow> bool" where
  "isShip o' = (si_stationID o' > 10000000)"

definition signatureMatchesExpectedParameters :: "CheckSignature \<Rightarrow> string list \<Rightarrow> bool" where
  "signatureMatchesExpectedParameters sig expectedParameters =
     (case get_requirement sig ''obs'' of
        Some obsReq \<Rightarrow> list_ex (\<lambda>p. baseName p \<in> set expectedParameters) (parameter obsReq)
      | None \<Rightarrow> True)"

text \<open>\<open>cron\<close> says whether the check's cron string is active at the time of the observation; \<open>parse\<close> reads a signature.\<close>

definition shouldRunCheck :: "string list \<Rightarrow> (string \<Rightarrow> bool) \<Rightarrow> (string \<Rightarrow> sig_error + CheckSignature) \<Rightarrow> 't kvStationInfo \<Rightarrow> kvChecks
    \<Rightarrow> string list \<Rightarrow> sig_error + bool" where
  "shouldRunCheck qcxFilter cron parse o' check expectedParameters =
     (if qcxFilter \<noteq> [] \<and> check_qcx check \<notin> set qcxFilter then Inr False
      else if \<not> cron (check_active check) then Inr False
      else if \<not> isShip o' then
        res_bind (parse (checksignature check)) (\<lambda>sig. Inr (signatureMatchesExpectedParameters sig expectedParameters))
      else Inr True)"

definition hasAnyParametersRequiredByCheck :: "CheckSignature \<Rightarrow> string list \<Rightarrow> bool" where
  "hasAnyParametersRequiredByCheck sig parametersInData =
     (case get_requirement sig ''obs'' of
        Some obsReq \<Rightarrow> list_ex (haveParameter obsReq) parametersInData
      | None \<Rightarrow> True)"

section \<open>Reset of flags\<close>

definition reset_flags :: "kvControlInfo \<Rightarrow> kvControlInfo" where
  "reset_flags oldCi =
     (let newCi = set_flag clear_flag (cval F_fagg) (flag oldCi (cval F_fagg));
          newCi = set_flag newCi (cval F_fmis) (flag oldCi (cval F_fmis));
          newCi = set_flag newCi (cval F_fd) (flag oldCi (cval F_fd))
      in if flag oldCi (cval F_fpre) = 7 then set_flag newCi (cval F_fpre) 7 else newCi)"

definition reset_value :: "'t kvData \<Rightarrow> 't kvData" where
  "reset_value d =
     (let newCi = reset_flags (controlinfo d)
      in d\<lparr>controlinfo := newCi, useinfo := setUseFlags (useinfo d) newCi\<rparr>)"

definition resetObservationDataFlags :: "'t kvData list \<Rightarrow> 't kvData list" where
  "resetObservationDataFlags = map reset_value"

definition resetCFailed :: "'t kvData list \<Rightarrow> 't kvData list" where
  "resetCFailed = map (\<lambda>d. d\<lparr>cfailed := []\<rparr>)"

definition haveAnyHqcCorrectedElements :: "'t kvData list \<Rightarrow> bool" where
  "haveAnyHqcCorrectedElements = list_ex hqc_touched"

section \<open>One run of the checks\<close>

datatype 'e check_exn = BadAlloc | NoErrorLog | SQLException 'e | StdException

text \<open>New use flags for the values a script has modified.\<close>

definition new_useinfo :: "'t kvData \<Rightarrow> 't kvData" where
  "new_useinfo d = d\<lparr>useinfo := setUseFlags (useinfo d) (controlinfo d)\<rparr>"

text \<open>
  The body of the loop: the signature is read, the check is run when it has parameters and should run, and its
  modifications are written. \<open>script\<close> is the construction and run of the check against the current state.
\<close>

definition check_body :: "(string \<Rightarrow> sig_error + CheckSignature) \<Rightarrow> (kvChecks \<Rightarrow> sig_error + bool) \<Rightarrow> string list
    \<Rightarrow> (kvChecks \<Rightarrow> ('t::linorder, 'db) DelayedSave \<Rightarrow> 'e check_exn + 't kvData list) \<Rightarrow> kvChecks
    \<Rightarrow> ('t, 'db) DelayedSave \<Rightarrow> 'e check_exn + ('t, 'db) DelayedSave" where
  "check_body parse should parametersInData script check s =
     (case parse (checksignature check) of
        Inl e \<Rightarrow> Inl StdException
      | Inr sig \<Rightarrow>
          if hasAnyParametersRequiredByCheck sig parametersInData then
            (case should check of
               Inl e \<Rightarrow> Inl StdException
             | Inr b \<Rightarrow> if b then res_bind (script check s) (\<lambda>modifications. Inr (delayed_write (map new_useinfo modifications) s))
                        else Inr s)
          else Inr s)"

fun run_checks :: "(kvChecks \<Rightarrow> ('t, 'db) DelayedSave \<Rightarrow> 'e check_exn + ('t, 'db) DelayedSave) \<Rightarrow> kvChecks list
    \<Rightarrow> ('t, 'db) DelayedSave \<Rightarrow> 'e check_exn + ('t, 'db) DelayedSave" where
  "run_checks body [] s = Inr s"
| "run_checks body (check # checks) s =
     (case body check s of
        Inl BadAlloc \<Rightarrow> Inl BadAlloc
      | Inl NoErrorLog \<Rightarrow> run_checks body checks s
      | Inl (SQLException e) \<Rightarrow> Inl (SQLException e)
      | Inl StdException \<Rightarrow> run_checks body checks s
      | Inr s' \<Rightarrow> run_checks body checks s')"

text \<open>
  The data of the observation: for every expected parameter the rows of the observation's type, and the names
  of the parameters that have any.
\<close>

definition fetch_step :: "(string \<Rightarrow> 'e + 't kvData list) \<Rightarrow> int \<Rightarrow> string \<Rightarrow> string list \<times> 't kvData list \<Rightarrow> 'e check_exn + string list \<times> 't kvData list" where
  "fetch_step getData typ par acc =
     (case getData par of
        Inl e \<Rightarrow> Inl (SQLException e)
      | Inr rows \<Rightarrow>
          let d = filter (\<lambda>x. typeID x = typ) rows
          in Inr (if d \<noteq> [] then (sset_insert (<) par (fst acc), snd acc @ d) else acc))"

text \<open>The state of the database and the outcome of its transaction.\<close>

record ('t, 'db, 'e, 'm) run_db =
  begin_tx :: "'db \<Rightarrow> 'e + 'db"
  pin :: "'db \<Rightarrow> 'e + bool"
  get_checks :: "'db \<Rightarrow> 'e + kvChecks list"
  get_parameters :: "'db \<Rightarrow> 'e + string list"
  get_data :: "'db \<Rightarrow> string \<Rightarrow> 'e + 't kvData list"
  complete_msg :: "'db \<Rightarrow> 't kvData list \<Rightarrow> 'e + 'm"
  write_tx :: "'t kvData list \<Rightarrow> 'db \<Rightarrow> 'e + 'db"
  commit_tx :: "'db \<Rightarrow> 'e + 'db"
  rollback_tx :: "'db \<Rightarrow> 'e + 'db"

definition sql :: "'e + 'a \<Rightarrow> 'e check_exn + 'a" where
  "sql r = (case r of Inl e \<Rightarrow> Inl (SQLException e) | Inr x \<Rightarrow> Inr x)"

text \<open>
  Everything between the start of the transaction and its end: the message, the state, and whether the
  transaction is to be committed. \<open>qcxFilter\<close> is the set of checks asked for, empty for all; \<open>cron\<close>, \<open>parse\<close> and
  \<open>script\<close> are as above.
\<close>

definition check_in_tx :: "('t::linorder, 'db, 'e, 'm) run_db \<Rightarrow> string list \<Rightarrow> (string \<Rightarrow> bool) \<Rightarrow> (string \<Rightarrow> sig_error + CheckSignature)
    \<Rightarrow> (kvChecks \<Rightarrow> ('t, 'db) DelayedSave \<Rightarrow> 'e check_exn + 't kvData list) \<Rightarrow> 't Observation
    \<Rightarrow> ('t, 'db) DelayedSave \<Rightarrow> 'e check_exn + 'm option \<times> ('t, 'db) DelayedSave \<times> bool" where
  "check_in_tx d qcxFilter cron parse script o' s =
     res_bind (sql (pin d (db s))) (\<lambda>pinned.
     if \<not> pinned then Inr (None, s, False) else
     res_bind (sql (get_checks d (db s))) (\<lambda>checkList.
     res_bind (sql (get_parameters d (db s))) (\<lambda>expectedParameters.
     res_bind (for_each (fetch_step (\<lambda>par. delayed_getData s (get_data d (db s) par)) (obs_typeID o')) expectedParameters ([], []))
       (\<lambda>(parametersInData, observationData).
     if haveAnyHqcCorrectedElements observationData then
       res_bind (sql (complete_msg d (db s) observationData)) (\<lambda>msg. Inr (Some msg, s, False))
     else
       let s1 = (if qcxFilter = [] then delayed_write (resetCFailed (resetObservationDataFlags observationData)) s else s);
           should = (\<lambda>check. shouldRunCheck qcxFilter cron parse (stationInfo o') check expectedParameters) in
       res_bind (run_checks (check_body parse should parametersInData script) checkList s1) (\<lambda>s2.
       res_bind (sql (complete_msg d (db s2) (savedData s2))) (\<lambda>msg. Inr (Some msg, s2, True)))))))"

text \<open>The destructor rolls back what was not committed; a failing roll-back is only logged.\<close>

definition auto_rollback :: "('t, 'db, 'e, 'm) run_db \<Rightarrow> ('t, 'db) DelayedSave \<Rightarrow> 'db" where
  "auto_rollback d s = (case delayed_rollback (rollback_tx d) s of Inl e \<Rightarrow> db s | Inr s' \<Rightarrow> db s')"

text \<open>The state in which a failing commit leaves the database: the values may have been written.\<close>

definition failed_commit :: "('t, 'db, 'e, 'm) run_db \<Rightarrow> ('t, 'db) DelayedSave \<Rightarrow> ('t, 'db) DelayedSave" where
  "failed_commit d s =
     (if savedData s = [] then s else case write_tx d (savedData s) (db s) of Inl e \<Rightarrow> s | Inr d' \<Rightarrow> s\<lparr>db := d'\<rparr>)"

definition checkObservation :: "('t::linorder, 'db, 'e, 'm) run_db \<Rightarrow> string list \<Rightarrow> (string \<Rightarrow> bool) \<Rightarrow> (string \<Rightarrow> sig_error + CheckSignature)
    \<Rightarrow> (kvChecks \<Rightarrow> ('t, 'db) DelayedSave \<Rightarrow> 'e check_exn + 't kvData list) \<Rightarrow> 't Observation
    \<Rightarrow> 'db \<Rightarrow> ('e check_exn + 'm option) \<times> 'db" where
  "checkObservation d qcxFilter cron parse script o' d0 =
     (case begin_tx d d0 of
        Inl e \<Rightarrow> (Inl (SQLException e), d0)
      | Inr d1 \<Rightarrow>
          let s1 = \<lparr>savedData = [], db = d1\<rparr> in
          (case check_in_tx d qcxFilter cron parse script o' s1 of
             Inl x \<Rightarrow> (Inl x, auto_rollback d s1)
           | Inr (msg, s, toCommit) \<Rightarrow>
               if toCommit then
                 (case delayed_commit (write_tx d) (commit_tx d) s of
                    Inl e \<Rightarrow> (Inl (SQLException e), auto_rollback d (failed_commit d s))
                  | Inr s' \<Rightarrow> (Inr msg, db s'))
               else (Inr msg, auto_rollback d s)))"

section \<open>Lemmas: retries\<close>

lemma serialize_loop_skip:
  "(\<And>m. n \<le> m \<Longrightarrow> m < n + j \<Longrightarrow> attempt m = SerializeError) \<Longrightarrow>
     serialize_loop attempt (j + i) n = serialize_loop attempt i (n + j)"
proof (induction j arbitrary: n)
  case (Suc j)
  have "attempt n = SerializeError" using Suc.prems [of n] by simp
  moreover have "serialize_loop attempt (j + i) (n + 1) = serialize_loop attempt i (n + 1 + j)"
    using Suc.prems by (intro Suc.IH) simp
  ultimately show ?case by simp
qed simp

lemma serialize_loop_bound: "snd (serialize_loop attempt i n) \<le> n + i"
proof (induction i arbitrary: n)
  case (Suc i)
  have "snd (serialize_loop attempt i (n + 1)) \<le> n + Suc i"
    using Suc.IH [of "n + 1"] by simp
  then show ?case by (simp split: outcome.split)
qed simp

lemma abort_loop_bound: "snd (abort_loop attempt k n) \<le> n + 256 * k + 1"
proof (induction k arbitrary: n)
  case (Suc k)
  obtain r n' where l: "serialize_loop attempt 256 n = (r, n')" by fastforce
  then have "n' \<le> n + 256" using serialize_loop_bound [of attempt 256 n] by simp
  with l Suc.IH [of n'] show ?case by (cases r) auto
qed simp

abbreviation tries :: "(nat \<Rightarrow> ('r, 'x) outcome) \<Rightarrow> ('r, 'x) outcome \<Rightarrow> nat \<Rightarrow> nat \<Rightarrow> nat set" where
  "tries attempt x a b \<equiv> {m. a \<le> m \<and> m < b \<and> attempt m = x}"

lemma abort_loop_returns:
  assumes "attempt n = Done r" "\<And>m. m < n \<Longrightarrow> attempt m = SerializeError \<or> attempt m = Aborted" "a \<le> n"
    "card (tries attempt Aborted a n) < k" "card (tries attempt SerializeError 0 n) < 256"
  shows "abort_loop attempt k a = (Returned r, n + 1)"
  using assms(3,4)
proof (induction k arbitrary: a)
  case (Suc k)
  define b where "b = (LEAST m. a \<le> m \<and> attempt m \<noteq> SerializeError)"
  have ex: "a \<le> n \<and> attempt n \<noteq> SerializeError" using assms(1) Suc.prems(1) by simp
  have b: "a \<le> b \<and> attempt b \<noteq> SerializeError" "b \<le> n"
    using LeastI [of "\<lambda>m. a \<le> m \<and> attempt m \<noteq> SerializeError" n] Least_le [of "\<lambda>m. a \<le> m \<and> attempt m \<noteq> SerializeError" n] ex
    by (simp_all add: b_def)
  have ser: "attempt m = SerializeError" if "a \<le> m" "m < b" for m
    using not_less_Least [of m "\<lambda>m. a \<le> m \<and> attempt m \<noteq> SerializeError"] that by (auto simp: b_def)
  have "card {a..<b} \<le> card (tries attempt SerializeError 0 n)"
    using ser b(2) by (intro card_mono) auto
  then have short: "b - a < 256" using assms(5) by simp
  then obtain i where i: "256 = (b - a) + Suc i"
    by (metis add_Suc_right less_iff_Suc_add)
  have loop: "serialize_loop attempt 256 a = serialize_loop attempt (Suc i) b"
    unfolding i using serialize_loop_skip [of a "b - a" attempt "Suc i"] ser b(1) by simp
  consider "b = n" | "b < n" "attempt b = Aborted"
    using b assms(2) [of b] by (cases "b = n") auto
  then show ?case
  proof cases
    case 1
    have "serialize_loop attempt 256 a = (Finish (Returned r), n + 1)"
      unfolding loop by (simp add: 1 assms(1))
    then show ?thesis by (simp only: abort_loop.simps prod.case inner.case)
  next
    case 2
    let ?T = "tries attempt Aborted (b + 1) n"
    have "card (insert b ?T) \<le> card (tries attempt Aborted a n)"
    proof (rule card_mono)
      show "finite (tries attempt Aborted a n)" by simp
      show "insert b ?T \<subseteq> tries attempt Aborted a n"
        using 2 b(1) by (intro insert_subsetI subsetI) simp_all
    qed
    moreover have "card (insert b ?T) = Suc (card ?T)" by simp
    ultimately have "card ?T < card (tries attempt Aborted a n)" by simp
    then have "abort_loop attempt k (b + 1) = (Returned r, n + 1)"
      using Suc.prems(2) 2(1) by (intro Suc.IH) auto
    moreover have "serialize_loop attempt 256 a = (Retry, b + 1)"
      unfolding loop by (simp add: 2(2))
    ultimately show ?thesis by (simp only: abort_loop.simps prod.case inner.case)
  qed
qed simp

section \<open>Lemmas: flags and transactions\<close>

lemma reset_flags_flag:
  assumes "0 \<le> j" "j < 16"
  shows "flag (reset_flags c) j =
    (if j = cval F_fagg \<or> j = cval F_fmis \<or> j = cval F_fd then flag c j
     else if j = cval F_fpre \<and> flag c j = 7 then 7 else 0)"
proof -
  have "legal 7" by (simp add: legal_def)
  then show ?thesis
    using assms by (simp add: reset_flags_def Let_def flag_set_flag)
qed

lemma wf_reset_flags: "wf_flag (reset_flags c)"
  by (simp add: reset_flags_def Let_def)

lemma reset_flags_idem: "reset_flags (reset_flags c) = reset_flags c"
proof -
  have "flag (reset_flags c) (cval F_fagg) = flag c (cval F_fagg)" "flag (reset_flags c) (cval F_fmis) = flag c (cval F_fmis)"
    "flag (reset_flags c) (cval F_fd) = flag c (cval F_fd)" "flag (reset_flags c) (cval F_fpre) = 7 \<longleftrightarrow> flag c (cval F_fpre) = 7"
    by (simp_all add: reset_flags_flag)
  then show ?thesis
    by (simp add: reset_flags_def [of "reset_flags c"]) (simp add: reset_flags_def)
qed

lemma check_body_db: "check_body parse should pd script check s = Inr s' \<Longrightarrow> db s' = db s"
  by (auto simp: check_body_def res_bind_Inr_iff delayed_write_def split: sum.splits if_splits)

lemma run_checks_db:
  "(\<And>check s s'. body check s = Inr s' \<Longrightarrow> db s' = db s) \<Longrightarrow> run_checks body checks s = Inr s' \<Longrightarrow> db s' = db s"
  by (induction body checks s rule: run_checks.induct) (auto split: sum.splits check_exn.splits)

lemma check_in_tx_db: "check_in_tx d qf cron parse script o' s = Inr (msg, s', b) \<Longrightarrow> db s' = db s"
  unfolding check_in_tx_def
  by (auto simp: res_bind_Inr_iff Let_def delayed_write_def split: if_splits dest!: run_checks_db [rotated] check_body_db)

lemma check_in_tx_commit: "check_in_tx d qf cron parse script o' s = Inr (msg, s', True) \<Longrightarrow> msg \<noteq> None"
  unfolding check_in_tx_def by (auto simp: res_bind_Inr_iff Let_def split: if_splits)

lemma delayed_commit_db:
  "delayed_commit w c s = Inr s' \<Longrightarrow>
     (\<exists>d2. (if savedData s = [] then d2 = db s else w (savedData s) (db s) = Inr d2) \<and> c d2 = Inr (db s'))"
  by (auto simp: delayed_commit_def res_bind_Inr_iff split: if_splits)

section \<open>Properties\<close>

text \<open>
  The retries end: a run is attempted at most 2305 times. A run that succeeds after fewer than 9 aborted and
  fewer than 256 unserializable attempts, and no other failure, is returned, with no further attempt.
\<close>

theorem retries_return:
  "snd (newObservation o' completed attempt) \<le> 2305 \<and>
   (shouldRunAnyChecks o' \<and> attempt n = Done r \<and> (\<forall>m<n. attempt m = SerializeError \<or> attempt m = Aborted)
      \<and> card {m. m < n \<and> attempt m = Aborted} < 9 \<and> card {m. m < n \<and> attempt m = SerializeError} < 256
    \<longrightarrow> newObservation o' completed attempt = (Returned r, n + 1))"
  using abort_loop_bound [of attempt 9 0] abort_loop_returns [of attempt n r 0 9]
  by (simp add: newObservation_def)

lemma retries_return_witness:
  "newObservation \<lparr>obs_id = 1, obs_stationID = 1, obs_typeID = 4, obs_obstime = 10 :: nat, obs_tbtime = 11\<rparr>
     (Failed ()) (\<lambda>m. if m = 2 then Done True else if m = 0 then Aborted else SerializeError) = (Returned True, 3)"
proof -
  let ?a = "\<lambda>m :: nat. if m = 2 then Done True else if m = 0 then Aborted else (SerializeError :: (bool, unit) outcome)"
  have "card {m. m < 2 \<and> ?a m = Aborted} \<le> card {..<2 :: nat}" "card {m. m < 2 \<and> ?a m = SerializeError} \<le> card {..<2 :: nat}"
    by (rule card_mono; auto)+
  then have "card {m. m < 2 \<and> ?a m = Aborted} < 9" "card {m. m < 2 \<and> ?a m = SerializeError} < 256"
    by simp_all
  then show ?thesis
    using retries_return [of "\<lparr>obs_id = 1, obs_stationID = 1, obs_typeID = 4, obs_obstime = 10 :: nat, obs_tbtime = 11\<rparr>"
        "Failed ()" ?a 2 True]
    by (simp add: shouldRunAnyChecks_def)
qed

text \<open>
  The reset before a full run keeps the flags fagg, fmis and fd, keeps fpre if it is 7 and clears all other
  control flags; the value itself is not touched, the use flags follow the new control flags, and resetting twice
  is the same as once.
\<close>

theorem reset_keeps_four_flags:
  assumes "wf_flag (useinfo d)"
  shows "(\<forall>j. 0 \<le> j \<and> j < 16 \<longrightarrow> flag (controlinfo (reset_value d)) j =
      (if j = cval F_fagg \<or> j = cval F_fmis \<or> j = cval F_fd then flag (controlinfo d) j
       else if j = cval F_fpre \<and> flag (controlinfo d) j = 7 then 7 else 0))
    \<and> reset_value d = d\<lparr>controlinfo := controlinfo (reset_value d), useinfo := setUseFlags (useinfo d) (controlinfo (reset_value d))\<rparr>
    \<and> reset_value (reset_value d) = reset_value d"
proof -
  have "setUseFlags (setUseFlags (useinfo d) c) c = setUseFlags (useinfo d) c" for c
    by (rule dataFlag.equality) (simp_all add: assms nibbles_setUseFlags useflags_setUseFlags)
  then show ?thesis
    by (auto simp: reset_value_def Let_def reset_flags_flag reset_flags_idem)
qed

lemma reset_keeps_four_flags_witness:
  "reset_value (reset_value (row 211 1)) = reset_value (row 211 1) \<and> flag (controlinfo (reset_value (row 211 1))) 6 = 0"
proof -
  have "wf_flag (useinfo (row 211 1))" "flag (controlinfo (row 211 1)) 6 = 0" "cval F_fmis = 6"
    by (simp_all add: row_def)
  with reset_keeps_four_flags [of "row 211 1"] show ?thesis by auto
qed

text \<open>
  A check that fails otherwise than by the database or by lack of memory does not influence the other
  checks: the run is the same as without it.
\<close>

theorem failing_check_is_skipped:
  assumes "\<forall>s. body check s = Inl NoErrorLog \<or> body check s = Inl StdException"
  shows "run_checks body (before @ check # after) s = run_checks body (before @ after) s"
proof (induction before arbitrary: s)
  case Nil
  then show ?case using assms [rule_format, of s] by auto
next
  case (Cons c before)
  then show ?case by (auto split: sum.split check_exn.split)
qed

lemma failing_check_is_skipped_witness:
  "run_checks (\<lambda>c s. if check_qcx c = ''bad'' then Inl StdException else Inr (delayed_write [row 211 1] s))
      [\<lparr>check_qcx = ''bad'', checkname = [], checksignature = [], check_active = []\<rparr>,
       \<lparr>check_qcx = ''good'', checkname = [], checksignature = [], check_active = []\<rparr>] \<lparr>savedData = [], db = ()\<rparr>
    = (Inr \<lparr>savedData = [row 211 1], db = ()\<rparr> :: unit check_exn + (nat, unit) DelayedSave)"
  using failing_check_is_skipped [of "\<lambda>c s. if check_qcx c = ''bad'' then Inl StdException else Inr (delayed_write [row 211 1] s)"
      "\<lparr>check_qcx = ''bad'', checkname = [], checksignature = [], check_active = []\<rparr>" "[]"
      "[\<lparr>check_qcx = ''good'', checkname = [], checksignature = [], check_active = []\<rparr>]" "\<lparr>savedData = [], db = ()\<rparr>"]
  by (simp add: delayed_write_def sset_erase_def)


definition counting_db :: "(nat, nat, unit, unit) run_db" where
  "counting_db = \<lparr>begin_tx = (\<lambda>d. Inr d), pin = (\<lambda>d. Inr True), get_checks = (\<lambda>d. Inr []), get_parameters = (\<lambda>d. Inr [''TA'']),
     get_data = (\<lambda>d p. Inr [row 211 1]), complete_msg = (\<lambda>d l. Inr ()), write_tx = (\<lambda>l d. Inr (d + length l)),
     commit_tx = (\<lambda>d. Inr d), rollback_tx = (\<lambda>d. Inr 0)\<rparr>"


end
