(* ===== verification/Queues.thy ===== *)
theory Queues
  imports Kv_Prelude
begin

text \<open>
  The queues that connect the threads: \<^verbatim>\<open>BlockingQueue\<close> and \<^verbatim>\<open>BlockingQueuePtr\<close> of
  \<^verbatim>\<open>src/lib/miutil/blockingqueue.h\<close> and \<^verbatim>\<open>src/lib/dnmithread/CommandQue.cc\<close>. Every operation runs under the
  mutex of the queue; it either finishes or waits on the condition variable and continues when it is woken.
  \<open>enter\<close> is an operation from its call, \<open>wake\<close> its continuation after the wait (with the flag that the time
  limit has expired); \<open>None\<close> means that it waits. Threads interleave by the step relation \<open>qstep\<close>; a thread may
  be woken at any time, as the C++ standard allows. Reading the front of an empty queue is the result
  \<open>UndefinedBehaviour\<close>. Elements are values here: what \<^verbatim>\<open>suspend\<close> and \<^verbatim>\<open>clear\<close> delete besides emptying the
  queue, and a failing allocation in \<^verbatim>\<open>removeAll\<close>, are not modelled.
\<close>

datatype queue_exn = QueueSuspended | QueueTimeout | QueueIllegalState

datatype 'a qres = Value 'a | Seen 'a | Null | Ok | Answer bool | Removed "'a list" | Exn queue_exn | UndefinedBehaviour

record 'a queue =
  dataQueue :: "'a list"
  suspended :: bool
  maxSize :: nat

definition new_queue :: "nat \<Rightarrow> 'a queue" where
  "new_queue maxQueSize = \<lparr>dataQueue = [], suspended = False, maxSize = maxQueSize\<rparr>"

definition pop_front :: "'a queue \<Rightarrow> 'a qres \<times> 'a queue" where
  "pop_front q = (case dataQueue q of [] \<Rightarrow> (UndefinedBehaviour, q) | x # xs \<Rightarrow> (Value x, q\<lparr>dataQueue := xs\<rparr>))"

definition push_back :: "'a \<Rightarrow> 'a queue \<Rightarrow> 'a qres \<times> 'a queue" where
  "push_back x q = (Ok, q\<lparr>dataQueue := dataQueue q @ [x]\<rparr>)"

definition suspend_queue :: "bool \<Rightarrow> 'a queue \<Rightarrow> 'a qres \<times> 'a queue" where
  "suspend_queue clearQue q =
     (if suspended q then (Ok, q)
      else (Ok, q\<lparr>suspended := True, dataQueue := (if clearQue then [] else dataQueue q)\<rparr>))"

definition resume_queue :: "'a queue \<Rightarrow> 'a qres \<times> 'a queue" where
  "resume_queue q = (if \<not> suspended q then (Ok, q) else (Ok, q\<lparr>suspended := False\<rparr>))"

fun remove_first :: "'a \<Rightarrow> 'a list \<Rightarrow> 'a list option" where
  "remove_first v [] = None"
| "remove_first v (x # xs) = (if x = v then Some xs else map_option (Cons x) (remove_first v xs))"

definition timeout_result :: "bool \<Rightarrow> 'a qres" where
  "timeout_result throwTimeout = (if throwTimeout then Exn QueueTimeout else Null)"

section \<open>BlockingQueuePtr\<close>

datatype 'a ptr_op = PAdd 'a | PTimedAdd 'a bool | PGet | PTimedGet bool | PTryGet | PGetAfterSuspend | PRemove 'a
  | PSuspend bool | PResume | PResize nat

fun ptr_wake :: "'a ptr_op \<Rightarrow> bool \<Rightarrow> 'a queue \<Rightarrow> ('a qres \<times> 'a queue) option" where
  "ptr_wake (PAdd x) expired q =
     (if length (dataQueue q) < maxSize q \<or> suspended q
      then Some (if suspended q then (Exn QueueSuspended, q) else push_back x q) else None)"
| "ptr_wake (PTimedAdd x throwTimeout) expired q =
     (if length (dataQueue q) < maxSize q \<or> suspended q
      then Some (if suspended q then (Exn QueueSuspended, q) else push_back x q)
      else if expired then Some (timeout_result throwTimeout, q) else None)"
| "ptr_wake PGet expired q =
     (if dataQueue q \<noteq> [] \<or> suspended q
      then Some (if suspended q then (Exn QueueSuspended, q) else pop_front q) else None)"
| "ptr_wake (PTimedGet throwTimeout) expired q =
     (if dataQueue q \<noteq> [] \<or> suspended q then Some (pop_front q)
      else if expired then Some (if suspended q then Exn QueueSuspended else timeout_result throwTimeout, q) else None)"
| "ptr_wake PTryGet expired q =
     Some (if dataQueue q = [] then (if suspended q then Exn QueueSuspended else Null, q) else pop_front q)"
| "ptr_wake PGetAfterSuspend expired q =
     Some (if \<not> suspended q then (Exn QueueIllegalState, q)
           else if dataQueue q = [] then (Null, q) else pop_front q)"
| "ptr_wake (PRemove v) expired q =
     Some (case remove_first v (dataQueue q) of None \<Rightarrow> (Answer False, q) | Some xs \<Rightarrow> (Answer True, q\<lparr>dataQueue := xs\<rparr>))"
| "ptr_wake (PSuspend clearQue) expired q = Some (suspend_queue clearQue q)"
| "ptr_wake PResume expired q = Some (resume_queue q)"
| "ptr_wake (PResize newSize) expired q = Some (Ok, q\<lparr>maxSize := newSize\<rparr>)"

fun ptr_enter :: "'a ptr_op \<Rightarrow> 'a queue \<Rightarrow> ('a qres \<times> 'a queue) option" where
  "ptr_enter (PTimedAdd x throwTimeout) q =
     (if suspended q then Some (Exn QueueSuspended, q) else ptr_wake (PTimedAdd x throwTimeout) False q)"
| "ptr_enter PGet q = (if suspended q then Some (Exn QueueSuspended, q) else ptr_wake PGet False q)"
| "ptr_enter (PTimedGet throwTimeout) q =
     (if suspended q then Some (Exn QueueSuspended, q) else ptr_wake (PTimedGet throwTimeout) False q)"
| "ptr_enter op q = ptr_wake op False q"

section \<open>BlockingQueue\<close>

datatype 'a val_op = VAdd 'a | VTimedAdd 'a bool | VGet | VTimedGet bool | VTryGet | VFetchAfterSuspend | VSuspend bool
  | VResume | VResize nat

fun val_wake :: "'a val_op \<Rightarrow> bool \<Rightarrow> 'a queue \<Rightarrow> ('a qres \<times> 'a queue) option" where
  "val_wake (VAdd x) expired q =
     (if dataQueue q \<noteq> [] \<or> suspended q
      then Some (if suspended q then (Exn QueueSuspended, q) else push_back x q) else None)"
| "val_wake (VTimedAdd x throwTimeout) expired q =
     (if length (dataQueue q) < maxSize q \<or> suspended q
      then Some (if suspended q then (Exn QueueSuspended, q) else push_back x q)
      else if expired then Some (timeout_result throwTimeout, q) else None)"
| "val_wake VGet expired q =
     (if dataQueue q \<noteq> [] \<or> suspended q
      then Some (if suspended q then (Exn QueueSuspended, q) else pop_front q) else None)"
| "val_wake (VTimedGet throwTimeout) expired q =
     (if dataQueue q = [] \<or> suspended q
      then Some (if suspended q then (Exn QueueSuspended, q) else pop_front q)
      else if expired then Some (timeout_result throwTimeout, q) else None)"
| "val_wake VTryGet expired q =
     Some (if dataQueue q = [] then (if suspended q then Exn QueueSuspended else Null, q) else pop_front q)"
| "val_wake VFetchAfterSuspend expired q =
     Some (if \<not> suspended q then (Exn QueueIllegalState, q)
           else if dataQueue q = [] then (Null, q) else pop_front q)"
| "val_wake (VSuspend clearQue) expired q = Some (suspend_queue clearQue q)"
| "val_wake VResume expired q = Some (resume_queue q)"
| "val_wake (VResize newSize) expired q = Some (Ok, q\<lparr>maxSize := newSize\<rparr>)"

definition val_enter :: "'a val_op \<Rightarrow> 'a queue \<Rightarrow> ('a qres \<times> 'a queue) option" where
  "val_enter op q = val_wake op False q"

section \<open>CommandQue\<close>

text \<open>A time limit of 0 means no limit. The queue has no bound; \<open>maxSize\<close> is not used.\<close>

datatype 'a cmd_op = CPost 'a | CPeek int | CGet int | CRemove 'a | CClear | CRemoveAll | CSuspend | CResume

definition cmd_front :: "'a queue \<Rightarrow> 'a qres \<times> 'a queue" where
  "cmd_front q = (case dataQueue q of [] \<Rightarrow> (UndefinedBehaviour, q) | x # xs \<Rightarrow> (Seen x, q))"

fun cmd_wake :: "'a cmd_op \<Rightarrow> bool \<Rightarrow> 'a queue \<Rightarrow> ('a qres \<times> 'a queue) option" where
  "cmd_wake (CPost x) expired q = Some (if suspended q then (Exn QueueSuspended, q) else push_back x q)"
| "cmd_wake (CPeek timeout) expired q =
     (if suspended q then Some (Exn QueueSuspended, q)
      else if dataQueue q \<noteq> [] then Some (cmd_front q)
      else if timeout = 0 then None else Some (Null, q))"
| "cmd_wake (CGet timeout) expired q =
     (if dataQueue q \<noteq> [] then Some (pop_front q)
      else if suspended q then Some (Exn QueueSuspended, q)
      else if timeout = 0 then None else Some (Null, q))"
| "cmd_wake (CRemove v) expired q =
     Some (case remove_first v (dataQueue q) of None \<Rightarrow> (Null, q) | Some xs \<Rightarrow> (Seen v, q\<lparr>dataQueue := xs\<rparr>))"
| "cmd_wake CClear expired q = Some (Ok, q\<lparr>dataQueue := []\<rparr>)"
| "cmd_wake CRemoveAll expired q =
     Some (if dataQueue q = [] then (Null, q) else (Removed (dataQueue q), q\<lparr>dataQueue := []\<rparr>))"
| "cmd_wake CSuspend expired q = Some (suspend_queue False q)"
| "cmd_wake CResume expired q = Some (resume_queue q)"

text \<open>A call of \<open>peek\<close> or \<open>get\<close> on an empty queue waits at once, also when the queue is suspended.\<close>

fun cmd_enter :: "'a cmd_op \<Rightarrow> 'a queue \<Rightarrow> ('a qres \<times> 'a queue) option" where
  "cmd_enter (CPeek timeout) q = (if dataQueue q = [] then None else Some (cmd_front q))"
| "cmd_enter (CGet timeout) q = (if dataQueue q = [] then None else Some (pop_front q))"
| "cmd_enter op q = cmd_wake op False q"

section \<open>Interleaving\<close>

record ('op, 'q, 'a) qsystem =
  que :: 'q
  waiting :: "nat \<Rightarrow> 'op option"
  log :: "('op \<times> 'a qres) list"

text \<open>
  One step of thread \<open>i\<close>: a call that finishes, a call that waits, or the end of a wait. The log records
  finished operations in the order in which they took effect.
\<close>

inductive qstep :: "('op \<Rightarrow> 'q \<Rightarrow> ('a qres \<times> 'q) option) \<Rightarrow> ('op \<Rightarrow> bool \<Rightarrow> 'q \<Rightarrow> ('a qres \<times> 'q) option)
    \<Rightarrow> ('op, 'q, 'a) qsystem \<Rightarrow> ('op, 'q, 'a) qsystem \<Rightarrow> bool"
  for enter wake where
  call: "waiting s i = None \<Longrightarrow> enter op (que s) = Some (r, q') \<Longrightarrow>
    qstep enter wake s (s\<lparr>que := q', log := log s @ [(op, r)]\<rparr>)"
| block: "waiting s i = None \<Longrightarrow> enter op (que s) = None \<Longrightarrow>
    qstep enter wake s (s\<lparr>waiting := (waiting s)(i := Some op)\<rparr>)"
| continue: "waiting s i = Some op \<Longrightarrow> wake op expired (que s) = Some (r, q') \<Longrightarrow>
    qstep enter wake s (s\<lparr>que := q', waiting := (waiting s)(i := None), log := log s @ [(op, r)]\<rparr>)"

definition qinit :: "'q \<Rightarrow> ('op, 'q, 'a) qsystem" where
  "qinit q = \<lparr>que = q, waiting = (\<lambda>i. None), log = []\<rparr>"

definition qreach :: "('op \<Rightarrow> 'q \<Rightarrow> ('a qres \<times> 'q) option) \<Rightarrow> ('op \<Rightarrow> bool \<Rightarrow> 'q \<Rightarrow> ('a qres \<times> 'q) option)
    \<Rightarrow> 'q \<Rightarrow> ('op, 'q, 'a) qsystem \<Rightarrow> bool" where
  "qreach enter wake q0 s = (qstep enter wake)\<^sup>*\<^sup>* (qinit q0) s"

lemma qreach_induct [consumes 1, case_names init step]:
  assumes "qreach enter wake q0 s" "P (qinit q0)"
    "\<And>s s'. qreach enter wake q0 s \<Longrightarrow> P s \<Longrightarrow> qstep enter wake s s' \<Longrightarrow> P s'"
  shows "P s"
  using assms(1) unfolding qreach_def
  by (induction rule: rtranclp_induct) (use assms(2,3) in \<open>auto simp: qreach_def\<close>)

text \<open>
  Invariants of the queue and of the finished operations: what every finishing operation that satisfies \<open>good\<close>
  preserves and promises holds in every reachable state whose log has good operations only.
\<close>

lemma qreach_invariant:
  assumes "qreach enter wake q0 s" "list_all (\<lambda>(op, r). good op) (log s)" "I q0"
    and enter: "\<And>op q r q'. good op \<Longrightarrow> I q \<Longrightarrow> enter op q = Some (r, q') \<Longrightarrow> I q' \<and> R op r"
    and wake: "\<And>op e q r q'. good op \<Longrightarrow> I q \<Longrightarrow> wake op e q = Some (r, q') \<Longrightarrow> I q' \<and> R op r"
  shows "I (que s) \<and> list_all (\<lambda>(op, r). R op r) (log s)"
  using assms(1,2)
proof (induction rule: qreach_induct)
  case init
  then show ?case using assms(3) by (simp add: qinit_def)
next
  case (step s s')
  from \<open>qstep enter wake s s'\<close> show ?case
  proof (cases rule: qstep.cases)
    case (call i op r q')
    then show ?thesis using step enter [of op "que s" r q'] by simp
  next
    case (block i op)
    then show ?thesis using step by simp
  next
    case (continue i op expired r q')
    then show ?thesis using step wake [of op "que s" expired r q'] by simp
  qed
qed

section \<open>First in, first out\<close>

fun takes :: "'a qres \<Rightarrow> 'a list" where
  "takes (Value x) = [x]"
| "takes _ = []"

lemma fifo_extend: "a @ p = t @ c \<Longrightarrow> c @ p' = t' @ c' \<Longrightarrow> a @ p @ p' = t @ t' @ c'"
  by (metis append.assoc)

text \<open>
  The contract of a queue: every operation that keeps the content puts at most its own value at the end and
  takes at most the front.
\<close>

locale fifo_queue =
  fixes enter :: "'op \<Rightarrow> 'q \<Rightarrow> ('a qres \<times> 'q) option"
    and wake :: "'op \<Rightarrow> bool \<Rightarrow> 'q \<Rightarrow> ('a qres \<times> 'q) option"
    and content :: "'q \<Rightarrow> 'a list"
    and puts :: "'op \<Rightarrow> 'a qres \<Rightarrow> 'a list"
    and keeps :: "'op \<Rightarrow> bool"
  assumes enter_fifo: "keeps op \<Longrightarrow> enter op q = Some (r, q') \<Longrightarrow> content q @ puts op r = takes r @ content q'"
    and wake_fifo: "keeps op \<Longrightarrow> wake op expired q = Some (r, q') \<Longrightarrow> content q @ puts op r = takes r @ content q'"
begin

definition put_log :: "('op \<times> 'a qres) list \<Rightarrow> 'a list" where
  "put_log l = concat (map (\<lambda>(op, r). puts op r) l)"

definition take_log :: "('op \<times> 'a qres) list \<Rightarrow> 'a list" where
  "take_log l = concat (map (\<lambda>(op, r). takes r) l)"

lemma fifo_invariant:
  "qreach enter wake q0 s \<Longrightarrow> list_all (\<lambda>(op, r). keeps op) (log s) \<Longrightarrow>
     content q0 @ put_log (log s) = take_log (log s) @ content (que s)"
proof (induction rule: qreach_induct)
  case init
  then show ?case by (simp add: qinit_def put_log_def take_log_def)
next
  case (step s s')
  from \<open>qstep enter wake s s'\<close> show ?case
  proof (cases rule: qstep.cases)
    case (call i op r q')
    then show ?thesis using step enter_fifo [of op "que s" r q'] by (auto simp: put_log_def take_log_def intro: fifo_extend)
  next
    case (block i op)
    then show ?thesis using step by simp
  next
    case (continue i op expired r q')
    then show ?thesis using step wake_fifo [of op expired "que s" r q'] by (auto simp: put_log_def take_log_def intro: fifo_extend)
  qed
qed

end

fun ptr_puts :: "'a ptr_op \<Rightarrow> 'a qres \<Rightarrow> 'a list" where
  "ptr_puts (PAdd x) Ok = [x]"
| "ptr_puts (PTimedAdd x b) Ok = [x]"
| "ptr_puts _ _ = []"

fun ptr_keeps :: "'a ptr_op \<Rightarrow> bool" where
  "ptr_keeps (PRemove v) = False"
| "ptr_keeps (PSuspend clearQue) = (\<not> clearQue)"
| "ptr_keeps _ = True"

fun val_puts :: "'a val_op \<Rightarrow> 'a qres \<Rightarrow> 'a list" where
  "val_puts (VAdd x) Ok = [x]"
| "val_puts (VTimedAdd x b) Ok = [x]"
| "val_puts _ _ = []"

fun val_keeps :: "'a val_op \<Rightarrow> bool" where
  "val_keeps (VSuspend clearQue) = (\<not> clearQue)"
| "val_keeps _ = True"

fun cmd_puts :: "'a cmd_op \<Rightarrow> 'a qres \<Rightarrow> 'a list" where
  "cmd_puts (CPost x) Ok = [x]"
| "cmd_puts _ _ = []"

fun cmd_keeps :: "'a cmd_op \<Rightarrow> bool" where
  "cmd_keeps (CRemove v) = False"
| "cmd_keeps CClear = False"
| "cmd_keeps CRemoveAll = False"
| "cmd_keeps _ = True"

lemmas queue_defs = pop_front_def push_back_def suspend_queue_def resume_queue_def timeout_result_def cmd_front_def

lemma ptr_wake_fifo: "ptr_keeps op \<Longrightarrow> ptr_wake op e q = Some (r, q') \<Longrightarrow> dataQueue q @ ptr_puts op r = takes r @ dataQueue q'"
  by (cases op) (auto simp: queue_defs split: if_splits list.splits)

lemma val_wake_fifo: "val_keeps op \<Longrightarrow> val_wake op e q = Some (r, q') \<Longrightarrow> dataQueue q @ val_puts op r = takes r @ dataQueue q'"
  by (cases op) (auto simp: queue_defs split: if_splits list.splits)

lemma cmd_wake_fifo: "cmd_keeps op \<Longrightarrow> cmd_wake op e q = Some (r, q') \<Longrightarrow> dataQueue q @ cmd_puts op r = takes r @ dataQueue q'"
  by (cases op) (auto simp: queue_defs split: if_splits list.splits)

interpretation ptr: fifo_queue ptr_enter ptr_wake dataQueue ptr_puts ptr_keeps
proof
  show "ptr_keeps op \<Longrightarrow> ptr_enter op q = Some (r, q') \<Longrightarrow> dataQueue q @ ptr_puts op r = takes r @ dataQueue q'"
    for op and q :: "'a queue" and r q'
    using ptr_wake_fifo [of op False q r q'] by (cases op) (auto split: if_splits)
qed (rule ptr_wake_fifo)

interpretation vlq: fifo_queue val_enter val_wake dataQueue val_puts val_keeps
proof
  show "val_keeps op \<Longrightarrow> val_enter op q = Some (r, q') \<Longrightarrow> dataQueue q @ val_puts op r = takes r @ dataQueue q'"
    for op and q :: "'a queue" and r q'
    unfolding val_enter_def by (rule val_wake_fifo)
qed (rule val_wake_fifo)

interpretation cmd: fifo_queue cmd_enter cmd_wake dataQueue cmd_puts cmd_keeps
proof
  show "cmd_keeps op \<Longrightarrow> cmd_enter op q = Some (r, q') \<Longrightarrow> dataQueue q @ cmd_puts op r = takes r @ dataQueue q'"
    for op and q :: "'a queue" and r q'
    by (cases op) (auto simp: queue_defs split: if_splits list.splits)
qed (rule cmd_wake_fifo)

text \<open>
  C1. In a \<^verbatim>\<open>BlockingQueuePtr\<close> shared by any number of threads, in any interleaving of their calls, waits and
  wake-ups, and as long as nothing is removed from the middle or cleared, the elements added, in the order of the
  additions, are the elements taken out, in the order in which they were taken, followed by the elements still in
  the queue: nothing is lost, duplicated or reordered.
\<close>

theorem ptr_queue_fifo:
  assumes "qreach ptr_enter ptr_wake (new_queue n) s" "list_all (\<lambda>(op, r). ptr_keeps op) (log s)"
  shows "concat (map (\<lambda>(op, r). ptr_puts op r) (log s)) = concat (map (\<lambda>(op, r). takes r) (log s)) @ dataQueue (que s)"
  using ptr.fifo_invariant [OF assms] by (simp add: ptr.put_log_def ptr.take_log_def new_queue_def)

lemmas qreach_step = qreach_def [THEN iffD1, THEN rtranclp.rtrancl_into_rtrancl, folded qreach_def]

lemma qreach_init: "qreach enter wake q0 (qinit q0)"
  by (simp add: qreach_def)

text \<open>A getter waits on an empty queue and is woken by an adder.\<close>

definition ptr_demo :: "(nat ptr_op, nat queue, nat) qsystem" where
  "ptr_demo = \<lparr>que = \<lparr>dataQueue = [8], suspended = False, maxSize = 2\<rparr>, waiting = (\<lambda>i. None),
     log = [(PAdd 7, Ok), (PGet, Value 7), (PAdd 8, Ok)]\<rparr>"

lemma ptr_demo_reach: "qreach ptr_enter ptr_wake (new_queue 2) ptr_demo"
proof -
  let ?s0 = "qinit (new_queue 2) :: (nat ptr_op, nat queue, nat) qsystem"
  let ?s1 = "?s0\<lparr>waiting := (waiting ?s0)(1 := Some PGet)\<rparr>"
  let ?s2 = "?s1\<lparr>que := (que ?s1)\<lparr>dataQueue := [7]\<rparr>, log := log ?s1 @ [(PAdd 7, Ok)]\<rparr>"
  let ?s3 = "?s2\<lparr>que := (que ?s2)\<lparr>dataQueue := []\<rparr>, waiting := (waiting ?s2)(1 := None), log := log ?s2 @ [(PGet, Value 7)]\<rparr>"
  let ?s4 = "?s3\<lparr>que := (que ?s3)\<lparr>dataQueue := [8]\<rparr>, log := log ?s3 @ [(PAdd 8, Ok)]\<rparr>"
  note ini = qinit_def new_queue_def queue_defs
  have "qreach ptr_enter ptr_wake (new_queue 2) ?s1"
    by (rule qreach_step [OF qreach_init qstep.block]) (simp_all add: ini)
  then have "qreach ptr_enter ptr_wake (new_queue 2) ?s2"
    by (rule qreach_step [OF _ qstep.call [where i = 2]]) (simp_all add: ini)
  then have "qreach ptr_enter ptr_wake (new_queue 2) ?s3"
    by (rule qreach_step [OF _ qstep.continue [where expired = False]]) (simp_all add: ini)
  then have "qreach ptr_enter ptr_wake (new_queue 2) ?s4"
    by (rule qreach_step [OF _ qstep.call [where i = 2]]) (simp_all add: ini)
  moreover have "?s4 = ptr_demo" by (simp add: ini ptr_demo_def fun_eq_iff)
  ultimately show ?thesis by simp
qed

theorem ptr_queue_fifo_witness:
  "list_all (\<lambda>(op, r). ptr_keeps op) (log ptr_demo) \<and>
   concat (map (\<lambda>(op, r). ptr_puts op r) (log ptr_demo)) = concat (map (\<lambda>(op, r). takes r) (log ptr_demo)) @ dataQueue (que ptr_demo)"
proof -
  have k: "list_all (\<lambda>(op, r). ptr_keeps op) (log ptr_demo)" by (simp add: ptr_demo_def)
  show ?thesis using k ptr_queue_fifo [OF ptr_demo_reach k] by blast
qed

section \<open>Bound, waiting and errors\<close>

fun resizes :: "'a ptr_op \<Rightarrow> bool" where
  "resizes (PResize n) = True"
| "resizes _ = False"

lemma remove_first_length: "remove_first v xs = Some ys \<Longrightarrow> length xs = Suc (length ys)"
  by (induction v xs arbitrary: ys rule: remove_first.induct) (auto split: if_splits)

lemma ptr_wake_bound:
  "\<not> resizes op \<Longrightarrow> maxSize q = n \<and> length (dataQueue q) \<le> n \<Longrightarrow> ptr_wake op e q = Some (r, q') \<Longrightarrow>
     maxSize q' = n \<and> length (dataQueue q') \<le> n"
  by (cases op) (auto simp: queue_defs dest: remove_first_length split: if_splits list.splits option.splits)

lemma ptr_enter_wake:
  "ptr_enter op q = Some (r, q') \<Longrightarrow> (r = Exn QueueSuspended \<and> q' = q) \<or> ptr_wake op False q = Some (r, q') \<and> (\<not> suspended q \<or> (\<forall>t. op \<noteq> PTimedGet t))"
  by (cases op) (auto split: if_splits)

text \<open>
  C1. A \<^verbatim>\<open>BlockingQueuePtr\<close> that is not resized never holds more elements than the size it was created with,
  whatever its threads do.
\<close>

theorem ptr_queue_bounded:
  assumes "qreach ptr_enter ptr_wake (new_queue n) s" "list_all (\<lambda>(op, r). \<not> resizes op) (log s)"
  shows "length (dataQueue (que s)) \<le> n"
proof -
  let ?I = "\<lambda>q. maxSize q = n \<and> length (dataQueue q) \<le> n"
  have "?I (que s) \<and> list_all (\<lambda>(op, r). True) (log s)"
  proof (rule qreach_invariant [OF assms, where I = ?I])
    show "?I (new_queue n)" by (simp add: new_queue_def)
  next
    fix op :: "'a ptr_op" and q r q' assume "\<not> resizes op" "?I q" "ptr_enter op q = Some (r, q')"
    then show "?I q' \<and> True" using ptr_enter_wake ptr_wake_bound by metis
  next
    fix op :: "'a ptr_op" and e q r q' assume "\<not> resizes op" "?I q" "ptr_wake op e q = Some (r, q')"
    then show "?I q' \<and> True" using ptr_wake_bound by metis
  qed
  then show ?thesis by simp
qed

theorem ptr_queue_bounded_witness: "length (dataQueue (que ptr_demo)) \<le> 2"
  by (rule ptr_queue_bounded [OF ptr_demo_reach]) (simp add: ptr_demo_def)

fun ptr_adds :: "'a ptr_op \<Rightarrow> bool" where
  "ptr_adds (PAdd x) = True"
| "ptr_adds (PTimedAdd x t) = True"
| "ptr_adds _ = False"

lemma ptr_wake_None:
  "ptr_wake op e q = None \<Longrightarrow> \<not> suspended q \<and> (if ptr_adds op then maxSize q \<le> length (dataQueue q) else dataQueue q = [])"
  by (cases op) (auto split: if_splits)

text \<open>
  C1. The threads that use a \<^verbatim>\<open>BlockingQueuePtr\<close> never block each other: while the queue is suspended every waiting
  operation can finish, and if the queue has room for at least one element, a waiting addition and a waiting
  fetch are never both unable to finish.
\<close>

theorem ptr_queue_no_deadlock:
  assumes "0 < maxSize q" "ptr_adds op" "\<not> ptr_adds op'"
  shows "(ptr_wake op e q \<noteq> None \<or> ptr_wake op' e' q \<noteq> None) \<and> (suspended q \<longrightarrow> ptr_wake op'' e'' q \<noteq> None)"
proof (intro conjI impI)
  show "ptr_wake op e q \<noteq> None \<or> ptr_wake op' e' q \<noteq> None"
  proof (rule ccontr)
    assume "\<not> ?thesis"
    then have "ptr_wake op e q = None" "ptr_wake op' e' q = None" by blast+
    from this [THEN ptr_wake_None] show False using assms by simp
  qed
  show "ptr_wake op'' e'' q \<noteq> None" if "suspended q"
    using ptr_wake_None that by blast
qed

theorem ptr_queue_no_deadlock_witness:
  "ptr_wake PGet False \<lparr>dataQueue = [3 :: nat], suspended = False, maxSize = 1\<rparr> \<noteq> None
   \<and> ptr_wake (PAdd 5) False \<lparr>dataQueue = [3 :: nat], suspended = False, maxSize = 1\<rparr> = None"
  using ptr_queue_no_deadlock [of "\<lparr>dataQueue = [3 :: nat], suspended = False, maxSize = 1\<rparr>" "PAdd 5" PGet False False PGet False]
  by simp

lemma ptr_wake_ub: "ptr_wake op e q = Some (r, q') \<Longrightarrow> r = UndefinedBehaviour \<Longrightarrow> \<exists>t. op = PTimedGet t"
  by (cases op) (auto simp: queue_defs split: if_splits list.splits option.splits)

lemma ptr_log_ub:
  assumes "qreach ptr_enter ptr_wake q0 s" "(op, UndefinedBehaviour) \<in> set (log s)"
  shows "\<exists>t. op = PTimedGet t"
proof -
  let ?R = "\<lambda>op r. r = UndefinedBehaviour \<longrightarrow> (\<exists>t. op = PTimedGet t)"
  have "True \<and> list_all (\<lambda>(op, r). ?R op r) (log s)"
  proof (rule qreach_invariant [OF assms(1), where I = "\<lambda>q. True" and good = "\<lambda>op. True"])
    fix op :: "'a ptr_op" and q r q' assume "ptr_enter op q = Some (r, q')"
    then show "True \<and> ?R op r" using ptr_enter_wake ptr_wake_ub by blast
  next
    fix op :: "'a ptr_op" and e q r q' assume "ptr_wake op e q = Some (r, q')"
    then show "True \<and> ?R op r" using ptr_wake_ub by blast
  qed (simp_all add: list_all_iff)
  then show ?thesis using assms(2) by (auto simp: list_all_iff)
qed

lemma ptr_timedGet_ub:
  "\<exists>s. qreach ptr_enter ptr_wake (new_queue n) s \<and> (PTimedGet t, UndefinedBehaviour :: 'a qres) \<in> set (log s)"
proof -
  let ?s0 = "qinit (new_queue n) :: ('a ptr_op, 'a queue, 'a) qsystem"
  let ?s1 = "?s0\<lparr>waiting := (waiting ?s0)(1 := Some (PTimedGet t))\<rparr>"
  let ?s2 = "?s1\<lparr>que := (que ?s1)\<lparr>suspended := True\<rparr>, log := log ?s1 @ [(PSuspend False, Ok)]\<rparr>"
  let ?s3 = "?s2\<lparr>que := que ?s2, waiting := (waiting ?s2)(1 := None), log := log ?s2 @ [(PTimedGet t, UndefinedBehaviour)]\<rparr>"
  note ini = qinit_def new_queue_def queue_defs
  have "qreach ptr_enter ptr_wake (new_queue n) ?s1"
    by (rule qreach_step [OF qreach_init qstep.block]) (simp_all add: ini)
  then have "qreach ptr_enter ptr_wake (new_queue n) ?s2"
    by (rule qreach_step [OF _ qstep.call [where i = 2]]) (simp_all add: ini)
  then have "qreach ptr_enter ptr_wake (new_queue n) ?s3"
    by (rule qreach_step [OF _ qstep.continue [where expired = False]]) (simp_all add: ini)
  then show ?thesis by (intro exI [of _ ?s3]) simp
qed

text \<open>
  C1. The only operation of a \<^verbatim>\<open>BlockingQueuePtr\<close> that can read the front of an empty queue is \<^verbatim>\<open>timedGet\<close>, and it
  can: a thread that waits in \<^verbatim>\<open>timedGet\<close> when the queue is suspended takes the front element without testing
  that there is one.
\<close>

theorem ptr_queue_undefined:
  "(\<exists>s. qreach ptr_enter ptr_wake (new_queue n) s \<and> (op, UndefinedBehaviour) \<in> set (log s)) \<longleftrightarrow> (\<exists>t. op = PTimedGet t)"
proof
  assume "\<exists>s. qreach ptr_enter ptr_wake (new_queue n) s \<and> (op, UndefinedBehaviour) \<in> set (log s)"
  then show "\<exists>t. op = PTimedGet t" by (elim exE conjE) (rule ptr_log_ub)
next
  assume "\<exists>t. op = PTimedGet t"
  then show "\<exists>s. qreach ptr_enter ptr_wake (new_queue n) s \<and> (op, UndefinedBehaviour) \<in> set (log s)"
    using ptr_timedGet_ub by (elim exE) simp
qed

lemma cmd_wake_defined: "cmd_wake op e q = Some (r, q') \<Longrightarrow> r \<noteq> UndefinedBehaviour"
  by (cases op) (auto simp: queue_defs split: if_splits list.splits option.splits)

lemma cmd_enter_defined: "cmd_enter op q = Some (r, q') \<Longrightarrow> r \<noteq> UndefinedBehaviour"
  using cmd_wake_defined [of op False q r q'] by (cases op) (auto simp: queue_defs split: if_splits list.splits)

text \<open>
  C1. A \<^verbatim>\<open>CommandQue\<close> never reads the front of an empty queue, and as long as nothing is removed otherwise than by
  \<^verbatim>\<open>get\<close>, the commands posted are, in order, the commands fetched followed by the commands in the queue.
\<close>

theorem command_queue_fifo:
  assumes reach: "qreach cmd_enter cmd_wake (new_queue n) s"
  shows "list_all (\<lambda>(op, r). r \<noteq> UndefinedBehaviour) (log s)
    \<and> (list_all (\<lambda>(op, r). cmd_keeps op) (log s) \<longrightarrow>
       concat (map (\<lambda>(op, r). cmd_puts op r) (log s)) = concat (map (\<lambda>(op, r). takes r) (log s)) @ dataQueue (que s))"
proof (intro conjI impI)
  have "True \<and> list_all (\<lambda>(op, r). r \<noteq> UndefinedBehaviour) (log s)"
    by (rule qreach_invariant [OF reach, where I = "\<lambda>q. True" and good = "\<lambda>op. True"])
      (auto simp: list_all_iff dest: cmd_wake_defined cmd_enter_defined)
  then show "list_all (\<lambda>(op, r). r \<noteq> UndefinedBehaviour) (log s)" by simp
next
  assume "list_all (\<lambda>(op, r). cmd_keeps op) (log s)"
  then show "concat (map (\<lambda>(op, r). cmd_puts op r) (log s)) = concat (map (\<lambda>(op, r). takes r) (log s)) @ dataQueue (que s)"
    using cmd.fifo_invariant [OF reach] by (simp add: cmd.put_log_def cmd.take_log_def new_queue_def)
qed

definition cmd_demo :: "(nat cmd_op, nat queue, nat) qsystem" where
  "cmd_demo = \<lparr>que = \<lparr>dataQueue = [], suspended = False, maxSize = 0\<rparr>, waiting = (\<lambda>i. None),
     log = [(CPost 4, Ok), (CGet 0, Value 4)]\<rparr>"

lemma cmd_demo_reach: "qreach cmd_enter cmd_wake (new_queue 0) cmd_demo"
proof -
  let ?s0 = "qinit (new_queue 0) :: (nat cmd_op, nat queue, nat) qsystem"
  let ?s1 = "?s0\<lparr>que := (que ?s0)\<lparr>dataQueue := [4]\<rparr>, log := log ?s0 @ [(CPost 4, Ok)]\<rparr>"
  let ?s2 = "?s1\<lparr>que := (que ?s1)\<lparr>dataQueue := []\<rparr>, log := log ?s1 @ [(CGet 0, Value 4)]\<rparr>"
  note ini = qinit_def new_queue_def queue_defs
  have "qreach cmd_enter cmd_wake (new_queue 0) ?s1"
    by (rule qreach_step [OF qreach_init qstep.call [where i = 1]]) (simp_all add: ini)
  then have "qreach cmd_enter cmd_wake (new_queue 0) ?s2"
    by (rule qreach_step [OF _ qstep.call [where i = 2]]) (simp_all add: ini)
  moreover have "?s2 = cmd_demo" by (simp add: ini cmd_demo_def)
  ultimately show ?thesis by simp
qed

theorem command_queue_fifo_witness:
  "list_all (\<lambda>(op, r). r \<noteq> UndefinedBehaviour) (log cmd_demo) \<and> list_all (\<lambda>(op, r). cmd_keeps op) (log cmd_demo) \<and>
   concat (map (\<lambda>(op, r). cmd_puts op r) (log cmd_demo)) = concat (map (\<lambda>(op, r). takes r) (log cmd_demo)) @ dataQueue (que cmd_demo)"
proof -
  have k: "list_all (\<lambda>(op, r). cmd_keeps op) (log cmd_demo)" by (simp add: cmd_demo_def)
  show ?thesis using k command_queue_fifo [OF cmd_demo_reach] by blast
qed

fun add_or_get :: "'a val_op \<Rightarrow> bool" where
  "add_or_get (VAdd x) = True"
| "add_or_get VGet = True"
| "add_or_get _ = False"

lemma val_wake_stuck: "add_or_get op \<Longrightarrow> dataQueue q = [] \<and> \<not> suspended q \<Longrightarrow> val_wake op e q = None"
  by (cases op) simp_all

text \<open>
  C1. \<^verbatim>\<open>BlockingQueue::add\<close> waits for a non-empty queue instead of for room: if threads use a new queue through
  \<^verbatim>\<open>add\<close> and \<^verbatim>\<open>get\<close> only, no call ever finishes.
\<close>

theorem val_queue_stuck:
  assumes "qreach val_enter val_wake (new_queue n) s" "list_all (\<lambda>(op, r). add_or_get op) (log s)"
  shows "log s = []"
proof -
  let ?I = "\<lambda>q. dataQueue q = [] \<and> \<not> suspended q"
  have "?I (que s) \<and> list_all (\<lambda>(op, r). False) (log s)"
    by (rule qreach_invariant [OF assms, where I = ?I])
      (auto simp: new_queue_def val_enter_def val_wake_stuck)
  then show ?thesis by (cases "log s") auto
qed

definition val_demo :: "(nat val_op, nat queue, nat) qsystem" where
  "val_demo = \<lparr>que = new_queue 3, waiting = (\<lambda>i. None)(1 := Some (VAdd 6), 2 := Some VGet), log = []\<rparr>"

lemma val_demo_reach: "qreach val_enter val_wake (new_queue 3) val_demo"
proof -
  let ?s0 = "qinit (new_queue 3) :: (nat val_op, nat queue, nat) qsystem"
  let ?s1 = "?s0\<lparr>waiting := (waiting ?s0)(1 := Some (VAdd 6))\<rparr>"
  let ?s2 = "?s1\<lparr>waiting := (waiting ?s1)(2 := Some VGet)\<rparr>"
  note ini = qinit_def new_queue_def val_enter_def
  have "qreach val_enter val_wake (new_queue 3) ?s1"
    by (rule qreach_step [OF qreach_init qstep.block]) (simp_all add: ini)
  then have "qreach val_enter val_wake (new_queue 3) ?s2"
    by (rule qreach_step [OF _ qstep.block]) (simp_all add: ini)
  moreover have "?s2 = val_demo" by (simp add: ini val_demo_def)
  ultimately show ?thesis by simp
qed

theorem val_queue_stuck_witness: "waiting val_demo 1 = Some (VAdd 6) \<and> waiting val_demo 2 = Some VGet \<and> log val_demo = []"
proof -
  have "log val_demo = []" by (rule val_queue_stuck [OF val_demo_reach]) (simp add: val_demo_def)
  then show ?thesis by (simp add: val_demo_def)
qed

end
