(* ===== verification/Obs_Table.thy ===== *)
theory Obs_Table
  imports Kvalobs_Data
begin

text \<open>
  The tables \<^verbatim>\<open>observations\<close>, \<^verbatim>\<open>obsdata\<close>, \<^verbatim>\<open>obstextdata\<close>, \<^verbatim>\<open>workque\<close> and \<^verbatim>\<open>workstatistik\<close> (declared in
  \<^verbatim>\<open>src/kvalobs_database/kvalobs_schema.sql\<close>), the statements the program executes on them, and
  \<^verbatim>\<open>src/lib/kvalobs/observation.cc\<close>, which reads and writes an observation with all its values. A table is the
  list of its rows in the order of insertion; the constraints of the schema are errors of the statements. The
  statements run in the transaction of the caller. What depends on the surroundings is the record \<open>env\<close>: the
  clock, the special times of Boost, and what is left of a number that is printed into a statement
  (\<open>print_num\<close>) and read from a result (\<open>read_num\<close>). A stray quote in \<^verbatim>\<open>cfailed\<close> is an error of the
  statement here.
\<close>

section \<open>Tables\<close>

datatype db_error = UniqueViolation | ValueTooLong | BadStatement | LogicError | NoMemory | UndefinedBehaviour

record 't env =
  now :: 't
  not_a_date_time :: 't
  neg_infin :: 't
  minus_hours :: "'t \<Rightarrow> int \<Rightarrow> 't"
  is_special :: "'t \<Rightarrow> bool"
  print_num :: "real \<Rightarrow> real"
  read_num :: "real \<Rightarrow> real"
  cast_int :: "real \<Rightarrow> int"

record 't obs_row =
  o_id :: int
  o_stationid :: int
  o_typeid :: int
  o_obstime :: 't
  o_tbtime :: 't

record data_row =
  d_id :: int
  d_original :: real
  d_paramid :: int
  d_sensor :: int
  d_level :: int
  d_corrected :: real
  d_controlinfo :: string
  d_useinfo :: string
  d_cfailed :: string

record text_row =
  t_id :: int
  t_original :: string
  t_paramid :: int

record 't work_row =
  w_id :: int
  w_priority :: int
  w_process_start :: "'t option"
  w_qa_start :: "'t option"
  w_qa_stop :: "'t option"
  w_service_start :: "'t option"
  w_service_stop :: "'t option"
  w_qa_id :: "int option"

record prio_row =
  p_stationid :: int
  p_typeid :: int
  p_priority :: int
  p_hour :: "int option"
  p_pri_after_hour :: "int option"

record 't tables =
  observations :: "'t obs_row list"
  obsdata :: "data_row list"
  obstextdata :: "text_row list"
  workque :: "'t work_row list"
  workstatistik :: "('t obs_row \<times> 't work_row) list"
  next_id :: int
  priorities :: "prio_row list"

section \<open>Statements\<close>

definition same_obs :: "int \<Rightarrow> int \<Rightarrow> 't \<Rightarrow> 't obs_row \<Rightarrow> bool" where
  "same_obs st ty ot r \<longleftrightarrow> o_stationid r = st \<and> o_typeid r = ty \<and> o_obstime r = ot"

definition insert_observation :: "int \<Rightarrow> int \<Rightarrow> 't \<Rightarrow> 't \<Rightarrow> 't tables \<Rightarrow> db_error + 't tables" where
  "insert_observation st ty ot tb t =
     (if list_ex (same_obs st ty ot) (observations t) then Inl UniqueViolation
      else Inr (t\<lparr>observations := observations t @
                    [\<lparr>o_id = next_id t, o_stationid = st, o_typeid = ty, o_obstime = ot, o_tbtime = tb\<rparr>],
                  next_id := next_id t + 1\<rparr>))"

definition insert_data_row :: "data_row \<Rightarrow> 't tables \<Rightarrow> db_error + 't tables" where
  "insert_data_row r t =
     (if list_ex (\<lambda>x. d_id x = d_id r \<and> d_paramid x = d_paramid r \<and> d_level x = d_level r \<and> d_sensor x = d_sensor r) (obsdata t)
      then Inl UniqueViolation
      else if \<not> (0 \<le> d_sensor r \<and> d_sensor r \<le> 9) then Inl ValueTooLong
      else Inr (t\<lparr>obsdata := obsdata t @ [r]\<rparr>))"

definition insert_text_row :: "text_row \<Rightarrow> 't tables \<Rightarrow> db_error + 't tables" where
  "insert_text_row r t =
     (if list_ex (\<lambda>x. t_id x = t_id r \<and> t_paramid x = t_paramid r) (obstextdata t) then Inl UniqueViolation
      else Inr (t\<lparr>obstextdata := obstextdata t @ [r]\<rparr>))"

definition insert_work_row :: "'t work_row \<Rightarrow> 't tables \<Rightarrow> db_error + 't tables" where
  "insert_work_row r t =
     (if list_ex (\<lambda>x. w_id x = w_id r) (workque t) then Inl UniqueViolation
      else Inr (t\<lparr>workque := workque t @ [r]\<rparr>))"

text \<open>The references to \<^verbatim>\<open>observations\<close> are declared with \<^verbatim>\<open>ON DELETE CASCADE\<close>.\<close>

definition delete_observation :: "int \<Rightarrow> 't tables \<Rightarrow> 't tables" where
  "delete_observation i t =
     t\<lparr>observations := filter (\<lambda>r. o_id r \<noteq> i) (observations t), obsdata := filter (\<lambda>r. d_id r \<noteq> i) (obsdata t),
       obstextdata := filter (\<lambda>r. t_id r \<noteq> i) (obstextdata t), workque := filter (\<lambda>r. w_id r \<noteq> i) (workque t)\<rparr>"

section \<open>Observation\<close>

record 't DbObservation =
  hasObservationid :: bool
  ob_id :: int
  ob_stationid :: int
  ob_typeid :: int
  ob_obstime :: 't
  ob_tbtime :: 't
  ob_data :: "'t kvData list"
  ob_textData :: "'t kvTextData list"

definition new_DbObservation :: "'t env \<Rightarrow> 't DbObservation" where
  "new_DbObservation env =
     \<lparr>hasObservationid = False, ob_id = 0, ob_stationid = 0, ob_typeid = 0, ob_obstime = not_a_date_time env,
      ob_tbtime = not_a_date_time env, ob_data = [], ob_textData = []\<rparr>"

definition DbObservation_set :: "int \<Rightarrow> int \<Rightarrow> 't \<Rightarrow> 't \<Rightarrow> 't kvData list \<Rightarrow> 't kvTextData list \<Rightarrow> 't DbObservation" where
  "DbObservation_set st ty ot tb dat txt =
     \<lparr>hasObservationid = False, ob_id = 0, ob_stationid = st, ob_typeid = ty, ob_obstime = ot, ob_tbtime = tb,
      ob_data = dat, ob_textData = txt\<rparr>"

definition totSize :: "'t DbObservation \<Rightarrow> nat" where
  "totSize ob = length (ob_data ob) + length (ob_textData ob)"

text \<open>What a row adds to an observation that does not know its identity yet.\<close>

definition adopt_row :: "'t env \<Rightarrow> 't obs_row \<Rightarrow> 't DbObservation \<Rightarrow> 't DbObservation" where
  "adopt_row env o' ob =
     (let ob = (if hasObservationid ob then ob else ob\<lparr>ob_id := o_id o', hasObservationid := True\<rparr>);
          ob = (if ob_stationid ob = 0 then ob\<lparr>ob_stationid := o_stationid o'\<rparr> else ob);
          ob = (if ob_typeid ob = 0 then ob\<lparr>ob_typeid := o_typeid o'\<rparr> else ob);
          ob = (if is_special env (ob_obstime ob) then ob\<lparr>ob_obstime := o_obstime o'\<rparr> else ob)
      in if is_special env (ob_tbtime ob) then ob\<lparr>ob_tbtime := o_tbtime o'\<rparr> else ob)"

definition getKvData :: "'t env \<Rightarrow> 't obs_row \<Rightarrow> data_row \<Rightarrow> 't kvData" where
  "getKvData env o' d =
     \<lparr>stationID = o_stationid o', obstime = o_obstime o', original = read_num env (d_original d), paramID = d_paramid d,
      tbtime = o_tbtime o', typeID = o_typeid o', sensor = d_sensor d, level = d_level d,
      corrected = read_num env (d_corrected d), controlinfo = flag_of_string (d_controlinfo d),
      useinfo = flag_of_string (d_useinfo d), cfailed = d_cfailed d\<rparr>"

definition getKvTextData :: "'t env \<Rightarrow> 't obs_row \<Rightarrow> text_row \<Rightarrow> 't DbObservation \<Rightarrow> 't kvTextData" where
  "getKvTextData env o' r ob =
     \<lparr>txt_stationID = o_stationid o', txt_obstime = (if is_special env (o_obstime o') then ob_obstime ob else o_obstime o'),
      txt_original = t_original r, txt_paramID = t_paramid r, txt_tbtime = o_tbtime o', txt_typeID = o_typeid o'\<rparr>"

definition setData_row :: "'t env \<Rightarrow> 't obs_row \<times> data_row \<Rightarrow> 't DbObservation \<Rightarrow> 't DbObservation" where
  "setData_row env = (\<lambda>(o', d) ob.
     let ob = adopt_row env o' ob
     in if ob_id ob = o_id o' then ob\<lparr>ob_data := ob_data ob @ [getKvData env o' d]\<rparr> else ob)"

definition setData :: "'t env \<Rightarrow> ('t obs_row \<times> data_row) list \<Rightarrow> 't DbObservation \<Rightarrow> 't DbObservation" where
  "setData env = fold (setData_row env)"

definition setTextData_row :: "'t env \<Rightarrow> 't obs_row \<times> text_row \<Rightarrow> 't DbObservation \<Rightarrow> 't DbObservation" where
  "setTextData_row env = (\<lambda>(o', r) ob.
     let ob = adopt_row env o' ob
     in if ob_id ob = o_id o' then ob\<lparr>ob_textData := ob_textData ob @ [getKvTextData env o' r ob]\<rparr> else ob)"

definition setTextData :: "'t env \<Rightarrow> ('t obs_row \<times> text_row) list \<Rightarrow> 't DbObservation \<Rightarrow> 't DbObservation" where
  "setTextData env = fold (setTextData_row env)"

text \<open>The joins of the queries.\<close>

definition join_data :: "('t obs_row \<Rightarrow> bool) \<Rightarrow> 't tables \<Rightarrow> ('t obs_row \<times> data_row) list" where
  "join_data p t = concat (map (\<lambda>d. map (\<lambda>o'. (o', d)) (filter (\<lambda>o'. o_id o' = d_id d \<and> p o') (observations t))) (obsdata t))"

definition join_text :: "('t obs_row \<Rightarrow> bool) \<Rightarrow> 't tables \<Rightarrow> ('t obs_row \<times> text_row) list" where
  "join_text p t = concat (map (\<lambda>r. map (\<lambda>o'. (o', r)) (filter (\<lambda>o'. o_id o' = t_id r \<and> p o') (observations t))) (obstextdata t))"

definition getObservationid :: "'t env \<Rightarrow> int \<Rightarrow> int \<Rightarrow> 't \<Rightarrow> 't tables \<Rightarrow> int \<times> 't \<times> bool" where
  "getObservationid env st ty ot t =
     (case filter (same_obs st ty ot) (observations t) of
        [] \<Rightarrow> (0, now env, False)
      | o' # _ \<Rightarrow> (o_id o', if o_tbtime o' = not_a_date_time env then now env else o_tbtime o', True))"

definition getFromDb :: "'t env \<Rightarrow> int \<Rightarrow> int \<Rightarrow> 't \<Rightarrow> 't tables \<Rightarrow> db_error + 't DbObservation option" where
  "getFromDb env st ty ot t =
     (let res = join_data (same_obs st ty ot) t in
      if res = [] then
        (let res = join_text (same_obs st ty ot) t in
         if res = [] then
           (case getObservationid env st ty ot t of (i, tb, found) \<Rightarrow>
              Inr (if found then Some ((new_DbObservation env)\<lparr>ob_id := i, hasObservationid := True, ob_stationid := st,
                     ob_typeid := ty, ob_obstime := ot, ob_tbtime := tb\<rparr>) else None))
         else Inr (Some (setTextData env res (new_DbObservation env))))
      else
        (let ob = setData env res (new_DbObservation env) in
         if ob_id ob = 0 then Inl LogicError
         else Inr (Some (setTextData env (join_text (\<lambda>o'. o_id o' = ob_id ob) t) ob))))"

text \<open>Reading by the identity of the observation; the conditions on \<^verbatim>\<open>d.observationid\<close> make the outer joins inner ones.\<close>

definition DbObservation_set_rows :: "'t env \<Rightarrow> 't obs_row list \<Rightarrow> 't DbObservation \<Rightarrow> bool \<times> 't DbObservation" where
  "DbObservation_set_rows env rows ob =
     (let ob = ob\<lparr>hasObservationid := False, ob_stationid := 0, ob_typeid := 0, ob_obstime := not_a_date_time env,
                  ob_tbtime := not_a_date_time env\<rparr> in
      case rows of
        [] \<Rightarrow> (False, ob)
      | r # _ \<Rightarrow>
          let ob = ob\<lparr>hasObservationid := True, ob_id := o_id r, ob_stationid := o_stationid r, ob_typeid := o_typeid r,
                      ob_obstime := o_obstime r, ob_tbtime := o_tbtime r\<rparr>
          in (ob_stationid ob \<noteq> 0 \<and> ob_typeid ob \<noteq> 0 \<and> \<not> is_special env (ob_obstime ob) \<and> \<not> is_special env (ob_tbtime ob), ob))"

definition getFromDb_id :: "'t env \<Rightarrow> int \<Rightarrow> 't tables \<Rightarrow> 't DbObservation option" where
  "getFromDb_id env i t =
     (let res = join_data (\<lambda>o'. o_id o' = i) t;
          (found, ob) =
            (if res \<noteq> [] then (True, setData env res (new_DbObservation env))
             else DbObservation_set_rows env (filter (\<lambda>o'. o_id o' = i) (observations t)) (new_DbObservation env))
      in if found then Some (setTextData env (join_text (\<lambda>o'. o_id o' = i) t) ob) else None)"

text \<open>The value of \<^verbatim>\<open>Q(s)\<close> in a statement: quotes are added unless the text has them already.\<close>

definition sql_quoted :: "string \<Rightarrow> db_error + string" where
  "sql_quoted s =
     (let inner = (if 2 \<le> length s \<and> hd s = CHR 0x27 \<and> last s = CHR 0x27 then butlast (tl s) else s)
      in if CHR 0x27 \<in> set inner then Inl BadStatement else Inr inner)"

definition data_row_of :: "'t env \<Rightarrow> int \<Rightarrow> 't kvData \<Rightarrow> db_error + data_row" where
  "data_row_of env i d =
     res_bind (sql_quoted (cfailed d)) (\<lambda>cf. Inr
       \<lparr>d_id = i, d_original = print_num env (original d), d_paramid = paramID d, d_sensor = sensor d, d_level = level d,
        d_corrected = print_num env (corrected d), d_controlinfo = flagstring (controlinfo d), d_useinfo = flagstring (useinfo d),
        d_cfailed = cf\<rparr>)"

fun insert_all_data :: "'t env \<Rightarrow> int \<Rightarrow> 't kvData list \<Rightarrow> 't tables \<Rightarrow> db_error + 't tables" where
  "insert_all_data env i [] t = Inr t"
| "insert_all_data env i (d # ds) t =
     res_bind (data_row_of env i d) (\<lambda>r. res_bind (insert_data_row r t) (insert_all_data env i ds))"

fun insert_all_text :: "int \<Rightarrow> 't kvTextData list \<Rightarrow> 't tables \<Rightarrow> db_error + 't tables" where
  "insert_all_text i [] t = Inr t"
| "insert_all_text i (d # ds) t =
     res_bind (insert_text_row \<lparr>t_id = i, t_original = txt_original d, t_paramid = txt_paramID d\<rparr> t) (insert_all_text i ds)"

definition insertIntoDb :: "'t env \<Rightarrow> 't DbObservation \<Rightarrow> 't tables \<Rightarrow> db_error + 't DbObservation \<times> 't tables" where
  "insertIntoDb env ob t =
     (let tb = (if is_special env (ob_tbtime ob) then now env else ob_tbtime ob) in
      res_bind (insert_observation (ob_stationid ob) (ob_typeid ob) (ob_obstime ob) tb t) (\<lambda>t1.
      let i = next_id t in
      res_bind (insert_all_data env i (ob_data ob) t1) (\<lambda>t2.
      res_bind (insert_all_text i (ob_textData ob) t2) (\<lambda>t3. Inr (ob\<lparr>ob_id := i\<rparr>, t3)))))"

section \<open>Lemmas: statements\<close>

definition sql_inner :: "string \<Rightarrow> string" where
  "sql_inner s = (if 2 \<le> length s \<and> hd s = CHR 0x27 \<and> last s = CHR 0x27 then butlast (tl s) else s)"

definition data_row_val :: "'t env \<Rightarrow> int \<Rightarrow> 't kvData \<Rightarrow> data_row" where
  "data_row_val env i d =
     \<lparr>d_id = i, d_original = print_num env (original d), d_paramid = paramID d, d_sensor = sensor d, d_level = level d,
      d_corrected = print_num env (corrected d), d_controlinfo = flagstring (controlinfo d), d_useinfo = flagstring (useinfo d),
      d_cfailed = sql_inner (cfailed d)\<rparr>"

definition text_row_val :: "int \<Rightarrow> 't kvTextData \<Rightarrow> text_row" where
  "text_row_val i d = \<lparr>t_id = i, t_original = txt_original d, t_paramid = txt_paramID d\<rparr>"

lemma data_row_of_Inr: "data_row_of env i d = Inr r \<Longrightarrow> r = data_row_val env i d"
  by (auto simp: data_row_of_def data_row_val_def sql_quoted_def sql_inner_def Let_def res_bind_Inr_iff split: if_splits)

text \<open>What identifies a row in its table.\<close>

definition drow_key :: "data_row \<Rightarrow> int \<times> int \<times> int \<times> int" where
  "drow_key r = (d_id r, d_paramid r, d_level r, d_sensor r)"

definition trow_key :: "text_row \<Rightarrow> int \<times> int" where
  "trow_key r = (t_id r, t_paramid r)"

definition obs_key :: "'t obs_row \<Rightarrow> int \<times> int \<times> 't" where
  "obs_key r = (o_stationid r, o_typeid r, o_obstime r)"

lemma same_obs_key: "same_obs st ty ot r \<longleftrightarrow> obs_key r = (st, ty, ot)"
  by (auto simp: same_obs_def obs_key_def)

text \<open>The constraints of the schema.\<close>

definition tables_ok :: "'t tables \<Rightarrow> bool" where
  "tables_ok t \<longleftrightarrow> distinct (map o_id (observations t)) \<and> distinct (map obs_key (observations t))
     \<and> (\<forall>r\<in>set (observations t). 0 < o_id r \<and> o_id r < next_id t) \<and> 0 < next_id t
     \<and> distinct (map drow_key (obsdata t)) \<and> d_id ` set (obsdata t) \<subseteq> o_id ` set (observations t)
     \<and> distinct (map trow_key (obstextdata t)) \<and> t_id ` set (obstextdata t) \<subseteq> o_id ` set (observations t)
     \<and> distinct (map w_id (workque t)) \<and> w_id ` set (workque t) \<subseteq> o_id ` set (observations t)"

lemma list_ex_key: "list_ex (\<lambda>x. f x = k) xs \<longleftrightarrow> k \<in> f ` set xs"
  by (induction xs) auto

lemma list_ex_data_key:
  "list_ex (\<lambda>x. d_id x = d_id r \<and> d_paramid x = d_paramid r \<and> d_level x = d_level r \<and> d_sensor x = d_sensor r) xs
     \<longleftrightarrow> drow_key r \<in> drow_key ` set xs"
  using list_ex_key [of drow_key "drow_key r" xs] by (simp add: drow_key_def)

lemma list_ex_text_key:
  "list_ex (\<lambda>x. t_id x = t_id r \<and> t_paramid x = t_paramid r) xs \<longleftrightarrow> trow_key r \<in> trow_key ` set xs"
  using list_ex_key [of trow_key "trow_key r" xs] by (simp add: trow_key_def)

lemma list_ex_same_obs: "list_ex (same_obs st ty ot) xs \<longleftrightarrow> (st, ty, ot) \<in> obs_key ` set xs"
  using list_ex_key [of obs_key "(st, ty, ot)" xs] same_obs_key [of st ty ot] by (simp add: fun_eq_iff list_ex_iff)

lemma insert_observation_Inr:
  "insert_observation st ty ot tb t = Inr t' \<longleftrightarrow>
     (st, ty, ot) \<notin> obs_key ` set (observations t) \<and>
     t' = t\<lparr>observations := observations t @ [\<lparr>o_id = next_id t, o_stationid = st, o_typeid = ty, o_obstime = ot, o_tbtime = tb\<rparr>],
            next_id := next_id t + 1\<rparr>"
  by (auto simp: insert_observation_def list_ex_same_obs)

lemma insert_data_row_Inr:
  "insert_data_row r t = Inr t' \<longleftrightarrow> drow_key r \<notin> drow_key ` set (obsdata t) \<and> 0 \<le> d_sensor r \<and> d_sensor r \<le> 9
     \<and> t' = t\<lparr>obsdata := obsdata t @ [r]\<rparr>"
  by (auto simp: insert_data_row_def list_ex_data_key)

lemma insert_text_row_Inr:
  "insert_text_row r t = Inr t' \<longleftrightarrow> trow_key r \<notin> trow_key ` set (obstextdata t) \<and> t' = t\<lparr>obstextdata := obstextdata t @ [r]\<rparr>"
  by (auto simp: insert_text_row_def list_ex_text_key)

lemma insert_work_row_Inr:
  "insert_work_row r t = Inr t' \<longleftrightarrow> w_id r \<notin> w_id ` set (workque t) \<and> t' = t\<lparr>workque := workque t @ [r]\<rparr>"
  by (auto simp: insert_work_row_def list_ex_key)

lemma insert_all_data_Inr:
  "insert_all_data env i ds t = Inr t' \<Longrightarrow>
     t' = t\<lparr>obsdata := obsdata t @ map (data_row_val env i) ds\<rparr>
     \<and> (distinct (map drow_key (obsdata t)) \<longrightarrow> distinct (map drow_key (obsdata t'))) \<and> list_all (\<lambda>d. 0 \<le> sensor d \<and> sensor d \<le> 9) ds"
proof (induction ds arbitrary: t)
  case (Cons d ds)
  then obtain r t1 where r: "data_row_of env i d = Inr r" and "insert_data_row r t = Inr t1" and rest: "insert_all_data env i ds t1 = Inr t'"
    by (auto simp: res_bind_Inr_iff)
  then have t1: "drow_key r \<notin> drow_key ` set (obsdata t)" "t1 = t\<lparr>obsdata := obsdata t @ [r]\<rparr>" "0 \<le> d_sensor r" "d_sensor r \<le> 9"
    by (simp_all add: insert_data_row_Inr)
  have "r = data_row_val env i d" by (rule data_row_of_Inr [OF r])
  have eq: "t' = t1\<lparr>obsdata := obsdata t1 @ map (data_row_val env i) ds\<rparr>"
    and dist: "distinct (map drow_key (obsdata t1)) \<longrightarrow> distinct (map drow_key (obsdata t'))"
    and sens: "list_all (\<lambda>d. 0 \<le> sensor d \<and> sensor d \<le> 9) ds"
    using Cons.IH [OF rest] by blast+
  have "distinct (map drow_key (obsdata t1))" if "distinct (map drow_key (obsdata t))"
    using that t1(1,2) by simp
  moreover have "t' = t\<lparr>obsdata := obsdata t @ map (data_row_val env i) (d # ds)\<rparr>"
    using eq t1(2) \<open>r = _\<close> by simp
  moreover have "0 \<le> sensor d \<and> sensor d \<le> 9" using t1(3,4) \<open>r = _\<close> by (simp add: data_row_val_def)
  ultimately show ?case using dist sens by simp
qed simp

lemma insert_all_text_Inr:
  "insert_all_text i ds t = Inr t' \<Longrightarrow>
     t' = t\<lparr>obstextdata := obstextdata t @ map (text_row_val i) ds\<rparr>
     \<and> (distinct (map trow_key (obstextdata t)) \<longrightarrow> distinct (map trow_key (obstextdata t')))"
proof (induction ds arbitrary: t)
  case (Cons d ds)
  then obtain t1 where "insert_text_row (text_row_val i d) t = Inr t1" and rest: "insert_all_text i ds t1 = Inr t'"
    by (auto simp: res_bind_Inr_iff text_row_val_def)
  then have "trow_key (text_row_val i d) \<notin> trow_key ` set (obstextdata t)" "t1 = t\<lparr>obstextdata := obstextdata t @ [text_row_val i d]\<rparr>"
    by (simp_all add: insert_text_row_Inr)
  note t1 = this
  have eq: "t' = t1\<lparr>obstextdata := obstextdata t1 @ map (text_row_val i) ds\<rparr>"
    and dist: "distinct (map trow_key (obstextdata t1)) \<longrightarrow> distinct (map trow_key (obstextdata t'))"
    using Cons.IH [OF rest] by blast+
  have "distinct (map trow_key (obstextdata t1))" if "distinct (map trow_key (obstextdata t))"
    using that t1 by simp
  moreover have "t' = t\<lparr>obstextdata := obstextdata t @ map (text_row_val i) (d # ds)\<rparr>"
    using eq t1(2) by simp
  ultimately show ?case using dist by blast
qed simp

definition new_obs_row :: "'t env \<Rightarrow> 't DbObservation \<Rightarrow> int \<Rightarrow> 't obs_row" where
  "new_obs_row env ob i =
     \<lparr>o_id = i, o_stationid = ob_stationid ob, o_typeid = ob_typeid ob, o_obstime = ob_obstime ob,
      o_tbtime = (if is_special env (ob_tbtime ob) then now env else ob_tbtime ob)\<rparr>"

lemma insertIntoDb_Inr:
  assumes "insertIntoDb env ob t = Inr (ob', t')"
  shows "ob' = ob\<lparr>ob_id := next_id t\<rparr>"
    and "t' = t\<lparr>observations := observations t @ [new_obs_row env ob (next_id t)],
               obsdata := obsdata t @ map (data_row_val env (next_id t)) (ob_data ob),
               obstextdata := obstextdata t @ map (text_row_val (next_id t)) (ob_textData ob), next_id := next_id t + 1\<rparr>"
    and "(ob_stationid ob, ob_typeid ob, ob_obstime ob) \<notin> obs_key ` set (observations t)"
    and "tables_ok t \<Longrightarrow> tables_ok t'"
    and "list_all (\<lambda>d. 0 \<le> sensor d \<and> sensor d \<le> 9) (ob_data ob)"
proof -
  let ?tb = "if is_special env (ob_tbtime ob) then now env else ob_tbtime ob"
  obtain t1 t2 where o: "insert_observation (ob_stationid ob) (ob_typeid ob) (ob_obstime ob) ?tb t = Inr t1"
    and d: "insert_all_data env (next_id t) (ob_data ob) t1 = Inr t2" and x: "insert_all_text (next_id t) (ob_textData ob) t2 = Inr t'"
    and ob': "ob' = ob\<lparr>ob_id := next_id t\<rparr>"
    using assms by (auto simp: insertIntoDb_def Let_def res_bind_Inr_iff)
  have t1: "t1 = t\<lparr>observations := observations t @ [new_obs_row env ob (next_id t)], next_id := next_id t + 1\<rparr>"
    and new: "(ob_stationid ob, ob_typeid ob, ob_obstime ob) \<notin> obs_key ` set (observations t)"
    using o by (simp_all add: insert_observation_Inr new_obs_row_def)
  note dd = insert_all_data_Inr [OF d] and xx = insert_all_text_Inr [OF x]
  show "ob' = ob\<lparr>ob_id := next_id t\<rparr>" by (rule ob')
  show t': "t' = t\<lparr>observations := observations t @ [new_obs_row env ob (next_id t)],
               obsdata := obsdata t @ map (data_row_val env (next_id t)) (ob_data ob),
               obstextdata := obstextdata t @ map (text_row_val (next_id t)) (ob_textData ob), next_id := next_id t + 1\<rparr>"
    using dd xx t1 by simp
  show "(ob_stationid ob, ob_typeid ob, ob_obstime ob) \<notin> obs_key ` set (observations t)" by (rule new)
  show "list_all (\<lambda>d. 0 \<le> sensor d \<and> sensor d \<le> 9) (ob_data ob)" using dd by simp
  show "tables_ok t'" if ok: "tables_ok t"
  proof -
    have "obsdata t1 = obsdata t" by (simp add: t1)
    moreover have "obstextdata t2 = obstextdata t" using conjunct1 [OF dd] by (simp add: t1)
    moreover have "obsdata t' = obsdata t2" using arg_cong [OF conjunct1 [OF xx], of obsdata] by simp
    ultimately have "distinct (map drow_key (obsdata t'))" "distinct (map trow_key (obstextdata t'))"
      using ok dd xx unfolding tables_ok_def by metis+
    moreover have "next_id t \<notin> o_id ` set (observations t)" using ok by (auto simp: tables_ok_def)
    moreover have "obs_key (new_obs_row env ob (next_id t)) \<notin> obs_key ` set (observations t)"
      using new by (simp add: obs_key_def new_obs_row_def)
    ultimately show ?thesis
      using ok unfolding tables_ok_def
      by (simp add: t' image_Un image_image data_row_val_def text_row_val_def new_obs_row_def) (auto intro: less_imp_le)
  qed
qed

lemma distinct_map_filter_key: "distinct (map f xs) \<Longrightarrow> distinct (map f (filter P xs))"
  by (induction xs) auto

lemma delete_observation_ok: "tables_ok t \<Longrightarrow> tables_ok (delete_observation i t)"
  by (auto simp: tables_ok_def delete_observation_def intro!: distinct_map_filter_key)

lemma filter_single: "distinct xs \<Longrightarrow> a \<in> set xs \<Longrightarrow> filter (\<lambda>x. x = a) xs = [a]"
  by (induction xs) (auto simp: filter_empty_conv)

lemma join_data_only:
  assumes "distinct (map o_id (observations t))" "o' \<in> set (observations t)" "\<And>x. x \<in> set (observations t) \<Longrightarrow> p x \<longleftrightarrow> x = o'"
  shows "join_data p t = map (\<lambda>d. (o', d)) (filter (\<lambda>d. d_id d = o_id o') (obsdata t))"
    and "join_text p t = map (\<lambda>d. (o', d)) (filter (\<lambda>d. t_id d = o_id o') (obstextdata t))"
proof -
  have f: "filter (\<lambda>x. o_id x = i \<and> p x) (observations t) = (if o_id o' = i then [o'] else [])" for i
  proof -
    have "filter (\<lambda>x. o_id x = i \<and> p x) (observations t) = filter (\<lambda>x. x = o' \<and> o_id o' = i) (observations t)"
      using assms(3) by (intro filter_cong) auto
    moreover have "distinct (observations t)" using assms(1) by (simp add: distinct_map)
    ultimately show ?thesis
      using assms(2) filter_single by (cases "o_id o' = i") auto
  qed
  have c: "concat (map (\<lambda>d. map (\<lambda>o'. (o', d)) (if o_id o' = k d then [o'] else [])) xs) = map (\<lambda>d. (o', d)) (filter (\<lambda>d. k d = o_id o') xs)"
    for k :: "'d \<Rightarrow> int" and xs
    by (induction xs) auto
  show "join_data p t = map (\<lambda>d. (o', d)) (filter (\<lambda>d. d_id d = o_id o') (obsdata t))"
    unfolding join_data_def f by (rule c)
  show "join_text p t = map (\<lambda>d. (o', d)) (filter (\<lambda>d. t_id d = o_id o') (obstextdata t))"
    unfolding join_text_def f by (rule c)
qed

section \<open>Lemmas: reading\<close>

definition env_ok :: "'t env \<Rightarrow> bool" where
  "env_ok env \<longleftrightarrow> is_special env (not_a_date_time env)"

definition adopted :: "'t obs_row \<Rightarrow> 't DbObservation \<Rightarrow> bool" where
  "adopted o' ob \<longleftrightarrow> hasObservationid ob \<and> ob_id ob = o_id o' \<and> ob_stationid ob = o_stationid o' \<and> ob_typeid ob = o_typeid o'
     \<and> ob_obstime ob = o_obstime o' \<and> ob_tbtime ob = o_tbtime o'"

lemma adopt_row_adopted: "adopted o' ob \<Longrightarrow> adopt_row env o' ob = ob"
  by (simp add: adopted_def adopt_row_def Let_def)

lemma adopted_new: "env_ok env \<Longrightarrow> adopted o' (adopt_row env o' (new_DbObservation env))"
  by (simp add: adopted_def adopt_row_def new_DbObservation_def env_ok_def)

lemma adopt_row_values [simp]:
  "ob_data (adopt_row env o' ob) = ob_data ob" "ob_textData (adopt_row env o' ob) = ob_textData ob"
  by (simp_all add: adopt_row_def Let_def)

lemma setData_adopted:
  "adopted o' ob \<Longrightarrow> setData env (map (\<lambda>d. (o', d)) ds) ob = ob\<lparr>ob_data := ob_data ob @ map (getKvData env o') ds\<rparr>"
proof (induction ds arbitrary: ob)
  case (Cons d ds)
  have "adopted o' (ob\<lparr>ob_data := ob_data ob @ [getKvData env o' d]\<rparr>)" using Cons.prems by (simp add: adopted_def)
  moreover have "ob_id ob = o_id o'" using Cons.prems by (simp add: adopted_def)
  ultimately show ?case
    using Cons by (simp add: setData_def setData_row_def adopt_row_adopted)
qed (simp add: setData_def)

definition text_back :: "'t obs_row \<Rightarrow> text_row \<Rightarrow> 't kvTextData" where
  "text_back o' r =
     \<lparr>txt_stationID = o_stationid o', txt_obstime = o_obstime o', txt_original = t_original r, txt_paramID = t_paramid r,
      txt_tbtime = o_tbtime o', txt_typeID = o_typeid o'\<rparr>"

lemma setTextData_adopted:
  "adopted o' ob \<Longrightarrow> setTextData env (map (\<lambda>d. (o', d)) ds) ob = ob\<lparr>ob_textData := ob_textData ob @ map (text_back o') ds\<rparr>"
proof (induction ds arbitrary: ob)
  case (Cons d ds)
  have "adopted o' (ob\<lparr>ob_textData := ob_textData ob @ [text_back o' d]\<rparr>)" using Cons.prems by (simp add: adopted_def)
  moreover have "ob_id ob = o_id o'" "getKvTextData env o' d ob = text_back o' d"
    using Cons.prems by (simp_all add: adopted_def getKvTextData_def text_back_def)
  ultimately show ?case
    using Cons by (simp add: setTextData_def setTextData_row_def adopt_row_adopted)
qed (simp add: setTextData_def)

lemma setData_new:
  assumes "env_ok env" "ds \<noteq> []"
  shows "setData env (map (\<lambda>d. (o', d)) ds) (new_DbObservation env) =
    (adopt_row env o' (new_DbObservation env))\<lparr>ob_data := map (getKvData env o') ds\<rparr>"
proof -
  let ?b = "adopt_row env o' (new_DbObservation env)"
  have a: "adopted o' ?b" by (rule adopted_new [OF assms(1)])
  have "setData env (map (\<lambda>d. (o', d)) ds) (new_DbObservation env) = setData env (map (\<lambda>d. (o', d)) ds) ?b"
    using assms(2) adopt_row_adopted [OF a, of env] by (cases ds) (simp_all add: setData_def setData_row_def Let_def)
  then show ?thesis using setData_adopted [OF a, of env ds] by (simp add: new_DbObservation_def)
qed

lemma setTextData_new:
  assumes "env_ok env" "ds \<noteq> []"
  shows "setTextData env (map (\<lambda>d. (o', d)) ds) (new_DbObservation env) =
    (adopt_row env o' (new_DbObservation env))\<lparr>ob_textData := map (text_back o') ds\<rparr>"
proof -
  let ?b = "adopt_row env o' (new_DbObservation env)"
  have a: "adopted o' ?b" by (rule adopted_new [OF assms(1)])
  have "setTextData env (map (\<lambda>d. (o', d)) ds) (new_DbObservation env) = setTextData env (map (\<lambda>d. (o', d)) ds) ?b"
    using assms(2) adopt_row_adopted [OF a, of env] by (cases ds) (simp_all add: setTextData_def setTextData_row_def Let_def)
  then show ?thesis using setTextData_adopted [OF a, of env ds] by (simp add: new_DbObservation_def)
qed

text \<open>The rows of an observation.\<close>

definition data_of :: "int \<Rightarrow> 't tables \<Rightarrow> data_row list" where
  "data_of i t = filter (\<lambda>d. d_id d = i) (obsdata t)"

definition text_of :: "int \<Rightarrow> 't tables \<Rightarrow> text_row list" where
  "text_of i t = filter (\<lambda>d. t_id d = i) (obstextdata t)"

lemma tables_ok_unique:
  "tables_ok t \<Longrightarrow> o' \<in> set (observations t) \<Longrightarrow> x \<in> set (observations t) \<Longrightarrow> (o_id x = o_id o' \<longleftrightarrow> x = o') \<and> (obs_key x = obs_key o' \<longleftrightarrow> x = o')"
  by (auto simp: tables_ok_def distinct_map inj_on_def)

lemma joins_of:
  assumes "tables_ok t" "o' \<in> set (observations t)" "obs_key o' = (st, ty, ot)"
  shows "join_data (same_obs st ty ot) t = map (\<lambda>d. (o', d)) (data_of (o_id o') t)"
    and "join_text (same_obs st ty ot) t = map (\<lambda>d. (o', d)) (text_of (o_id o') t)"
    and "join_text (\<lambda>x. o_id x = o_id o') t = map (\<lambda>d. (o', d)) (text_of (o_id o') t)"
    and "filter (same_obs st ty ot) (observations t) = [o']"
proof -
  have d: "distinct (map o_id (observations t))" "distinct (observations t)"
    using assms(1) by (auto simp: tables_ok_def distinct_map)
  have k: "same_obs st ty ot x \<longleftrightarrow> x = o'" if "x \<in> set (observations t)" for x
    using tables_ok_unique [OF assms(1,2) that] assms(3) by (simp add: same_obs_key)
  have i: "o_id x = o_id o' \<longleftrightarrow> x = o'" if "x \<in> set (observations t)" for x
    using tables_ok_unique [OF assms(1,2) that] by simp
  show "join_data (same_obs st ty ot) t = map (\<lambda>d. (o', d)) (data_of (o_id o') t)"
    "join_text (same_obs st ty ot) t = map (\<lambda>d. (o', d)) (text_of (o_id o') t)"
    using join_data_only [OF d(1) assms(2), of "same_obs st ty ot"] k by (simp_all add: data_of_def text_of_def)
  show "join_text (\<lambda>x. o_id x = o_id o') t = map (\<lambda>d. (o', d)) (text_of (o_id o') t)"
    using join_data_only(2) [OF d(1) assms(2), of "\<lambda>x. o_id x = o_id o'"] i by (simp add: text_of_def)
  have "filter (same_obs st ty ot) (observations t) = filter (\<lambda>x. x = o') (observations t)"
    using k by (intro filter_cong) auto
  then show "filter (same_obs st ty ot) (observations t) = [o']"
    using filter_single [OF d(2) assms(2)] by simp
qed

lemma joins_by_id:
  assumes "tables_ok t" "o' \<in> set (observations t)"
  shows "join_data (\<lambda>x. o_id x = o_id o') t = map (\<lambda>d. (o', d)) (data_of (o_id o') t)"
    and "join_text (\<lambda>x. o_id x = o_id o') t = map (\<lambda>d. (o', d)) (text_of (o_id o') t)"
    and "filter (\<lambda>x. o_id x = o_id o') (observations t) = [o']"
proof -
  have d: "distinct (map o_id (observations t))" "distinct (observations t)"
    using assms(1) by (auto simp: tables_ok_def distinct_map)
  have i: "o_id x = o_id o' \<longleftrightarrow> x = o'" if "x \<in> set (observations t)" for x
    using tables_ok_unique [OF assms that] by simp
  show "join_data (\<lambda>x. o_id x = o_id o') t = map (\<lambda>d. (o', d)) (data_of (o_id o') t)"
    "join_text (\<lambda>x. o_id x = o_id o') t = map (\<lambda>d. (o', d)) (text_of (o_id o') t)"
    using join_data_only [OF d(1) assms(2), of "\<lambda>x. o_id x = o_id o'"] i by (simp_all add: data_of_def text_of_def)
  have "filter (\<lambda>x. o_id x = o_id o') (observations t) = filter (\<lambda>x. x = o') (observations t)"
    using i by (intro filter_cong) auto
  then show "filter (\<lambda>x. o_id x = o_id o') (observations t) = [o']"
    using filter_single [OF d(2) assms(2)] by simp
qed

text \<open>What every reading gives.\<close>

definition db_value :: "'t env \<Rightarrow> 't obs_row \<Rightarrow> 't tables \<Rightarrow> 't DbObservation" where
  "db_value env o' t =
     \<lparr>hasObservationid = True, ob_id = o_id o', ob_stationid = o_stationid o', ob_typeid = o_typeid o', ob_obstime = o_obstime o',
      ob_tbtime = o_tbtime o', ob_data = map (getKvData env o') (data_of (o_id o') t),
      ob_textData = map (text_back o') (text_of (o_id o') t)\<rparr>"

lemma adopted_new_value:
  "env_ok env \<Longrightarrow> adopt_row env o' (new_DbObservation env) =
     \<lparr>hasObservationid = True, ob_id = o_id o', ob_stationid = o_stationid o', ob_typeid = o_typeid o', ob_obstime = o_obstime o',
      ob_tbtime = o_tbtime o', ob_data = [], ob_textData = []\<rparr>"
  by (simp add: adopt_row_def new_DbObservation_def env_ok_def)

lemma getFromDb_id_value:
  assumes "tables_ok t" "env_ok env" "o' \<in> set (observations t)" "o_stationid o' \<noteq> 0" "o_typeid o' \<noteq> 0"
    "\<not> is_special env (o_obstime o')" "\<not> is_special env (o_tbtime o')"
  shows "getFromDb_id env (o_id o') t = Some (db_value env o' t)"
proof -
  note k = joins_by_id [OF assms(1,3)] and v = adopted_new_value [OF assms(2), of o']
  have row: "DbObservation_set_rows env [o'] (new_DbObservation env) = (True, adopt_row env o' (new_DbObservation env))"
    using assms(4-7) v by (simp add: DbObservation_set_rows_def new_DbObservation_def)
  show ?thesis
    using k row setData_new [OF assms(2), of "data_of (o_id o') t" o']
    by (cases "data_of (o_id o') t = []") (simp_all add: getFromDb_id_def setTextData_adopted adopted_def db_value_def v Let_def)
qed

lemma getFromDb_value:
  assumes "tables_ok t" "env_ok env" "o' \<in> set (observations t)" "o_tbtime o' \<noteq> not_a_date_time env"
  shows "getFromDb env (o_stationid o') (o_typeid o') (o_obstime o') t = Inr (Some (db_value env o' t))"
proof -
  note j = joins_of [OF assms(1,3) obs_key_def] and v = adopted_new_value [OF assms(2), of o']
  have pos: "o_id o' \<noteq> 0" using assms(1,3) by (auto simp: tables_ok_def)
  consider "data_of (o_id o') t \<noteq> []" | "data_of (o_id o') t = []" "text_of (o_id o') t \<noteq> []"
    | "data_of (o_id o') t = []" "text_of (o_id o') t = []" by blast
  then show ?thesis
  proof cases
    case 1
    then show ?thesis
      using j pos setData_new [OF assms(2) 1, of o']
      by (simp add: getFromDb_def setTextData_adopted adopted_def db_value_def v Let_def)
  next
    case 2
    then show ?thesis using j setTextData_new [OF assms(2) 2(2), of o'] by (simp add: getFromDb_def db_value_def v)
  next
    case 3
    then show ?thesis using j assms(4) by (simp add: getFromDb_def getObservationid_def new_DbObservation_def db_value_def)
  qed
qed

lemma getFromDb_Some:
  assumes "tables_ok t" "env_ok env" "o' \<in> set (observations t)" "obs_key o' = (st, ty, ot)"
  shows "\<exists>ob. getFromDb env st ty ot t = Inr (Some ob) \<and> ob_id ob = o_id o' \<and> ob_stationid ob = st \<and> ob_typeid ob = ty
    \<and> ob_obstime ob = ot \<and> ob_data ob = map (getKvData env o') (data_of (o_id o') t)
    \<and> ob_textData ob = map (text_back o') (text_of (o_id o') t)"
proof -
  note j = joins_of [OF assms(1,3,4)]
  have key: "o_stationid o' = st" "o_typeid o' = ty" "o_obstime o' = ot" using assms(4) by (simp_all add: obs_key_def)
  have pos: "o_id o' \<noteq> 0" using assms(1,3) by (auto simp: tables_ok_def)
  have a: "adopted o' (adopt_row env o' (new_DbObservation env))" by (rule adopted_new [OF assms(2)])
  show ?thesis
  proof (cases "data_of (o_id o') t = []")
    case True
    show ?thesis
    proof (cases "text_of (o_id o') t = []")
      case t: True
      show ?thesis
        using True t j by (simp add: getFromDb_def getObservationid_def new_DbObservation_def)
    next
      case False
      then show ?thesis
        using True j setTextData_new [OF assms(2) False, of o'] a key
        by (simp add: getFromDb_def adopted_def new_DbObservation_def)
    qed
  next
    case False
    let ?ob = "(adopt_row env o' (new_DbObservation env))\<lparr>ob_data := map (getKvData env o') (data_of (o_id o') t)\<rparr>"
    have s: "setData env (map (\<lambda>d. (o', d)) (data_of (o_id o') t)) (new_DbObservation env) = ?ob"
      by (rule setData_new [OF assms(2) False])
    have ao: "adopted o' ?ob" using a by (simp add: adopted_def)
    then have "ob_id ?ob = o_id o'" by (simp add: adopted_def)
    then have "getFromDb env st ty ot t =
        Inr (Some (?ob\<lparr>ob_textData := map (text_back o') (text_of (o_id o') t)\<rparr>))"
      using False j s pos setTextData_adopted [OF ao, of env "text_of (o_id o') t"]
      by (simp add: getFromDb_def Let_def new_DbObservation_def)
    then show ?thesis using ao key by (simp add: adopted_def)
  qed
qed

lemma getFromDb_None:
  assumes "(st, ty, ot) \<notin> obs_key ` set (observations t)"
  shows "getFromDb env st ty ot t = Inr None"
proof -
  have n: "\<not> same_obs st ty ot x" if "x \<in> set (observations t)" for x
    using that assms same_obs_key by (metis imageI)
  then have "filter (same_obs st ty ot) (observations t) = []" by (simp add: filter_empty_conv)
  moreover have "join_data (same_obs st ty ot) t = []" "join_text (same_obs st ty ot) t = []"
    using n by (auto simp: join_data_def join_text_def filter_empty_conv)
  ultimately show ?thesis by (simp add: getFromDb_def getObservationid_def)
qed

lemma getFromDb_id_None:
  assumes "i \<notin> o_id ` set (observations t)"
  shows "getFromDb_id env i t = None"
proof -
  have f: "filter (\<lambda>x. o_id x = i) (observations t) = []" "filter (\<lambda>x. o_id x = k \<and> o_id x = i) (observations t) = []" for k
    using assms by (auto simp: filter_empty_conv)
  then have "join_data (\<lambda>x. o_id x = i) t = []" by (simp add: join_data_def)
  with f show ?thesis by (simp add: getFromDb_id_def DbObservation_set_rows_def Let_def)
qed

section \<open>Properties\<close>

definition demo_env :: "nat env" where
  "demo_env = \<lparr>now = 100, not_a_date_time = 0, neg_infin = 1, minus_hours = (\<lambda>t h. t - nat h), is_special = (\<lambda>t. t = 0),
     print_num = id, read_num = id, cast_int = floor\<rparr>"

definition demo_data :: "int \<Rightarrow> real \<Rightarrow> nat kvData" where
  "demo_data p v = \<lparr>stationID = 1, obstime = 10, original = v, paramID = p, tbtime = 12, typeID = 4, sensor = 0, level = 0,
     corrected = v, controlinfo = clear_flag, useinfo = clear_useinfo, cfailed = []\<rparr>"

definition demo_tables :: "data_row list \<Rightarrow> nat tables" where
  "demo_tables ds = \<lparr>observations = [\<lparr>o_id = 7, o_stationid = 1, o_typeid = 4, o_obstime = 10, o_tbtime = 12\<rparr>], obsdata = ds,
     obstextdata = [], workque = [], workstatistik = [], next_id = 8, priorities = []\<rparr>"

lemma demo_env_ok: "env_ok demo_env"
  by (simp add: env_ok_def demo_env_def)

lemma demo_tables_ok: "tables_ok (demo_tables [data_row_val demo_env 7 (demo_data 211 1)])"
  by (simp add: tables_ok_def demo_tables_def data_row_val_def)

text \<open>
  Reading an observation by its identity and reading it by station, type and time give the same result, the
  stored row with all its data and text data, when station and type are not 0 and the times are not special.
\<close>

theorem getFromDb_agree:
  assumes "tables_ok t" "env_ok env" "o' \<in> set (observations t)" "o_stationid o' \<noteq> 0" "o_typeid o' \<noteq> 0"
    "\<not> is_special env (o_obstime o')" "\<not> is_special env (o_tbtime o')"
  shows "\<exists>ob. getFromDb env (o_stationid o') (o_typeid o') (o_obstime o') t = Inr (Some ob) \<and> getFromDb_id env (o_id o') t = Some ob
    \<and> ob_id ob = o_id o' \<and> ob_data ob = map (getKvData env o') (data_of (o_id o') t)
    \<and> ob_textData ob = map (text_back o') (text_of (o_id o') t)"
proof -
  have "o_tbtime o' \<noteq> not_a_date_time env" using assms(2,7) by (auto simp: env_ok_def)
  then show ?thesis
    using getFromDb_value [OF assms(1-3)] getFromDb_id_value [OF assms] by (simp add: db_value_def)
qed

theorem getFromDb_agree_witness:
  "\<exists>ob. getFromDb_id demo_env 7 (demo_tables [data_row_val demo_env 7 (demo_data 211 1)]) = Some ob \<and> map original (ob_data ob) = [1]"
proof -
  let ?t = "demo_tables [data_row_val demo_env 7 (demo_data 211 1)]" and ?o = "\<lparr>o_id = 7, o_stationid = 1, o_typeid = 4, o_obstime = 10, o_tbtime = 12\<rparr>"
  have "data_of 7 ?t = [data_row_val demo_env 7 (demo_data 211 1)]" by (simp add: data_of_def demo_tables_def data_row_val_def)
  then show ?thesis
    using getFromDb_agree [of ?t demo_env ?o] demo_tables_ok demo_env_ok
    by (auto simp: demo_env_def demo_tables_def demo_data_def getKvData_def data_row_val_def)
qed

end
