(* ===== verification/Obs_Update.thy ===== *)
theory Obs_Update
  imports Obs_Table
begin

text \<open>
  The transaction that stores a decoded observation: \<^verbatim>\<open>src/lib/decoder/decoderbase/DataUpdateTransaction.cc\<close>.
  New data are compared with what is stored; duplicates are dropped, other data replace the observation or are
  merged with it, and the observation is put into the work queue of the quality control unless it has been
  controlled by hand. Log output and the measured duration are not modelled.
\<close>

datatype DuplicateTestType = Partial | Complete

datatype DBAddType = DbInsert | DbUpdate

datatype insert_type = NoType | NO_DATA | INSERT | DUPLICATE | UPDATE | REPLACE

record ('t, 'r) DataUpdate =
  newData :: "'t kvData list"
  newTextData :: "'t kvTextData list"
  du_obstime :: 't
  du_stationid :: int
  du_typeid :: int
  logid :: string
  insertOrUpdate :: DBAddType
  addToWorkQueue :: bool
  tryToUseDataTbTime :: bool
  duplicateTestType :: DuplicateTestType
  qaId :: int
  du_observationid :: int
  dataToPublish :: "('t, 'r) KvalobsData"
  insertType :: insert_type
  onlyHqcData :: bool

definition onlyHqcDataCheck :: "'t::linorder env \<Rightarrow> ('t, 'r) DataUpdate \<Rightarrow> ('t, 'r) DataUpdate" where
  "onlyHqcDataCheck env u =
     (let u = u\<lparr>dataToPublish := kd_clear (dataToPublish u), onlyHqcData := False\<rparr> in
      if list_ex (\<lambda>d. \<not> hqcDone (controlinfo d)) (newData u) then u
      else u\<lparr>onlyHqcData := True,
             dataToPublish := fold (kd_insert_text (is_special env) (neg_infin env)) (newTextData u)
               (fold (kd_insert (is_special env) (neg_infin env)) (newData u) (dataToPublish u))\<rparr>)"

section \<open>Work queue\<close>

definition worqueToWorkStatistik :: "int \<Rightarrow> 't tables \<Rightarrow> 't tables" where
  "worqueToWorkStatistik i t =
     (let done = filter (\<lambda>q. w_id q = i \<and> w_qa_stop q \<noteq> None) (workque t);
          rows = concat (map (\<lambda>q. map (\<lambda>o'. (o', q)) (filter (\<lambda>o'. o_id o' = i) (observations t)))
                   (filter (\<lambda>q. \<not> list_ex (\<lambda>(o', s). w_id s = i) (workstatistik t)) done))
      in t\<lparr>workstatistik := workstatistik t @ rows,
           workque := filter (\<lambda>q. \<not> (w_id q = i \<and> w_qa_stop q \<noteq> None)) (workque t)\<rparr>)"

definition checkWorkQue :: "int \<Rightarrow> ('t, 'r) DataUpdate \<Rightarrow> 't tables \<Rightarrow> ('t, 'r) DataUpdate \<times> 't tables" where
  "checkWorkQue i u t =
     (if filter (\<lambda>q. w_id q = i \<and> w_qa_stop q = None) (workque t) \<noteq> []
      then (u\<lparr>dataToPublish := kd_clear (dataToPublish u), onlyHqcData := False\<rparr>, t)
      else (u, worqueToWorkStatistik i t))"

definition new_work :: "int \<Rightarrow> int \<Rightarrow> int \<Rightarrow> 't work_row" where
  "new_work i pri qa =
     \<lparr>w_id = i, w_priority = pri, w_process_start = None, w_qa_start = None, w_qa_stop = None, w_service_start = None,
      w_service_stop = None, w_qa_id = (if qa < 0 then None else Some qa)\<rparr>"

definition updateWorkQue :: "int \<Rightarrow> int \<Rightarrow> ('t, 'r) DataUpdate \<Rightarrow> 't tables \<Rightarrow> db_error + ('t, 'r) DataUpdate \<times> 't tables" where
  "updateWorkQue i pri u t =
     (if \<not> addToWorkQueue u \<or> onlyHqcData u then Inr (u\<lparr>du_observationid := - i\<rparr>, t)
      else res_bind (insert_work_row (new_work i pri (qaId u)) t) (\<lambda>t. Inr (u\<lparr>du_observationid := i\<rparr>, t)))"

text \<open>The priority of the station and type, else of the type for all stations; a number that is null reads as 0.\<close>

definition getPriority :: "'t::linorder env \<Rightarrow> int \<Rightarrow> int \<Rightarrow> 't \<Rightarrow> 't tables \<Rightarrow> int" where
  "getPriority env st ty ot t =
     (let rows = filter (\<lambda>p. p_typeid p = \<bar>ty\<bar> \<and> (p_stationid p = st \<or> p_stationid p = 0)) (priorities t) in
      case rows of
        [] \<Rightarrow> 4
      | r # rs \<Rightarrow>
          let row = fold (\<lambda>p best. if p_stationid p > p_stationid best then p else best) rs r;
              hour = (case p_hour row of None \<Rightarrow> 0 | Some h \<Rightarrow> h);
              priAfter = (case p_pri_after_hour row of None \<Rightarrow> 0 | Some p \<Rightarrow> p)
          in if p_priority row = 2147483647 then 4
             else if ot < minus_hours env (now env) hour then priAfter else p_priority row)"

section \<open>Comparison with stored data\<close>

definition same_place :: "'t kvData \<Rightarrow> 't kvData \<Rightarrow> bool" where
  "same_place a b \<longleftrightarrow> obstime a = obstime b \<and> stationID a = stationID b \<and> typeID a = typeID b \<and> paramID a = paramID b
     \<and> sensor a = sensor b \<and> level a = level b"

definition same_place_text :: "'t kvTextData \<Rightarrow> 't kvTextData \<Rightarrow> bool" where
  "same_place_text a b \<longleftrightarrow> txt_obstime a = txt_obstime b \<and> txt_stationID a = txt_stationID b \<and> txt_typeID a = txt_typeID b
     \<and> txt_paramID a = txt_paramID b"

definition hundredths :: "'t env \<Rightarrow> real \<Rightarrow> int" where
  "hundredths env x = cast_int env ((x + 0.005) * 100)"

definition text_found :: "'t kvTextData list \<Rightarrow> 't kvTextData \<Rightarrow> bool" where
  "text_found old n = list_ex (\<lambda>o'. same_place_text o' n \<and> txt_original o' = txt_original n) old"

definition all_found :: "('t kvData \<Rightarrow> 't kvData \<Rightarrow> bool) \<Rightarrow> 't kvData list \<Rightarrow> 't kvTextData list \<Rightarrow> bool
    \<Rightarrow> 't kvData list \<Rightarrow> 't kvTextData list \<Rightarrow> bool" where
  "all_found eq new newText replace old oldText =
     (if replace \<and> (length new \<noteq> length old \<or> length newText \<noteq> length oldText) then False
      else list_all (\<lambda>n. list_ex (\<lambda>o'. same_place o' n \<and> eq n o') old) new \<and> list_all (text_found oldText) newText
        \<and> (new \<noteq> [] \<or> newText \<noteq> []))"

definition partial_eq :: "'t env \<Rightarrow> 't kvData \<Rightarrow> 't kvData \<Rightarrow> bool" where
  "partial_eq env n o' \<longleftrightarrow> hundredths env (original n) = hundredths env (original o')"

definition complete_eq :: "'t env \<Rightarrow> 't kvData \<Rightarrow> 't kvData \<Rightarrow> bool" where
  "complete_eq env n o' \<longleftrightarrow> hundredths env (original n) = hundredths env (original o')
     \<and> hundredths env (corrected n) = hundredths env (corrected o') \<and> controlinfo n = controlinfo o' \<and> useinfo n = useinfo o'
     \<and> cfailed n = cfailed o'"

text \<open>
  The loop that removes missing values advances after an erasure past the element it has moved to: this element
  is not examined, and after the erasure of the last element the end is passed.
\<close>

fun erase_missing :: "'t kvData list \<Rightarrow> db_error + 't kvData list" where
  "erase_missing [] = Inr []"
| "erase_missing (d # ds) =
     (if original d = -32767 then
        (case ds of [] \<Rightarrow> Inl UndefinedBehaviour | e # es \<Rightarrow> res_bind (erase_missing es) (\<lambda>r. Inr (e # r)))
      else res_bind (erase_missing ds) (\<lambda>r. Inr (d # r)))"

definition isEqual :: "'t env \<Rightarrow> ('t, 'r) DataUpdate \<Rightarrow> 't kvData list \<Rightarrow> 't kvTextData list \<Rightarrow> db_error + bool" where
  "isEqual env u old oldText =
     (let replace = (insertOrUpdate u = DbInsert) in
      if duplicateTestType u = Complete
      then Inr (all_found (complete_eq env) (newData u) (newTextData u) replace old oldText)
      else if all_found (partial_eq env) (newData u) (newTextData u) replace old oldText then Inr True
      else res_bind (erase_missing old) (\<lambda>old. Inr (all_found (partial_eq env) (newData u) (newTextData u) replace old oldText)))"

section \<open>Storing\<close>

text \<open>The oldest time of the data that is not special, if the data's times are to be used.\<close>

definition older :: "('t::linorder \<Rightarrow> bool) \<Rightarrow> 't \<Rightarrow> 't \<Rightarrow> 't" where
  "older special t best = (if special best then t else if \<not> special t \<and> t < best then t else best)"

definition useTbTime :: "'t::linorder env \<Rightarrow> bool \<Rightarrow> 't kvData list \<Rightarrow> 't kvTextData list \<Rightarrow> 't \<Rightarrow> 't" where
  "useTbTime env try dat txt defaultTbTime =
     (if \<not> try then defaultTbTime
      else let tb = fold (\<lambda>d. older (is_special env) (tbtime d)) dat (not_a_date_time env);
               tb = fold (\<lambda>d. older (is_special env) (txt_tbtime d)) txt tb
           in if is_special env tb then now env else tb)"

definition merge_old :: "('a \<Rightarrow> 'a \<Rightarrow> bool) \<Rightarrow> 'a list \<Rightarrow> 'a list \<Rightarrow> 'a list" where
  "merge_old same old new = fold (\<lambda>e acc. if list_ex (same e) acc then acc else acc @ [e]) old new"

definition store_observation :: "'t::linorder env \<Rightarrow> 't DbObservation \<Rightarrow> ('t, 'r) DataUpdate \<Rightarrow> 't tables
    \<Rightarrow> db_error + bool \<times> ('t, 'r) DataUpdate \<times> 't tables" where
  "store_observation env ob u t =
     res_bind (insertIntoDb env ob t) (\<lambda>(ob, t).
     res_bind (updateWorkQue (ob_id ob) (getPriority env (du_stationid u) (du_typeid u) (du_obstime u) t) u t) (\<lambda>(u, t).
     Inr (True, u, t)))"

definition updateObservation :: "'t::linorder env \<Rightarrow> 't DbObservation \<Rightarrow> ('t, 'r) DataUpdate \<Rightarrow> 't tables
    \<Rightarrow> db_error + bool \<times> ('t, 'r) DataUpdate \<times> 't tables" where
  "updateObservation env ob u t =
     (let dat = merge_old same_place (ob_data ob) (newData u); txt = merge_old same_place_text (ob_textData ob) (newTextData u) in
      if dat = [] \<and> txt = [] then Inr (True, u, t)
      else
        let (u, t) = checkWorkQue (ob_id ob) u t;
            t = delete_observation (ob_id ob) t;
            tb = useTbTime env (tryToUseDataTbTime u) dat txt (ob_tbtime ob)
        in store_observation env (DbObservation_set (ob_stationid ob) (ob_typeid ob) (ob_obstime ob) tb dat txt) u t)"

definition replaceObservation :: "'t::linorder env \<Rightarrow> int \<Rightarrow> ('t, 'r) DataUpdate \<Rightarrow> 't tables
    \<Rightarrow> db_error + bool \<times> ('t, 'r) DataUpdate \<times> 't tables" where
  "replaceObservation env i u t =
     (let (u, t) = checkWorkQue i u t;
          t = delete_observation i t;
          tb = useTbTime env (tryToUseDataTbTime u) (newData u) (newTextData u) (now env)
      in store_observation env (DbObservation_set (du_stationid u) (du_typeid u) (du_obstime u) tb (newData u) (newTextData u)) u t)"

text \<open>The transaction itself: \<open>False\<close> lets the caller roll back.\<close>

definition DataUpdate_run :: "'t::linorder env \<Rightarrow> ('t, 'r) DataUpdate \<Rightarrow> 't tables
    \<Rightarrow> db_error + bool \<times> ('t, 'r) DataUpdate \<times> 't tables" where
  "DataUpdate_run env u t =
     (if du_obstime u = not_a_date_time env then Inr (False, u, t)
      else if newData u = [] \<and> newTextData u = [] then Inr (True, u\<lparr>insertType := NO_DATA\<rparr>, t)
      else
        let u = onlyHqcDataCheck env u in
        if logid u \<noteq> [] \<and> (list_ex (\<lambda>d. obstime d = not_a_date_time env) (newData u)
             \<or> list_ex (\<lambda>d. txt_obstime d = not_a_date_time env) (newTextData u)) then Inr (False, u, t)
        else res_bind (getFromDb env (du_stationid u) (du_typeid u) (du_obstime u) t) (\<lambda>old.
          case old of
            None \<Rightarrow>
              let u = u\<lparr>insertType := INSERT\<rparr>;
                  tb = useTbTime env (tryToUseDataTbTime u) (newData u) (newTextData u) (now env)
              in store_observation env (DbObservation_set (du_stationid u) (du_typeid u) (du_obstime u) tb (newData u) (newTextData u)) u t
          | Some ob \<Rightarrow>
              res_bind (isEqual env u (ob_data ob) (ob_textData ob)) (\<lambda>equal.
              if equal then Inr (True, u\<lparr>dataToPublish := kd_clear (dataToPublish u), insertType := DUPLICATE,
                                        du_observationid := ob_id ob\<rparr>, t)
              else if insertOrUpdate u = DbUpdate then updateObservation env ob (u\<lparr>insertType := UPDATE\<rparr>) t
              else replaceObservation env (ob_id ob) (u\<lparr>insertType := REPLACE\<rparr>) t)))"

section \<open>Lemmas\<close>

definition queued :: "('t, 'r) DataUpdate \<Rightarrow> bool" where
  "queued u \<longleftrightarrow> addToWorkQueue u \<and> \<not> onlyHqcData u"

definition stored :: "'t::linorder env \<Rightarrow> 't DbObservation \<Rightarrow> ('t, 'r) DataUpdate \<Rightarrow> 't tables \<Rightarrow> 't tables" where
  "stored env ob u t =
     (let i = next_id t in
      t\<lparr>observations := observations t @ [new_obs_row env ob i],
        obsdata := obsdata t @ map (data_row_val env i) (ob_data ob),
        obstextdata := obstextdata t @ map (text_row_val i) (ob_textData ob), next_id := i + 1,
        workque := workque t @ (if queued u
          then [new_work i (getPriority env (du_stationid u) (du_typeid u) (du_obstime u) t) (qaId u)] else [])\<rparr>)"

lemma getPriority_cong: "priorities t = priorities t' \<Longrightarrow> getPriority env st ty ot t = getPriority env st ty ot t'"
  by (simp add: getPriority_def)

lemma store_observation_Inr:
  assumes "store_observation env ob u t = Inr (b, u', t')"
  shows "b" and "t' = stored env ob u t" and "insertType u' = insertType u"
    and "(ob_stationid ob, ob_typeid ob, ob_obstime ob) \<notin> obs_key ` set (observations t)"
    and "tables_ok t \<Longrightarrow> tables_ok t'"
proof -
  let ?u = "getPriority env (du_stationid u) (du_typeid u) (du_obstime u)"
  obtain ob1 t1 where i: "insertIntoDb env ob t = Inr (ob1, t1)" and w: "updateWorkQue (ob_id ob1) (?u t1) u t1 = Inr (u', t')" and "b"
    using assms by (auto simp: store_observation_def res_bind_Inr_iff)
  note ii = insertIntoDb_Inr [OF i]
  have pri: "?u t1 = ?u t" by (rule getPriority_cong) (simp add: ii(2))
  show "b" by fact
  show "(ob_stationid ob, ob_typeid ob, ob_obstime ob) \<notin> obs_key ` set (observations t)" by (rule ii(3))
  have id: "ob_id ob1 = next_id t" by (simp add: ii(1))
  have cases: "(if queued u then next_id t \<notin> w_id ` set (workque t1)
        \<and> t' = t1\<lparr>workque := workque t1 @ [new_work (next_id t) (?u t) (qaId u)]\<rparr> else t' = t1) \<and> insertType u' = insertType u"
  proof (cases "queued u")
    case True
    then have "insert_work_row (new_work (next_id t) (?u t) (qaId u)) t1 = Inr t' \<and> u' = u\<lparr>du_observationid := next_id t\<rparr>"
      using w unfolding updateWorkQue_def id pri by (auto simp: queued_def res_bind_Inr_iff)
    then have "insert_work_row (new_work (next_id t) (?u t) (qaId u)) t1 = Inr t'" and "insertType u' = insertType u" by simp_all
    then show ?thesis using True unfolding insert_work_row_Inr by (simp add: new_work_def)
  next
    case False
    then show ?thesis using w by (auto simp: updateWorkQue_def queued_def)
  qed
  then show "insertType u' = insertType u" by simp
  show "t' = stored env ob u t" using cases ii(2) by (simp add: stored_def Let_def split: if_splits)
  show "tables_ok t'" if "tables_ok t"
  proof -
    have t1: "tables_ok t1" by (rule ii(4) [OF that])
    have "next_id t \<in> o_id ` set (observations t1)" by (simp add: ii(2) new_obs_row_def)
    then show ?thesis using cases t1 by (auto simp: tables_ok_def new_work_def split: if_splits)
  qed
qed

lemma worqueToWorkStatistik_ok: "tables_ok t \<Longrightarrow> tables_ok (worqueToWorkStatistik i t)"
  by (auto simp: tables_ok_def worqueToWorkStatistik_def Let_def intro!: distinct_map_filter_key)

lemma checkWorkQue_same:
  assumes "checkWorkQue i u t = (u', t')"
  shows "observations t' = observations t" "obsdata t' = obsdata t" "obstextdata t' = obstextdata t" "next_id t' = next_id t"
    "priorities t' = priorities t" "tables_ok t \<Longrightarrow> tables_ok t'" "insertType u' = insertType u" "newData u' = newData u"
    "newTextData u' = newTextData u" "du_stationid u' = du_stationid u" "du_typeid u' = du_typeid u" "du_obstime u' = du_obstime u"
    "addToWorkQueue u' = addToWorkQueue u" "qaId u' = qaId u" "tryToUseDataTbTime u' = tryToUseDataTbTime u"
    "onlyHqcData u' = (onlyHqcData u \<and> (\<forall>q\<in>set (workque t). w_id q = i \<longrightarrow> w_qa_stop q \<noteq> None))"
  using assms worqueToWorkStatistik_ok [of t i]
  by (auto simp: checkWorkQue_def worqueToWorkStatistik_def Let_def filter_empty_conv split: if_splits)

lemma onlyHqcDataCheck_same:
  "newData (onlyHqcDataCheck env u) = newData u" "newTextData (onlyHqcDataCheck env u) = newTextData u"
  "du_stationid (onlyHqcDataCheck env u) = du_stationid u" "du_typeid (onlyHqcDataCheck env u) = du_typeid u"
  "du_obstime (onlyHqcDataCheck env u) = du_obstime u" "addToWorkQueue (onlyHqcDataCheck env u) = addToWorkQueue u"
  "qaId (onlyHqcDataCheck env u) = qaId u" "insertOrUpdate (onlyHqcDataCheck env u) = insertOrUpdate u"
  "duplicateTestType (onlyHqcDataCheck env u) = duplicateTestType u" "tryToUseDataTbTime (onlyHqcDataCheck env u) = tryToUseDataTbTime u"
  "logid (onlyHqcDataCheck env u) = logid u" "insertType (onlyHqcDataCheck env u) = insertType u"
  "onlyHqcData (onlyHqcDataCheck env u) = list_all (\<lambda>d. hqcDone (controlinfo d)) (newData u)"
  by (auto simp: onlyHqcDataCheck_def Let_def list_ex_iff list_all_iff)

text \<open>
  A run that stores something: the transaction that stores it, what it stores and the tables before the
  storing, given what was stored for the observation before.
\<close>

definition old_row :: "('t, 'r) DataUpdate \<Rightarrow> 't tables \<Rightarrow> 't obs_row option" where
  "old_row u t = List.find (same_obs (du_stationid u) (du_typeid u) (du_obstime u)) (observations t)"

definition merged_data :: "'t env \<Rightarrow> ('t, 'r) DataUpdate \<Rightarrow> 't tables \<Rightarrow> 't kvData list" where
  "merged_data env u t =
     (case old_row u t of
        None \<Rightarrow> newData u
      | Some o' \<Rightarrow> if insertOrUpdate u = DbUpdate then merge_old same_place (map (getKvData env o') (data_of (o_id o') t)) (newData u)
                  else newData u)"

definition merged_text :: "('t, 'r) DataUpdate \<Rightarrow> 't tables \<Rightarrow> 't kvTextData list" where
  "merged_text u t =
     (case old_row u t of
        None \<Rightarrow> newTextData u
      | Some o' \<Rightarrow> if insertOrUpdate u = DbUpdate then merge_old same_place_text (map (text_back o') (text_of (o_id o') t)) (newTextData u)
                  else newTextData u)"

definition unfinished :: "int \<Rightarrow> 't tables \<Rightarrow> bool" where
  "unfinished i t \<longleftrightarrow> (\<exists>q\<in>set (workque t). w_id q = i \<and> w_qa_stop q = None)"

definition cleared :: "('t, 'r) DataUpdate \<Rightarrow> 't tables \<Rightarrow> 't tables" where
  "cleared u t =
     (case old_row u t of
        None \<Rightarrow> t
      | Some o' \<Rightarrow> delete_observation (o_id o') (if unfinished (o_id o') t then t else worqueToWorkStatistik (o_id o') t))"

definition to_queue :: "('t, 'r) DataUpdate \<Rightarrow> 't tables \<Rightarrow> bool" where
  "to_queue u t \<longleftrightarrow> addToWorkQueue u \<and> (list_ex (\<lambda>d. \<not> hqcDone (controlinfo d)) (newData u)
     \<or> (case old_row u t of None \<Rightarrow> False | Some o' \<Rightarrow> unfinished (o_id o') t))"

lemma old_row_None: "old_row u t = None \<longleftrightarrow> (du_stationid u, du_typeid u, du_obstime u) \<notin> obs_key ` set (observations t)"
  by (simp add: old_row_def find_None_iff same_obs_key image_iff) metis

lemma old_row_Some:
  "old_row u t = Some o' \<Longrightarrow> o' \<in> set (observations t) \<and> obs_key o' = (du_stationid u, du_typeid u, du_obstime u)"
  by (auto simp: old_row_def find_Some_iff same_obs_key)

lemma merge_old_new: "\<exists>rest. merge_old same old new = new @ rest"
proof -
  have "\<exists>rest. fold (\<lambda>e acc. if list_ex (same e) acc then acc else acc @ [e]) old (new @ r) = new @ rest" for r
  proof (induction old arbitrary: r)
    case (Cons e old)
    then show ?case using Cons.IH [of "r @ [e]"] by auto
  qed simp
  from this [of "[]"] show ?thesis by (simp add: merge_old_def)
qed

lemma merge_old_empty: "merge_old same old new = [] \<Longrightarrow> new = []"
  using merge_old_new [of same old new] by auto

text \<open>The fields of the transaction that the storing of an observation reads.\<close>

definition same_request :: "('t, 'r) DataUpdate \<Rightarrow> ('t, 'r) DataUpdate \<Rightarrow> bool" where
  "same_request v u \<longleftrightarrow> du_stationid v = du_stationid u \<and> du_typeid v = du_typeid u \<and> du_obstime v = du_obstime u
     \<and> qaId v = qaId u \<and> addToWorkQueue v = addToWorkQueue u"

definition stored_as :: "insert_type \<Rightarrow> 't::linorder env \<Rightarrow> ('t, 'r) DataUpdate \<Rightarrow> 't tables \<Rightarrow> 't tables \<Rightarrow> bool" where
  "stored_as ty env u t t' \<longleftrightarrow>
     (\<exists>tb (v :: ('t, 'r) DataUpdate). same_request v u \<and> queued v = to_queue u t \<and>
        t' = stored env (DbObservation_set (du_stationid u) (du_typeid u) (du_obstime u) tb (merged_data env u t) (merged_text u t))
               v (cleared u t))
     \<and> ty = (if old_row u t = None then INSERT else if insertOrUpdate u = DbUpdate then UPDATE else REPLACE) \<and> tables_ok t'"

lemma checkWorkQue_tables:
  "checkWorkQue i u t = (u', t') \<Longrightarrow> t' = (if unfinished i t then t else worqueToWorkStatistik i t)"
  by (auto simp: checkWorkQue_def unfinished_def filter_empty_conv split: if_splits)

lemma replace_stored:
  assumes ob: "ob = DbObservation_set (du_stationid u) (du_typeid u) (du_obstime u) tb (merged_data env u t) (merged_text u t)"
    and old: "old_row u t = Some o'" and v: "same_request v u" "insertType v = ty"
      "onlyHqcData v = list_all (\<lambda>d. hqcDone (controlinfo d)) (newData u)"
    and c: "checkWorkQue (o_id o') v t = (w, t1)"
    and s: "store_observation env ob w (delete_observation (o_id o') t1) = Inr (b, u', t')"
    and ty: "ty = (if insertOrUpdate u = DbUpdate then UPDATE else REPLACE)" and ok: "tables_ok t"
  shows "b \<and> stored_as (insertType u') env u t t'"
proof -
  note cc = checkWorkQue_same [OF c] and ss = store_observation_Inr [OF s]
  have t1: "delete_observation (o_id o') t1 = cleared u t"
    using checkWorkQue_tables [OF c] old by (simp add: cleared_def)
  have q: "queued w = to_queue u t"
    using v old by (auto simp: cc queued_def to_queue_def same_request_def unfinished_def list_ex_iff list_all_iff)
  have r: "same_request w u" using v(1) by (simp add: same_request_def cc)
  have "insertType u' = ty" using ss(3) cc(7) v(2) by simp
  moreover have "t' = stored env ob w (cleared u t)" using ss(2) t1 by simp
  moreover have "tables_ok t'" using ss(5) delete_observation_ok [OF cc(6) [OF ok]] .
  ultimately show ?thesis using ss(1) q r old ty unfolding stored_as_def ob by auto
qed

lemma DataUpdate_run_cases:
  assumes run: "DataUpdate_run env u t = Inr (b, u', t')" and ok: "tables_ok t" and env: "env_ok env"
  shows "(t' = t \<and> (b \<longrightarrow> insertType u' = NO_DATA \<or> insertType u' = DUPLICATE)) \<or> (b \<and> stored_as (insertType u') env u t t')"
proof (cases "du_obstime u = not_a_date_time env \<or> (newData u = [] \<and> newTextData u = [])
    \<or> (logid u \<noteq> [] \<and> (list_ex (\<lambda>d. obstime d = not_a_date_time env) (newData u)
         \<or> list_ex (\<lambda>d. txt_obstime d = not_a_date_time env) (newTextData u)))")
  case True
  then show ?thesis using run by (auto simp: DataUpdate_run_def Let_def onlyHqcDataCheck_same split: if_splits)
next
  case False
  let ?v = "onlyHqcDataCheck env u"
  let ?get = "getFromDb env (du_stationid u) (du_typeid u) (du_obstime u) t"
  note same = onlyHqcDataCheck_same [of env u]
  have req: "same_request ?v u" by (simp add: same_request_def same)
  show ?thesis
  proof (cases "old_row u t")
    case None
    then have get: "?get = Inr None" using old_row_None getFromDb_None by metis
    obtain tb where s: "store_observation env (DbObservation_set (du_stationid u) (du_typeid u) (du_obstime u) tb (newData u) (newTextData u))
        (?v\<lparr>insertType := INSERT\<rparr>) t = Inr (b, u', t')"
      using run False get by (auto simp: DataUpdate_run_def Let_def same)
    have "same_request (?v\<lparr>insertType := INSERT\<rparr>) u" using req by (simp add: same_request_def)
    moreover have "queued (?v\<lparr>insertType := INSERT\<rparr>) = to_queue u t"
      using None by (auto simp: queued_def to_queue_def same list_ex_iff list_all_iff)
    ultimately show ?thesis
      using store_observation_Inr(1-3,5) [OF s] ok None
      unfolding stored_as_def by (auto simp: merged_data_def merged_text_def cleared_def)
  next
    case (Some o')
    note o' = old_row_Some [OF Some]
    obtain ob where get: "?get = Inr (Some ob)" and ob: "ob_id ob = o_id o'" "ob_stationid ob = du_stationid u"
      "ob_typeid ob = du_typeid u" "ob_obstime ob = du_obstime u" "ob_data ob = map (getKvData env o') (data_of (o_id o') t)"
      "ob_textData ob = map (text_back o') (text_of (o_id o') t)"
      using getFromDb_Some [OF ok env conjunct1 [OF o'] conjunct2 [OF o']] by (elim exE conjE)
    obtain equal where eq: "isEqual env ?v (ob_data ob) (ob_textData ob) = Inr equal"
      using run False get by (auto simp: DataUpdate_run_def Let_def same res_bind_Inr_iff)
    consider "equal" | "\<not> equal" "insertOrUpdate u = DbUpdate" | "\<not> equal" "insertOrUpdate u \<noteq> DbUpdate" by blast
    then show ?thesis
    proof cases
      case 1
      then show ?thesis using run False get eq by (auto simp: DataUpdate_run_def Let_def same)
    next
      case 2
      let ?w = "?v\<lparr>insertType := UPDATE\<rparr>"
      have m: "merged_data env u t = merge_old same_place (ob_data ob) (newData u)"
        "merged_text u t = merge_old same_place_text (ob_textData ob) (newTextData u)"
        using Some 2(2) by (simp_all add: merged_data_def merged_text_def ob)
      have ne: "\<not> (merged_data env u t = [] \<and> merged_text u t = [])"
        using False merge_old_empty unfolding m by metis
      obtain w t1 where c: "checkWorkQue (o_id o') ?w t = (w, t1)" by fastforce
      have "updateObservation env ob ?w t = Inr (b, u', t')"
        using run False get eq 2 by (auto simp: DataUpdate_run_def Let_def same split: if_splits)
      then obtain tb where s: "store_observation env (DbObservation_set (du_stationid u) (du_typeid u) (du_obstime u) tb
          (merged_data env u t) (merged_text u t)) w (delete_observation (o_id o') t1) = Inr (b, u', t')"
        using ne c unfolding updateObservation_def by (auto simp: Let_def same ob(1-4) m)
      show ?thesis
        using replace_stored [OF refl Some _ _ _ c s _ ok] req 2(2) by (auto simp: same_request_def same)
    next
      case 3
      let ?w = "?v\<lparr>insertType := REPLACE\<rparr>"
      obtain w t1 where c: "checkWorkQue (o_id o') ?w t = (w, t1)" by fastforce
      have m: "merged_data env u t = newData w" "merged_text u t = newTextData w"
        using Some 3(2) by (simp_all add: merged_data_def merged_text_def checkWorkQue_same [OF c] same)
      have "replaceObservation env (o_id o') ?w t = Inr (b, u', t')"
        using run False get eq 3 by (auto simp: DataUpdate_run_def Let_def same ob(1) split: if_splits)
      then obtain tb where s: "store_observation env (DbObservation_set (du_stationid u) (du_typeid u) (du_obstime u) tb
          (merged_data env u t) (merged_text u t)) w (delete_observation (o_id o') t1) = Inr (b, u', t')"
        using c checkWorkQue_same [OF c] unfolding replaceObservation_def by (auto simp: Let_def same m)
      show ?thesis
        using replace_stored [OF refl Some _ _ _ c s _ ok] req 3(2) by (auto simp: same_request_def same)
    qed
  qed
qed

abbreviation request_key :: "('t, 'r) DataUpdate \<Rightarrow> int \<times> int \<times> 't" where
  "request_key u \<equiv> (du_stationid u, du_typeid u, du_obstime u)"

lemma cleared_ok: "tables_ok t \<Longrightarrow> tables_ok (cleared u t)"
  by (auto simp: cleared_def split: option.split intro!: delete_observation_ok worqueToWorkStatistik_ok)

lemma cleared_values:
  assumes "tables_ok t"
  shows "observations (cleared u t) = filter (\<lambda>r. obs_key r \<noteq> request_key u) (observations t)"
    and "next_id (cleared u t) = next_id t" and "priorities (cleared u t) = priorities t"
    and "r \<in> set (observations t) \<Longrightarrow> obs_key r \<noteq> request_key u \<Longrightarrow>
      data_of (o_id r) (cleared u t) = data_of (o_id r) t \<and> text_of (o_id r) (cleared u t) = text_of (o_id r) t
      \<and> filter (\<lambda>q. w_id q = o_id r) (workque (cleared u t)) = filter (\<lambda>q. w_id q = o_id r) (workque t)"
    and "old_row u t = Some o' \<Longrightarrow> q \<in> set (workque t) \<Longrightarrow> w_id q = o_id o' \<Longrightarrow> w_qa_stop q \<noteq> None \<Longrightarrow>
      \<exists>e\<in>set (workstatistik (cleared u t)). w_id (snd e) = o_id o'"
proof -
  have obs: "observations (cleared u t) = filter (\<lambda>r. obs_key r \<noteq> request_key u) (observations t)"
  proof (cases "old_row u t")
    case None
    then have "\<forall>r\<in>set (observations t). obs_key r \<noteq> request_key u" by (auto simp: old_row_None image_iff)
    then show ?thesis using None by (simp add: cleared_def filter_id_conv)
  next
    case (Some o')
    note o' = old_row_Some [OF Some]
    have "filter (\<lambda>r. o_id r \<noteq> o_id o') (observations t) = filter (\<lambda>r. obs_key r \<noteq> request_key u) (observations t)"
      using tables_ok_unique [OF assms conjunct1 [OF o']] o' by (intro filter_cong) auto
    then show ?thesis using Some by (simp add: cleared_def delete_observation_def worqueToWorkStatistik_def Let_def)
  qed
  show "observations (cleared u t) = filter (\<lambda>r. obs_key r \<noteq> request_key u) (observations t)" by (rule obs)
  show "next_id (cleared u t) = next_id t" "priorities (cleared u t) = priorities t"
    by (simp_all add: cleared_def delete_observation_def worqueToWorkStatistik_def Let_def split: option.split)
  show "data_of (o_id r) (cleared u t) = data_of (o_id r) t \<and> text_of (o_id r) (cleared u t) = text_of (o_id r) t
      \<and> filter (\<lambda>q. w_id q = o_id r) (workque (cleared u t)) = filter (\<lambda>q. w_id q = o_id r) (workque t)"
    if r: "r \<in> set (observations t)" "obs_key r \<noteq> request_key u"
  proof (cases "old_row u t")
    case None
    then show ?thesis by (simp add: cleared_def)
  next
    case (Some o')
    then have n: "o_id r \<noteq> o_id o'"
      using old_row_Some [OF Some] tables_ok_unique [OF assms, of o' r] r by auto
    have "(\<lambda>x. k x = o_id r \<and> k x \<noteq> o_id o') = (\<lambda>x. k x = o_id r)" for k :: "'z \<Rightarrow> int"
      using n by auto
    moreover have "(\<lambda>x. w_id x = o_id r \<and> \<not> (w_id x = o_id o' \<and> w_qa_stop x \<noteq> None)) = (\<lambda>x. w_id x = o_id r)"
      using n by auto
    ultimately show ?thesis using n Some
      by (auto simp: cleared_def data_of_def text_of_def delete_observation_def worqueToWorkStatistik_def Let_def conj_commute
          intro!: filter_cong)
  qed
  show "\<exists>e\<in>set (workstatistik (cleared u t)). w_id (snd e) = o_id o'"
    if old: "old_row u t = Some o'" and q: "q \<in> set (workque t)" "w_id q = o_id o'" "w_qa_stop q \<noteq> None"
  proof -
    have uf: "\<not> unfinished (o_id o') t"
    proof
      assume "unfinished (o_id o') t"
      then obtain p where "p \<in> set (workque t)" "w_id p = o_id o'" "w_qa_stop p = None" by (auto simp: unfinished_def)
      with q assms have "p = q" by (auto simp: tables_ok_def distinct_map inj_on_def)
      with \<open>w_qa_stop p = None\<close> q(3) show False by simp
    qed
    have "o' \<in> set (observations t)" using old_row_Some [OF old] by simp
    then have w: "workstatistik (cleared u t) = workstatistik (worqueToWorkStatistik (o_id o') t)" "o' \<in> set (observations t)"
      using uf old by (simp_all add: cleared_def delete_observation_def)
    show ?thesis
    proof (cases "list_ex (\<lambda>(x, s). w_id s = o_id o') (workstatistik t)")
      case True
      then obtain e where "e \<in> set (workstatistik t)" "w_id (snd e) = o_id o'" by (auto simp: list_ex_iff)
      moreover have "set (workstatistik t) \<subseteq> set (workstatistik (cleared u t))"
        unfolding w(1) by (simp add: worqueToWorkStatistik_def Let_def)
      ultimately show ?thesis by blast
    next
      case False
      then have "(o', q) \<in> set (workstatistik (worqueToWorkStatistik (o_id o') t))"
        using q w(2) by (simp add: worqueToWorkStatistik_def Let_def image_iff)
      then show ?thesis unfolding w(1) using q(2) by force
    qed
  qed
qed

lemma tables_ok_refs:
  assumes "tables_ok t"
  shows "d \<in> set (obsdata t) \<Longrightarrow> d_id d \<in> o_id ` set (observations t)"
    and "x \<in> set (obstextdata t) \<Longrightarrow> t_id x \<in> o_id ` set (observations t)"
    and "q \<in> set (workque t) \<Longrightarrow> w_id q \<in> o_id ` set (observations t)"
    and "i \<in> o_id ` set (observations t) \<Longrightarrow> 0 < i \<and> i < next_id t"
proof -
  have "d_id ` set (obsdata t) \<subseteq> o_id ` set (observations t)" "t_id ` set (obstextdata t) \<subseteq> o_id ` set (observations t)"
    "w_id ` set (workque t) \<subseteq> o_id ` set (observations t)" "\<forall>r\<in>set (observations t). 0 < o_id r \<and> o_id r < next_id t"
    using assms by (simp_all add: tables_ok_def)
  then show "d \<in> set (obsdata t) \<Longrightarrow> d_id d \<in> o_id ` set (observations t)"
    "x \<in> set (obstextdata t) \<Longrightarrow> t_id x \<in> o_id ` set (observations t)"
    "q \<in> set (workque t) \<Longrightarrow> w_id q \<in> o_id ` set (observations t)"
    "i \<in> o_id ` set (observations t) \<Longrightarrow> 0 < i \<and> i < next_id t" by blast+
qed

lemma stored_as_values:
  assumes ok: "tables_ok t" and st: "stored_as ty env u t t'"
  shows "\<exists>row. filter (\<lambda>r. obs_key r = request_key u) (observations t') = [row] \<and> o_id row = next_id t
      \<and> data_of (o_id row) t' = map (data_row_val env (o_id row)) (merged_data env u t)
      \<and> text_of (o_id row) t' = map (text_row_val (o_id row)) (merged_text u t)"
    and "filter (\<lambda>r. obs_key r \<noteq> request_key u) (observations t') = filter (\<lambda>r. obs_key r \<noteq> request_key u) (observations t)"
    and "r \<in> set (observations t) \<Longrightarrow> obs_key r \<noteq> request_key u \<Longrightarrow>
      data_of (o_id r) t' = data_of (o_id r) t \<and> text_of (o_id r) t' = text_of (o_id r) t
      \<and> filter (\<lambda>q. w_id q = o_id r) (workque t') = filter (\<lambda>q. w_id q = o_id r) (workque t)"
    and "filter (\<lambda>q. w_id q = next_id t) (workque t') =
      (if to_queue u t then [new_work (next_id t) (getPriority env (du_stationid u) (du_typeid u) (du_obstime u) t) (qaId u)] else [])"
    and "workstatistik t' = workstatistik (cleared u t)"
proof -
  obtain tb v where v: "same_request v u" "queued v = to_queue u t" and t': "t' = stored env (DbObservation_set (du_stationid u) (du_typeid u)
      (du_obstime u) tb (merged_data env u t) (merged_text u t)) v (cleared u t)"
    using st by (auto simp: stored_as_def)
  note cv = cleared_values [OF ok, where u = u] and c = cleared_ok [OF ok, of u]
  note refs = tables_ok_refs [OF c, unfolded cv(2)]
  have ids: "d_id d \<noteq> next_id t" if "d \<in> set (obsdata (cleared u t))" for d
    using refs(4) [OF refs(1) [OF that]] by simp
  have idt: "t_id d \<noteq> next_id t" if "d \<in> set (obstextdata (cleared u t))" for d
    using refs(4) [OF refs(2) [OF that]] by simp
  have idw: "w_id d \<noteq> next_id t" if "d \<in> set (workque (cleared u t))" for d
    using refs(4) [OF refs(3) [OF that]] by simp
  have nod: "data_of (next_id t) (cleared u t) = []" "text_of (next_id t) (cleared u t) = []"
    "filter (\<lambda>q. w_id q = next_id t) (workque (cleared u t)) = []"
    using ids idt idw by (simp_all add: data_of_def text_of_def filter_empty_conv)
  have pri: "getPriority env (du_stationid v) (du_typeid v) (du_obstime v) (cleared u t)
      = getPriority env (du_stationid u) (du_typeid u) (du_obstime u) t"
    using v(1) getPriority_cong [OF cv(3)] by (simp add: same_request_def)
  let ?row = "new_obs_row env (DbObservation_set (du_stationid u) (du_typeid u) (du_obstime u) tb (merged_data env u t) (merged_text u t)) (next_id t)"
  have key: "obs_key ?row = request_key u" "o_id ?row = next_id t"
    by (simp_all add: new_obs_row_def obs_key_def DbObservation_set_def)
  have obs: "observations t' = filter (\<lambda>r. obs_key r \<noteq> request_key u) (observations t) @ [?row]"
    by (simp add: t' stored_def Let_def cv(1,2))
  have rows: "data_of i t' = data_of i (cleared u t) @ (if i = next_id t then map (data_row_val env i) (merged_data env u t) else [])"
    "text_of i t' = text_of i (cleared u t) @ (if i = next_id t then map (text_row_val i) (merged_text u t) else [])" for i
    by (auto simp: t' stored_def Let_def data_of_def text_of_def cv(2) DbObservation_set_def data_row_val_def text_row_val_def
        filter_id_conv filter_empty_conv)
  show "\<exists>row. filter (\<lambda>r. obs_key r = request_key u) (observations t') = [row] \<and> o_id row = next_id t
      \<and> data_of (o_id row) t' = map (data_row_val env (o_id row)) (merged_data env u t)
      \<and> text_of (o_id row) t' = map (text_row_val (o_id row)) (merged_text u t)"
    by (intro exI [of _ ?row]) (simp add: obs key rows nod)
  show "filter (\<lambda>r. obs_key r \<noteq> request_key u) (observations t') = filter (\<lambda>r. obs_key r \<noteq> request_key u) (observations t)"
    by (simp add: obs key)
  show "data_of (o_id r) t' = data_of (o_id r) t \<and> text_of (o_id r) t' = text_of (o_id r) t
      \<and> filter (\<lambda>q. w_id q = o_id r) (workque t') = filter (\<lambda>q. w_id q = o_id r) (workque t)"
    if r: "r \<in> set (observations t)" "obs_key r \<noteq> request_key u"
  proof -
    have "o_id r \<noteq> next_id t" using r(1) ok by (auto simp: tables_ok_def)
    then show ?thesis using cv(4) [OF r] rows [of "o_id r"]
      by (simp add: t' stored_def Let_def cv(2) new_work_def)
  qed
  show "filter (\<lambda>q. w_id q = next_id t) (workque t') =
      (if to_queue u t then [new_work (next_id t) (getPriority env (du_stationid u) (du_typeid u) (du_obstime u) t) (qaId u)] else [])"
    using v pri by (simp add: t' stored_def Let_def cv(2) nod same_request_def new_work_def)
  show "workstatistik t' = workstatistik (cleared u t)" by (simp add: t' stored_def Let_def)
qed

section \<open>Properties\<close>

definition demo_update :: "nat kvData list \<Rightarrow> DBAddType \<Rightarrow> (nat, unit) DataUpdate" where
  "demo_update ds mode = \<lparr>newData = ds, newTextData = [], du_obstime = 10, du_stationid = 1, du_typeid = 4, logid = [], insertOrUpdate = mode,
     addToWorkQueue = True, tryToUseDataTbTime = False, duplicateTestType = Partial, qaId = -1, du_observationid = 0,
     dataToPublish = new_KvalobsData 0, insertType = NoType, onlyHqcData = False\<rparr>"

lemmas demo_defs = demo_env_def demo_data_def demo_update_def demo_tables_def Let_def hqcDone_def

lemmas read_defs = getFromDb_def join_data_def join_text_def same_obs_def setData_def setData_row_def setTextData_def setTextData_row_def
  adopt_row_def new_DbObservation_def getKvData_def data_row_val_def sql_inner_def

lemmas write_defs = insertIntoDb_def insert_observation_def insert_data_row_def data_row_of_def sql_quoted_def insert_text_row_def
  insert_work_row_def new_work_def DbObservation_set_def delete_observation_def worqueToWorkStatistik_def getPriority_def

lemma demo_run:
  "map_option (\<lambda>(b, u, t). (b, insertType u, map o_id (observations t), map d_original (obsdata t), map w_id (workque t)))
     (case DataUpdate_run demo_env (demo_update [demo_data 211 2, demo_data 262 5] DbInsert)
        (demo_tables [data_row_val demo_env 7 (demo_data 211 1)]) of Inl e \<Rightarrow> None | Inr x \<Rightarrow> Some x)
   = Some (True, REPLACE, [8], [2, 5], [8])"
  by (simp add: demo_defs DataUpdate_run_def onlyHqcDataCheck_def isEqual_def all_found_def same_place_def replaceObservation_def checkWorkQue_def
      useTbTime_def store_observation_def updateWorkQue_def read_defs write_defs)

lemma demo_run_values:
  "\<exists>u' t'. DataUpdate_run demo_env (demo_update [demo_data 211 2, demo_data 262 5] DbInsert)
      (demo_tables [data_row_val demo_env 7 (demo_data 211 1)]) = Inr (True, u', t')
    \<and> insertType u' = REPLACE \<and> map o_id (observations t') = [8] \<and> map d_original (obsdata t') = [2, 5] \<and> map w_id (workque t') = [8]"
  using demo_run by (auto split: sum.splits)





text \<open>
  C15. The work queue after a run that stores: the new observation waits for the quality control exactly when the
  decoder asks for it and not all of its values are controlled by hand, or when the replaced observation was
  still waiting; a finished entry of the replaced observation is in the statistics; entries of other
  observations are as before.
\<close>

theorem update_work_queue:
  assumes "tables_ok t" "env_ok env" "DataUpdate_run env u t = Inr (True, u', t')" "insertType u' \<noteq> NO_DATA" "insertType u' \<noteq> DUPLICATE"
  shows "(filter (\<lambda>q. w_id q = next_id t) (workque t') =
      (if to_queue u t then [new_work (next_id t) (getPriority env (du_stationid u) (du_typeid u) (du_obstime u) t) (qaId u)] else []))
    \<and> (\<forall>r\<in>set (observations t). obs_key r \<noteq> request_key u \<longrightarrow>
         filter (\<lambda>q. w_id q = o_id r) (workque t') = filter (\<lambda>q. w_id q = o_id r) (workque t))
    \<and> (\<forall>o' q. old_row u t = Some o' \<and> q \<in> set (workque t) \<and> w_id q = o_id o' \<and> w_qa_stop q \<noteq> None \<longrightarrow>
         (\<exists>e\<in>set (workstatistik t'). w_id (snd e) = o_id o'))"
proof -
  have s: "stored_as (insertType u') env u t t'" using DataUpdate_run_cases [OF assms(3,1,2)] assms(4,5) by blast
  show ?thesis
    using stored_as_values(3-5) [OF assms(1) s] cleared_values(5) [OF assms(1)] by (intro conjI allI ballI impI) (simp_all, blast)
qed

theorem update_work_queue_witness:
  "\<exists>u' t'. DataUpdate_run demo_env (demo_update [demo_data 211 2, demo_data 262 5] DbInsert)
      (demo_tables [data_row_val demo_env 7 (demo_data 211 1)]) = Inr (True, u', t')
    \<and> filter (\<lambda>q. w_id q = 8) (workque t') = [new_work 8 4 (-1)]"
proof -
  let ?u = "demo_update [demo_data 211 2, demo_data 262 5] DbInsert" and ?t = "demo_tables [data_row_val demo_env 7 (demo_data 211 1)]"
  obtain u' t' where r: "DataUpdate_run demo_env ?u ?t = Inr (True, u', t')" "insertType u' = REPLACE" using demo_run_values by blast
  have "to_queue ?u ?t" "next_id ?t = 8" "qaId ?u = -1" "getPriority demo_env (du_stationid ?u) (du_typeid ?u) (du_obstime ?u) ?t = 4"
    by (simp_all add: to_queue_def getPriority_def demo_defs)
  then have "filter (\<lambda>q. w_id q = 8) (workque t') = [new_work 8 4 (-1)]"
    using update_work_queue [OF demo_tables_ok demo_env_ok r(1)] r(2) by simp
  with r show ?thesis by blast
qed

lemma valid_run:
  assumes "DataUpdate_run env u t = Inr (True, u', t')"
  shows "insertType u' \<noteq> NO_DATA \<Longrightarrow> du_obstime u \<noteq> not_a_date_time env \<and> (newData u \<noteq> [] \<or> newTextData u \<noteq> [])
    \<and> \<not> (logid u \<noteq> [] \<and> (list_ex (\<lambda>d. obstime d = not_a_date_time env) (newData u)
             \<or> list_ex (\<lambda>d. txt_obstime d = not_a_date_time env) (newTextData u)))"
  using assms by (auto simp: DataUpdate_run_def Let_def onlyHqcDataCheck_same split: if_splits)

text \<open>
  C16. A message that is received again is recognised: after a run has stored the message (not merged it), the same
  message is a duplicate and changes nothing, provided its values carry the station, type and time of the
  observation and survive the database to two decimals.
\<close>

theorem update_again_is_duplicate:
  assumes "tables_ok t" "env_ok env" "DataUpdate_run env u t = Inr (True, u', t')" "insertType u' = INSERT \<or> insertType u' = REPLACE"
    "duplicateTestType u = Partial"
    "list_all (\<lambda>d. (stationID d, typeID d, obstime d) = request_key u
       \<and> hundredths env (read_num env (print_num env (original d))) = hundredths env (original d)) (newData u)"
    "list_all (\<lambda>d. (txt_stationID d, txt_typeID d, txt_obstime d) = request_key u) (newTextData u)"
  shows "\<exists>u''. DataUpdate_run env u t' = Inr (True, u'', t') \<and> insertType u'' = DUPLICATE"
proof -
  have st: "stored_as (insertType u') env u t t'" using DataUpdate_run_cases [OF assms(3,1,2)] assms(4) by auto
  then have merged: "merged_data env u t = newData u" "merged_text u t = newTextData u" and ok': "tables_ok t'"
    using assms(4) by (auto simp: stored_as_def merged_data_def merged_text_def split: option.splits if_splits)
  obtain row where "filter (\<lambda>r. obs_key r = request_key u) (observations t') = [row]"
    and vals: "data_of (o_id row) t' = map (data_row_val env (o_id row)) (newData u)"
      "text_of (o_id row) t' = map (text_row_val (o_id row)) (newTextData u)"
    using stored_as_values(1) [OF assms(1) st] unfolding merged by blast
  then have row: "row \<in> set (observations t')" "obs_key row = request_key u"
    by (auto dest: filter_eq_ConsD simp: Cons_eq_filter_iff filter_eq_Cons_iff)
  obtain ob where get: "getFromDb env (du_stationid u) (du_typeid u) (du_obstime u) t' = Inr (Some ob)"
    and ob: "ob_data ob = map (\<lambda>d. getKvData env row (data_row_val env (o_id row) d)) (newData u)"
      "ob_textData ob = map (\<lambda>d. text_back row (text_row_val (o_id row) d)) (newTextData u)"
    using getFromDb_Some [OF ok' assms(2) row] unfolding vals by (auto simp: comp_def)
  have "list_all (\<lambda>n. list_ex (\<lambda>o'. same_place o' n \<and> partial_eq env n o') (ob_data ob)) (newData u)"
    using assms(6) row(2) unfolding ob
    by (fastforce simp: list_all_iff list_ex_iff same_place_def partial_eq_def getKvData_def data_row_val_def obs_key_def)
  moreover have "list_all (text_found (ob_textData ob)) (newTextData u)"
    using assms(7) row(2) unfolding ob
    by (fastforce simp: list_all_iff list_ex_iff text_found_def same_place_text_def text_back_def text_row_val_def obs_key_def)
  moreover have "length (newData u) = length (ob_data ob)" "length (newTextData u) = length (ob_textData ob)" by (simp_all add: ob)
  ultimately have "isEqual env (onlyHqcDataCheck env u) (ob_data ob) (ob_textData ob)
      = Inr (newData u \<noteq> [] \<or> newTextData u \<noteq> [])"
    using assms(5) by (auto simp: isEqual_def all_found_def onlyHqcDataCheck_same)
  then show ?thesis
    using get valid_run [OF assms(3)] assms(4)
    by (auto simp: DataUpdate_run_def Let_def onlyHqcDataCheck_same)
qed

theorem update_again_is_duplicate_witness:
  "\<exists>u' t' u''. DataUpdate_run demo_env (demo_update [demo_data 211 2, demo_data 262 5] DbInsert)
      (demo_tables [data_row_val demo_env 7 (demo_data 211 1)]) = Inr (True, u', t') \<and> insertType u' = REPLACE
    \<and> DataUpdate_run demo_env (demo_update [demo_data 211 2, demo_data 262 5] DbInsert) t' = Inr (True, u'', t') \<and> insertType u'' = DUPLICATE"
proof -
  let ?u = "demo_update [demo_data 211 2, demo_data 262 5] DbInsert" and ?t = "demo_tables [data_row_val demo_env 7 (demo_data 211 1)]"
  obtain u' t' where r: "DataUpdate_run demo_env ?u ?t = Inr (True, u', t')" "insertType u' = REPLACE" using demo_run_values by blast
  have "\<exists>u''. DataUpdate_run demo_env ?u t' = Inr (True, u'', t') \<and> insertType u'' = DUPLICATE"
    by (rule update_again_is_duplicate [OF demo_tables_ok demo_env_ok r(1)]) (simp_all add: r(2), simp_all add: demo_defs)
  with r show ?thesis by blast
qed

text \<open>
  The duplicate test reads past the end of the stored values when the last of them is missing: for a message
  that is not a duplicate and an observation whose last value is its only missing one, the behaviour of the
  program is undefined.
\<close>

theorem missing_last_undefined:
  assumes "duplicateTestType u = Partial" "list_all (\<lambda>d. original d \<noteq> -32767) old" "original d = -32767"
    "\<not> all_found (partial_eq env) (newData u) (newTextData u) (insertOrUpdate u = DbInsert) (old @ [d]) oldText"
  shows "isEqual env u (old @ [d]) oldText = Inl UndefinedBehaviour"
proof -
  have "erase_missing (old @ [d]) = Inl UndefinedBehaviour"
    using assms(2,3) by (induction old) auto
  then show ?thesis using assms(1,4) by (simp add: isEqual_def)
qed

theorem missing_last_undefined_witness:
  "isEqual demo_env (demo_update [demo_data 211 2] DbUpdate) [demo_data 262 5, demo_data 211 (-32767)] [] = Inl UndefinedBehaviour"
proof -
  have "\<not> list_ex (\<lambda>o'. same_place o' (demo_data 211 2) \<and> hundredths demo_env 2 = hundredths demo_env (original o')) [demo_data 262 5, demo_data 211 (-32767)]"
    by (simp add: hundredths_def same_place_def demo_defs)
  then show ?thesis
    using missing_last_undefined [of "demo_update [demo_data 211 2] DbUpdate" "[demo_data 262 5]" "demo_data 211 (-32767)" demo_env "[]"]
    by (simp add: all_found_def partial_eq_def demo_update_def) (simp add: demo_data_def)
qed

end
