(* ===== verification/Db_Perform.thy ===== *)
theory Db_Perform
  imports Kv_Prelude
begin

text \<open>
  How transactions are run: the retry loops \<^verbatim>\<open>Connection::perform\<close> of \<^verbatim>\<open>src/lib/kvdb/kvdb.cc\<close> and of the drivers
  (\<^verbatim>\<open>src/lib/dbdrivers/pgsqldb.cc\<close>, \<^verbatim>\<open>sqlite3db.cc\<close>), the execution of a statement with reconnection
  (\<^verbatim>\<open>PGConnection::exec\<close>) and the pool of connections (\<^verbatim>\<open>src/lib/kvdb/ConnectionPool.cc\<close>). The database is an
  abstract state; what happens in the \<open>i\<close>-th attempt (failures of the network and of other transactions) is an
  argument. Messages and the error code are not modelled.
\<close>

section \<open>Retries\<close>

datatype tx_exn = SerializeError bool | AbortedError | UnrecoverableError | BusyError | OtherSqlError bool bool | StdError | UnknownError

text \<open>\<open>OtherSqlError may interrupt\<close>: any other database error, with \<open>mayRecover()\<close> and whether its code is \<^verbatim>\<open>SQLITE_INTERRUPT\<close>.\<close>

datatype callback = OnSuccess | OnFailure | OnAbort | OnRetry

datatype perform_result = Returned | MaxRetry bool

record 'd attempt =
  begins :: bool
  reconnects :: bool
  tx_body :: "'d \<Rightarrow> tx_exn + bool \<times> 'd"
  commit_fails :: "tx_exn option"
  rollback_fails :: "tx_exn option"
  late :: bool

text \<open>
  One attempt up to the exception that reaches the handlers: the callbacks, and either the new database or the
  exception. \<open>onSuccess\<close> is called before the commit.
\<close>

definition try_body :: "'d attempt \<Rightarrow> 'd \<Rightarrow> callback list \<times> (tx_exn + 'd)" where
  "try_body a d =
     (case tx_body a d of
        Inl e \<Rightarrow> ([], Inl e)
      | Inr (True, d') \<Rightarrow> ([OnSuccess], case commit_fails a of None \<Rightarrow> Inr d' | Some e \<Rightarrow> Inl e)
      | Inr (False, d') \<Rightarrow> ([OnFailure], case rollback_fails a of None \<Rightarrow> Inr d | Some e \<Rightarrow> Inl e))"

text \<open>PostgreSQL: retries left, \<open>mayRecover\<close> and callbacks after an exception.\<close>

fun pg_handle :: "bool \<Rightarrow> nat \<Rightarrow> tx_exn \<Rightarrow> nat \<times> bool \<times> callback list" where
  "pg_handle tooLate retry (SerializeError deadLock) = (if deadLock \<and> tooLate then retry - 1 else retry, True, [OnAbort])"
| "pg_handle tooLate retry AbortedError = (retry - 1, True, [OnAbort])"
| "pg_handle tooLate retry UnrecoverableError = (0, False, [])"
| "pg_handle tooLate retry BusyError = (0, False, [])"
| "pg_handle tooLate retry (OtherSqlError may interrupt) = (0, False, [])"
| "pg_handle tooLate retry StdError = (retry - 1, True, [])"
| "pg_handle tooLate retry UnknownError = (retry - 1, True, [])"

partial_function (option) pg_loop :: "(nat \<Rightarrow> 'd attempt) \<Rightarrow> nat \<Rightarrow> nat \<Rightarrow> bool \<Rightarrow> 'd \<Rightarrow> callback list
    \<Rightarrow> (perform_result \<times> 'd \<times> callback list) option" where
  "pg_loop att i retry may d tr =
     (if retry = 0 then Some (MaxRetry may, d, tr)
      else if \<not> begins (att i) then
        (if \<not> reconnects (att i) then Some (MaxRetry True, d, tr) else pg_loop att (i + 1) (retry - 1) True d tr)
      else
        (case try_body (att i) d of
           (cb, Inr d') \<Rightarrow> Some (Returned, d', tr @ cb)
         | (cb, Inl e) \<Rightarrow>
             (case pg_handle (late (att i)) retry e of (retry', may', cb') \<Rightarrow>
                pg_loop att (i + 1) retry' may' d (tr @ cb @ cb' @ [OnRetry]))))"

definition pg_perform :: "(nat \<Rightarrow> 'd attempt) \<Rightarrow> int \<Rightarrow> 'd \<Rightarrow> (perform_result \<times> 'd \<times> callback list) option" where
  "pg_perform att retry d = pg_loop att 0 (if retry \<le> 0 then 1 else nat retry) True d []"

text \<open>
  The general loop, for drivers without one of their own. An exception of the start of the transaction or of the
  roll-back ends the loop.
\<close>

fun gen_handle :: "nat \<Rightarrow> tx_exn \<Rightarrow> nat \<times> bool \<times> callback list" where
  "gen_handle retry (SerializeError deadLock) = (retry - 1, True, [OnAbort])"
| "gen_handle retry AbortedError = (retry - 1, True, [OnAbort])"
| "gen_handle retry UnrecoverableError = (0, False, [])"
| "gen_handle retry BusyError = (retry - 1, True, [OnAbort])"
| "gen_handle retry (OtherSqlError may interrupt) = (if may then (retry - 1, True, [OnAbort]) else (0, True, []))"
| "gen_handle retry StdError = (retry - 1, True, [])"
| "gen_handle retry UnknownError = (retry - 1, True, [])"

lemma gen_handle_less: "gen_handle retry e = (retry', r) \<Longrightarrow> 0 < retry \<Longrightarrow> retry' < retry"
  by (cases e) (auto split: if_splits)

function gen_loop :: "(nat \<Rightarrow> 'd attempt) \<Rightarrow> nat \<Rightarrow> nat \<Rightarrow> bool \<Rightarrow> 'd \<Rightarrow> callback list
    \<Rightarrow> perform_result \<times> 'd \<times> callback list" where
  "gen_loop att i retry may d tr =
     (if retry = 0 then (MaxRetry may, d, tr)
      else if \<not> begins (att i) then (MaxRetry True, d, tr)
      else
        (case try_body (att i) d of
           (cb, Inr d') \<Rightarrow> (Returned, d', tr @ cb)
         | (cb, Inl e) \<Rightarrow>
             (case gen_handle retry e of (retry', may', cb') \<Rightarrow>
                if rollback_fails (att i) \<noteq> None then (MaxRetry may', d, tr @ cb @ cb')
                else gen_loop att (i + 1) retry' may' d (tr @ cb @ cb'))))"
  by pat_completeness auto
termination
  by (relation "measure (\<lambda>(att, i, retry, may, d, tr). retry)") (auto dest: gen_handle_less [OF sym])

definition gen_perform :: "(nat \<Rightarrow> 'd attempt) \<Rightarrow> int \<Rightarrow> 'd \<Rightarrow> perform_result \<times> 'd \<times> callback list" where
  "gen_perform att retry d = gen_loop att 0 (if retry \<le> 0 then 1 else nat retry) True d []"

text \<open>
  SQLite: a busy database makes the loop start again without a roll-back; the next start then fails because the
  transaction is still open (\<open>opened\<close>).
\<close>

fun sqlite_handle :: "nat \<Rightarrow> tx_exn \<Rightarrow> nat \<times> bool \<times> callback list" where
  "sqlite_handle retry AbortedError = (retry - 1, True, [OnAbort])"
| "sqlite_handle retry UnrecoverableError = (0, False, [])"
| "sqlite_handle retry BusyError = (retry, True, [])"
| "sqlite_handle retry (SerializeError deadLock) = (retry - 1, True, [])"
| "sqlite_handle retry (OtherSqlError may interrupt) = (if may then retry - 1 else 0, True, [])"
| "sqlite_handle retry StdError = (retry - 1, True, [])"
| "sqlite_handle retry UnknownError = (retry - 1, True, [])"

lemma sqlite_handle_less: "sqlite_handle retry e = (retry', r) \<Longrightarrow> 0 < retry \<Longrightarrow> e \<noteq> BusyError \<Longrightarrow> retry' < retry"
  by (cases e) (auto split: if_splits)

function sqlite_loop :: "(nat \<Rightarrow> 'd attempt) \<Rightarrow> nat \<Rightarrow> nat \<Rightarrow> bool \<Rightarrow> bool \<Rightarrow> 'd \<Rightarrow> callback list
    \<Rightarrow> perform_result \<times> 'd \<times> callback list" where
  "sqlite_loop att i retry opened may d tr =
     (if retry = 0 then (MaxRetry may, d, tr)
      else if opened \<or> \<not> begins (att i) then sqlite_loop att (i + 1) (retry - 1) opened True d tr
      else
        (case try_body (att i) d of
           (cb, Inr d') \<Rightarrow> (Returned, d', tr @ cb)
         | (cb, Inl (OtherSqlError m True)) \<Rightarrow> (MaxRetry True, d, tr @ cb @ [OnAbort])
         | (cb, Inl BusyError) \<Rightarrow> sqlite_loop att (i + 1) retry True True d (tr @ cb)
         | (cb, Inl e) \<Rightarrow>
             (case sqlite_handle retry e of (retry', may', cb') \<Rightarrow>
                sqlite_loop att (i + 1) retry' False may' d (tr @ cb @ cb' @ [OnRetry]))))"
  by pat_completeness auto
termination
  by (relation "measures [\<lambda>(att, i, retry, opened, may, d, tr). retry, \<lambda>(att, i, retry, opened, may, d, tr). if opened then 0 else 1]")
    (auto split: if_splits)

definition sqlite_perform :: "(nat \<Rightarrow> 'd attempt) \<Rightarrow> int \<Rightarrow> 'd \<Rightarrow> perform_result \<times> 'd \<times> callback list" where
  "sqlite_perform att retry d = sqlite_loop att 0 (if retry \<le> 0 then 1 else nat retry) False True d []"

section \<open>Statements and reconnection\<close>

datatype 'd session = Idle | Active 'd | Failed

datatype 'd stmt = Start | End | Rollback | Do "'d \<Rightarrow> string + 'd"

record 'd server =
  committed :: 'd
  session :: "'d session"

text \<open>A statement at the server: outside of a transaction it commits by itself; an error fails the transaction.\<close>

fun run_stmt :: "'d stmt \<Rightarrow> 'd server \<Rightarrow> (string + unit) \<times> 'd server" where
  "run_stmt Start s = (case session s of Idle \<Rightarrow> (Inr (), s\<lparr>session := Active (committed s)\<rparr>) | Active d \<Rightarrow> (Inr (), s)
     | Failed \<Rightarrow> (Inl ''25P02'', s))"
| "run_stmt End s = (case session s of Active d \<Rightarrow> (Inr (), \<lparr>committed = d, session = Idle\<rparr>) | _ \<Rightarrow> (Inr (), s\<lparr>session := Idle\<rparr>))"
| "run_stmt Rollback s = (Inr (), s\<lparr>session := Idle\<rparr>)"
| "run_stmt (Do f) s =
     (case session s of
        Idle \<Rightarrow> (case f (committed s) of Inl e \<Rightarrow> (Inl e, s) | Inr d \<Rightarrow> (Inr (), s\<lparr>committed := d\<rparr>))
      | Active d \<Rightarrow> (case f d of Inl e \<Rightarrow> (Inl e, s\<lparr>session := Failed\<rparr>) | Inr d' \<Rightarrow> (Inr (), s\<lparr>session := Active d'\<rparr>))
      | Failed \<Rightarrow> (Inl ''25P02'', s))"

text \<open>
  The network during one round of \<^verbatim>\<open>exec\<close>: whether the connection is lost before the round (the server then drops
  the session), whether it can be established again, and whether it is lost while the statement is sent.
\<close>

record net =
  lost_before :: bool
  reconnected :: bool
  lost_during :: bool

datatype exec_result = ExecOk | NotConnected | ExecError tx_exn

definition classify :: "(string \<Rightarrow> bool) \<Rightarrow> string \<Rightarrow> tx_exn" where
  "classify duplicate errorCode =
     (if errorCode = ''40001'' \<or> errorCode = ''40P01'' then SerializeError (errorCode = ''40P01'')
      else if duplicate errorCode then OtherSqlError True False
      else if 2 \<le> length errorCode then
        (if take 2 errorCode = ''22'' \<or> take 2 errorCode = ''42'' then UnrecoverableError else AbortedError)
      else AbortedError)"

definition exec_round :: "(string \<Rightarrow> bool) \<Rightarrow> 'd stmt \<Rightarrow> net \<Rightarrow> 'd server \<Rightarrow> (exec_result option) \<times> 'd server" where
  "exec_round duplicate q n s =
     (let s = (if lost_before n then s\<lparr>session := Idle\<rparr> else s) in
      if lost_before n \<and> \<not> reconnected n then (Some NotConnected, s)
      else if lost_during n then (None, s\<lparr>session := Idle\<rparr>)
      else (case run_stmt q s of (Inr u, s) \<Rightarrow> (Some ExecOk, s) | (Inl e, s) \<Rightarrow> (Some (ExecError (classify duplicate e)), s)))"

text \<open>Two rounds at most; a connection that is lost in both is reported without a result.\<close>

definition pg_exec :: "(string \<Rightarrow> bool) \<Rightarrow> 'd stmt \<Rightarrow> net \<Rightarrow> net \<Rightarrow> 'd server \<Rightarrow> exec_result \<times> 'd server" where
  "pg_exec duplicate q n1 n2 s =
     (case exec_round duplicate q n1 s of
        (Some r, s) \<Rightarrow> (r, s)
      | (None, s) \<Rightarrow>
          (case exec_round duplicate q (n2\<lparr>lost_before := True\<rparr>) s of
             (Some r, s) \<Rightarrow> (r, s) | (None, s) \<Rightarrow> (ExecError (OtherSqlError True False), s)))"

fun exec_all :: "(string \<Rightarrow> bool) \<Rightarrow> ('d stmt \<times> net \<times> net) list \<Rightarrow> 'd server \<Rightarrow> exec_result \<times> 'd server" where
  "exec_all duplicate [] s = (ExecOk, s)"
| "exec_all duplicate ((q, n1, n2) # qs) s =
     (case pg_exec duplicate q n1 n2 s of (ExecOk, s) \<Rightarrow> exec_all duplicate qs s | r \<Rightarrow> r)"

section \<open>Connection pool\<close>

record ('t, 'c) pool =
  freeConnections :: "('t \<times> nat \<times> 'c) list"
  poolsize :: nat
  useCount :: nat

text \<open>\<open>create\<close> is the next new connection. A connection that is handed out remembers how often it has been used.\<close>

definition pool_get :: "'c \<Rightarrow> ('t, 'c) pool \<Rightarrow> (nat \<times> 'c) \<times> ('t, 'c) pool" where
  "pool_get create p =
     (case freeConnections p of
        (t, n, c) # cs \<Rightarrow> ((n, c), p\<lparr>freeConnections := cs\<rparr>)
      | [] \<Rightarrow> ((0, create), p))"

text \<open>The deleter of the handed-out pointer; \<open>expires\<close> is the end of the idle time. The second result are the connections released.\<close>

definition pool_return :: "'t \<Rightarrow> nat \<times> 'c \<Rightarrow> ('t, 'c) pool \<Rightarrow> ('t, 'c) pool \<times> 'c list" where
  "pool_return expires = (\<lambda>(n, c) p.
     if length (freeConnections p) < poolsize p \<and> n < useCount p
     then (p\<lparr>freeConnections := freeConnections p @ [(expires, n + 1, c)]\<rparr>, []) else (p, [c]))"

definition releaseIdleConnections :: "'t::linorder \<Rightarrow> ('t, 'c) pool \<Rightarrow> ('t, 'c) pool \<times> 'c list" where
  "releaseIdleConnections now p =
     (p\<lparr>freeConnections := filter (\<lambda>(t, n, c). \<not> now < t) (freeConnections p)\<rparr>,
      map (\<lambda>(t, n, c). c) (filter (\<lambda>(t, n, c). now < t) (freeConnections p)))"

section \<open>Lemmas\<close>

lemma pg_handle_retry: "pg_handle l retry e = (retry', r) \<Longrightarrow> retry' = retry \<and> (\<exists>b. e = SerializeError b) \<or> retry' = 0 \<or> Suc retry' = retry"
  by (cases e) (auto split: if_splits)

lemma try_body_Inr:
  "try_body a d = (cb, Inr d') \<Longrightarrow> d' = d \<or> (tx_body a d = Inr (True, d') \<and> commit_fails a = None)"
  by (auto simp: try_body_def split: sum.splits prod.splits bool.splits option.splits)

definition serializes :: "'d attempt \<Rightarrow> 'd \<Rightarrow> bool" where
  "serializes a d \<longleftrightarrow> (\<exists>cb b. try_body a d = (cb, Inl (SerializeError b)))"

lemma pg_loop_result:
  "pg_loop att i retry may d tr = Some y \<Longrightarrow>
     (fst (snd y) = d \<or> (\<exists>j\<ge>i. tx_body (att j) d = Inr (True, fst (snd y)) \<and> commit_fails (att j) = None \<and> fst y = Returned))"
proof (induction rule: pg_loop.raw_induct [rotated 1, consumes 1, case_names step])
  case (step pg_loop att i retry may d tr y)
  have later: ?case if "pg_loop att (i + 1) a b d c = Some y" for a b c
    using step.IH [OF that] by (meson Suc_leD Suc_eq_plus1 order.trans le_add1)
  show ?case
  proof (cases "retry = 0 \<or> \<not> begins (att i)")
    case True
    then show ?thesis using step.hyps later [of "retry - 1" True tr] by (auto split: if_splits)
  next
    case False
    obtain cb o' where t: "try_body (att i) d = (cb, o')" by fastforce
    show ?thesis
    proof (cases o')
      case (Inr x)
      then show ?thesis using False t step.hyps try_body_Inr [of "att i" d cb x] by auto
    next
      case (Inl e)
      obtain a b c where h: "pg_handle (late (att i)) retry e = (a, b, c)" by (cases "pg_handle (late (att i)) retry e") auto
      have "pg_loop att (i + 1) a b d (tr @ cb @ c @ [OnRetry]) = Some y"
        using False t step.hyps Inl h by simp
      then show ?thesis by (rule later)
    qed
  qed
qed

lemma pg_loop_stuck:
  "pg_loop att i retry may d tr = Some y \<Longrightarrow> 0 < retry \<Longrightarrow> \<forall>j. begins (att j) \<and> (\<exists>cb. try_body (att j) d = (cb, Inl (SerializeError False))) \<Longrightarrow> False"
proof (induction rule: pg_loop.raw_induct [rotated 1, consumes 1, case_names step])
  case (step pg_loop att i retry may d tr y)
  obtain cb where t: "begins (att i)" "try_body (att i) d = (cb, Inl (SerializeError False))" using step.prems(2) by blast
  then have "pg_loop att (i + 1) retry True d (tr @ cb @ [OnAbort, OnRetry]) = Some y"
    using step.hyps step.prems(1) by simp
  then show False by (rule step.IH [OF _ step.prems])
qed

lemma pg_loop_total:
  "\<forall>j. \<not> serializes (att j) d \<Longrightarrow> \<exists>y. pg_loop att i retry may d tr = Some y"
proof (induction retry arbitrary: i may tr rule: less_induct)
  case (less retry)
  show ?case
  proof (cases "retry = 0 \<or> \<not> begins (att i)")
    case True
    then show ?thesis using less.IH [of "retry - 1" "i + 1" True tr] less.prems by (subst pg_loop.simps) auto
  next
    case False
    obtain cb o' where t: "try_body (att i) d = (cb, o')" by fastforce
    show ?thesis
    proof (cases o')
      case (Inr x)
      then show ?thesis using False t by (subst pg_loop.simps) simp
    next
      case (Inl e)
      obtain a b c where h: "pg_handle (late (att i)) retry e = (a, b, c)" by (cases "pg_handle (late (att i)) retry e") auto
      have "\<not> (\<exists>b. e = SerializeError b)" using t Inl less.prems by (auto simp: serializes_def)
      then have "a < retry" using pg_handle_retry [OF h] False by auto
      then show ?thesis using False t Inl h less.IH [of a] less.prems by (subst pg_loop.simps) simp
    qed
  qed
qed

section \<open>Properties\<close>


definition demo_attempts :: "nat \<Rightarrow> int attempt" where
  "demo_attempts i = \<lparr>begins = True, reconnects = True, tx_body = (\<lambda>d. if i = 0 then Inl AbortedError else Inr (True, d + 1)),
     commit_fails = (if i = 1 then Some AbortedError else None), rollback_fails = None, late = False\<rparr>"

lemma demo_perform: "pg_perform demo_attempts 20 5 = Some (Returned, 6, [OnAbort, OnRetry, OnSuccess, OnAbort, OnRetry, OnSuccess])"
  by (simp add: pg_perform_def pg_loop.simps try_body_def demo_attempts_def)


text \<open>
  C40. The loop of the PostgreSQL driver ends when no attempt ends in a serialization error, and never ends when all
  attempts end in serialization errors without a deadlock: such an error does not use up a retry.
\<close>

theorem perform_returns_or_spins:
  "((\<forall>j. \<not> serializes (att j) d) \<longrightarrow> (\<exists>res. pg_perform att retry d = Some res))
   \<and> ((\<forall>j. begins (att j) \<and> tx_body (att j) d = Inl (SerializeError False)) \<longrightarrow> pg_perform att retry d = None)"
proof (intro conjI impI)
  assume "\<forall>j. \<not> serializes (att j) d"
  then show "\<exists>res. pg_perform att retry d = Some res" unfolding pg_perform_def by (rule pg_loop_total)
next
  assume a: "\<forall>j. begins (att j) \<and> tx_body (att j) d = Inl (SerializeError False)"
  show "pg_perform att retry d = None"
  proof (rule ccontr)
    assume "pg_perform att retry d \<noteq> None"
    then obtain y where y: "pg_loop att 0 (if retry \<le> 0 then 1 else nat retry) True d [] = Some y" by (auto simp: pg_perform_def)
    then show False by (rule pg_loop_stuck) (use a in \<open>auto simp: try_body_def\<close>)
  qed
qed

theorem perform_returns_or_spins_witness:
  "pg_perform (\<lambda>j. \<lparr>begins = True, reconnects = True, tx_body = (\<lambda>d. Inl (SerializeError False)), commit_fails = None, rollback_fails = None, late = True\<rparr>)
     20 (5 :: int) = None"
  using perform_returns_or_spins [of "\<lambda>j. \<lparr>begins = True, reconnects = True, tx_body = (\<lambda>d. Inl (SerializeError False)), commit_fails = None, rollback_fails = None, late = True\<rparr>" "5 :: int" 20]
  by simp

text \<open>
  A database error that may be recovered from is retried by the general loop and ends the loop of the PostgreSQL
  driver at once, as one that may not be recovered from.
\<close>

lemma pg_never_recovers:
  assumes "begins (att 0)" "tx_body (att 0) d = Inl (OtherSqlError True False)"
  shows "pg_perform att retry d = Some (MaxRetry False, d, [OnRetry])"
  using assms by (simp add: pg_perform_def pg_loop.simps [of att 0] pg_loop.simps [of att "Suc 0" 0] try_body_def)

section \<open>Properties: statements\<close>

definition no_loss :: "'d stmt \<Rightarrow> 'd stmt \<times> net \<times> net" where
  "no_loss q = (q, \<lparr>lost_before = False, reconnected = True, lost_during = False\<rparr>, \<lparr>lost_before = False, reconnected = True, lost_during = False\<rparr>)"

fun do_all :: "('d \<Rightarrow> string + 'd) list \<Rightarrow> 'd \<Rightarrow> string + 'd" where
  "do_all [] d = Inr d"
| "do_all (f # fs) d = res_bind (f d) (do_all fs)"

lemma exec_no_loss:
  "exec_all dup (map (no_loss \<circ> Do) fs @ qs) \<lparr>committed = d0, session = Active d\<rparr> =
     (case do_all fs d of
        Inl e \<Rightarrow> (ExecError (classify dup e), \<lparr>committed = d0, session = Failed\<rparr>)
      | Inr d' \<Rightarrow> exec_all dup qs \<lparr>committed = d0, session = Active d'\<rparr>)"
proof (induction fs arbitrary: d)
  case (Cons f fs)
  then show ?case
    by (cases "f d") (simp_all add: no_loss_def pg_exec_def exec_round_def)
qed simp

text \<open>
  As long as the connection is not lost, a sequence of statements between the start and the end of a
  transaction is atomic: it commits exactly the composition of the statements, and when one fails, nothing.
\<close>

theorem statements_atomic:
  "exec_all dup (no_loss Start # map (no_loss \<circ> Do) fs @ [no_loss End]) \<lparr>committed = d, session = Idle\<rparr> =
     (case do_all fs d of
        Inl e \<Rightarrow> (ExecError (classify dup e), \<lparr>committed = d, session = Failed\<rparr>)
      | Inr d' \<Rightarrow> (ExecOk, \<lparr>committed = d', session = Idle\<rparr>))"
proof -
  have "exec_all dup (no_loss Start # qs) \<lparr>committed = d, session = Idle\<rparr> = exec_all dup qs \<lparr>committed = d, session = Active d\<rparr>" for qs
    by (simp add: no_loss_def pg_exec_def exec_round_def Let_def)
  moreover have "exec_all dup [no_loss End] \<lparr>committed = d, session = Active d'\<rparr> = (ExecOk, \<lparr>committed = d', session = Idle\<rparr>)" for d'
    by (simp add: no_loss_def pg_exec_def exec_round_def Let_def)
  ultimately show ?thesis using exec_no_loss [of dup fs "[no_loss End]" d d] by (simp split: sum.split)
qed

text \<open>
  A connection that is lost between two statements of a transaction is established again silently: the
  statements before are gone, the statements after run and commit one by one, and no error is reported.
\<close>

theorem reconnect_breaks_transaction:
  assumes "f d = Inr d1" "g d = Inr d2"
  shows "exec_all dup [no_loss Start, no_loss (Do f),
      (Do g, \<lparr>lost_before = True, reconnected = True, lost_during = False\<rparr>, n), no_loss End] \<lparr>committed = d, session = Idle\<rparr>
    = (ExecOk, \<lparr>committed = d2, session = Idle\<rparr>)"
  using assms by (simp add: Let_def no_loss_def pg_exec_def exec_round_def Let_def)

theorem reconnect_breaks_transaction_witness:
  "exec_all (\<lambda>e. False) [no_loss Start, no_loss (Do (\<lambda>d. Inr (d @ ''a''))),
      (Do (\<lambda>d. Inr (d @ ''b'')), \<lparr>lost_before = True, reconnected = True, lost_during = False\<rparr>, \<lparr>lost_before = False, reconnected = True, lost_during = False\<rparr>),
      no_loss End] \<lparr>committed = [], session = Idle\<rparr>
    = (ExecOk, \<lparr>committed = ''b'', session = Idle\<rparr>)"
  by (rule reconnect_breaks_transaction [of _ _ "''a''"]) simp_all

section \<open>Properties: pool\<close>

lemma pool_bounded:
  "length (freeConnections p) \<le> poolsize p \<Longrightarrow> length (freeConnections (fst (pool_return t h p))) \<le> poolsize p
     \<and> length (freeConnections (snd (pool_get c p))) \<le> poolsize p"
  by (auto simp: pool_return_def pool_get_def split: prod.splits list.splits)

text \<open>Of two idle connections the one whose idle time is over is kept and the other is released.\<close>

lemma releases_the_wrong_ones:
  "releaseIdleConnections 10 \<lparr>freeConnections = [(5 :: nat, 1, ''expired''), (20, 1, ''fresh'')], poolsize = 4, useCount = 9\<rparr>
     = (\<lparr>freeConnections = [(5, 1, ''expired'')], poolsize = 4, useCount = 9\<rparr>, [''fresh''])"
  by (simp add: releaseIdleConnections_def)

end
