(* ===== verification/Text_Util.thy ===== *)
theory Text_Util
  imports Kv_Prelude
begin

text \<open>
  The text utilities of \<^verbatim>\<open>src/lib/miutil\<close>: \<^verbatim>\<open>trimstr.cc\<close>, \<^verbatim>\<open>cmprspace.cc\<close>, \<^verbatim>\<open>splitstr.cc\<close>, \<^verbatim>\<open>replace.cc\<close> and
  \<^verbatim>\<open>commastring.cc\<close>. A vector that is written by index is a list of fixed length; a write out of range, which
  the programs do not test, is \<open>None\<close>. A loop that may not end is \<open>None\<close> when it does not.
\<close>

section \<open>Trimming\<close>

datatype ETrimStrWhere = TRIMFRONT | TRIMBACK | TRIMBOTH

definition trimset :: string where
  "trimset = [CHR '' '', CHR 0x09, CHR 0x0D, CHR 0x0A]"

definition trim_front :: "string \<Rightarrow> string \<Rightarrow> string" where
  "trim_front cs s = dropWhile (\<lambda>c. c \<in> set cs) s"

definition trim_back :: "string \<Rightarrow> string \<Rightarrow> string" where
  "trim_back cs s = rev (dropWhile (\<lambda>c. c \<in> set cs) (rev s))"

definition trimstr_where :: "ETrimStrWhere \<Rightarrow> string \<Rightarrow> string \<Rightarrow> string" where
  "trimstr_where place cs s =
     (let s = (if place = TRIMFRONT \<or> place = TRIMBOTH then trim_front cs s else s)
      in if place = TRIMBACK \<or> place = TRIMBOTH then trim_back cs s else s)"

definition trimstr :: "string \<Rightarrow> string" where
  "trimstr = trimstr_where TRIMBOTH trimset"

section \<open>Compression of space\<close>

definition space_chars :: "bool \<Rightarrow> string" where
  "space_chars newlineAsSpace = (if newlineAsSpace then [CHR '' '', CHR 0x09, CHR 0x0D, CHR 0x0A] else [CHR '' '', CHR 0x09, CHR 0x0D])"

lemma drop_space_less:
  assumes "dropWhile (\<lambda>c. c \<notin> set sp) rest \<noteq> []"
  shows "length (dropWhile (\<lambda>c. c \<in> set sp) (dropWhile (\<lambda>c. c \<notin> set sp) rest)) < length rest"
proof -
  let ?r = "dropWhile (\<lambda>c. c \<notin> set sp) rest"
  obtain c cs where r: "?r = c # cs" using assms by (cases ?r) auto
  then have "c \<in> set sp" using hd_dropWhile [OF assms] by simp
  then have "length (dropWhile (\<lambda>c. c \<in> set sp) ?r) \<le> length cs" unfolding r by (simp add: length_dropWhile_le)
  moreover have "length ?r \<le> length rest" by (rule length_dropWhile_le)
  ultimately show ?thesis by (simp add: r)
qed

text \<open>\<open>acc\<close> is the part of the buffer before the position where the next space is searched.\<close>

function cmprspace_loop :: "string \<Rightarrow> string \<Rightarrow> string \<Rightarrow> string" where
  "cmprspace_loop space acc rest =
     (let acc = acc @ takeWhile (\<lambda>c. c \<notin> set space) rest; r = dropWhile (\<lambda>c. c \<notin> set space) rest in
      if r = [] then acc
      else let r2 = dropWhile (\<lambda>c. c \<in> set space) r in
        if r2 = [] then acc
        else if hd r2 = CHR 0x0A \<or> acc = [] \<or> last acc = CHR 0x0A then cmprspace_loop space (acc @ [hd r2]) (tl r2)
        else cmprspace_loop space (acc @ [CHR '' '']) r2)"
  by pat_completeness auto

termination
  by (relation "measure (\<lambda>(space, acc, rest). length rest)") (auto simp: drop_space_less less_imp_diff_less)

declare cmprspace_loop.simps [simp del]

definition cmprspace :: "bool \<Rightarrow> string \<Rightarrow> string" where
  "cmprspace newlineAsSpace buf = cmprspace_loop (space_chars newlineAsSpace) [] buf"

section \<open>Splitting\<close>

definition vec_write :: "'a list \<Rightarrow> nat \<Rightarrow> 'a \<Rightarrow> 'a list option" where
  "vec_write v i x = (if i < length v then Some (v[i := x]) else None)"

text \<open>\<open>ch\<close> is the character before, initially the character 0.\<close>

fun count_sep :: "char \<Rightarrow> char \<Rightarrow> string \<Rightarrow> char \<Rightarrow> bool \<Rightarrow> nat" where
  "count_sep sep prot [] ch inString = 0"
| "count_sep sep prot (c # cs) ch inString =
     (if c = prot \<and> ch \<noteq> CHR 0x5C then count_sep sep prot cs c (\<not> inString)
      else if c = sep \<and> \<not> inString then Suc (count_sep sep prot cs c inString)
      else count_sep sep prot cs c inString)"

fun split_loop :: "char \<Rightarrow> char \<Rightarrow> string \<Rightarrow> string \<Rightarrow> char \<Rightarrow> bool \<Rightarrow> nat \<Rightarrow> string list \<Rightarrow> string list option" where
  "split_loop sep prot [] ost ch inString i v = vec_write v i (trimstr ost)"
| "split_loop sep prot (c # cs) ost ch inString i v =
     (if c = prot \<and> ch \<noteq> CHR 0x5C then split_loop sep prot cs (ost @ [c]) c (\<not> inString) i v
      else if inString then split_loop sep prot cs (ost @ [c]) c inString i v
      else if c \<noteq> sep then split_loop sep prot cs (ost @ [c]) c inString i v
      else Option.bind (vec_write v i (trimstr ost)) (split_loop sep prot cs [] c inString (i + 1)))"

definition splitstr :: "char \<Rightarrow> char \<Rightarrow> string \<Rightarrow> string list option" where
  "splitstr sep prot s =
     (let n = count_sep sep prot s (CHR 0x00) False in split_loop sep prot s [] (CHR 0x00) False 0 (replicate (n + 1) []))"

section \<open>Replacing\<close>

fun find_sub :: "string \<Rightarrow> string \<Rightarrow> nat option" where
  "find_sub w s =
     (if take (length w) s = w then Some 0 else (case s of [] \<Rightarrow> None | c # cs \<Rightarrow> map_option Suc (find_sub w cs)))"

declare find_sub.simps [simp del]

partial_function (option) replace_loop :: "string \<Rightarrow> string \<Rightarrow> string \<Rightarrow> string \<Rightarrow> string option" where
  "replace_loop w with front rest =
     (case find_sub w rest of
        None \<Rightarrow> Some (front @ rest)
      | Some p \<Rightarrow> replace_loop w with (front @ take p rest @ with) (drop (p + length w) rest))"

definition replace :: "string \<Rightarrow> string \<Rightarrow> string \<Rightarrow> string option" where
  "replace s w with = replace_loop w with [] s"

section \<open>Comma strings\<close>

record Elem =
  elem_str :: string
  isString :: bool

definition mk_Elem :: "string \<Rightarrow> bool \<Rightarrow> Elem" where
  "mk_Elem d b =
     (if 2 \<le> length d \<and> hd d = CHR 0x22 \<and> last d = CHR 0x22 then \<lparr>elem_str = butlast (tl d), isString = True\<rparr>
      else \<lparr>elem_str = d, isString = b\<rparr>)"

record CommaString =
  cs_data :: "Elem list"
  separator :: string

text \<open>
  In the loop that fills the elements, unlike in the loop that counts them, the character before is only kept
  when it is a quote.
\<close>

fun comma_loop :: "char \<Rightarrow> string \<Rightarrow> string \<Rightarrow> char \<Rightarrow> bool \<Rightarrow> bool \<Rightarrow> nat \<Rightarrow> Elem list \<Rightarrow> Elem list option" where
  "comma_loop sep [] ost ch inString isStr i v =
     map_option (\<lambda>v. v[i := (v ! i)\<lparr>elem_str := trimstr (elem_str (v ! i))\<rparr>]) (vec_write v i (mk_Elem ost isStr))"
| "comma_loop sep (c # cs) ost ch inString isStr i v =
     (if c = CHR 0x22 \<and> ch \<noteq> CHR 0x5C then comma_loop sep cs ost c (\<not> inString) True i v
      else if inString then comma_loop sep cs (ost @ [c]) ch inString isStr i v
      else if c \<noteq> sep then comma_loop sep cs (ost @ [c]) ch inString isStr i v
      else Option.bind (vec_write v i (mk_Elem (trimstr ost) False)) (comma_loop sep cs [] ch inString False (i + 1)))"

definition comma_init_char :: "string \<Rightarrow> char \<Rightarrow> Elem list option" where
  "comma_init_char s sep =
     comma_loop sep s [] (CHR 0x00) False False 0
       (replicate (count_sep sep (CHR 0x22) s (CHR 0x00) False + 1) \<lparr>elem_str = [], isString = False\<rparr>)"

text \<open>
  With a separator of type string the elements are counted by the loop above when it has one character, and are
  then filled without regard to quotes. The outer \<open>None\<close>: does not return; the inner: writes out of range.
\<close>

partial_function (option) count_sub :: "string \<Rightarrow> string \<Rightarrow> nat option" where
  "count_sub sep s =
     (case find_sub sep s of
        None \<Rightarrow> Some 0
      | Some p \<Rightarrow> Option.bind (count_sub sep (drop (p + length sep) s)) (\<lambda>n. Some (n + 1)))"

definition count_str :: "string \<Rightarrow> string \<Rightarrow> nat option" where
  "count_str s sep = (if length sep = 1 then Some (count_sep (hd sep) (CHR 0x22) s (CHR 0x00) False) else count_sub sep s)"

partial_function (option) comma_fill :: "string \<Rightarrow> string \<Rightarrow> nat \<Rightarrow> Elem list \<Rightarrow> Elem list option option" where
  "comma_fill sep s i v =
     (case find_sub sep s of
        None \<Rightarrow> Some (vec_write v i (mk_Elem s False))
      | Some p \<Rightarrow>
          (case vec_write v i (mk_Elem (take p s) False) of
             None \<Rightarrow> Some None
           | Some v \<Rightarrow> comma_fill sep (drop (p + length sep) s) (i + 1) v))"

definition comma_init_str :: "string \<Rightarrow> string \<Rightarrow> Elem list option option" where
  "comma_init_str s sep =
     Option.bind (count_str s sep) (\<lambda>n. comma_fill sep s 0 (replicate (n + 1) \<lparr>elem_str = [], isString = False\<rparr>))"

definition comma_insert :: "nat \<Rightarrow> string \<Rightarrow> CommaString \<Rightarrow> bool \<times> CommaString" where
  "comma_insert i val c =
     (if length (cs_data c) \<le> i \<or> separator c = [] then (False, c)
      else
        let val = trimstr val;
            elem = (if 1 < length val \<and> hd val = CHR 0x22 \<and> last val = CHR 0x22
              then mk_Elem (butlast (tl val)) (length (separator c) = 1)
              else if 1 < length (separator c) then mk_Elem val False
              else mk_Elem val (hd (separator c) \<in> set val))
        in (True, c\<lparr>cs_data := (cs_data c)[i := elem]\<rparr>))"

definition comma_get :: "nat \<Rightarrow> CommaString \<Rightarrow> bool \<times> string" where
  "comma_get i c = (if length (cs_data c) \<le> i then (False, []) else (True, elem_str (cs_data c ! i)))"

definition show_Elem :: "Elem \<Rightarrow> string" where
  "show_Elem e = (if isString e then [CHR 0x22] @ elem_str e @ [CHR 0x22] else elem_str e)"

fun comma_print :: "string \<Rightarrow> Elem list \<Rightarrow> string" where
  "comma_print sep [] = []"
| "comma_print sep [e] = show_Elem e"
| "comma_print sep (e # es) = show_Elem e @ sep @ comma_print sep es"

definition comma_length :: "CommaString \<Rightarrow> int" where
  "comma_length c =
     (if cs_data c = [] then 0
      else if separator c = [] then -1
      else int ((length (cs_data c) - 1) * length (separator c)
             + sum_list (map (\<lambda>e. length (elem_str e) + (if isString e then 2 else 0)) (cs_data c))))"

section \<open>Lemmas: space\<close>

lemma set_trimset: "set trimset = {CHR '' '', CHR 0x09, CHR 0x0D, CHR 0x0A}"
  by (simp add: trimset_def)

definition ok_pair :: "char \<Rightarrow> char \<Rightarrow> bool" where
  "ok_pair a b \<longleftrightarrow> \<not> (a = CHR '' '' \<and> (b = CHR '' '' \<or> b = CHR 0x0A)) \<and> \<not> (a = CHR 0x0A \<and> b = CHR '' '')"

definition compressed :: "string \<Rightarrow> string \<Rightarrow> bool" where
  "compressed space s \<longleftrightarrow> successively ok_pair s \<and> (s \<noteq> [] \<longrightarrow> hd s \<noteq> CHR '' '') \<and> (\<forall>c\<in>set s. c \<in> set space \<longrightarrow> c = CHR '' '')"

lemma compressed_snoc:
  "compressed space s \<Longrightarrow> (c \<in> set space \<Longrightarrow> c = CHR '' '') \<Longrightarrow> (s = [] \<Longrightarrow> c \<noteq> CHR '' '') \<Longrightarrow> (s \<noteq> [] \<Longrightarrow> ok_pair (last s) c) \<Longrightarrow>
     compressed space (s @ [c])"
  by (auto simp: compressed_def successively_append_iff hd_append)

lemma compressed_append:
  assumes "CHR '' '' \<in> set space" "\<And>c. c \<in> set w \<Longrightarrow> c \<notin> set space" "compressed space s" "w \<noteq> [] \<Longrightarrow> s \<noteq> [] \<Longrightarrow> ok_pair (last s) (hd w)"
  shows "compressed space (s @ w)"
  using assms(2,4)
proof (induction w rule: rev_induct)
  case Nil
  then show ?case using assms(3) by simp
next
  case (snoc c w)
  have c: "c \<notin> set space" "c \<noteq> CHR '' ''" using snoc.prems(1) [of c] assms(1) by auto
  have "compressed space (s @ w)" using snoc by (cases w) auto
  moreover have "ok_pair (last (s @ w)) c" if "s @ w \<noteq> []"
  proof (cases "w = []")
    case True
    then show ?thesis using snoc.prems(2) that by simp
  next
    case False
    then have "last w \<noteq> CHR '' ''" using snoc.prems(1) [of "last w"] assms(1) by auto
    then show ?thesis using False c(2) by (simp add: ok_pair_def)
  qed
  ultimately show ?case using compressed_snoc [of space "s @ w" c] c by auto
qed

lemma cmprspace_loop_compressed:
  assumes "CHR '' '' \<in> set space"
  shows "compressed space acc \<Longrightarrow> (acc \<noteq> [] \<and> last acc = CHR '' '' \<longrightarrow> rest \<noteq> [] \<and> hd rest \<notin> set space \<and> hd rest \<noteq> CHR 0x0A) \<Longrightarrow>
    compressed space (cmprspace_loop space acc rest)
    \<and> (cmprspace_loop space acc rest \<noteq> [] \<longrightarrow> last (cmprspace_loop space acc rest) \<noteq> CHR '' '')
    \<and> filter (\<lambda>c. c \<notin> set space) (cmprspace_loop space acc rest) = filter (\<lambda>c. c \<notin> set space) (acc @ rest)"
  using assms
proof (induction space acc rest rule: cmprspace_loop.induct)
  case (1 space acc rest)
  let ?w = "takeWhile (\<lambda>c. c \<notin> set space) rest" and ?r = "dropWhile (\<lambda>c. c \<notin> set space) rest"
  let ?a = "acc @ ?w" and ?r2 = "dropWhile (\<lambda>c. c \<in> set space) ?r"
  have w: "c \<notin> set space" if "c \<in> set ?w" for c using that by (auto dest: set_takeWhileD)
  have "ok_pair (last acc) (hd ?w)" if "?w \<noteq> []" "acc \<noteq> []"
  proof -
    have "hd ?w = hd rest" "hd ?w \<notin> set space" using that(1) w [of "hd ?w"] by (cases rest; auto split: if_splits)+
    then show ?thesis using 1(3,4,5) that(2) by (auto simp: ok_pair_def)
  qed
  then have a: "compressed space ?a" by (intro compressed_append) (use 1(3,5) w in auto)
  have last: "last ?a \<noteq> CHR '' ''" if "?a \<noteq> []"
  proof (cases "?w = []")
    case True
    then show ?thesis using 1(4) that by (cases rest) (auto split: if_splits)
  next
    case False
    then show ?thesis using w [of "last ?w"] 1(5) by auto
  qed
  have rest: "filter (\<lambda>c. c \<notin> set space) rest = ?w @ filter (\<lambda>c. c \<notin> set space) ?r2"
  proof -
    have "rest = ?w @ takeWhile (\<lambda>c. c \<in> set space) ?r @ ?r2" by simp
    then have "filter (\<lambda>c. c \<notin> set space) rest = filter (\<lambda>c. c \<notin> set space) ?w
        @ filter (\<lambda>c. c \<notin> set space) (takeWhile (\<lambda>c. c \<in> set space) ?r) @ filter (\<lambda>c. c \<notin> set space) ?r2"
      by (metis filter_append)
    moreover have "filter (\<lambda>c. c \<notin> set space) ?w = ?w" using w by (simp add: filter_id_conv)
    moreover have "filter (\<lambda>c. c \<notin> set space) (takeWhile (\<lambda>c. c \<in> set space) ?r) = []"
      by (auto simp: filter_empty_conv dest: set_takeWhileD)
    ultimately show ?thesis by simp
  qed
  have fw: "filter (\<lambda>c. c \<notin> set space) ?w = ?w" using w by (simp add: filter_id_conv)
  show ?case
  proof (cases "?r = [] \<or> ?r2 = []")
    case True
    then have "cmprspace_loop space acc rest = ?a" unfolding cmprspace_loop.simps [of space acc rest] Let_def by presburger
    moreover have "?r2 = []" using True by (metis dropWhile.simps(1))
    then have "filter (\<lambda>c. c \<notin> set space) rest = ?w" using rest by (metis append_Nil2 filter.simps(1))
    ultimately show ?thesis using a last fw by simp
  next
    case False
    then have hd2: "hd ?r2 \<notin> set space" using hd_dropWhile [of "\<lambda>c. c \<in> set space" ?r] by blast
    show ?thesis
    proof (cases "hd ?r2 = CHR 0x0A \<or> ?a = [] \<or> last ?a = CHR 0x0A")
      case True
      have eq: "cmprspace_loop space acc rest = cmprspace_loop space (?a @ [hd ?r2]) (tl ?r2)"
        using False True unfolding cmprspace_loop.simps [of space acc rest] Let_def by presburger
      have "compressed space (?a @ [hd ?r2])"
        by (rule compressed_snoc [OF a]) (use hd2 last True 1(5) in \<open>auto simp: ok_pair_def\<close>)
      moreover have "hd ?r2 \<noteq> CHR '' ''" using hd2 1(5) by auto
      ultimately have IH: "compressed space (cmprspace_loop space (?a @ [hd ?r2]) (tl ?r2))
          \<and> (cmprspace_loop space (?a @ [hd ?r2]) (tl ?r2) \<noteq> [] \<longrightarrow> last (cmprspace_loop space (?a @ [hd ?r2]) (tl ?r2)) \<noteq> CHR '' '')
          \<and> filter (\<lambda>c. c \<notin> set space) (cmprspace_loop space (?a @ [hd ?r2]) (tl ?r2)) = filter (\<lambda>c. c \<notin> set space) ((?a @ [hd ?r2]) @ tl ?r2)"
        using 1(1) [OF refl refl _ refl] False True 1(5) by simp
      have "[hd ?r2] @ tl ?r2 = ?r2" using False by simp
      then have "filter (\<lambda>c. c \<notin> set space) ((?a @ [hd ?r2]) @ tl ?r2) = filter (\<lambda>c. c \<notin> set space) (acc @ rest)"
        using rest fw by (metis append.assoc filter_append)
      then show ?thesis unfolding eq using IH by simp
    next
      case f2: False
      have eq: "cmprspace_loop space acc rest = cmprspace_loop space (?a @ [CHR '' '']) ?r2"
        using False f2 unfolding cmprspace_loop.simps [of space acc rest] Let_def by presburger
      have "compressed space (?a @ [CHR '' ''])"
        by (rule compressed_snoc [OF a]) (use f2 last in \<open>auto simp: ok_pair_def\<close>)
      then have IH: "compressed space (cmprspace_loop space (?a @ [CHR '' '']) ?r2)
          \<and> (cmprspace_loop space (?a @ [CHR '' '']) ?r2 \<noteq> [] \<longrightarrow> last (cmprspace_loop space (?a @ [CHR '' '']) ?r2) \<noteq> CHR '' '')
          \<and> filter (\<lambda>c. c \<notin> set space) (cmprspace_loop space (?a @ [CHR '' '']) ?r2) = filter (\<lambda>c. c \<notin> set space) ((?a @ [CHR '' '']) @ ?r2)"
        using 1(2) [OF refl refl _ refl] False f2 hd2 1(5) by simp
      have "filter (\<lambda>c. c \<notin> set space) ((?a @ [CHR '' '']) @ ?r2) = filter (\<lambda>c. c \<notin> set space) (acc @ rest)"
        using rest fw 1(5) by simp
      then show ?thesis unfolding eq using IH by simp
    qed
  qed
qed

section \<open>Lemmas: splitting\<close>

lemma split_loop_some:
  "i + count_sep sep prot cs ch inString < length v \<Longrightarrow>
     \<exists>r. split_loop sep prot cs ost ch inString i v = Some r \<and> length r = length v"
  by (induction sep prot cs ost ch inString i v rule: split_loop.induct) (auto simp: vec_write_def)

text \<open>The reference: the parts between separators.\<close>

fun split_on :: "char \<Rightarrow> string \<Rightarrow> string list" where
  "split_on sep [] = [[]]"
| "split_on sep (c # cs) = (if c = sep then [] # split_on sep cs else (c # hd (split_on sep cs)) # tl (split_on sep cs))"

lemma split_on_nonempty: "split_on sep s \<noteq> []"
  by (induction s) auto

lemma length_split_on: "prot \<notin> set s \<Longrightarrow> length (split_on sep s) = Suc (count_sep sep prot s ch False)"
  by (induction s arbitrary: ch) (auto simp: split_on_nonempty)

lemma split_loop_plain:
  "prot \<notin> set cs \<Longrightarrow> length v = i + length (split_on sep cs) \<Longrightarrow>
     split_loop sep prot cs ost ch False i v =
       Some (take i v @ trimstr (ost @ hd (split_on sep cs)) # map trimstr (tl (split_on sep cs)))"
proof (induction cs arbitrary: ost ch i v)
  case Nil
  then have "length v = Suc i" by simp
  then show ?case by (simp add: vec_write_def list_update_append upd_conv_take_nth_drop)
next
  case (Cons c cs)
  show ?case
  proof (cases "c = sep")
    case True
    let ?v = "v[i := trimstr ost]"
    have "split_loop sep prot cs [] c False (i + 1) ?v = Some (take (i + 1) ?v @ trimstr ([] @ hd (split_on sep cs)) # map trimstr (tl (split_on sep cs)))"
      by (rule Cons.IH) (use Cons.prems True in auto)
    moreover have "i < length v" using Cons.prems True by simp
    ultimately show ?thesis
      using True Cons.prems split_on_nonempty [of sep cs]
      by (cases "split_on sep cs") (auto simp: vec_write_def take_Suc_conv_app_nth)
  next
    case False
    then have "length (split_on sep (c # cs)) = length (split_on sep cs)"
      using split_on_nonempty [of sep cs] by (cases "split_on sep cs") auto
    then show ?thesis
      using False Cons.prems Cons.IH [of v i "ost @ [c]" c] by auto
  qed
qed

section \<open>Lemmas: replacing\<close>

lemma find_sub_Some: "find_sub w s = Some p \<Longrightarrow> s = take p s @ w @ drop (p + length w) s \<and> p + length w \<le> length s"
proof (induction w s arbitrary: p rule: find_sub.induct)
  case (1 w s)
  show ?case
  proof (cases "take (length w) s = w")
    case True
    then have "p = 0" using 1(2) by (simp add: find_sub.simps [of w s])
    moreover have "length w \<le> length s" using True by (metis length_take min.cobounded1)
    ultimately show ?thesis using True by (metis append_take_drop_id add_0 take0 append_Nil)
  next
    case False
    then obtain c cs q where "s = c # cs" "find_sub w cs = Some q" "p = Suc q"
      using 1(2) by (subst (asm) find_sub.simps) (auto split: list.splits)
    then show ?thesis using 1(1) [OF False, of c cs q] by simp
  qed
qed

lemma find_sub_empty: "find_sub [] s = Some 0"
  by (simp add: find_sub.simps)

lemma find_sub_before: "find_sub w s = Some p \<Longrightarrow> find_sub w (take p s) = None \<or> w = []"
proof (induction w s arbitrary: p rule: find_sub.induct)
  case (1 w s)
  show ?case
  proof (cases "take (length w) s = w")
    case True
    then have "p = 0" using 1(2) by (simp add: find_sub.simps [of w s])
    then show ?thesis by (simp add: find_sub.simps [of w "[]"])
  next
    case False
    then obtain c cs q where s: "s = c # cs" "find_sub w cs = Some q" "p = Suc q"
      using 1(2) by (subst (asm) find_sub.simps) (auto split: list.splits)
    have "take (length w) (take p s) \<noteq> w"
    proof
      assume a: "take (length w) (take p s) = w"
      then have "length w \<le> p" by (metis length_take min.bounded_iff order_refl)
      then show False using a False by (simp add: min_def)
    qed
    moreover have "find_sub w (take q cs) = None \<or> w = []" using 1(1) [OF False s(1,2)] .
    ultimately show ?thesis using s by (subst find_sub.simps) simp
  qed
qed

fun intercalate :: "string \<Rightarrow> string list \<Rightarrow> string" where
  "intercalate sep [] = []"
| "intercalate sep [p] = p"
| "intercalate sep (p # ps) = p @ sep @ intercalate sep ps"

lemma intercalate_Cons: "ps \<noteq> [] \<Longrightarrow> intercalate sep (p # ps) = p @ sep @ intercalate sep ps"
  by (cases ps) auto

lemma replace_loop_some:
  "w \<noteq> [] \<Longrightarrow> \<exists>parts. parts \<noteq> [] \<and> rest = intercalate w parts \<and> (\<forall>p\<in>set parts. find_sub w p = None)
     \<and> replace_loop w with front rest = Some (front @ intercalate with parts)"
proof (induction "length rest" arbitrary: front rest rule: less_induct)
  case less
  show ?case
  proof (cases "find_sub w rest")
    case None
    then show ?thesis by (intro exI [of _ "[rest]"]) (simp add: replace_loop.simps)
  next
    case (Some p)
    let ?d = "drop (p + length w) rest"
    note f = find_sub_Some [OF Some]
    have "p + length w \<le> length rest" "0 < length w" using f less.prems by auto
    then have "length ?d < length rest" unfolding length_drop by linarith
    then obtain parts where ps: "parts \<noteq> []" "?d = intercalate w parts" "\<forall>p\<in>set parts. find_sub w p = None"
      "replace_loop w with (front @ take p rest @ with) ?d = Some ((front @ take p rest @ with) @ intercalate with parts)"
      using less.hyps [of ?d "front @ take p rest @ with"] less.prems by blast
    have "find_sub w (take p rest) = None" using find_sub_before [OF Some] less.prems by simp
    moreover have "rest = intercalate w (take p rest # parts)" using f ps(1,2) by (simp add: intercalate_Cons)
    moreover have "replace_loop w with front rest = Some (front @ intercalate with (take p rest # parts))"
      using ps(1,4) Some by (subst replace_loop.simps) (simp add: intercalate_Cons)
    ultimately show ?thesis using ps by (intro exI [of _ "take p rest # parts"]) simp
  qed
qed

lemma replace_loop_empty: "replace_loop w with front rest = Some r \<Longrightarrow> w = [] \<Longrightarrow> False"
proof (induction rule: replace_loop.raw_induct [rotated 1, consumes 1, case_names step])
  case (step replace_loop w repl front rest r)
  then show False by (auto simp: find_sub_empty)
qed

section \<open>Lemmas: comma strings\<close>

lemma comma_loop_some:
  "CHR 0x5C \<notin> set cs \<Longrightarrow> ch \<noteq> CHR 0x5C \<Longrightarrow> ch' \<noteq> CHR 0x5C \<Longrightarrow> i + count_sep sep (CHR 0x22) cs ch inString < length v \<Longrightarrow>
     \<exists>r. comma_loop sep cs ost ch' inString isStr i v = Some r \<and> length r = length v"
proof (induction cs arbitrary: ost ch ch' inString isStr i v)
  case Nil
  then show ?case by (simp add: vec_write_def)
next
  case (Cons c cs)
  have c: "c \<noteq> CHR 0x5C" "CHR 0x5C \<notin> set cs" using Cons.prems(1) by auto
  consider "c = CHR 0x22" | "c \<noteq> CHR 0x22" "inString \<or> c \<noteq> sep" | "c \<noteq> CHR 0x22" "\<not> inString" "c = sep" by blast
  then show ?case
  proof cases
    case 1
    then show ?thesis using Cons.IH [of c c i "\<not> inString" v ost True] Cons.prems c by auto
  next
    case 2
    then show ?thesis using Cons.IH [of c ch' i inString v "ost @ [c]" isStr] Cons.prems c by auto
  next
    case 3
    then show ?thesis
      using Cons.IH [of c ch' "i + 1" inString "v[i := mk_Elem (trimstr ost) False]" "[]" False] Cons.prems c
      by (auto simp: vec_write_def)
  qed
qed

section \<open>Properties\<close>

text \<open>
  The compression of space neither loses nor reorders any character that is not space, and its result has no
  space at its ends, no two adjacent spaces, no space next to a line break, and no space character other than
  the blank.
\<close>

theorem cmprspace_normal:
  "let out = cmprspace nl buf; space = space_chars nl in
     filter (\<lambda>c. c \<notin> set space) out = filter (\<lambda>c. c \<notin> set space) buf
     \<and> successively ok_pair out \<and> (out \<noteq> [] \<longrightarrow> hd out \<noteq> CHR '' '' \<and> last out \<noteq> CHR '' '') \<and> (\<forall>c\<in>set out. c \<in> set space \<longrightarrow> c = CHR '' '')"
proof -
  have "CHR '' '' \<in> set (space_chars nl)" by (simp add: space_chars_def)
  from cmprspace_loop_compressed [OF this, of "[]" buf] show ?thesis
    by (simp add: cmprspace_def compressed_def Let_def)
qed

theorem cmprspace_normal_witness:
  "successively ok_pair (cmprspace False [CHR '' '', CHR ''a'', CHR '' '', CHR 0x09, CHR ''b'', CHR '' ''])
   \<and> filter (\<lambda>c. c \<notin> set (space_chars False)) (cmprspace False [CHR '' '', CHR ''a'', CHR '' '', CHR 0x09, CHR ''b'', CHR '' '']) = ''ab''"
  using cmprspace_normal [of False "[CHR '' '', CHR ''a'', CHR '' '', CHR 0x09, CHR ''b'', CHR '' '']"]
  by (simp add: Let_def space_chars_def)

text \<open>
  Splitting a string never writes out of its vector, whatever quotes and escapes the string has, and a string
  without quotes is split into its trimmed parts between separators.
\<close>

theorem splitstr_in_range:
  "\<exists>v. splitstr sep prot s = Some v \<and> length v = Suc (count_sep sep prot s (CHR 0x00) False)
     \<and> (prot \<notin> set s \<longrightarrow> v = map trimstr (split_on sep s))"
proof -
  obtain v where v: "splitstr sep prot s = Some v" "length v = Suc (count_sep sep prot s (CHR 0x00) False)"
    using split_loop_some [of 0 sep prot s "CHR 0x00" False "replicate (Suc (count_sep sep prot s (CHR 0x00) False)) []" "[]"]
    by (auto simp: splitstr_def Let_def)
  moreover have "v = map trimstr (split_on sep s)" if "prot \<notin> set s"
  proof -
    obtain a list where a: "split_on sep s = a # list" using split_on_nonempty [of sep s] by (cases "split_on sep s") auto
    have "count_sep sep prot s (CHR 0x00) False = length list"
      using length_split_on [OF that, of sep "CHR 0x00"] by (simp add: a)
    with v(1) split_loop_plain [OF that, of "replicate (Suc (length list)) []" 0 sep "[]" "CHR 0x00"]
    show ?thesis by (simp add: splitstr_def Let_def a)
  qed
  ultimately show ?thesis by blast
qed

theorem splitstr_in_range_witness: "splitstr (CHR '','') (CHR 0x22) ''a, b'' = Some [''a'', ''b'']"
proof -
  have "map trimstr (split_on (CHR '','') ''a, b'') = [''a'', ''b'']"
    by (simp add: trimstr_def trimstr_where_def trim_front_def trim_back_def trimset_def)
  then show ?thesis using splitstr_in_range [of "CHR '',''" "CHR 0x22" "''a, b''"] by auto
qed

text \<open>
  Replacing returns exactly when the text to replace is not empty, and then exchanges it between the parts of
  the string in which it does not occur; with an empty text the loop never ends.
\<close>

theorem replace_returns:
  "(w = [] \<longrightarrow> replace s w new = None)
   \<and> (w \<noteq> [] \<longrightarrow> (\<exists>parts. parts \<noteq> [] \<and> s = intercalate w parts \<and> (\<forall>p\<in>set parts. find_sub w p = None)
        \<and> replace s w new = Some (intercalate new parts)))"
proof (intro conjI impI)
  show "replace s w new = None" if "w = []"
    using replace_loop_empty [OF _ that] by (cases "replace s w new") (auto simp: replace_def)
  show "\<exists>parts. parts \<noteq> [] \<and> s = intercalate w parts \<and> (\<forall>p\<in>set parts. find_sub w p = None)
        \<and> replace s w new = Some (intercalate new parts)" if "w \<noteq> []"
    using replace_loop_some [OF that, of s new "[]"] by (simp add: replace_def)
qed

theorem replace_returns_witness: "replace ''abc'' [] ''x'' = None"
  using replace_returns [of "[]" "''abc''" "''x''"] by simp

text \<open>
  Reading a comma separated string stays in range when the string has no backslash; with an escaped quote it
  can write behind the end of its vector, because the loop that counts the elements respects the escape and the
  loop that fills them does not.
\<close>

theorem comma_init_range:
  "(CHR 0x5C \<notin> set s \<longrightarrow> (\<exists>v. comma_init_char s sep = Some v \<and> length v = Suc (count_sep sep (CHR 0x22) s (CHR 0x00) False)))
   \<and> comma_init_char [CHR 0x22, CHR 0x5C, CHR 0x22, CHR '',''] (CHR '','') = None"
proof (intro conjI impI)
  show "\<exists>v. comma_init_char s sep = Some v \<and> length v = Suc (count_sep sep (CHR 0x22) s (CHR 0x00) False)" if "CHR 0x5C \<notin> set s"
    using comma_loop_some [OF that, of "CHR 0x00" "CHR 0x00" 0 sep False "replicate (Suc (count_sep sep (CHR 0x22) s (CHR 0x00) False)) \<lparr>elem_str = [], isString = False\<rparr>" "[]" False]
    by (simp add: comma_init_char_def)
  show "comma_init_char [CHR 0x22, CHR 0x5C, CHR 0x22, CHR '',''] (CHR '','') = None"
    by (simp add: comma_init_char_def vec_write_def)
qed

theorem comma_init_range_witness: "\<exists>v. comma_init_char ''a,b,c'' (CHR '','') = Some v \<and> length v = 3"
proof -
  have "count_sep (CHR '','') (CHR 0x22) ''a,b,c'' (CHR 0x00) False = 2" by simp
  with comma_init_range [of "''a,b,c''" "CHR '',''"] show ?thesis by (simp add: eval_nat_numeral)
qed

text \<open>The quotes of an element that is not the last one are lost: the list printed again has more elements.\<close>

lemma quotes_lost:
  "map_option (comma_print [CHR '','']) (comma_init_char [CHR 0x22, CHR ''3'', CHR '','', CHR ''1'', CHR 0x22, CHR '','', CHR ''x''] (CHR '',''))
     = Some ''3,1,x''"
  by (simp add: comma_init_char_def vec_write_def mk_Elem_def trimstr_def trimstr_where_def trim_front_def trim_back_def trimset_def show_Elem_def)

text \<open>With a separator of type string a quoted separator makes the filling write behind the end.\<close>

lemma string_separator_out_of_range: "comma_init_str [CHR 0x22, CHR '','', CHR 0x22] [CHR '',''] = Some None"
  by (simp add: comma_init_str_def count_str_def comma_fill.simps find_sub.simps vec_write_def)

end
