(* ===== verification/Synop_Elements.thy ===== *)
theory Synop_Elements
  imports Complex_Main Kv_Prelude
begin

text \<open>
  The names of \<^verbatim>\<open>src/lib/decoder/synopdecoder/synopElements.h\<close>: the numbers of the parameters (0 for elements
  that kvalobs does not store), the sections and types of a report, and the information that is not stored as a
  parameter. A quote stands for an underscore at the end of a name of the code.
\<close>

section \<open>Parameters\<close>

definition syn_kvalobsTypeID :: int where [simp]: "syn_kvalobsTypeID = 1"

definition syn_shipTypeID :: int where [simp]: "syn_shipTypeID = 11"

definition syn_LaLaLa :: int where [simp]: "syn_LaLaLa = 401"

definition syn_LoLoLoLo :: int where [simp]: "syn_LoLoLoLo = 402"

definition syn_ir :: int where [simp]: "syn_ir = 9"

definition syn_ix :: int where [simp]: "syn_ix = 10"

definition syn_h :: int where [simp]: "syn_h = 55"

definition syn_VV :: int where [simp]: "syn_VV = 273"

definition syn_N :: int where [simp]: "syn_N = 15"

definition syn_dd :: int where [simp]: "syn_dd = 61"

definition syn_ff :: int where [simp]: "syn_ff = 81"

definition syn_TTT :: int where [simp]: "syn_TTT = 211"

definition syn_TdTdTd :: int where [simp]: "syn_TdTdTd = 217"

definition syn_PPPP :: int where [simp]: "syn_PPPP = 178"

definition syn_P0P0P0P0 :: int where [simp]: "syn_P0P0P0P0 = 173"

definition syn_a :: int where [simp]: "syn_a = 1"

definition syn_ppp :: int where [simp]: "syn_ppp = 177"

definition syn_tr :: int where [simp]: "syn_tr = 12"

definition syn_hhh :: int where [simp]: "syn_hhh = 0"

definition syn_a3 :: int where [simp]: "syn_a3 = 0"

definition syn_ww :: int where [simp]: "syn_ww = 41"

definition syn_W1 :: int where [simp]: "syn_W1 = 42"

definition syn_W2 :: int where [simp]: "syn_W2 = 43"

definition syn_wawa :: int where [simp]: "syn_wawa = 49"

definition syn_Wa1 :: int where [simp]: "syn_Wa1 = 47"

definition syn_Wa2 :: int where [simp]: "syn_Wa2 = 48"

definition syn_Nh :: int where [simp]: "syn_Nh = 14"

definition syn_Cl :: int where [simp]: "syn_Cl = 23"

definition syn_Cm :: int where [simp]: "syn_Cm = 24"

definition syn_Ch :: int where [simp]: "syn_Ch = 22"

definition syn_UUU :: int where [simp]: "syn_UUU = 262"

definition syn_ds :: int where [simp]: "syn_ds = 403"

definition syn_vs :: int where [simp]: "syn_vs = 404"

definition syn_TwTwTw :: int where [simp]: "syn_TwTwTw = 242"

definition syn_TbTbTb :: int where [simp]: "syn_TbTbTb = 0"

definition syn_PwaPwa :: int where [simp]: "syn_PwaPwa = 154"

definition syn_HwaHwa :: int where [simp]: "syn_HwaHwa = 134"

definition syn_HwaHwaHwa :: int where [simp]: "syn_HwaHwaHwa = 134"

definition syn_PwPw :: int where [simp]: "syn_PwPw = 151"

definition syn_HwHw :: int where [simp]: "syn_HwHw = 131"

definition syn_dw1dw1 :: int where [simp]: "syn_dw1dw1 = 65"

definition syn_dw2dw2 :: int where [simp]: "syn_dw2dw2 = 66"

definition syn_Pw1Pw1 :: int where [simp]: "syn_Pw1Pw1 = 152"

definition syn_Hw1Hw1 :: int where [simp]: "syn_Hw1Hw1 = 132"

definition syn_Pw2Pw2 :: int where [simp]: "syn_Pw2Pw2 = 153"

definition syn_Hw2Hw2 :: int where [simp]: "syn_Hw2Hw2 = 133"

definition syn_Is :: int where [simp]: "syn_Is = 11"

definition syn_EsEs :: int where [simp]: "syn_EsEs = 101"

definition syn_Rs :: int where [simp]: "syn_Rs = 17"

definition syn_Ci :: int where [simp]: "syn_Ci = 4"

definition syn_Si :: int where [simp]: "syn_Si = 20"

definition syn_Bi :: int where [simp]: "syn_Bi = 2"

definition syn_Di :: int where [simp]: "syn_Di = 6"

definition syn_Zi :: int where [simp]: "syn_Zi = 21"

definition syn_TxTxTx :: int where [simp]: "syn_TxTxTx = 216"

definition syn_TnTnTn :: int where [simp]: "syn_TnTnTn = 214"

definition syn_E :: int where [simp]: "syn_E = 129"

definition syn_jjj :: int where [simp]: "syn_jjj = 0"

definition syn_E' :: int where [simp]: "syn_E' = 7"

definition syn_sss :: int where [simp]: "syn_sss = 112"

definition syn_Ns1 :: int where [simp]: "syn_Ns1 = 25"

definition syn_Ns2 :: int where [simp]: "syn_Ns2 = 26"

definition syn_Ns3 :: int where [simp]: "syn_Ns3 = 27"

definition syn_Ns4 :: int where [simp]: "syn_Ns4 = 28"

definition syn_C1 :: int where [simp]: "syn_C1 = 305"

definition syn_C2 :: int where [simp]: "syn_C2 = 306"

definition syn_C3 :: int where [simp]: "syn_C3 = 307"

definition syn_C4 :: int where [simp]: "syn_C4 = 308"

definition syn_hshs1 :: int where [simp]: "syn_hshs1 = 301"

definition syn_hshs2 :: int where [simp]: "syn_hshs2 = 302"

definition syn_hshs3 :: int where [simp]: "syn_hshs3 = 303"

definition syn_hshs4 :: int where [simp]: "syn_hshs4 = 304"

definition syn_ff_911 :: int where [simp]: "syn_ff_911 = 83"

definition syn_EEE :: int where [simp]: "syn_EEE = 103"

definition syn_ie :: int where [simp]: "syn_ie = 0"

definition syn_SSS :: int where [simp]: "syn_SSS = 122"

definition syn_FF24 :: int where [simp]: "syn_FF24 = 0"

definition syn_N' :: int where [simp]: "syn_N' = 0"

definition syn_C' :: int where [simp]: "syn_C' = 0"

definition syn_H'H' :: int where [simp]: "syn_H'H' = 0"

definition syn_Ct :: int where [simp]: "syn_Ct = 0"

definition syn_S :: int where [simp]: "syn_S = 19"

definition syn_tz :: int where [simp]: "syn_tz = 13"

definition syn_fxfx :: int where [simp]: "syn_fxfx = 86"

definition syn_Tx'Tx' :: int where [simp]: "syn_Tx'Tx' = 216"

definition syn_Tn'Tn' :: int where [simp]: "syn_Tn'Tn' = 214"

definition syn_TgTgTg :: int where [simp]: "syn_TgTgTg = 224"

definition syn_Rt :: int where [simp]: "syn_Rt = 0"

definition syn_X1wd :: int where [simp]: "syn_X1wd = 44"

definition syn_X2wd :: int where [simp]: "syn_X2wd = 45"

definition syn_X3wd :: int where [simp]: "syn_X3wd = 46"

definition syn_RR24 :: int where [simp]: "syn_RR24 = 110"

definition syn_SD :: int where [simp]: "syn_SD = 18"


section \<open>Parsing\<close>

datatype windunit = MS | KT | NOWINDUNIT

datatype synopTokenType = NORMALTOKEN | ICETEXTTOKEN | ICINGTEXTTOKEN

datatype synopSection = S000 | S111 | S222 | S333 | S444 | S555 | S999

datatype synopType = SYNOP | SHIP | MOBIL

datatype signtype = Sn | Sw | Ss

text \<open>The sections in the order of the enumeration.\<close>

primrec section_no :: "synopSection \<Rightarrow> nat" where
  "section_no S000 = 0"
| "section_no S111 = 1"
| "section_no S222 = 2"
| "section_no S333 = 3"
| "section_no S444 = 4"
| "section_no S555 = 5"
| "section_no S999 = 6"

record info =
  YY :: int
  GG :: int
  IIiii :: int
  A1BwNb :: int
  Qc :: int
  MMM :: int
  UlaUlo :: int
  h0h0h0h0 :: int
  im :: int
  GGgg :: int
  callSign :: string

definition new_info :: info where
  "new_info = \<lparr>YY = 0, GG = 0, IIiii = 0, A1BwNb = 0, Qc = 0, MMM = 0, UlaUlo = 0, h0h0h0h0 = 0, im = 0, GGgg = 0, callSign = []\<rparr>"

end
