(* ===== verification/Synop.thy ===== *)
theory Synop
  imports Synop_Elements Decode_Codes
begin

text \<open>
  The parser of synoptic reports, \<^verbatim>\<open>src/lib/decoder/synopdecoder/synop.cc\<close>: a state machine that is fed with
  tokens of five characters by the lexer (theory \<open>Synop_Lexer\<close>). A token is the text the lexer matched, with the
  white space behind it. The observed values are a map from parameter numbers to reals. Where the code reads the
  unit of the wind before it has been set, which is undefined in C++, the state is marked by \<open>uninit\<close>.
\<close>

section \<open>State\<close>

record synop =
  element :: int
  grp :: int
  clCounter :: int
  wunit :: "windunit option"
  stype :: synopType
  sect :: synopSection
  tokenType :: synopTokenType
  sjj :: int
  extra333 :: bool
  unrecognised :: string
  raw :: string
  icetext :: string
  icingtext :: string
  syn_obs :: "(int \<times> real) list"
  pinfo :: info
  hshsInMeter :: bool
  uninit :: bool

definition new_synop :: "bool \<Rightarrow> synop" where
  "new_synop inMeter =
     \<lparr>element = 0, grp = -1, clCounter = -1, wunit = None, stype = SYNOP, sect = S000, tokenType = NORMALTOKEN, sjj = 0,
      extra333 = False, unrecognised = [], raw = [], icetext = [], icingtext = [], syn_obs = [], pinfo = new_info,
      hshsInMeter = inMeter, uninit = False\<rparr>"

definition syn_undef :: int where
  "syn_undef = -99999"

definition synop_typeID :: "synop \<Rightarrow> int" where
  "synop_typeID s = (if stype s = SHIP then syn_shipTypeID else syn_kvalobsTypeID)"

definition addError :: "string \<Rightarrow> string \<Rightarrow> synop \<Rightarrow> synop" where
  "addError errType errToken s =
     s\<lparr>unrecognised := (if unrecognised s \<noteq> [] then unrecognised s @ '' | '' else []) @ errType @ errToken\<rparr>"

text \<open>\<^verbatim>\<open>*token\<close>; a string ends with the character 0.\<close>

definition char0 :: "string \<Rightarrow> char" where
  "char0 token = (case token of [] \<Rightarrow> CHR 0x00 | c # _ \<Rightarrow> c)"

definition slash :: "char \<Rightarrow> bool" where
  "slash c \<longleftrightarrow> c = CHR ''/'' \<or> c = CHR ''X'' \<or> c = CHR ''x''"

definition char_digit :: "char \<Rightarrow> int" where
  "char_digit c = (if slash c then syn_undef else schar c - 48)"

definition readToken :: "string \<Rightarrow> nat \<Rightarrow> nat \<Rightarrow> int" where
  "readToken token a b =
     (if b = 0 then
        (if a = 0 then char_digit (char0 token)
         else if length token \<le> a then syn_undef
         else char_digit (token ! a))
      else if length token < b + a then syn_undef
      else let buf = take b (drop a token) in if list_ex slash buf then syn_undef else atoi buf)"

text \<open>\<^verbatim>\<open>static_cast<int>\<close> of a number truncates.\<close>

definition c_trunc :: "real \<Rightarrow> int" where
  "c_trunc x = (if x < 0 then \<lceil>x\<rceil> else \<lfloor>x\<rfloor>)"

section \<open>Setting values\<close>

definition setBuffer :: "int \<Rightarrow> real \<Rightarrow> synop \<Rightarrow> synop" where
  "setBuffer par v s = s\<lparr>syn_obs := smap_put par v (syn_obs s)\<rparr>"

definition hasobs :: "synop \<Rightarrow> int \<Rightarrow> bool" where
  "hasobs s par = (map_of (syn_obs s) par \<noteq> None)"

definition synop_value :: "synop \<Rightarrow> int \<Rightarrow> real option" where
  "synop_value s par = map_of (syn_obs s) par"

definition setToken :: "int \<Rightarrow> string \<Rightarrow> nat \<Rightarrow> nat \<Rightarrow> synop \<Rightarrow> synop" where
  "setToken par token a b = setBuffer par (of_int (readToken token a b))"

definition scale :: "real \<Rightarrow> real \<Rightarrow> real" where
  "scale buf f = (if of_int syn_undef < buf then buf * f else buf)"

definition setScaledToken :: "int \<Rightarrow> string \<Rightarrow> real \<Rightarrow> nat \<Rightarrow> nat \<Rightarrow> synop \<Rightarrow> synop" where
  "setScaledToken par token scl a b = setBuffer par (scale (of_int (readToken token a b)) scl)"

definition setScaledSubstituteToken :: "int \<Rightarrow> string \<Rightarrow> real \<Rightarrow> int \<Rightarrow> int \<Rightarrow> nat \<Rightarrow> nat \<Rightarrow> synop \<Rightarrow> synop" where
  "setScaledSubstituteToken par token scl fsub tosub a b =
     (let v = readToken token a b in setBuffer par (if v = fsub then of_int tosub else scale (of_int v) scl))"

definition setSnowToken :: "int \<Rightarrow> string \<Rightarrow> nat \<Rightarrow> nat \<Rightarrow> synop \<Rightarrow> synop" where
  "setSnowToken par token a b =
     (let ival = readToken token a b;
          v = (if ival = syn_undef then -1 else ival);
          v = (if ival = 997 then 0 else v);
          v = (if ival = 998 then 0 else v);
          v = (if ival = 999 then -3 else v)
      in setBuffer par (of_int v))"

definition setExtraCloudToken :: "int \<Rightarrow> string \<Rightarrow> nat \<Rightarrow> nat \<Rightarrow> synop \<Rightarrow> synop" where
  "setExtraCloudToken par token pos len s =
     (let v = readToken token pos len in if v = syn_undef then s else setBuffer par (of_int v) s)"

definition setExtraCloudHsToken :: "int \<Rightarrow> string \<Rightarrow> nat \<Rightarrow> nat \<Rightarrow> synop \<Rightarrow> synop" where
  "setExtraCloudHsToken par token pos len s =
     (let v = readToken token pos len in
      if v = syn_undef then s
      else if hshsInMeter s then
        (if hsCode2m v = int_max then addError ''Token:  (invalid code)'' token s else setBuffer par (of_int (hsCode2m v)) s)
      else setBuffer par (of_int v) s)"

definition sign_of :: "char \<Rightarrow> signtype \<Rightarrow> int" where
  "sign_of c st =
     (let res = schar c - 48 in
      if st = Sn then (if res \<noteq> 0 then -1 else 1)
      else if res < 2 then (if res \<noteq> 0 then -1 else 1)
      else if st = Sw then (if res = 6 then -1 else 1)
      else (if res mod 2 \<noteq> 0 then -1 else 1))"

definition setTemperature :: "string \<Rightarrow> int \<Rightarrow> signtype \<Rightarrow> synop \<Rightarrow> synop" where
  "setTemperature token par signt =
     (let v = readToken token 1 3;
          tmp = (if syn_undef < v then v * sign_of (char0 token) signt else v)
      in setBuffer par (scale (of_int tmp) 0.1))"

definition setWind :: "int \<Rightarrow> string \<Rightarrow> nat \<Rightarrow> nat \<Rightarrow> synop \<Rightarrow> synop" where
  "setWind par token a b s =
     (case wunit s of
        None \<Rightarrow> s\<lparr>uninit := True\<rparr>
      | Some NOWINDUNIT \<Rightarrow> addError ''windunit: '' token s
      | Some u \<Rightarrow> let tff = of_int (readToken token a b) in setBuffer par (if u = KT then tff * 0.5144 else tff) s)"

definition setPressure :: "string \<Rightarrow> int \<Rightarrow> synop \<Rightarrow> synop" where
  "setPressure token par =
     (let tmp = scale (of_int (readToken token 0 4)) 0.1 in setBuffer par (if tmp < 500 then tmp + 1000 else tmp))"

text \<open>The parameter of an interval of precipitation; other intervals have the number 0.\<close>

definition precipitation_par :: "int \<Rightarrow> int" where
  "precipitation_par tr' =
     (if tr' = 1 then 108 else if tr' = 2 then 109 else if tr' = 3 then 109 else if tr' = 4 then 110 else if tr' = 5 then 106
      else if tr' = 6 then 106 else if tr' = 7 then 107 else if tr' = 8 then 108 else if tr' = 9 then 109 else 0)"

definition setPrecipitation :: "string \<Rightarrow> synop \<Rightarrow> synop" where
  "setPrecipitation token s =
     (let tr' = readToken token 4 0;
          s = setBuffer syn_tr (of_int tr') s;
          RRR = real_of_int (readToken token 1 3);
          RRR = (case synop_value s syn_ir of Some v \<Rightarrow> if c_trunc v = 3 then -1 else RRR | None \<Rightarrow> RRR);
          RRR = (if c_trunc RRR = 0 then -1 else RRR);
          RRR = (if 990 \<le> RRR then scale (RRR - 990) 0.1 else RRR)
      in setBuffer (precipitation_par tr') RRR s)"

definition addPrecipitation :: "int \<Rightarrow> real \<Rightarrow> synop \<Rightarrow> synop" where
  "addPrecipitation par fRt s =
     (case synop_value s par of
        None \<Rightarrow> s
      | Some newRRR \<Rightarrow> if newRRR < 0 then s else if newRRR + fRt < 0 then s else setBuffer par (newRRR + fRt) s)"

definition setPrecipitationRt :: "string \<Rightarrow> synop \<Rightarrow> synop" where
  "setPrecipitationRt token s =
     (let fRt = scale (of_int (readToken token 1 0)) 0.1;
          s = setBuffer syn_Rt fRt s;
          fRt = (if 0.4 < fRt then fRt - 1 else fRt)
      in addPrecipitation 110 fRt (addPrecipitation 109 fRt (addPrecipitation 108 fRt (addPrecipitation 107 fRt
           (addPrecipitation 106 fRt s)))))"

definition visibility_of_code :: "int \<Rightarrow> int" where
  "visibility_of_code ivv =
     (if ivv \<le> 50 then ivv * 100
      else if ivv > 50 \<and> ivv \<le> 55 then syn_undef
      else if ivv > 55 \<and> ivv \<le> 80 then (ivv - 50) * 1000
      else if ivv > 80 \<and> ivv < 90 then (ivv - 74) * 5000
      else if ivv = 90 then 0 else if ivv = 91 then 50 else if ivv = 92 then 200 else if ivv = 93 then 500
      else if ivv = 94 then 1000 else if ivv = 95 then 2000 else if ivv = 96 then 4000 else if ivv = 97 then 10000
      else if ivv = 98 then 20000 else if ivv = 99 then 50000 else syn_undef)"

definition setHorizontalVisibillity :: "string \<Rightarrow> synop \<Rightarrow> synop" where
  "setHorizontalVisibillity token = setBuffer syn_VV (of_int (visibility_of_code (readToken token 3 2)))"

definition setCloudBaseHeight :: "string \<Rightarrow> synop \<Rightarrow> synop" where
  "setCloudBaseHeight token =
     (let ih = readToken token 2 0 in
      setBuffer syn_h
        (if ih = 0 then 0 else if ih = 1 then 50 else if ih = 2 then 100 else if ih = 3 then 200 else if ih = 4 then 300
         else if ih = 5 then 600 else if ih = 6 then 1000 else if ih = 7 then 1500 else if ih = 8 then 2000
         else if ih = 9 then 2500 else -3))"

section \<open>Derived values\<close>

definition svp :: "real \<Rightarrow> real" where
  "svp tt = (if tt > 0 then 6.10780 * exp (17.08085 * tt / (243.175 + tt)) else 6.10780 * exp (17.84363 * tt / (245.425 + tt)))"

text \<open>\<^verbatim>\<open>rint\<close>: to the nearest integer, halfway cases to the even one.\<close>

definition c_rint :: "real \<Rightarrow> int" where
  "c_rint x = (let i = \<lfloor>x\<rfloor>; d = x - of_int i in if d < 1 / 2 then i else if d > 1 / 2 then i + 1 else if even i then i else i + 1)"

definition computeUUU :: "synop \<Rightarrow> synop" where
  "computeUUU s =
     (case (synop_value s syn_TTT, synop_value s syn_TdTdTd) of
        (Some tt, Some td) \<Rightarrow>
          let uu = c_rint (100 * svp td / svp tt) in setBuffer syn_UUU (if uu > 100 then 100 else of_int uu) s
      | _ \<Rightarrow> s)"

definition setSnowCoverBySoilCondition :: "synop \<Rightarrow> synop" where
  "setSnowCoverBySoilCondition s =
     (case synop_value s syn_E' of
        None \<Rightarrow> s
      | Some v \<Rightarrow>
          let EM = c_trunc v in
          if EM = 0 then setBuffer syn_SD 0 s
          else if EM = 1 \<or> EM = 5 then setBuffer syn_SD 1 s
          else if EM = 2 \<or> EM = 6 then setBuffer syn_SD 3 s
          else if EM = 3 \<or> EM = 4 \<or> EM = 7 \<or> EM = 8 \<or> EM = 9 then setBuffer syn_SD 4 s
          else s)"

text \<open>The sign of the position; \<^verbatim>\<open>obs[par] *= -1\<close> on a value that is there.\<close>

definition negate_obs :: "int \<Rightarrow> synop \<Rightarrow> synop" where
  "negate_obs par s = (case synop_value s par of None \<Rightarrow> s | Some v \<Rightarrow> setBuffer par (v * (-1)) s)"

definition squareDetection :: "synop \<Rightarrow> synop" where
  "squareDetection s =
     (let s = (if Qc (pinfo s) > 4 then negate_obs syn_LoLoLoLo s else s)
      in if Qc (pinfo s) = 5 \<or> Qc (pinfo s) = 3 then negate_obs syn_LaLaLa s else s)"

definition in_range :: "string \<Rightarrow> string \<Rightarrow> string \<Rightarrow> bool" where
  "in_range lo hi cs \<longleftrightarrow> lo \<le> cs \<and> cs \<le> hi"

definition checkCountry :: "synop \<Rightarrow> int" where
  "checkCountry s =
     (let II = c_div (IIiii (pinfo s)) 1000 in
      if II \<noteq> 0 then II
      else if 3 \<le> length (callSign (pinfo s)) then
        (let cs = take 3 (callSign (pinfo s)) in
         if in_range ''JWA'' ''JXZ'' cs \<or> in_range ''LAA'' ''LNZ'' cs \<or> in_range ''3YA'' ''3YZ'' cs then 1 else 0)
      else 0)"

definition norway :: int where
  "norway = 1"

definition checkOrder :: "string \<Rightarrow> synop \<Rightarrow> synop" where
  "checkOrder token s =
     (let g = readToken token 0 0;
          s = (if g < grp s then addError ''Order: '' token s else s);
          s = (if g = grp s then
                 (if sect s = S333 then
                    (if grp s \<noteq> 5 \<and> grp s \<noteq> 8 \<and> grp s \<noteq> 9 then addError ''Double: '' token s else s)
                  else addError ''Double: '' token s)
               else s)
      in s\<lparr>grp := g\<rparr>)"

section \<open>Section 0\<close>

definition upd_info :: "(info \<Rightarrow> info) \<Rightarrow> synop \<Rightarrow> synop" where
  "upd_info f s = s\<lparr>pinfo := f (pinfo s)\<rparr>"

definition setYYGGiw :: "string \<Rightarrow> synop \<Rightarrow> synop" where
  "setYYGGiw token s =
     (let iw = readToken token 4 0 in
      (upd_info (\<lambda>i. i\<lparr>YY := readToken token 0 2, GG := readToken token 2 2\<rparr>) s)
        \<lparr>wunit := Some (if iw < 0 \<or> iw > 4 then NOWINDUNIT else if iw < 3 then MS else KT)\<rparr>)"

definition code2mps :: "int list" where
  "code2mps = [0, 1, 4, 7, 9, 12, 14, 17, 20, 22]"

definition setShipDirectionAndVelocity :: "string \<Rightarrow> synop \<Rightarrow> synop" where
  "setShipDirectionAndVelocity token s =
     (if stype s = SHIP then
        (let s = setToken syn_ds token 3 0 s; iVs = readToken token 4 0
         in if 0 \<le> iVs \<and> iVs < 10 then setBuffer syn_vs (of_int (code2mps ! nat iVs)) s else s)
      else s)"

text \<open>\<^verbatim>\<open>fetchSection\<close> behind its tests for the section 2; \<open>sec\<close> is the first digit of the token.\<close>

definition enter_section :: "string \<Rightarrow> synop \<Rightarrow> synop" where
  "enter_section token s =
     (let sec = readToken token 0 0; old = sect s;
          s = (if sec > 1 then s\<lparr>raw := raw s @ token\<rparr> else s);
          s = s\<lparr>element := 0, grp := -1\<rparr>;
          s = (if sec = 1 then s\<lparr>sect := S111\<rparr>
               else if sec = 2 then setShipDirectionAndVelocity token (s\<lparr>sect := S222\<rparr>)
               else if sec = 3 then s\<lparr>sect := S333\<rparr>
               else if sec = 4 then s\<lparr>sect := S444\<rparr>
               else if sec = 5 then s\<lparr>sect := S555\<rparr>
               else if sec = 9 then s\<lparr>sect := S999\<rparr>
               else s)
      in if section_no (sect s) < section_no old then addError ''Order: '' token s else s)"

definition sortSynop000Token :: "string \<Rightarrow> synop \<Rightarrow> synop" where
  "sortSynop000Token token s =
     (if element s = 1 then setYYGGiw token s
      else if element s = 2 then enter_section ''111'' (upd_info (\<lambda>i. i\<lparr>IIiii := readToken token 0 5\<rparr>) s)
      else s)"

definition sortShipMobil000Token :: "string \<Rightarrow> synop \<Rightarrow> synop" where
  "sortShipMobil000Token token s =
     (if element s = 1 then upd_info (\<lambda>i. i\<lparr>A1BwNb := readToken token 0 5\<rparr>) s
      else if element s = 2 then setYYGGiw token s
      else if element s = 3 then setScaledToken syn_LaLaLa token 0.1 2 3 s
      else if element s = 4 then
        (let s = upd_info (\<lambda>i. i\<lparr>Qc := readToken token 0 0\<rparr>) s;
             s = squareDetection (setScaledToken syn_LoLoLoLo token 0.1 1 4 s)
         in if stype s = SHIP then enter_section ''111'' s else s)
      else if element s = 5 then upd_info (\<lambda>i. i\<lparr>MMM := readToken token 0 3, UlaUlo := readToken token 3 2\<rparr>) s
      else if element s = 6 then
        enter_section ''111'' (upd_info (\<lambda>i. i\<lparr>h0h0h0h0 := readToken token 0 4, im := readToken token 4 0\<rparr>) s)
      else s)"

definition sort000Token :: "string \<Rightarrow> synop \<Rightarrow> synop" where
  "sort000Token token s = (if stype s = SYNOP then sortSynop000Token token s else sortShipMobil000Token token s)"

section \<open>Section 1\<close>

text \<open>The groups behind the first two, by their first digit (\<open>grp\<close>).\<close>

definition sort111_group :: "string \<Rightarrow> synop \<Rightarrow> synop" where
  "sort111_group token s =
     (let token1 = drop 1 token; g = grp s in
      if g = 0 then setWind syn_ff token 2 3 s
      else if g = 1 then setTemperature token1 syn_TTT Sn s
      else if g = 2 then
        (if char0 token1 \<noteq> CHR ''9'' then computeUUU (setTemperature token1 syn_TdTdTd Sn s) else setToken syn_UUU token 2 3 s)
      else if g = 3 then setPressure token1 syn_P0P0P0P0 s
      else if g = 4 then
        (let tst = readToken token1 0 0 in
         if tst = 0 \<or> tst = 9 then setPressure token1 syn_PPPP s
         else setToken syn_hhh token 2 3 (setToken syn_a3 token 1 0 s))
      else if g = 5 then setScaledToken syn_ppp token 0.1 2 3 (setToken syn_a token1 0 0 s)
      else if g = 6 then setPrecipitation token s
      else if g = 7 then
        (if (case synop_value s syn_ix of None \<Rightarrow> False | Some v \<Rightarrow> c_trunc v = 7)
         then setToken syn_Wa2 token 4 0 (setToken syn_Wa1 token 3 0 (setToken syn_wawa token 1 2 s))
         else setToken syn_W2 token 4 0 (setToken syn_W1 token 3 0 (setToken syn_ww token 1 2 s)))
      else if g = 8 then
        setToken syn_Ch token 4 0 (setToken syn_Cm token 3 0 (setToken syn_Cl token 2 0 (setToken syn_Nh token 1 0 s)))
      else if g = 9 then upd_info (\<lambda>i. i\<lparr>GGgg := readToken token 1 4\<rparr>) s
      else if g = syn_undef then addError ''Slash: '' token s
      else s)"

definition sort111Token :: "string \<Rightarrow> synop \<Rightarrow> synop" where
  "sort111Token token s =
     (if element s > 2 then sort111_group token (checkOrder token s)
      else if element s = 1 then
        setHorizontalVisibillity token (setCloudBaseHeight token (setToken syn_ix token 1 0 (setToken syn_ir token 0 0 s)))
      else if element s = 2 then
        setWind syn_ff token 3 2 (setScaledSubstituteToken syn_dd token 10 99 (-3) 1 2 (setToken syn_N token 0 0 s))
      else s)"

section \<open>Section 2\<close>

definition sort222_group :: "string \<Rightarrow> synop \<Rightarrow> synop" where
  "sort222_group token s =
     (let token1 = drop 1 token; g = grp s in
      if g = 0 then setTemperature token1 syn_TwTwTw Ss s
      else if g = 1 then setScaledToken syn_HwaHwa token 0.5 3 2 (setToken syn_PwaPwa token 1 2 s)
      else if g = 2 then setScaledToken syn_HwHw token 0.5 3 2 (setToken syn_PwPw token 1 2 s)
      else if g = 3 then setScaledToken syn_dw2dw2 token 10 3 2 (setScaledToken syn_dw1dw1 token 10 1 2 s)
      else if g = 4 then setScaledToken syn_Hw1Hw1 token 0.5 3 2 (setToken syn_Pw1Pw1 token 1 2 s)
      else if g = 5 then setScaledToken syn_Hw2Hw2 token 0.5 3 2 (setToken syn_Pw2Pw2 token 1 2 s)
      else if g = 6 then
        setToken syn_Rs (drop 4 token) 0 0 (setToken syn_EsEs token 2 2 (setToken syn_Is token1 0 0 s))
      else if g = 7 then setScaledToken syn_HwaHwaHwa token 0.1 2 3 s
      else if g = 8 then setTemperature token1 syn_TbTbTb Sw s
      else s)"

definition sort222Token :: "string \<Rightarrow> synop \<Rightarrow> synop" where
  "sort222Token token s = sort222_group token (checkOrder token s)"

section \<open>Section 3\<close>

definition setSupplementaryJJ :: "string \<Rightarrow> synop \<Rightarrow> synop" where
  "setSupplementaryJJ token s =
     (let j0 = readToken token 0 0; j1 = readToken (drop 1 token) 0 0; j2 = readToken (drop 2 token) 0 0;
          j234 = readToken token 2 3 in
      if sjj s = 0 then
        (if j1 < 3 then setToken syn_ie token 4 1 (setToken syn_EEE token 1 3 s)
         else if j1 = 5 then (if j2 < 3 then setToken syn_SSS token 2 3 s else s)\<lparr>sjj := j234\<rparr>
         else s)
      else
        (let s = (if sjj s = 507 then setToken syn_FF24 token 0 5 s else s)
         in s\<lparr>sjj := (if j0 > 5 then 0 else 1)\<rparr>))"

definition setSupplementarySP :: "string \<Rightarrow> synop \<Rightarrow> synop" where
  "setSupplementarySP token s = (if readToken token 0 2 = 11 then setWind syn_ff_911 token 2 2 s else s)"

definition setExtraClouds :: "string \<Rightarrow> synop \<Rightarrow> synop" where
  "setExtraClouds token s =
     (let n = clCounter s; s = s\<lparr>clCounter := n + 1\<rparr> in
      if n > 3 then addError ''Clouds'' token s
      else
        setExtraCloudHsToken (syn_hshs1 + (n + 1)) token 3 2
          (setExtraCloudToken (syn_C1 + (n + 1)) token 2 0 (setExtraCloudToken (syn_Ns1 + (n + 1)) token 1 0 s)))"

definition sort333_group :: "string \<Rightarrow> synop \<Rightarrow> synop" where
  "sort333_group token s =
     (let token1 = drop 1 token; g = grp s in
      if g = 1 then setTemperature token1 syn_TxTxTx Sn s
      else if g = 2 then setTemperature token1 syn_TnTnTn Sn s
      else if g = 3 then
        (let s = setToken syn_jjj token 2 3 (setToken syn_E token 1 0 s) in
         case synop_value s syn_E of
           None \<Rightarrow> s
         | Some v \<Rightarrow> if 0 \<le> c_trunc v \<and> c_trunc v \<le> 9 then setBuffer syn_sss (-1) s else s)
      else if g = 4 then setSnowCoverBySoilCondition (setSnowToken syn_sss token 2 3 (setToken syn_E' token 1 0 s))
      else if g = 5 then setSupplementaryJJ token s
      else if g = 6 then (if hasobs s syn_tr then s else setPrecipitation token s)
      else if g = 7 then
        (let tmp = readToken token 1 4 in
         if tmp = 9999 then setBuffer syn_RR24 0 s
         else if tmp = 0 then setBuffer syn_RR24 (-1) s
         else setScaledToken syn_RR24 token 0.1 1 4 s)
      else if g = 8 then (if readToken token 1 4 = 0 then s\<lparr>extra333 := True\<rparr> else setExtraClouds token s)
      else if g = 9 then setSupplementarySP token1 s
      else s)"

definition sort333Token :: "string \<Rightarrow> synop \<Rightarrow> synop" where
  "sort333Token token s =
     (if extra333 s then s
      else if sjj s \<noteq> 0 then setSupplementaryJJ token s
      else sort333_group token (checkOrder token s))"

section \<open>Sections 4 and 5\<close>

definition sort444Token :: "string \<Rightarrow> synop \<Rightarrow> synop" where
  "sort444Token token s =
     setToken syn_Ct token 4 0 (setToken syn_H'H' token 2 2 (setToken syn_C' token 1 0 (setToken syn_N' token 0 0 s)))"

definition sort555_group :: "string \<Rightarrow> synop \<Rightarrow> synop" where
  "sort555_group token s =
     (let token1 = drop 1 token; g = grp s in
      if g = 0 then setWind syn_fxfx token 3 2 (setToken syn_tz token 2 0 (setToken syn_S token 1 0 s))
      else if g = 1 then setTemperature token1 syn_Tx'Tx' Sn s
      else if g = 2 then setTemperature token1 syn_Tn'Tn' Sn s
      else if g = 3 then setTemperature token1 syn_TgTgTg Sn s
      else if g = 4 then
        setToken syn_X3wd token 4 0 (setToken syn_X2wd token 3 0 (setToken syn_X1wd token 2 0 (setPrecipitationRt token s)))
      else addError ''Unknown: '' token s)"

definition sort555Token :: "string \<Rightarrow> synop \<Rightarrow> synop" where
  "sort555Token token s = (if checkCountry s \<noteq> norway then s else sort555_group token (checkOrder token s))"

section \<open>Tokens\<close>

definition sort_by_section :: "string \<Rightarrow> synop \<Rightarrow> synop" where
  "sort_by_section token s =
     (case sect s of
        S000 \<Rightarrow> sort000Token token s | S111 \<Rightarrow> sort111Token token s | S222 \<Rightarrow> sort222Token token s
      | S333 \<Rightarrow> sort333Token token s | S444 \<Rightarrow> sort444Token token s | S555 \<Rightarrow> sort555Token token s | S999 \<Rightarrow> s)"

definition sortToken :: "string \<Rightarrow> bool \<Rightarrow> synop \<Rightarrow> synop" where
  "sortToken token trash s =
     (let s = s\<lparr>raw := raw s @ token\<rparr> in
      if trash then (if sect s = S111 then s\<lparr>element := element s + 1\<rparr> else s)
      else
        let s = s\<lparr>element := element s + 1, tokenType := NORMALTOKEN\<rparr> in
        if sect s = S999 then s
        else if readToken token 0 0 = syn_undef \<and> sect s \<noteq> S111 then addError ''Slash: '' token s
        else sort_by_section token s)"

definition fetchSection :: "string \<Rightarrow> synop \<Rightarrow> synop" where
  "fetchSection token s =
     (let s = s\<lparr>tokenType := NORMALTOKEN\<rparr> in
      if readToken token 0 0 = 2 \<and> (sect s = S000 \<or> sect s = S111 \<and> element s < 2) then sortToken token False s
      else enter_section token s)"

definition setType :: "string \<Rightarrow> synop \<Rightarrow> synop" where
  "setType token s =
     s\<lparr>tokenType := NORMALTOKEN, raw := raw s @ token,
       stype := (if char0 token = CHR ''A'' then SYNOP else if char0 token = CHR ''B'' then SHIP else MOBIL),
       sect := S000, element := 0\<rparr>"

definition toupper :: "char \<Rightarrow> char" where
  "toupper c = (if (97::nat) \<le> of_char c \<and> of_char c \<le> (122::nat) then char_of (of_char c - (32::nat)) else c)"

definition setText :: "string \<Rightarrow> synop \<Rightarrow> synop" where
  "setText token s =
     (let s = s\<lparr>raw := raw s @ token @ '' ''\<rparr> in
      if sect s = S555 \<and> checkCountry s \<noteq> norway then s
      else if tokenType s = ICETEXTTOKEN then s\<lparr>icetext := icetext s @ '' '' @ token\<rparr>
      else if tokenType s = ICINGTEXTTOKEN then s\<lparr>icingtext := icingtext s @ '' '' @ token\<rparr>
      else if sect s = S000 \<and> element s = 0 \<and> stype s \<noteq> SYNOP then
        (let s = upd_info (\<lambda>i. i\<lparr>callSign := map toupper token\<rparr>) (s\<lparr>element := element s + 1\<rparr>)
         in if length token > 9 \<or> length token < 3 then addError ''Call: '' token s else s)
      else addError ''Token: '' token s)"

definition setIceToken :: "string \<Rightarrow> synop \<Rightarrow> synop" where
  "setIceToken token s =
     (let s = s\<lparr>raw := raw s @ token, tokenType := NORMALTOKEN\<rparr> in
      setToken syn_Zi (drop 4 token) 0 0 (setToken syn_Di (drop 3 token) 0 0 (setToken syn_Bi (drop 2 token) 0 0
        (setToken syn_Si (drop 1 token) 0 0 (setToken syn_Ci token 0 0 s)))))"

definition setIceText :: "synopTokenType \<Rightarrow> string \<Rightarrow> synop \<Rightarrow> synop" where
  "setIceText stt token s =
     (let s = s\<lparr>raw := raw s @ token, tokenType := stt\<rparr> in
      if stt = ICETEXTTOKEN then s\<lparr>icetext := token\<rparr> else s\<lparr>icingtext := token\<rparr>)"

text \<open>The calls of the lexer.\<close>

datatype lex_action = Trash string | Section string | Token string | Type string | Text string | IceToken string
  | IceText string | IcingText string

primrec run_action :: "lex_action \<Rightarrow> synop \<Rightarrow> synop" where
  "run_action (Trash token) = sortToken token True"
| "run_action (Section token) = fetchSection token"
| "run_action (Token token) = sortToken token False"
| "run_action (Type token) = setType token"
| "run_action (Text token) = setText token"
| "run_action (IceToken token) = setIceToken token"
| "run_action (IceText token) = setIceText ICETEXTTOKEN token"
| "run_action (IcingText token) = setIceText ICINGTEXTTOKEN token"

end
