(* ===== verification/Synop_Props.thy ===== *)
theory Synop_Props
  imports Synop
begin

text \<open>
  Properties of the parser of synoptic reports (theory \<open>Synop\<close>). A relation collects what the operations that
  store values have in common: they add entries for known parameters and errors, and leave the position in the
  report alone. From it follow the invariants of every report.
\<close>

section \<open>What storing changes\<close>

text \<open>The numbers of the header, of precipitation, and those that only a fifth group of clouds uses.\<close>

definition syn_params :: "int list" where
  "syn_params = [0, 1, 2, 4, 6, 7, 9, 10, 11, 12, 13, 14, 15, 17, 18, 19, 20, 21, 22, 23, 24, 25, 26, 27, 28, 41, 42, 43, 44, 45,
     46, 47, 48, 49, 55, 61, 65, 66, 81, 83, 86, 101, 103, 106, 107, 108, 109, 110, 112, 122, 129, 131, 132, 133, 134, 151, 152,
     153, 154, 173, 177, 178, 211, 214, 216, 217, 224, 242, 262, 273, 301, 302, 303, 304, 305, 306, 307, 308, 401, 402, 403, 404]"

definition known_param :: "int \<Rightarrow> bool" where
  "known_param p \<longleftrightarrow> p \<in> set syn_params \<or> p = 29 \<or> p = 309"

lemma known_clouds: "-1 \<le> n \<Longrightarrow> n \<le> 3 \<Longrightarrow> known_param (25 + (n + 1)) \<and> known_param (305 + (n + 1)) \<and> known_param (301 + (n + 1))"
proof -
  assume "-1 \<le> n" "n \<le> 3"
  then consider "n = -1" | "n = 0" | "n = 1" | "n = 2" | "n = 3" by linarith
  then show ?thesis by cases (simp_all add: known_param_def syn_params_def)
qed

inductive store_step :: "synop \<Rightarrow> synop \<Rightarrow> bool" where
  start: "store_step s s"
| store: "store_step s s' \<Longrightarrow> known_param par \<Longrightarrow> store_step s (setBuffer par v s')"
| error: "store_step s s' \<Longrightarrow> e \<noteq> [] \<Longrightarrow> store_step s (addError e t s')"
| control: "store_step s s' \<Longrightarrow> clCounter s' \<le> clCounter s'' \<Longrightarrow> raw s'' = raw s' \<Longrightarrow> element s'' = element s' \<Longrightarrow> grp s'' = grp s' \<Longrightarrow>
    sect s'' = sect s' \<Longrightarrow> stype s'' = stype s' \<Longrightarrow> unrecognised s'' = unrecognised s' \<Longrightarrow> syn_obs s'' = syn_obs s' \<Longrightarrow> store_step s s''"

lemma setBuffer_simps [simp]:
  "raw (setBuffer par v s) = raw s" "element (setBuffer par v s) = element s" "grp (setBuffer par v s) = grp s"
  "sect (setBuffer par v s) = sect s" "stype (setBuffer par v s) = stype s" "clCounter (setBuffer par v s) = clCounter s"
  "unrecognised (setBuffer par v s) = unrecognised s" "syn_obs (setBuffer par v s) = smap_put par v (syn_obs s)"
  "wunit (setBuffer par v s) = wunit s" "sjj (setBuffer par v s) = sjj s" "extra333 (setBuffer par v s) = extra333 s"
  "pinfo (setBuffer par v s) = pinfo s" "uninit (setBuffer par v s) = uninit s" "tokenType (setBuffer par v s) = tokenType s"
  "hshsInMeter (setBuffer par v s) = hshsInMeter s"
  by (simp_all add: setBuffer_def)

lemma addError_simps [simp]:
  "raw (addError e t s) = raw s" "element (addError e t s) = element s" "grp (addError e t s) = grp s"
  "sect (addError e t s) = sect s" "stype (addError e t s) = stype s" "clCounter (addError e t s) = clCounter s"
  "syn_obs (addError e t s) = syn_obs s" "pinfo (addError e t s) = pinfo s" "tokenType (addError e t s) = tokenType s"
  "wunit (addError e t s) = wunit s" "e \<noteq> [] \<Longrightarrow> unrecognised (addError e t s) \<noteq> []"
  "sjj (addError e t s) = sjj s" "extra333 (addError e t s) = extra333 s"
  by (simp_all add: addError_def)

lemma store_step_frame:
  assumes "store_step s s'"
  shows "raw s' = raw s" "element s' = element s" "grp s' = grp s" "sect s' = sect s" "stype s' = stype s"
    "clCounter s \<le> clCounter s'" "unrecognised s \<noteq> [] \<Longrightarrow> unrecognised s' \<noteq> []"
    "smap_ok (syn_obs s) \<Longrightarrow> smap_ok (syn_obs s')"
    "\<forall>k\<in>fst ` set (syn_obs s). known_param k \<Longrightarrow> \<forall>k\<in>fst ` set (syn_obs s'). known_param k"
  using assms by (induction rule: store_step.induct) auto

lemma store_control:
  assumes "store_step s s'"
  shows "store_step s (s'\<lparr>uninit := b\<rparr>)" "store_step s (s'\<lparr>sjj := j\<rparr>)" "store_step s (s'\<lparr>extra333 := x\<rparr>)"
    "store_step s (s'\<lparr>wunit := w\<rparr>)" "store_step s (upd_info f s')" "clCounter s' \<le> c \<Longrightarrow> store_step s (s'\<lparr>clCounter := c\<rparr>)"
  by (rule store_step.control [OF assms], simp_all add: upd_info_def)+

lemmas store_intros = store_step.start store_step.store store_step.error store_control(1-5)

section \<open>The operations\<close>

lemma store_tokens:
  assumes "store_step s s'"
  shows "known_param par \<Longrightarrow> store_step s (setToken par t a b s')"
    "known_param par \<Longrightarrow> store_step s (setScaledToken par t f a b s')"
    "known_param par \<Longrightarrow> store_step s (setScaledSubstituteToken par t f x y a b s')"
    "known_param par \<Longrightarrow> store_step s (setSnowToken par t a b s')"
    "known_param par \<Longrightarrow> store_step s (setExtraCloudToken par t a b s')"
    "known_param par \<Longrightarrow> store_step s (setExtraCloudHsToken par t a b s')"
    "known_param par \<Longrightarrow> store_step s (setTemperature t par st s')"
    "known_param par \<Longrightarrow> store_step s (setWind par t a b s')"
    "known_param par \<Longrightarrow> store_step s (setPressure t par s')"
    "known_param par \<Longrightarrow> store_step s (addPrecipitation par r s')"
    "known_param par \<Longrightarrow> store_step s (negate_obs par s')"
  using assms
  by (auto simp: setToken_def setScaledToken_def setScaledSubstituteToken_def setSnowToken_def setExtraCloudToken_def
      setExtraCloudHsToken_def setTemperature_def setWind_def setPressure_def addPrecipitation_def negate_obs_def Let_def
      intro!: store_intros split: option.split windunit.split)

lemma known_numbers [simp]:
  "known_param 0" "known_param 1" "known_param 2" "known_param 4" "known_param 6" "known_param 7" "known_param 9" "known_param 10"
  "known_param 11" "known_param 12" "known_param 13" "known_param 14" "known_param 15" "known_param 17" "known_param 18"
  "known_param 19" "known_param 20" "known_param 21" "known_param 22" "known_param 23" "known_param 24" "known_param 41"
  "known_param 42" "known_param 43" "known_param 44" "known_param 45" "known_param 46" "known_param 47" "known_param 48"
  "known_param 49" "known_param 55" "known_param 61" "known_param 65" "known_param 66" "known_param 81" "known_param 83"
  "known_param 86" "known_param 101" "known_param 103" "known_param 106" "known_param 107" "known_param 108" "known_param 109"
  "known_param 110" "known_param 112" "known_param 122" "known_param 129" "known_param 131" "known_param 132" "known_param 133"
  "known_param 134" "known_param 151" "known_param 152" "known_param 153" "known_param 154" "known_param 173" "known_param 177"
  "known_param 178" "known_param 211" "known_param 214" "known_param 216" "known_param 217" "known_param 224" "known_param 242"
  "known_param 262" "known_param 273" "known_param 401" "known_param 402" "known_param 403" "known_param 404"
  by (simp_all add: known_param_def syn_params_def)

lemma store_precipitation: "store_step s s' \<Longrightarrow> store_step s (setPrecipitation t s')"
  unfolding setPrecipitation_def Let_def
  by (intro store_step.store) (auto simp: precipitation_par_def)

lemma store_precipitationRt: "store_step s s' \<Longrightarrow> store_step s (setPrecipitationRt t s')"
  unfolding setPrecipitationRt_def Let_def by (intro store_tokens store_step.store) auto

lemma store_derived:
  assumes "store_step s s'"
  shows "store_step s (computeUUU s')" "store_step s (setSnowCoverBySoilCondition s')" "store_step s (squareDetection s')"
    "store_step s (setHorizontalVisibillity t s')" "store_step s (setCloudBaseHeight t s')"
    "store_step s (setShipDirectionAndVelocity t s')" "store_step s (setYYGGiw t s')" "store_step s (setSupplementaryJJ t s')"
    "store_step s (setSupplementarySP t s')"
  using assms
  by (auto simp: computeUUU_def setSnowCoverBySoilCondition_def squareDetection_def setHorizontalVisibillity_def setCloudBaseHeight_def
      setShipDirectionAndVelocity_def setYYGGiw_def setSupplementaryJJ_def setSupplementarySP_def Let_def
      intro!: store_intros store_tokens split: option.split)

lemmas store_all = store_intros store_tokens store_precipitation store_precipitationRt store_derived

lemma store_groups:
  shows "store_step s (sort111_group t s)" and "store_step s (sort222_group t s)" and "store_step s (sort444Token t s)"
    and "store_step s (sort555_group t s)"
  by (simp_all add: sort111_group_def sort222_group_def sort444Token_def sort555_group_def Let_def store_all split: option.split)

lemma store_clouds:
  assumes "-1 \<le> clCounter s"
  shows "store_step s (setExtraClouds t s)"
proof (cases "clCounter s > 3")
  case True
  then show ?thesis by (auto simp: setExtraClouds_def Let_def intro!: store_step.error store_control(6) store_step.start)
next
  case False
  then have k: "known_param (25 + (clCounter s + 1))" "known_param (305 + (clCounter s + 1))" "known_param (301 + (clCounter s + 1))"
    using known_clouds [of "clCounter s"] assms by auto
  have "store_step s (s\<lparr>clCounter := clCounter s + 1\<rparr>)" by (intro store_control(6) store_step.start) simp
  with False k show ?thesis
    unfolding setExtraClouds_def Let_def syn_Ns1_def syn_C1_def syn_hshs1_def by (auto intro!: store_tokens)
qed

lemma store_group333: "-1 \<le> clCounter s \<Longrightarrow> store_step s (sort333_group t s)"
  by (simp add: sort333_group_def Let_def store_all store_clouds split: option.split)

section \<open>Tokens\<close>

definition report_ok :: "synop \<Rightarrow> bool" where
  "report_ok s \<longleftrightarrow> smap_ok (syn_obs s) \<and> (\<forall>k\<in>fst ` set (syn_obs s). known_param k) \<and> -1 \<le> clCounter s"

definition keeps :: "string \<Rightarrow> synop \<Rightarrow> synop \<Rightarrow> bool" where
  "keeps t s s' \<longleftrightarrow> raw s' = raw s @ t \<and> (unrecognised s \<noteq> [] \<longrightarrow> unrecognised s' \<noteq> []) \<and> report_ok s'"

lemma keeps_refl: "report_ok s \<Longrightarrow> keeps [] s s"
  by (simp add: keeps_def)

lemma keeps_trans: "keeps t s s' \<Longrightarrow> keeps u s' s'' \<Longrightarrow> keeps (t @ u) s s''"
  by (simp add: keeps_def)

lemma store_keeps:
  assumes "report_ok s" "store_step s s'"
  shows "keeps [] s s'"
proof -
  note f = store_step_frame [OF assms(2)]
  have ok: "smap_ok (syn_obs s)" "\<forall>k\<in>fst ` set (syn_obs s). known_param k" "-1 \<le> clCounter s"
    using assms(1) unfolding report_ok_def by blast+
  have "report_ok s'"
    unfolding report_ok_def using f(8) [OF ok(1)] f(9) [OF ok(2)] order_trans [OF ok(3) f(6)] by (intro conjI)
  with f(1,7) show ?thesis by (simp only: keeps_def) simp
qed

lemma keeps_store: "keeps t s s' \<Longrightarrow> store_step s' s'' \<Longrightarrow> keeps t s s''"
  using keeps_trans [of t s s' "[]" s''] store_keeps [of s' s''] by (simp add: keeps_def)

lemma checkOrder_frame:
  "raw (checkOrder t s) = raw s" "element (checkOrder t s) = element s" "sect (checkOrder t s) = sect s" "grp (checkOrder t s) = readToken t 0 0"
  "syn_obs (checkOrder t s) = syn_obs s" "clCounter (checkOrder t s) = clCounter s" "stype (checkOrder t s) = stype s"
  "unrecognised s \<noteq> [] \<Longrightarrow> unrecognised (checkOrder t s) \<noteq> []"
  by (simp_all add: checkOrder_def Let_def)

lemma checkOrder_accepts:
  "unrecognised (checkOrder t s) = [] \<Longrightarrow> unrecognised s = [] \<and> (grp s < readToken t 0 0
     \<or> sect s = S333 \<and> grp s = readToken t 0 0 \<and> (grp s = 5 \<or> grp s = 8 \<or> grp s = 9))"
  by (auto simp: checkOrder_def Let_def addError_def split: if_splits)

lemma keeps_checkOrder: "report_ok s \<Longrightarrow> keeps [] s (checkOrder t s)"
  by (simp add: keeps_def report_ok_def checkOrder_frame)

lemma store_sorted:
  shows "-1 \<le> clCounter s \<Longrightarrow> report_ok s \<Longrightarrow> keeps [] s (sort111Token t s)"
    and "report_ok s \<Longrightarrow> keeps [] s (sort222Token t s)"
    and "report_ok s \<Longrightarrow> keeps [] s (sort333Token t s)"
    and "report_ok s \<Longrightarrow> keeps [] s (sort444Token t s)"
    and "report_ok s \<Longrightarrow> keeps [] s (sort555Token t s)"
proof -
  show "keeps [] s (sort111Token t s)" if "report_ok s"
    using that keeps_store [OF keeps_checkOrder store_groups(1)] keeps_refl [OF that]
    by (auto simp: sort111Token_def intro!: store_keeps store_all)
  show "keeps [] s (sort222Token t s)" if "report_ok s"
    using that keeps_store [OF keeps_checkOrder store_groups(2)] by (simp add: sort222Token_def)
  show "keeps [] s (sort333Token t s)" if "report_ok s"
  proof -
    have "store_step (checkOrder t s) (sort333_group t (checkOrder t s))"
      by (rule store_group333) (use that in \<open>simp add: checkOrder_frame report_ok_def\<close>)
    then show ?thesis
      using keeps_store [OF keeps_checkOrder [OF that]] keeps_refl [OF that] store_keeps [OF that]
      by (simp add: sort333Token_def store_all)
  qed
  show "keeps [] s (sort444Token t s)" if "report_ok s"
    using that store_keeps store_groups(3) by blast
  show "keeps [] s (sort555Token t s)" if "report_ok s"
    using that keeps_store [OF keeps_checkOrder store_groups(4)] keeps_refl [OF that] by (simp add: sort555Token_def)
qed

text \<open>The text that an action adds to the raw report.\<close>

primrec action_text :: "lex_action \<Rightarrow> string" where
  "action_text (Trash token) = token"
| "action_text (Section token) = token"
| "action_text (Token token) = token"
| "action_text (Type token) = token"
| "action_text (Text token) = token @ '' ''"
| "action_text (IceToken token) = token"
| "action_text (IceText token) = token"
| "action_text (IcingText token) = token"

text \<open>The lexer's sections begin with a digit from 2.\<close>

definition section_token :: "lex_action \<Rightarrow> bool" where
  "section_token a \<longleftrightarrow> (case a of Section token \<Rightarrow> 1 < readToken token 0 0 | _ \<Rightarrow> True)"

lemma keeps_if: "(b \<Longrightarrow> keeps u s x) \<Longrightarrow> (\<not> b \<Longrightarrow> keeps u s y) \<Longrightarrow> keeps u s (if b then x else y)"
  by simp

lemma keeps_addError: "keeps u s x \<Longrightarrow> e \<noteq> [] \<Longrightarrow> keeps u s (addError e t x)"
  by (rule keeps_store [OF _ store_step.error [OF store_step.start]])

lemma keeps_enter:
  assumes "report_ok s"
  shows "keeps (if 1 < readToken t 0 0 then t else []) s (enter_section t s)"
proof -
  let ?u = "if 1 < readToken t 0 0 then t else []"
  let ?s = "(if 1 < readToken t 0 0 then s\<lparr>raw := raw s @ t\<rparr> else s)\<lparr>element := 0, grp := -1\<rparr>"
  have k: "keeps ?u s (?s\<lparr>sect := x\<rparr>)" "keeps ?u s ?s" for x
    using assms by (simp_all add: keeps_def report_ok_def)
  have ship: "keeps ?u s (setShipDirectionAndVelocity t (?s\<lparr>sect := S222\<rparr>))"
    by (rule keeps_store [OF k(1) store_derived(6) [OF store_step.start]])
  show ?thesis
    unfolding enter_section_def Let_def by (intro keeps_if keeps_addError k ship) simp_all
qed

lemma keeps_sort000:
  assumes "report_ok s"
  shows "keeps [] s (sort000Token t s)"
proof -
  have enter: "keeps [] s (enter_section ''111'' x)" if "keeps [] s x" for x
    using keeps_trans [OF that keeps_enter [of x "''111''"]] that
    by (simp add: keeps_def readToken_def char0_def char_digit_def slash_def schar_def)
  note r = keeps_refl [OF assms]
  have step: "keeps [] s x" if "store_step s x" for x using store_keeps [OF assms that] .
  show ?thesis
    unfolding sort000Token_def sortSynop000Token_def sortShipMobil000Token_def Let_def
    by (intro keeps_if enter r step store_all) simp_all
qed

lemma keeps_sortToken: "report_ok s \<Longrightarrow> keeps t s (sortToken t b s)"
proof -
  assume ok: "report_ok s"
  have k: "keeps t s (s\<lparr>raw := raw s @ t, element := e, tokenType := y\<rparr>)" "keeps t s (s\<lparr>raw := raw s @ t\<rparr>)"
    "keeps t s (s\<lparr>raw := raw s @ t, element := e\<rparr>)" for e y
    using ok by (simp_all add: keeps_def report_ok_def)
  have by_section: "keeps t s (sort_by_section t x)" if "keeps t s x" for x
  proof -
    have "report_ok x" using that by (simp add: keeps_def)
    then have "keeps [] x (sort_by_section t x)"
      by (simp add: sort_by_section_def keeps_sort000 store_sorted keeps_refl report_ok_def split: synopSection.split)
    then show ?thesis using keeps_trans [OF that] by fastforce
  qed
  show ?thesis
    unfolding sortToken_def Let_def by (intro keeps_if keeps_addError by_section k) (simp_all add: k)
qed

lemma run_action_keeps:
  assumes "report_ok s" "section_token a"
  shows "keeps (action_text a) s (run_action a s)"
proof (cases a)
  case (Section t)
  then have t: "1 < readToken t 0 0" using assms(2) by (simp add: section_token_def)
  have ok: "report_ok (s\<lparr>tokenType := NORMALTOKEN\<rparr>)" using assms(1) by (simp add: report_ok_def)
  have "keeps t (s\<lparr>tokenType := NORMALTOKEN\<rparr>) (fetchSection t s)"
    using keeps_sortToken [OF ok] keeps_enter [OF ok, of t] t by (simp add: fetchSection_def Let_def)
  then show ?thesis by (simp add: Section keeps_def)
next
  case (Text t)
  have k: "keeps (t @ '' '') s (s\<lparr>raw := raw s @ t @ '' '', element := e, icetext := i, icingtext := j, pinfo := p\<rparr>)" for i j e p
    using assms(1) by (simp add: keeps_def report_ok_def)
  show ?thesis
    using k [where i = "icetext s" and j = "icingtext s" and e = "element s" and p = "pinfo s"] k [where i = "icetext s @ '' '' @ t" and j = "icingtext s" and e = "element s" and p = "pinfo s"]
      k [where i = "icetext s" and j = "icingtext s @ '' '' @ t" and e = "element s" and p = "pinfo s"]
      k [where i = "icetext s" and j = "icingtext s" and e = 1 and p = "(pinfo s)\<lparr>callSign := map toupper t\<rparr>"]
    by (simp add: Text setText_def Let_def upd_info_def keeps_addError)
next
  case (IceToken t)
  have "keeps t s (s\<lparr>raw := raw s @ t, tokenType := NORMALTOKEN\<rparr>)" using assms(1) by (simp add: keeps_def report_ok_def)
  then have "keeps t s (setIceToken t s)"
    unfolding setIceToken_def Let_def by (rule keeps_store) (intro store_tokens store_step.start; simp)
  then show ?thesis by (simp add: IceToken)
qed (use assms(1) keeps_sortToken in \<open>simp_all add: setType_def setIceText_def keeps_def report_ok_def Let_def\<close>)

section \<open>Properties\<close>

lemma new_report_ok: "report_ok (new_synop m)"
  by (simp add: report_ok_def new_synop_def)

lemma run_actions_keeps:
  "report_ok s \<Longrightarrow> list_all section_token as \<Longrightarrow> keeps (concat (map action_text as)) s (fold run_action as s)"
proof (induction as arbitrary: s)
  case (Cons a as)
  have a: "keeps (action_text a) s (run_action a s)" using Cons.prems by (simp add: run_action_keeps)
  then have "report_ok (run_action a s)" by (simp add: keeps_def)
  then show ?case using keeps_trans [OF a Cons.IH] Cons.prems(2) by simp
qed (simp add: keeps_refl)

lemma report_invariants:
  assumes "list_all section_token (as @ bs)"
  shows "raw (fold run_action as (new_synop m)) = concat (map action_text as) \<and> report_ok (fold run_action as (new_synop m))
    \<and> (unrecognised (fold run_action as (new_synop m)) \<noteq> [] \<longrightarrow> unrecognised (fold run_action (as @ bs) (new_synop m)) \<noteq> [])"
proof -
  let ?s = "fold run_action as (new_synop m)"
  have a: "keeps (concat (map action_text as)) (new_synop m) ?s"
    using assms by (intro run_actions_keeps new_report_ok) simp
  then have b: "keeps (concat (map action_text bs)) ?s (fold run_action bs ?s)"
    using assms by (intro run_actions_keeps) (simp_all add: keeps_def)
  have "raw ?s = concat (map action_text as)" using a by (simp add: keeps_def new_synop_def)
  with a b show ?thesis unfolding keeps_def by simp
qed

text \<open>The order of the groups.\<close>

lemma sort111Token_accepts:
  assumes "sect s = S111" "element s \<ge> 2" "unrecognised (sortToken t False s) = []"
  shows "unrecognised s = []" "grp s < readToken t 0 0" "grp (sortToken t False s) = readToken t 0 0"
    "sect (sortToken t False s) = S111" "element (sortToken t False s) \<ge> 2"
proof -
  let ?s = "s\<lparr>raw := raw s @ t, element := element s + 1, tokenType := NORMALTOKEN\<rparr>"
  have e: "sortToken t False s = sort111_group t (checkOrder t ?s)"
    using assms(1,2) by (simp add: sortToken_def Let_def sort_by_section_def sort111Token_def)
  note f = store_step_frame [OF store_groups(1) [of "checkOrder t ?s" t]]
  have "unrecognised (checkOrder t ?s) = []" using f(7) assms(3) unfolding e by blast
  from checkOrder_accepts [OF this] show "unrecognised s = []" "grp s < readToken t 0 0" using assms(1) by simp_all
  show "grp (sortToken t False s) = readToken t 0 0" "sect (sortToken t False s) = S111" "element (sortToken t False s) \<ge> 2"
    using f(2-4) assms(1,2) unfolding e by (simp_all add: checkOrder_frame)
qed

lemma unrecognised_kept: "unrecognised s \<noteq> [] \<Longrightarrow> report_ok s \<Longrightarrow> unrecognised (sortToken t b s) \<noteq> []"
  using keeps_sortToken [of s t b] by (simp add: keeps_def)



section \<open>Digits\<close>

definition digit :: "char \<Rightarrow> int" where
  "digit c = of_char c - 48"

lemma isdigit_code: "isdigit c \<Longrightarrow> \<exists>n. 48 \<le> n \<and> n \<le> 57 \<and> (of_char c :: nat) = n"
  by (simp add: isdigit_def)

lemma digit_chars:
  assumes "isdigit c"
  shows "\<not> slash c" "char_digit c = digit c" "0 \<le> digit c" "digit c \<le> 9"
proof -
  have n: "48 \<le> (of_char c :: nat)" "(of_char c :: nat) \<le> 57" using assms by (simp_all add: isdigit_def)
  have i: "(of_char c :: int) = int (of_char c)" by (simp only: of_nat_of_char)
  have "c \<noteq> CHR ''/''" "c \<noteq> CHR ''X''" "c \<noteq> CHR ''x''" using n by auto
  then show s: "\<not> slash c" by (simp add: slash_def)
  show "char_digit c = digit c" using n i s by (simp add: char_digit_def schar_def digit_def Let_def)
  show "0 \<le> digit c" "digit c \<le> 9" using n i by (simp_all add: digit_def)
qed

lemma readToken_digits:
  assumes "0 < b" "a + b \<le> length token" "list_all isdigit (take b (drop a token))"
  shows "readToken token a b = foldl digit_step 0 (take b (drop a token))"
proof -
  have "\<not> list_ex slash (take b (drop a token))"
    using assms(3) digit_chars(1) by (auto simp: list_all_iff list_ex_iff)
  moreover have "take b (drop a token) \<noteq> []" using assms(1,2) by simp
  ultimately show ?thesis using assms by (simp add: readToken_def atoi_digits)
qed

lemma read3: "isdigit x \<Longrightarrow> isdigit y \<Longrightarrow> isdigit z \<Longrightarrow> readToken (c # x # y # z # w) 1 3 = 100 * digit x + 10 * digit y + digit z"
  using readToken_digits [of 3 1 "c # x # y # z # w"] by (simp add: digit_step_def digit_def numeral_3_eq_3)

lemma read4: "isdigit x \<Longrightarrow> isdigit y \<Longrightarrow> isdigit z \<Longrightarrow> isdigit u \<Longrightarrow>
    readToken (x # y # z # u # w) 0 4 = 1000 * digit x + 100 * digit y + 10 * digit z + digit u"
  using readToken_digits [of 4 0 "x # y # z # u # w"] by (simp add: digit_step_def digit_def eval_nat_numeral)

lemma sort111_state:
  assumes "sect s = S111" "element s \<ge> 2" "grp s < readToken t 0 0" "readToken t 0 0 \<noteq> syn_undef"
  shows "sortToken t False s = sort111_group t (s\<lparr>raw := raw s @ t, element := element s + 1, tokenType := NORMALTOKEN, grp := readToken t 0 0\<rparr>)"
  using assms by (simp add: sortToken_def Let_def sort_by_section_def sort111Token_def checkOrder_def)

text \<open>
  C1. A temperature group of section 1, \<open>1\<close>, a sign and three digits, stores the temperature in tenths with its
  sign, changes no other value and notes no error.
\<close>

theorem temperature_group:
  assumes "sect s = S111" "element s \<ge> 2" "grp s < 1" "c = CHR ''0'' \<or> c = CHR ''1''" "isdigit x" "isdigit y" "isdigit z"
  shows "let s' = sortToken (CHR ''1'' # c # x # y # z # w) False s; v = of_int (100 * digit x + 10 * digit y + digit z) / 10 in
    map_of (syn_obs s') = (map_of (syn_obs s))(211 \<mapsto> (if c = CHR ''1'' then - v else v)) \<and> unrecognised s' = unrecognised s"
proof -
  define n where "n = 100 * digit x + 10 * digit y + digit z"
  let ?t = "CHR ''1'' # c # x # y # z # w"
  have r: "readToken ?t 0 0 = 1" by (simp add: readToken_def char0_def char_digit_def slash_def schar_def)
  have n: "0 \<le> n" "n \<le> 999"
    using digit_chars(3,4) [OF assms(5)] digit_chars(3,4) [OF assms(6)] digit_chars(3,4) [OF assms(7)] unfolding n_def by linarith+
  have sg: "sign_of c Sn = (if c = CHR ''1'' then -1 else 1)" using assms(4) by (auto simp: sign_of_def schar_def)
  have "setTemperature (drop 1 ?t) 211 Sn = setBuffer 211 (if c = CHR ''1'' then - (of_int n / 10) else of_int n / 10)"
    using n read3 [OF assms(5-7), of c w, folded n_def]
    by (simp add: setTemperature_def char0_def sg syn_undef_def scale_def)
  then show ?thesis
    using sort111_state [OF assms(1,2), of ?t] assms(3) r n_def
    by (simp add: Let_def sort111_group_def syn_undef_def)
qed

theorem temperature_group_witness:
  "map_of (syn_obs (sortToken ''11042 '' False ((new_synop False)\<lparr>sect := S111, element := 2\<rparr>))) 211 = Some (- 4.2)"
proof -
  have "digit (CHR ''0'') = 0" "digit (CHR ''4'') = 4" "digit (CHR ''2'') = 2" by (simp_all add: digit_def)
  then show ?thesis
    using temperature_group [of "(new_synop False)\<lparr>sect := S111, element := 2\<rparr>" "CHR ''1''" "CHR ''0''" "CHR ''4''" "CHR ''2''" "'' ''"]
    by (simp add: Let_def isdigit_def new_synop_def)
qed

text \<open>
  A pressure group of four digits stores a pressure between 500 and 1500 hPa whose last four digits, in tenths,
  are those of the group.
\<close>

theorem pressure_group:
  assumes "sect s = S111" "element s \<ge> 2" "grp s < 3" "isdigit x" "isdigit y" "isdigit z" "isdigit u"
  shows "\<exists>p. map_of (syn_obs (sortToken (CHR ''3'' # x # y # z # u # w) False s)) = (map_of (syn_obs s))(173 \<mapsto> of_int p / 10)
    \<and> 5000 \<le> p \<and> p < 15000 \<and> p mod 10000 = 1000 * digit x + 100 * digit y + 10 * digit z + digit u"
proof -
  define n where "n = 1000 * digit x + 100 * digit y + 10 * digit z + digit u"
  let ?t = "CHR ''3'' # x # y # z # u # w"
  have r: "readToken ?t 0 0 = 3" by (simp add: readToken_def char0_def char_digit_def slash_def schar_def)
  have n: "0 \<le> n" "n \<le> 9999"
    using digit_chars(3,4) [OF assms(4)] digit_chars(3,4) [OF assms(5)] digit_chars(3,4) [OF assms(6)] digit_chars(3,4) [OF assms(7)]
    unfolding n_def by linarith+
  define p where "p = (if n < 5000 then n + 10000 else n)"
  have "(of_int n < (5000 :: real)) = (n < 5000)" by simp
  then have "setPressure (drop 1 ?t) 173 = setBuffer 173 (of_int p / 10)"
    using n read4 [OF assms(4-7), of w, folded n_def]
    by (simp add: setPressure_def syn_undef_def scale_def p_def add_divide_distrib)
  moreover have "5000 \<le> p \<and> p < 15000 \<and> p mod 10000 = n" using n by (simp add: p_def)
  ultimately show ?thesis
    using sort111_state [OF assms(1,2), of ?t] assms(3) r unfolding n_def
    by (intro exI [of _ p]) (simp add: Let_def sort111_group_def syn_undef_def)
qed

theorem pressure_group_witness:
  "\<exists>p. map_of (syn_obs (sortToken ''30123 '' False ((new_synop False)\<lparr>sect := S111, element := 2\<rparr>))) 173 = Some (of_int p / 10)
    \<and> 5000 \<le> p \<and> p < 15000 \<and> p mod 10000 = 123"
proof -
  have "digit (CHR ''0'') = 0" "digit (CHR ''1'') = 1" "digit (CHR ''2'') = 2" "digit (CHR ''3'') = 3" by (simp_all add: digit_def)
  then show ?thesis
    using pressure_group [of "(new_synop False)\<lparr>sect := S111, element := 2\<rparr>" "CHR ''0''" "CHR ''1''" "CHR ''2''" "CHR ''3''" "'' ''"]
    by (auto simp: isdigit_def new_synop_def)
qed

section \<open>Visibility\<close>

text \<open>
  The visibility that the parser computes from a code is the one of the other decoders, and their coder gives
  the code back.
\<close>

theorem visibility_agrees:
  assumes "code_range c"
  shows "visibility_of_code c = atoi (VV (fmt02 c)) \<and> VVKode_int (visibility_of_code c) = fmt02 c"
proof -
  have v: "visibility_of_code c = vv_metres c" using assms by (auto simp: visibility_of_code_def vv_metres_def code_range_def)
  show ?thesis unfolding v using VV_metres [OF assms] VVKode_metres [OF assms] by simp
qed

theorem visibility_agrees_witness: "visibility_of_code 61 = 11000 \<and> VVKode_int 11000 = fmt02 61"
proof -
  have "visibility_of_code 61 = 11000" by (simp add: visibility_of_code_def)
  with visibility_agrees [of 61] show ?thesis by (simp add: code_range_def)
qed

section \<open>Relative humidity\<close>

lemma svp_pos: "0 < svp tt"
  by (simp add: svp_def)

lemma c_rint_nonneg: "0 \<le> x \<Longrightarrow> 0 \<le> c_rint x"
  by (simp add: c_rint_def Let_def)

lemma c_rint_ge: "100 \<le> x \<Longrightarrow> 100 \<le> c_rint x"
proof -
  assume "100 \<le> x"
  then have "100 \<le> \<lfloor>x\<rfloor>" by (simp add: le_floor_iff)
  then show ?thesis by (auto simp: c_rint_def Let_def)
qed

lemma quotient_mono:
  fixes a b t u :: real
  assumes "0 \<le> a" "- b < t" "t \<le> u" "0 < b"
  shows "a * t / (b + t) \<le> a * u / (b + u)"
proof -
  have "a * t * (b + u) \<le> a * u * (b + t)"
  proof -
    have "t * (b + u) \<le> u * (b + t)" using assms(3,4) by (simp add: algebra_simps mult_left_mono)
    then have "a * (t * (b + u)) \<le> a * (u * (b + t))" using assms(1) by (rule mult_left_mono)
    then show ?thesis by (simp add: mult.assoc)
  qed
  then show ?thesis using assms by (simp add: divide_simps)
qed

lemma svp_mono:
  assumes "- 243 < t" "t \<le> u"
  shows "svp t \<le> svp u"
proof -
  consider "0 < t" | "t \<le> 0" "0 < u" | "u \<le> 0" by linarith
  then show ?thesis
  proof cases
    case 1
    then show ?thesis using assms quotient_mono [of "17.08085" "243.175" t u] by (simp add: svp_def)
  next
    case 2
    have "17.84363 * t / (245.425 + t) \<le> 0" using 2(1) assms(1) by (simp add: divide_nonpos_pos)
    moreover have "0 \<le> 17.08085 * u / (243.175 + u)" using 2(2) by simp
    ultimately have "17.84363 * t / (245.425 + t) \<le> 17.08085 * u / (243.175 + u)" by (rule order_trans)
    then show ?thesis using 2 by (simp add: svp_def)
  next
    case 3
    then show ?thesis using assms quotient_mono [of "17.84363" "245.425" t u] by (simp add: svp_def)
  qed
qed

text \<open>
  The relative humidity computed from temperature and dew point is a whole number between 0 and 100, and 100
  when the dew point is not below the temperature.
\<close>

theorem humidity_bounds:
  assumes "synop_value s 211 = Some tt" "synop_value s 217 = Some td"
  shows "\<exists>u. synop_value (computeUUU s) 262 = Some (of_int u) \<and> 0 \<le> u \<and> u \<le> 100 \<and> (- 243 < tt \<and> tt \<le> td \<longrightarrow> u = 100)"
proof -
  let ?x = "100 * svp td / svp tt"
  let ?u = "if 100 < c_rint ?x then 100 else c_rint ?x"
  have "0 \<le> ?x" using svp_pos [of tt] svp_pos [of td] by simp
  then have "0 \<le> ?u" using c_rint_nonneg by simp
  moreover have "?u = 100" if "- 243 < tt" "tt \<le> td"
  proof -
    have "100 \<le> ?x" using svp_mono [OF that] svp_pos [of tt] by (simp add: pos_le_divide_eq)
    then show ?thesis using c_rint_ge by fastforce
  qed
  moreover have "synop_value (computeUUU s) 262 = Some (of_int ?u)"
    using assms by (simp add: computeUUU_def synop_value_def Let_def)
  moreover have "?u \<le> 100" by simp
  ultimately show ?thesis by blast
qed

theorem humidity_bounds_witness:
  "\<exists>u. synop_value (computeUUU (setBuffer 217 5 (setBuffer 211 3 (new_synop False)))) 262 = Some (of_int u) \<and> u = (100 :: int)"
  using humidity_bounds [of "setBuffer 217 5 (setBuffer 211 3 (new_synop False))" 3 5] by (auto simp: synop_value_def)

text \<open>The vapour pressure of the value that stands for a missing dew point.\<close>

lemma svp_undef: "- 243 < tt \<Longrightarrow> svp tt \<le> svp (-99999)"
proof -
  assume tt: "- 243 < tt"
  have big: "exp 17.84363 \<le> exp (17.84363 * (-99999) / (245.425 + -99999) :: real)" by simp
  have small: "17.08085 * tt / (243.175 + tt) \<le> 17.08085" if "0 < tt" using that by (simp add: divide_simps)
  have neg: "17.84363 * tt / (245.425 + tt) \<le> 0" if "tt \<le> 0" using that tt by (simp add: divide_nonpos_pos)
  show ?thesis
  proof (cases "0 < tt")
    case True
    have "exp (17.08085 * tt / (243.175 + tt)) \<le> exp 17.84363" using small [OF True] by simp
    with big have "exp (17.08085 * tt / (243.175 + tt)) \<le> exp (17.84363 * (-99999) / (245.425 + -99999) :: real)" by (rule order_trans [rotated])
    then show ?thesis using True by (simp add: svp_def)
  next
    case False
    have "exp (17.84363 * tt / (245.425 + tt)) \<le> exp 17.84363" using neg False by simp
    with big have "exp (17.84363 * tt / (245.425 + tt)) \<le> exp (17.84363 * (-99999) / (245.425 + -99999) :: real)" by (rule order_trans [rotated])
    then show ?thesis using False by (simp add: svp_def)
  qed
qed

text \<open>
  A dew point that is reported as missing is stored as a value that stands for it, and the humidity is then
  computed from this value: a report with a temperature and a missing dew point gives a relative humidity of 100
  per cent.
\<close>

theorem missing_dew_point:
  assumes "sect s = S111" "element s \<ge> 2" "grp s < 2" "synop_value s 211 = Some tt" "- 243 < tt"
  shows "synop_value (sortToken ''2//// '' False s) 262 = Some 100 \<and> unrecognised (sortToken ''2//// '' False s) = unrecognised s"
proof -
  let ?t = "''2//// ''"
  let ?s = "s\<lparr>raw := raw s @ ?t, element := element s + 1, tokenType := NORMALTOKEN, grp := 2\<rparr>"
  have r: "readToken ?t 0 0 = 2" by (simp add: readToken_def char0_def char_digit_def slash_def schar_def)
  have m: "setTemperature (drop 1 ?t) 217 Sn = setBuffer 217 (-99999)"
    by (simp add: setTemperature_def readToken_def slash_def scale_def syn_undef_def)
  have e: "sortToken ?t False s = computeUUU (setBuffer 217 (-99999) ?s)"
    using sort111_state [OF assms(1,2), of ?t] assms(3) r m by (simp add: Let_def sort111_group_def char0_def syn_undef_def)
  have "100 \<le> 100 * svp (-99999) / svp tt" using svp_undef [OF assms(5)] svp_pos [of tt] by (simp add: pos_le_divide_eq)
  from c_rint_ge [OF this] show ?thesis
    unfolding e using assms(4) by (auto simp: computeUUU_def synop_value_def Let_def)
qed

theorem missing_dew_point_witness:
  "synop_value (sortToken ''2//// '' False ((new_synop False)\<lparr>sect := S111, element := 3, grp := 1, syn_obs := [(211, 4.2)]\<rparr>)) 262 = Some 100"
  using missing_dew_point [of "(new_synop False)\<lparr>sect := S111, element := 3, grp := 1, syn_obs := [(211, 4.2)]\<rparr>" "4.2"]
  by (simp add: synop_value_def)

lemma enter_111: "sect s = S000 \<Longrightarrow> enter_section ''111'' s = s\<lparr>element := 0, grp := -1, sect := S111\<rparr>"
  by (simp add: enter_section_def readToken_def char0_def char_digit_def slash_def schar_def Let_def)

lemma negate_obs_frame:
  "sect (negate_obs par s) = sect s" "unrecognised (negate_obs par s) = unrecognised s" "pinfo (negate_obs par s) = pinfo s"
  "stype (negate_obs par s) = stype s" "par' \<noteq> par \<Longrightarrow> synop_value (negate_obs par s) par' = synop_value s par'"
  by (simp_all add: negate_obs_def synop_value_def split: option.split)

text \<open>
  A ship that reports its quadrant but not its longitude is stored with the longitude 99999: the value that
  stands for a missing longitude changes its sign and is no longer recognised as missing.
\<close>

theorem missing_longitude:
  assumes "stype s = SHIP" "sect s = S000" "element s = 3" "q = CHR ''5'' \<or> q = CHR ''7''"
  shows "synop_value (sortToken (q # ''//// '') False s) 402 = Some 99999 \<and> unrecognised (sortToken (q # ''//// '') False s) = unrecognised s"
proof -
  let ?t = "q # ''//// ''"
  let ?s = "s\<lparr>raw := raw s @ ?t, element := 4, tokenType := NORMALTOKEN, pinfo := (pinfo s)\<lparr>Qc := readToken ?t 0 0\<rparr>\<rparr>"
  have q: "readToken ?t 0 0 = 5 \<or> readToken ?t 0 0 = 7" "readToken ?t 1 4 = syn_undef"
    using assms(4) by (auto simp: readToken_def char0_def char_digit_def slash_def schar_def)
  let ?x = "squareDetection (setBuffer 402 (-99999) ?s)"
  have x: "sect ?x = S000" "stype ?x = SHIP" "unrecognised ?x = unrecognised s" "synop_value ?x 402 = Some 99999"
    using assms(1,2) q(1) by (auto simp: squareDetection_def negate_obs_frame Let_def) (simp_all add: negate_obs_def synop_value_def)
  have "sortToken ?t False s = enter_section ''111'' ?x"
    using assms(1-3) q x(2) by (auto simp: sortToken_def sort_by_section_def sort000Token_def sortShipMobil000Token_def setScaledToken_def
        scale_def upd_info_def syn_undef_def Let_def)
  then show ?thesis using x(3,4) by (simp add: enter_111 [OF x(1)] synop_value_def)
qed

theorem missing_longitude_witness:
  "synop_value (sortToken ''7//// '' False ((new_synop False)\<lparr>stype := SHIP, element := 3\<rparr>)) 402 = Some 99999"
  using missing_longitude [of "(new_synop False)\<lparr>stype := SHIP, element := 3\<rparr>" "CHR ''7''"] by (simp add: new_synop_def)

text \<open>
  A fifth group of clouds is not rejected: its height overwrites the cloud type of the first.
\<close>

theorem fifth_cloud_group:
  assumes "clCounter s = 3" "\<not> hshsInMeter s" "readToken t 3 2 \<noteq> syn_undef"
  shows "unrecognised (setExtraClouds t s) = unrecognised s \<and> synop_value (setExtraClouds t s) syn_C1 = Some (of_int (readToken t 3 2))"
  using assms by (simp add: setExtraClouds_def setExtraCloudHsToken_def setExtraCloudToken_def synop_value_def Let_def)

theorem fifth_cloud_group_witness:
  "synop_value (setExtraClouds ''85560 '' ((new_synop False)\<lparr>clCounter := 3\<rparr>)) 305 = Some 60"
proof -
  have "readToken ''85560 '' 3 2 = 60"
    by (simp add: readToken_def slash_def atoi_def digits_val_def isspace_def isdigit_def)
  then show ?thesis
    using fifth_cloud_group [of "(new_synop False)\<lparr>clCounter := 3\<rparr>" "''85560 ''"] by (simp add: new_synop_def syn_undef_def)
qed

text \<open>
  The group of ice accretion is read from the word in front of it: the digits that are reported have no
  influence on the first four elements.
\<close>

theorem ice_group_misread:
  "map (synop_value (setIceToken (''ICE '' @ t) s)) [syn_Ci, syn_Si, syn_Bi, syn_Di] = [Some 25, Some 19, Some 21, Some (-16)]"
  by (simp add: setIceToken_def setToken_def readToken_def char0_def char_digit_def slash_def schar_def synop_value_def Let_def)

end
