(* ===== verification/Flex_Scan.thy ===== *)
theory Flex_Scan
  imports Kv_Prelude
begin

text \<open>
  What the scanners generated by flex do, as flex documents it: of all rules the one with the longest match counts,
  among equal ones the first. The rules are regular expressions; the longest match is computed with derivatives and
  proved against the language of the expression. Used by the scanner of synoptic reports and by the scanner of
  configuration files.
\<close>

section \<open>Regular expressions\<close>

datatype rexp = Zero | One | Cls "char \<Rightarrow> bool" | Alt rexp rexp | Seq rexp rexp | Star rexp

inductive matches :: "rexp \<Rightarrow> string \<Rightarrow> bool" where
  one: "matches One []"
| cls: "p c \<Longrightarrow> matches (Cls p) [c]"
| alt1: "matches r s \<Longrightarrow> matches (Alt r q) s"
| alt2: "matches q s \<Longrightarrow> matches (Alt r q) s"
| seq: "matches r s \<Longrightarrow> matches q t \<Longrightarrow> matches (Seq r q) (s @ t)"
| star0: "matches (Star r) []"
| star1: "matches r s \<Longrightarrow> matches (Star r) t \<Longrightarrow> matches (Star r) (s @ t)"

inductive_simps matches_simps [simp]:
  "matches Zero s" "matches One s" "matches (Cls p) s" "matches (Alt r q) s" "matches (Seq r q) s"

primrec nullable :: "rexp \<Rightarrow> bool" where
  "nullable Zero = False"
| "nullable One = True"
| "nullable (Cls p) = False"
| "nullable (Alt r q) = (nullable r \<or> nullable q)"
| "nullable (Seq r q) = (nullable r \<and> nullable q)"
| "nullable (Star r) = True"

fun seq' :: "rexp \<Rightarrow> rexp \<Rightarrow> rexp" where
  "seq' Zero q = Zero"
| "seq' One q = q"
| "seq' r q = Seq r q"

fun alt' :: "rexp \<Rightarrow> rexp \<Rightarrow> rexp" where
  "alt' Zero q = q"
| "alt' r Zero = r"
| "alt' r q = Alt r q"

primrec deriv :: "char \<Rightarrow> rexp \<Rightarrow> rexp" where
  "deriv c Zero = Zero"
| "deriv c One = Zero"
| "deriv c (Cls p) = (if p c then One else Zero)"
| "deriv c (Alt r q) = alt' (deriv c r) (deriv c q)"
| "deriv c (Seq r q) = (if nullable r then alt' (seq' (deriv c r) q) (deriv c q) else seq' (deriv c r) q)"
| "deriv c (Star r) = seq' (deriv c r) (Star r)"

fun longest :: "rexp \<Rightarrow> string \<Rightarrow> nat option" where
  "longest r [] = (if nullable r then Some 0 else None)"
| "longest r (c # cs) =
     (case longest (deriv c r) cs of Some n \<Rightarrow> Some (Suc n) | None \<Rightarrow> if nullable r then Some 0 else None)"

lemma matches_nil: "matches r [] \<longleftrightarrow> nullable r"
  by (induction r) (auto intro: matches.intros)

lemma matches_seq': "matches (seq' r q) s \<longleftrightarrow> matches (Seq r q) s"
  by (cases "(r, q)" rule: seq'.cases) auto

lemma matches_alt': "matches (alt' r q) s \<longleftrightarrow> matches (Alt r q) s"
  by (cases "(r, q)" rule: alt'.cases) auto

lemma matches_star_cons:
  assumes "matches r' s" "r' = Star r" "s = c # w"
  shows "\<exists>u v. w = u @ v \<and> matches r (c # u) \<and> matches (Star r) v"
  using assms by (induction rule: matches.induct) (auto simp: append_eq_Cons_conv)

lemma matches_deriv: "matches (deriv c r) w \<longleftrightarrow> matches r (c # w)"
proof (induction r arbitrary: w)
  case (Seq r q)
  have "(\<exists>u v. c # w = u @ v \<and> matches r u \<and> matches q v) \<longleftrightarrow>
      (nullable r \<and> matches q (c # w)) \<or> (\<exists>u v. w = u @ v \<and> matches r (c # u) \<and> matches q v)"
    unfolding matches_nil [symmetric] Cons_eq_append_conv by blast
  then show ?case using Seq.IH by (auto simp: matches_seq' matches_alt')
next
  case (Star r)
  have "matches (Star r) (c # w) \<longleftrightarrow> (\<exists>u v. w = u @ v \<and> matches r (c # u) \<and> matches (Star r) v)"
    using matches_star_cons [of "Star r" "c # w" r c w] star1 [of r "c # _" _] by fastforce
  then show ?case using Star.IH by (simp add: matches_seq')
qed (auto simp: matches_alt')

lemma all_le_Suc: "(\<forall>m\<le>Suc n. Q m) \<longleftrightarrow> Q 0 \<and> (\<forall>m\<le>n. Q (Suc m))"
  by (metis Suc_le_mono le0 not0_implies_Suc)

lemma longest_spec:
  shows "longest r s = None \<longleftrightarrow> (\<forall>m\<le>length s. \<not> matches r (take m s))"
    and "longest r s = Some n \<Longrightarrow> n \<le> length s \<and> matches r (take n s) \<and> (\<forall>m\<le>length s. matches r (take m s) \<longrightarrow> m \<le> n)"
proof (induction s arbitrary: r n)
  case (Cons c cs)
  {
    case 1
    show ?case using Cons.IH(1) [of "deriv c r"]
      by (auto simp: all_le_Suc matches_nil matches_deriv split: option.splits)
  next
    case 2
    then show ?case using Cons.IH [of "deriv c r"]
      by (auto simp: all_le_Suc matches_nil matches_deriv split: option.splits if_splits)
  }
qed (auto simp: matches_nil split: if_splits)

section \<open>Operators\<close>

text \<open>\<open>str s\<close> is the text itself, \<open>plus\<close> and \<open>times'\<close> are the operators \<^verbatim>\<open>+\<close> and \<^verbatim>\<open>{n}\<close>.\<close>

fun str :: "string \<Rightarrow> rexp" where
  "str [] = One"
| "str (c # cs) = Seq (Cls (\<lambda>x. x = c)) (str cs)"

definition plus :: "rexp \<Rightarrow> rexp" where
  "plus r = Seq r (Star r)"

primrec times' :: "nat \<Rightarrow> rexp \<Rightarrow> rexp" where
  "times' 0 r = One"
| "times' (Suc n) r = Seq r (times' n r)"

definition alts :: "rexp list \<Rightarrow> rexp" where
  "alts rs = foldr Alt rs Zero"

section \<open>The best rule\<close>

fun best_rule :: "(rexp \<times> 'a) list \<Rightarrow> string \<Rightarrow> (nat \<times> 'a) option" where
  "best_rule [] s = None"
| "best_rule ((r, a) # rs) s =
     (case (longest r s, best_rule rs s) of
        (None, b) \<Rightarrow> b
      | (Some n, None) \<Rightarrow> Some (n, a)
      | (Some n, Some (m, b)) \<Rightarrow> if n < m then Some (m, b) else Some (n, a))"

lemma matches_str [simp]: "matches (str w) s \<longleftrightarrow> s = w"
  by (induction w arbitrary: s) auto

declare str.simps [simp del]

lemma matches_alts [simp]: "matches (alts rs) s \<longleftrightarrow> (\<exists>r\<in>set rs. matches r s)"
  by (induction rs) (auto simp: alts_def)

lemma matches_plus1: "p c \<Longrightarrow> matches (plus (Cls p)) [c]"
  by (auto simp: plus_def intro: star0)

text \<open>Every match of an expression at the front of a text is shorter than \<open>k\<close>.\<close>

definition shorter :: "string \<Rightarrow> nat \<Rightarrow> rexp \<Rightarrow> bool" where
  "shorter s k r \<longleftrightarrow> (\<forall>m\<le>length s. matches r (take m s) \<longrightarrow> m < k)"

lemma shorter_mono: "shorter s k r \<Longrightarrow> k \<le> l \<Longrightarrow> shorter s l r"
  by (auto simp: shorter_def)

lemma longest_shorter:
  "longest r s = None \<Longrightarrow> shorter s k r" "longest r s = Some n \<Longrightarrow> shorter s (Suc n) r \<and> n \<le> length s \<and> matches r (take n s)"
  using longest_spec(1) [of r s] longest_spec(2) [of r s n] by (auto simp: shorter_def less_Suc_eq_le)

lemma best_rule_None: "best_rule rs s = None \<Longrightarrow> (r, a) \<in> set rs \<Longrightarrow> shorter s k r"
  by (induction rs s rule: best_rule.induct) (auto simp: longest_shorter split: option.splits if_splits)

lemma best_rule_spec:
  "best_rule rs s = Some (n, a) \<Longrightarrow>
    \<exists>pre r post. rs = pre @ (r, a) # post \<and> n \<le> length s \<and> matches r (take n s)
      \<and> (\<forall>q\<in>set pre. shorter s n (fst q)) \<and> (\<forall>q\<in>set ((r, a) # post). shorter s (Suc n) (fst q))"
proof (induction rs s arbitrary: n a rule: best_rule.induct)
  case (2 r a' rs s)
  consider "longest r s = None" "best_rule rs s = Some (n, a)"
    | "longest r s = Some n" "best_rule rs s = None" "a = a'"
    | k where "longest r s = Some k" "best_rule rs s = Some (n, a)" "k < n"
    | m b where "longest r s = Some n" "best_rule rs s = Some (m, b)" "m \<le> n" "a = a'"
    using 2(2) by (auto split: option.splits if_splits)
  then show ?case
  proof cases
    case 1
    from 2(1) [OF 1(2)] obtain pre q post where q: "rs = pre @ (q, a) # post" "n \<le> length s" "matches q (take n s)"
      "\<forall>q\<in>set pre. shorter s n (fst q)" "\<forall>q\<in>set ((q, a) # post). shorter s (Suc n) (fst q)" by blast
    then show ?thesis
      using longest_shorter(1) [OF 1(1), of n] by (intro exI [of _ "(r, a') # pre"] exI [of _ q] exI [of _ post]) simp
  next
    case 2
    then show ?thesis
      using longest_shorter(2) [OF 2(1)] best_rule_None [OF 2(2)] by (intro exI [of _ "[]"] exI [of _ r] exI [of _ rs]) auto
  next
    case 3
    from 2(1) [OF 3(2)] obtain pre q post where q: "rs = pre @ (q, a) # post" "n \<le> length s" "matches q (take n s)"
      "\<forall>q\<in>set pre. shorter s n (fst q)" "\<forall>q\<in>set ((q, a) # post). shorter s (Suc n) (fst q)" by blast
    moreover have "shorter s n r" using longest_shorter(2) [OF 3(1)] shorter_mono [of s "Suc k" r n] 3(3) by simp
    ultimately show ?thesis by (intro exI [of _ "(r, a') # pre"] exI [of _ q] exI [of _ post]) simp
  next
    case 4
    from 2(1) [OF 4(2)] obtain pre q post where q: "rs = pre @ (q, b) # post"
      "\<forall>q\<in>set pre. shorter s m (fst q)" "\<forall>q\<in>set ((q, b) # post). shorter s (Suc m) (fst q)" by blast
    have "shorter s (Suc n) (fst x)" if "x \<in> set rs" for x
      using that q 4(3) shorter_mono [of s m "fst x" "Suc n"] shorter_mono [of s "Suc m" "fst x" "Suc n"] by auto
    then show ?thesis
      using longest_shorter(2) [OF 4(1)] 4(4) by (intro exI [of _ "[]"] exI [of _ r] exI [of _ rs]) auto
  qed
qed simp

section \<open>Longest matches of simple expressions\<close>

lemma longest_unique:
  assumes "n \<le> length s" "matches r (take n s)" "\<And>m. m \<le> length s \<Longrightarrow> matches r (take m s) \<Longrightarrow> m \<le> n"
  shows "longest r s = Some n"
proof (cases "longest r s")
  case None
  then show ?thesis using longest_spec(1) [of r s] assms by auto
next
  case (Some k)
  from longest_spec(2) [OF this] have "k \<le> n" "n \<le> k" using assms by auto
  with Some show ?thesis by simp
qed

lemma longest_no_match: "(\<And>m. m \<le> length s \<Longrightarrow> \<not> matches r (take m s)) \<Longrightarrow> longest r s = None"
  using longest_spec(1) [of r s] by simp

lemma longest_Zero [simp]: "longest Zero s = None"
  by (induction s) auto

lemma longest_One [simp]: "longest One s = Some 0"
  by (cases s) auto

lemma longest_Star_Cls [simp]: "longest (Star (Cls p)) s = Some (length (takeWhile p s))"
  by (induction s) auto

lemma longest_plus_Cls [simp]: "longest (plus (Cls p)) (c # cs) = (if p c then Some (Suc (length (takeWhile p cs))) else None)"
  by (simp add: plus_def)

lemma longest_str [simp]: "longest (str w) s = (if take (length w) s = w then Some (length w) else None)"
proof (induction w arbitrary: s)
  case (Cons x w)
  show ?case by (cases s) (auto simp: Cons str.simps)
qed (simp add: str.simps)

lemma matches_Star_Cls [simp]: "matches (Star (Cls p)) s \<longleftrightarrow> list_all p s"
proof (induction s)
  case (Cons c cs)
  then show ?case by (simp add: matches_deriv [symmetric])
qed (simp add: matches_nil)

lemma matches_plus_Cls [simp]: "matches (plus (Cls p)) s \<longleftrightarrow> s \<noteq> [] \<and> list_all p s"
proof (cases s)
  case (Cons c cs)
  then show ?thesis by (simp add: matches_deriv [symmetric] plus_def)
qed (simp add: matches_nil plus_def)

end
