(* ===== verification/Synop_Lexer.thy ===== *)
theory Synop_Lexer
  imports Synop_Props Flex_Scan
begin

text \<open>
  The scanner of synoptic reports, \<^verbatim>\<open>src/lib/decoder/synopdecoder/synopLexer.ll\<close>. Its rules are translated as
  regular expressions; the generated scanner is modelled by what flex documents: the longest match counts, among
  equal ones the first rule, and a character that no rule matches is skipped. The longest match is computed with
  derivatives and proved against the language of the expression.
\<close>

section \<open>Rules\<close>

definition is_ws :: "char \<Rightarrow> bool" where
  "is_ws c \<longleftrightarrow> c \<in> {CHR '' '', CHR 0x09, CHR 0x0A, CHR 0x0D}"

definition r_word :: rexp where
  "r_word = plus (Cls (\<lambda>c. \<not> is_ws c))"

definition r_ws :: rexp where
  "r_ws = plus (Cls is_ws)"

definition r_end :: rexp where
  "r_end = plus (Cls (\<lambda>c. c = CHR ''='' \<or> c = CHR '' ''))"

definition r_trash :: rexp where
  "r_trash = Cls slash"

definition r_value :: rexp where
  "r_value = Cls (\<lambda>c. isdigit c \<or> slash c)"

definition r_section :: rexp where
  "r_section = alts (map str [''222'', ''333'', ''444'', ''555'', ''999''])"

definition r_ice :: rexp where
  "r_ice = Alt (str ''ICE'') (str ''ice'')"

definition r_icing :: rexp where
  "r_icing = Alt (str ''ICING'') (str ''icing'')"

definition r_sep :: rexp where
  "r_sep = Alt r_ws r_end"

text \<open>The rules in their order; \<open>None\<close> is a match that is passed over.\<close>

definition synop_rules :: "(rexp \<times> (string \<Rightarrow> lex_action) option) list" where
  "synop_rules =
     [(alts [r_icing, r_ice, r_value, r_ws, r_end], None),
      (Seq (times' 5 r_trash) r_sep, Some Trash),
      (Seq (str ''222'') (Seq (times' 2 r_value) r_sep), Some Section),
      (Seq r_section r_sep, Some Section),
      (Seq (times' 5 r_value) r_sep, Some Token),
      (Seq (alts (map str [''OOXX'', ''AAXX'', ''BBXX''])) r_ws, Some Type),
      (r_word, Some Text),
      (Seq r_ice (Seq r_ws (Seq (times' 5 r_value) r_sep)), Some IceToken),
      (Seq r_ice (Seq r_ws (Seq r_word r_sep)), Some IceText),
      (Seq r_icing (Seq r_ws (Seq r_word r_sep)), Some IcingText)]"

function lex_synop :: "string \<Rightarrow> (string \<times> lex_action option) list" where
  "lex_synop s =
     (if s = [] then []
      else case best_rule synop_rules s of
        None \<Rightarrow> ([hd s], None) # lex_synop (tl s)
      | Some (n, a) \<Rightarrow> (take (max 1 n) s, map_option (\<lambda>f. f (take n s)) a) # lex_synop (drop (max 1 n) s))"
  by pat_completeness auto
termination
  by (relation "measure length") auto

declare lex_synop.simps [simp del]

text \<open>The scanner works on a C string: the text ends at the first character 0.\<close>

definition lex_actions :: "string \<Rightarrow> lex_action list" where
  "lex_actions text = concat (map (\<lambda>(t, a). case a of None \<Rightarrow> [] | Some x \<Rightarrow> [x]) (lex_synop (takeWhile (\<lambda>c. c \<noteq> CHR 0x00) text)))"

definition lexSynop :: "string \<Rightarrow> bool \<Rightarrow> synop" where
  "lexSynop text inMeter = fold run_action (lex_actions text) (new_synop inMeter)"

section \<open>Lemmas\<close>

text \<open>Some rule matches at every position.\<close>

lemma rules_cover:
  assumes "s \<noteq> []"
  shows "\<exists>n a. best_rule synop_rules s = Some (n, a) \<and> 0 < n"
proof -
  obtain c cs where s: "s = c # cs" using assms by (cases s) auto
  let ?first = "alts [r_icing, r_ice, r_value, r_ws, r_end]"
  have m: "matches ?first (take 1 s) \<or> matches r_word (take 1 s)"
    using matches_plus1 [of is_ws c] matches_plus1 [of "\<lambda>c. \<not> is_ws c" c] by (auto simp: s r_ws_def r_word_def)
  have mem: "(?first, None) \<in> set synop_rules" "(r_word, Some Text) \<in> set synop_rules" by (simp_all add: synop_rules_def)
  have long: "1 < k" if "shorter s k ?first" "shorter s k r_word" for k
    using that m by (auto simp: shorter_def s)
  show ?thesis
  proof (cases "best_rule synop_rules s")
    case None
    then show ?thesis using best_rule_None [OF None mem(1), of 0] best_rule_None [OF None mem(2), of 0] long [of 0] by simp
  next
    case (Some b)
    then obtain n a where b: "best_rule synop_rules s = Some (n, a)" by (cases b) auto
    from best_rule_spec [OF this] obtain pre r post where q: "synop_rules = pre @ (r, a) # post"
      "\<forall>q\<in>set pre. shorter s n (fst q)" "\<forall>q\<in>set ((r, a) # post). shorter s (Suc n) (fst q)" by blast
    have "shorter s (Suc n) (fst x)" if "x \<in> set synop_rules" for x
    proof -
      have "x \<in> set (pre @ (r, a) # post)" using that by (simp only: q(1))
      then show ?thesis using q(2,3) shorter_mono [of s n "fst x" "Suc n"] by auto
    qed
    from this [OF mem(1)] this [OF mem(2)] long [of "Suc n"] b show ?thesis by auto
  qed
qed

lemma lex_synop_step:
  assumes "s \<noteq> []"
  shows "\<exists>n a. best_rule synop_rules s = Some (n, a) \<and> 0 < n
    \<and> lex_synop s = (take n s, map_option (\<lambda>f. f (take n s)) a) # lex_synop (drop n s)"
proof -
  obtain n a where "best_rule synop_rules s = Some (n, a)" "0 < n" using rules_cover [OF assms] by blast
  then show ?thesis using assms lex_synop.simps [of s] by (auto simp: max_def)
qed

lemma lex_synop_partition: "concat (map fst (lex_synop s)) = s"
proof (induction s rule: lex_synop.induct)
  case (1 s)
  show ?case
  proof (cases "s = []")
    case False
    then obtain n a where n: "best_rule synop_rules s = Some (n, a)" "0 < n"
      "lex_synop s = (take n s, map_option (\<lambda>f. f (take n s)) a) # lex_synop (drop n s)" using lex_synop_step by blast
    then have "concat (map fst (lex_synop (drop n s))) = drop n s" using 1(2) [OF False n(1)] by (simp add: max_def)
    with n(3) show ?thesis by simp
  qed (simp add: lex_synop.simps)
qed

text \<open>The rule of sections only matches tokens that begin with a digit from 2.\<close>

lemma rules_section:
  assumes "(r, Some f) \<in> set synop_rules" "matches r u"
  shows "section_token (f u)"
proof -
  have *: "section_token (Section u)"
    if m: "matches (Seq (str ''222'') (Seq (times' 2 r_value) r_sep)) u \<or> matches (Seq r_section r_sep) u"
  proof -
    consider v where "u = ''222'' @ v" | w v where "u = w @ v" "w \<in> {''222'', ''333'', ''444'', ''555'', ''999''}"
      using m by (auto simp: r_section_def)
    then show ?thesis
      by cases (auto simp: section_token_def readToken_def char0_def char_digit_def slash_def schar_def)
  qed
  consider "f = Section" | "f \<in> {Trash, Token, Type, Text, IceToken, IceText, IcingText}"
    using assms(1) by (auto simp: synop_rules_def)
  then show ?thesis
  proof cases
    case 1
    have "Trash \<noteq> Section" "Token \<noteq> Section" "Type \<noteq> Section" "Text \<noteq> Section" "IceToken \<noteq> Section" "IceText \<noteq> Section"
      "IcingText \<noteq> Section"
      by (auto dest: fun_cong)
    then have "r = Seq (str ''222'') (Seq (times' 2 r_value) r_sep) \<or> r = Seq r_section r_sep"
      using assms(1) 1 by (auto simp: synop_rules_def simp del: str.simps)
    then show ?thesis using assms(2) 1 * by auto
  qed (auto simp: section_token_def)
qed

lemma lex_synop_sections: "(t, Some x) \<in> set (lex_synop s) \<Longrightarrow> section_token x"
proof (induction s rule: lex_synop.induct)
  case (1 s)
  show ?case
  proof (cases "s = []")
    case False
    then obtain n a where n: "best_rule synop_rules s = Some (n, a)" "0 < n"
      "lex_synop s = (take n s, map_option (\<lambda>f. f (take n s)) a) # lex_synop (drop n s)" using lex_synop_step by blast
    from best_rule_spec [OF n(1)] obtain pre r post where q: "synop_rules = pre @ (r, a) # post" "matches r (take n s)" by blast
    then have "(r, a) \<in> set synop_rules" by (metis in_set_conv_decomp)
    then have "section_token (f (take n s))" if "a = Some f" for f using rules_section q(2) that by blast
    moreover have "section_token x" if "(t, Some x) \<in> set (lex_synop (drop n s))"
      using 1(2) [OF False n(1)] that n(2) by (simp add: max_def)
    ultimately show ?thesis using 1(3) unfolding n(3) by (cases a) auto
  qed (use 1(3) in \<open>simp add: lex_synop.simps\<close>)
qed

lemma lex_actions_sections: "list_all section_token (lex_actions text)"
  by (auto simp: lex_actions_def list_all_iff dest: lex_synop_sections split: option.splits)

lemma lexSynop_ok: "report_ok (lexSynop text m)"
  using report_invariants [of "lex_actions text" "[]"] lex_actions_sections by (simp add: lexSynop_def)

section \<open>A report\<close>

lemma scan_example:
  "lex_actions ''AAXX 12004 01492 11570='' = [Type ''AAXX '', Token ''12004 '', Token ''01492 '', Token ''11570='']"
  by code_simp

lemmas read_defs = readToken_def char_digit_def char0_def slash_def schar_def atoi_def digits_val_def isspace_def
  isdigit_def syn_undef_def

text \<open>The state after the header: section 1 is open, day, hour and station are known.\<close>

definition after_header :: synop where
  "after_header = (new_synop False)\<lparr>element := 0, wunit := Some KT, sect := S111, raw := ''AAXX 12004 01492 '',
     pinfo := new_info\<lparr>YY := 12, GG := 0, IIiii := 1492\<rparr>\<rparr>"

lemma example_type: "run_action (Type ''AAXX '') (new_synop False) = (new_synop False)\<lparr>raw := ''AAXX ''\<rparr>"
  by (simp add: setType_def char0_def new_synop_def)

lemma example_time:
  "run_action (Token ''12004 '') ((new_synop False)\<lparr>raw := ''AAXX ''\<rparr>)
     = (new_synop False)\<lparr>raw := ''AAXX 12004 '', element := 1, wunit := Some KT, pinfo := new_info\<lparr>YY := 12, GG := 0\<rparr>\<rparr>"
  by (simp add: sortToken_def sort_by_section_def sort000Token_def sortSynop000Token_def setYYGGiw_def new_synop_def
      read_defs upd_info_def)

lemma example_station:
  "run_action (Token ''01492 '')
     ((new_synop False)\<lparr>raw := ''AAXX 12004 '', element := 1, wunit := Some KT, pinfo := new_info\<lparr>YY := 12, GG := 0\<rparr>\<rparr>)
     = after_header"
  by (simp add: sortToken_def sort_by_section_def sort000Token_def sortSynop000Token_def enter_section_def new_synop_def
      read_defs upd_info_def after_header_def)

lemmas group_defs = sortToken_def sort_by_section_def sort111Token_def new_synop_def read_defs after_header_def setToken_def
  setCloudBaseHeight_def setHorizontalVisibillity_def visibility_of_code_def setBuffer_def

lemma lexSynop_example:
  "lexSynop ''AAXX 12004 01492 11570='' False = run_action (Token ''11570='') after_header"
  by (simp add: lexSynop_def scan_example example_type example_time example_station del: run_action.simps)

lemma example_obs: "syn_obs (run_action (Token ''11570='') after_header) = [(9, 1), (10, 1), (55, 600), (273, 20000)]"
  by (simp add: group_defs)

section \<open>Properties\<close>

text \<open>
  The scanner takes the longest match of any rule and, among rules with the same match, the first; some rule
  matches at every position, and the texts of all matches together are the report.
\<close>

theorem longest_match_first_rule:
  assumes "s \<noteq> []"
  shows "\<exists>n r a pre post. lex_synop s = (take n s, map_option (\<lambda>f. f (take n s)) a) # lex_synop (drop n s) \<and> 0 < n
    \<and> synop_rules = pre @ (r, a) # post \<and> matches r (take n s)
    \<and> (\<forall>q\<in>set synop_rules. \<forall>m\<le>length s. matches (fst q) (take m s) \<longrightarrow> m \<le> n)
    \<and> (\<forall>q\<in>set pre. \<not> matches (fst q) (take n s)) \<and> concat (map fst (lex_synop s)) = s"
proof -
  obtain n a where n: "best_rule synop_rules s = Some (n, a)" "0 < n"
    "lex_synop s = (take n s, map_option (\<lambda>f. f (take n s)) a) # lex_synop (drop n s)" using lex_synop_step [OF assms] by blast
  from best_rule_spec [OF n(1)] obtain pre r post where q: "synop_rules = pre @ (r, a) # post" "n \<le> length s" "matches r (take n s)"
    "\<forall>q\<in>set pre. shorter s n (fst q)" "\<forall>q\<in>set ((r, a) # post). shorter s (Suc n) (fst q)" by blast
  have "m \<le> n" if "x \<in> set synop_rules" "m \<le> length s" "matches (fst x) (take m s)" for x m
  proof -
    have "x \<in> set (pre @ (r, a) # post)" using that(1) by (simp only: q(1))
    then show ?thesis using q(4,5) that(2,3) by (fastforce simp: shorter_def)
  qed
  moreover have "\<forall>q\<in>set pre. \<not> matches (fst q) (take n s)" using q(2,4) by (auto simp: shorter_def)
  ultimately show ?thesis using n(2,3) q(1,3) lex_synop_partition by blast
qed

theorem longest_match_first_rule_witness:
  "concat (map fst (lex_synop ''AAXX 12004='')) = ''AAXX 12004=''"
proof -
  have "''AAXX 12004='' \<noteq> []" by simp
  from longest_match_first_rule [OF this] show ?thesis by blast
qed



end
