(* ===== verification/Synop_Decoder.thy ===== *)
theory Synop_Decoder
  imports Synop_Lexer Kv_Data
begin

text \<open>
  The decoder of synoptic reports, \<^verbatim>\<open>src/lib/decoder/synopdecoder/kvSynopDecoder.cc\<close>: it finds the station and
  the time of a report that has been parsed (theory \<open>Synop_Lexer\<close>) and turns its values into data. The time library
  (\<^verbatim>\<open>puTools/miTime.h\<close>) is not part of the repository: the operations used of it are the record \<open>calendar\<close>. Both
  representations of a time in the code are the type \<open>'t\<close>.
\<close>

section \<open>Time of the observation\<close>

record 't calendar =
  mk_time :: "int \<Rightarrow> int \<Rightarrow> int \<Rightarrow> int \<Rightarrow> 't"
  t_year :: "'t \<Rightarrow> int"
  t_month :: "'t \<Rightarrow> int"
  t_day :: "'t \<Rightarrow> int"
  t_hour :: "'t \<Rightarrow> int"
  t_min :: "'t \<Rightarrow> int"
  addDay :: "int \<Rightarrow> 't \<Rightarrow> 't"
  minDiff :: "'t \<Rightarrow> 't \<Rightarrow> int"

definition firstDayNextMonth :: "'t calendar \<Rightarrow> 't \<Rightarrow> 't" where
  "firstDayNextMonth cal mi =
     (let ref = addDay cal 5 (mk_time cal (t_year cal mi) (t_month cal mi) 28 0)
      in mk_time cal (t_year cal ref) (t_month cal ref) 1 0)"

definition lastDayThisMonth :: "'t calendar \<Rightarrow> 't \<Rightarrow> 't" where
  "lastDayThisMonth cal mi = addDay cal (-1) (firstDayNextMonth cal mi)"

definition createObsTime :: "'t::linorder calendar \<Rightarrow> int \<Rightarrow> int \<Rightarrow> 't \<Rightarrow> 't" where
  "createObsTime cal day hour refTime =
     (let mon = t_month cal refTime; yea = t_year cal refTime;
          obsT = mk_time cal yea mon day hour;
          refT = addDay cal 10 refTime;
          lastDay = lastDayThisMonth cal refTime;
          obsT = (if t_day cal refTime = t_day cal lastDay \<and> t_day cal obsT = 1 \<and> t_month cal obsT = t_month cal refTime
            then (let newRef = addDay cal 1 lastDay in mk_time cal (t_year cal newRef) (t_month cal newRef) day hour)
            else obsT)
      in if refT < obsT then
           (if mon - 1 < 1 then mk_time cal (yea - 1) 12 day hour else mk_time cal yea (mon - 1) day hour)
         else obsT)"

section \<open>Stations\<close>

record 't station_row =
  st_stationID :: int
  st_call_sign :: string
  st_wmonr :: int
  st_fromtime :: 't

record 't synop_decoder =
  sd_ref :: 't
  continuous :: bool
  synopRegister :: "(int \<times> int) list"
  tempoRegister :: "(string \<times> int) list"
  shipRegister :: "(string \<times> int) list"
  needTmp :: bool
  lastTempoIndex :: int
  tstat :: "(int \<times> string \<times> 't) option"
  sd_early :: int
  sd_late :: int
  rejectComment :: string
  sd_hshsInMeter :: bool
  msgid :: string

text \<open>One station; \<open>acc\<close> are the begin times seen so far and the two registers.\<close>

definition register_station :: "'t::linorder \<Rightarrow> 't station_row \<Rightarrow> (int \<times> 't) list \<times> (int \<times> int) list \<times> (string \<times> int) list
    \<Rightarrow> (int \<times> 't) list \<times> (int \<times> int) list \<times> (string \<times> int) list" where
  "register_station now' st = (\<lambda>(fromtimes, synops, ships).
     let syno = st_wmonr st; from = st_fromtime st in
     if now' < from then (fromtimes, synops, ships)
     else if (case map_of fromtimes syno of Some f \<Rightarrow> from < f | None \<Rightarrow> False) then (fromtimes, synops, ships)
     else
       let fromtimes = (if 0 < syno then smap_put syno from fromtimes else fromtimes) in
       if st_stationID st = 0 then (fromtimes, synops, ships)
       else (fromtimes, if syno \<noteq> 0 then smap_put syno (st_stationID st) synops else synops,
             if st_call_sign st \<noteq> [] then smap_put (st_call_sign st) (st_stationID st) ships else ships))"

definition initialise :: "'t::linorder calendar \<Rightarrow> 't \<Rightarrow> 't station_row list \<Rightarrow> int \<Rightarrow> int \<Rightarrow> 't synop_decoder \<Rightarrow> bool \<times> 't synop_decoder" where
  "initialise cal now' kpos e l sd =
     (case fold (register_station now') kpos ([], [], []) of (fromtimes, synops, ships) \<Rightarrow>
        (\<not> (synops = [] \<and> ships = []),
         sd\<lparr>sd_ref := now', continuous := True, sd_early := - e, sd_late := l, synopRegister := synops,
            shipRegister := ships, tempoRegister := [],
            lastTempoIndex := t_month cal now' * 10000000 + t_day cal now' * 100000 + t_hour cal now' * 1000 + t_min cal now' * 10\<rparr>))"

definition setReferenceTime :: "'t \<Rightarrow> 't synop_decoder \<Rightarrow> 't synop_decoder" where
  "setReferenceTime r sd = sd\<lparr>sd_ref := r, continuous := False\<rparr>"

definition temporaryRegister :: "'t \<Rightarrow> string \<Rightarrow> 't synop_decoder \<Rightarrow> int \<times> 't synop_decoder" where
  "temporaryRegister now' uk sd =
     (case map_of (tempoRegister sd) uk of
        Some i \<Rightarrow> (i, sd)
      | None \<Rightarrow>
          let i = lastTempoIndex sd + 1
          in (i, sd\<lparr>lastTempoIndex := i, tempoRegister := smap_put uk i (tempoRegister sd), tstat := Some (i, uk, now'), needTmp := True\<rparr>))"

definition findStationid :: "'t \<Rightarrow> info \<Rightarrow> 't synop_decoder \<Rightarrow> int \<times> 't synop_decoder" where
  "findStationid now' i sd =
     (let land = IIiii i; boat = A1BwNb i; call = callSign i; sd = sd\<lparr>msgid := [], needTmp := False\<rparr> in
      if land \<noteq> 0 then
        (case map_of (synopRegister sd) land of Some st \<Rightarrow> (st, sd\<lparr>msgid := show_int land\<rparr>) | None \<Rightarrow> (0, sd\<lparr>msgid := show_int land\<rparr>))
      else
        let sd = (if call \<noteq> [] then sd\<lparr>msgid := call\<rparr> else sd) in
        if call \<noteq> [] \<and> call \<noteq> ''SHIP'' \<and> call \<noteq> ''SYNOP'' then
          (case map_of (shipRegister sd) call of Some st \<Rightarrow> (st, sd) | None \<Rightarrow> temporaryRegister now' call sd)
        else if boat \<noteq> 0 then temporaryRegister now' (show_int boat) (sd\<lparr>msgid := show_int boat\<rparr>)
        else (0, sd))"

section \<open>Decoding\<close>

definition checkObservationTime :: "'t calendar \<Rightarrow> 't synop_decoder \<Rightarrow> 't \<Rightarrow> 't \<Rightarrow> int" where
  "checkObservationTime cal sd tbt obt =
     (if \<not> continuous sd then 0
      else let diff = minDiff cal tbt obt in if diff < sd_early sd then 3 else if diff > sd_late sd then 4 else 0)"

text \<open>The value of the last element of a parameter, as \<^verbatim>\<open>int\<close>; \<open>int_max\<close> stands for none.\<close>

definition last_value :: "int \<Rightarrow> 't kvData list \<Rightarrow> int" where
  "last_value par dat = fold (\<lambda>d v. if paramID d = par then c_trunc (original d) else v) dat int_max"

text \<open>\<^verbatim>\<open>data.erase(ith)\<close>: the last element of the parameter 55.\<close>

fun erase_last :: "('a \<Rightarrow> bool) \<Rightarrow> 'a list \<Rightarrow> 'a list" where
  "erase_last p [] = []"
| "erase_last p (x # xs) = (if p x \<and> \<not> list_ex p xs then xs else x # erase_last p xs)"

definition correct_h_VV_N :: "'t kvData list \<Rightarrow> 't kvData list" where
  "correct_h_VV_N dat =
     (if last_value 55 dat = -3 \<and> (last_value 273 dat = int_max \<or> last_value 15 dat = int_max)
      then erase_last (\<lambda>d. paramID d = 55) dat else dat)"

definition synop_datum :: "'t \<Rightarrow> int \<Rightarrow> 't \<Rightarrow> int \<Rightarrow> int \<Rightarrow> int \<times> real \<Rightarrow> 't kvData" where
  "synop_datum obt pos tbt typ code = (\<lambda>(par, v).
     kvData_set_useinfo (kvData_set_original (kvData_clean tbt) pos obt v par tbt typ 0) 7 code)"

definition decode_synop :: "'t::linorder calendar \<Rightarrow> 't \<Rightarrow> string \<Rightarrow> 't synop_decoder \<Rightarrow> bool \<times> 't kvData list \<times> 't synop_decoder" where
  "decode_synop cal now' text sd =
     (let obs = lexSynop text (sd_hshsInMeter sd) in
      if stype obs = MOBIL then (False, [], sd\<lparr>rejectComment := ''MOBIL''\<rparr>)
      else if unrecognised obs \<noteq> [] then (False, [], sd\<lparr>rejectComment := unrecognised obs\<rparr>)
      else
        let sd = (if continuous sd then sd\<lparr>sd_ref := now'\<rparr> else sd);
            obt = createObsTime cal (YY (pinfo obs)) (GG (pinfo obs)) (sd_ref sd);
            (pos, sd) = findStationid now' (pinfo obs) sd;
            typ = synop_typeID obs
        in if pos = 0 then (False, [], sd\<lparr>rejectComment := ''unknown station/position''\<rparr>)
           else
             let code = (if typ = 11 then 0 else checkObservationTime cal sd now' obt);
                 entries = filter (\<lambda>(par, v). par \<noteq> 0 \<and> -5000 < v) (syn_obs obs)
             in (True, correct_h_VV_N (map (synop_datum obt pos now' typ code) entries), sd))"

section \<open>Lemmas\<close>

definition temp_ok :: "'t synop_decoder \<Rightarrow> bool" where
  "temp_ok sd \<longleftrightarrow> smap_ok (tempoRegister sd) \<and> inj_on (map_of (tempoRegister sd)) (fst ` set (tempoRegister sd))
     \<and> (\<forall>(k, i)\<in>set (tempoRegister sd). i \<le> lastTempoIndex sd)"

lemma temp_value: "temp_ok sd \<Longrightarrow> map_of (tempoRegister sd) k = Some i \<Longrightarrow> i \<le> lastTempoIndex sd"
  by (auto simp: temp_ok_def dest!: map_of_SomeD)

lemma temporaryRegister_ok:
  assumes "temp_ok sd"
  shows "case temporaryRegister t k sd of (i, sd') \<Rightarrow> temp_ok sd' \<and> map_of (tempoRegister sd') k = Some i
    \<and> (\<forall>k' i'. map_of (tempoRegister sd) k' = Some i' \<longrightarrow> map_of (tempoRegister sd') k' = Some i')"
proof (cases "map_of (tempoRegister sd) k")
  case None
  let ?i = "lastTempoIndex sd + 1" and ?m = "tempoRegister sd"
  have new: "k \<notin> fst ` set ?m" using None by (simp add: map_of_eq_None_iff)
  have "inj_on ((map_of ?m)(k \<mapsto> ?i)) (insert k (fst ` set ?m))"
  proof (rule inj_onI)
    fix x y
    assume xy: "x \<in> insert k (fst ` set ?m)" "y \<in> insert k (fst ` set ?m)" "((map_of ?m)(k \<mapsto> ?i)) x = ((map_of ?m)(k \<mapsto> ?i)) y"
    have b: "map_of ?m z \<noteq> Some ?i" for z using temp_value [OF assms, of z ?i] by auto
    show "x = y"
    proof (cases "x = k \<or> y = k")
      case True
      then show ?thesis using xy(3) b by (auto split: if_splits)
    next
      case False
      then have "map_of ?m x = map_of ?m y" "x \<in> fst ` set ?m" "y \<in> fst ` set ?m" using xy by auto
      then show ?thesis using assms by (auto simp: temp_ok_def inj_on_def)
    qed
  qed
  moreover have "\<forall>(k', i')\<in>set (smap_put k ?i ?m). i' \<le> ?i"
    using set_smap_put [of k ?i ?m] assms by (fastforce simp: temp_ok_def)
  ultimately show ?thesis
    using None assms by (auto simp: temporaryRegister_def temp_ok_def Let_def)
qed (use assms in \<open>simp add: temporaryRegister_def\<close>)

text \<open>The identities that a list of names gets, one after the other.\<close>

fun register_names :: "(string \<times> 't) list \<Rightarrow> 't synop_decoder \<Rightarrow> int list" where
  "register_names [] sd = []"
| "register_names ((k, t) # ks) sd = (case temporaryRegister t k sd of (i, sd') \<Rightarrow> i # register_names ks sd')"

lemma register_names_stable:
  assumes "temp_ok sd"
  shows "\<exists>m. length (register_names ks sd) = length ks \<and> inj_on m (dom m)
    \<and> (\<forall>k i. map_of (tempoRegister sd) k = Some i \<longrightarrow> m k = Some i)
    \<and> (\<forall>n<length ks. m (fst (ks ! n)) = Some (register_names ks sd ! n))"
  using assms
proof (induction ks sd rule: register_names.induct)
  case (1 sd)
  have "dom (map_of (tempoRegister sd)) = fst ` set (tempoRegister sd)" by (simp add: dom_map_of_conv_image_fst)
  then show ?case using 1 by (intro exI [of _ "map_of (tempoRegister sd)"]) (simp add: temp_ok_def)
next
  case (2 k t ks sd)
  obtain i sd' where r: "temporaryRegister t k sd = (i, sd')" by fastforce
  have s: "temp_ok sd'" "map_of (tempoRegister sd') k = Some i"
    "\<And>k' i'. map_of (tempoRegister sd) k' = Some i' \<Longrightarrow> map_of (tempoRegister sd') k' = Some i'"
    using temporaryRegister_ok [OF 2(2), where k = k and t = t] by (auto simp: r)
  from 2(1) [OF r [symmetric] s(1)] obtain m where m: "length (register_names ks sd') = length ks" "inj_on m (dom m)"
    "\<forall>k i. map_of (tempoRegister sd') k = Some i \<longrightarrow> m k = Some i" "\<forall>n<length ks. m (fst (ks ! n)) = Some (register_names ks sd' ! n)"
    by blast
  have "\<forall>n<length ((k, t) # ks). m (fst (((k, t) # ks) ! n)) = Some (register_names ((k, t) # ks) sd ! n)"
    using m(3,4) s(2) by (simp add: r All_less_Suc2)
  then show ?case using m(1-3) s(3) by (intro exI [of _ m]) (simp add: r)
qed

text \<open>The correction of the height of clouds.\<close>

lemma fold_last_value:
  "distinct (map paramID dat) \<Longrightarrow> fold (\<lambda>d v. if paramID d = par then c_trunc (original d) else v) dat z
     = (case find (\<lambda>d. paramID d = par) dat of None \<Rightarrow> z | Some d \<Rightarrow> c_trunc (original d))"
proof (induction dat arbitrary: z)
  case (Cons d ds)
  have "find (\<lambda>x. paramID x = par) ds = None" if "paramID d = par"
    using that Cons.prems by (simp add: find_None_iff) (metis imageI)
  then show ?case using Cons by auto
qed simp

lemma erase_last_unique:
  "distinct (map paramID dat) \<Longrightarrow> erase_last (\<lambda>d. paramID d = par) dat = filter (\<lambda>d. paramID d \<noteq> par) dat"
proof (induction dat)
  case (Cons d ds)
  have "\<not> list_ex (\<lambda>x. paramID x = par) ds \<and> filter (\<lambda>x. paramID x \<noteq> par) ds = ds" if "paramID d = par"
    using that Cons.prems by (simp add: list_ex_iff filter_id_conv) (metis imageI)
  then show ?case using Cons by auto
qed simp

definition entry_value :: "int \<Rightarrow> (int \<times> real) list \<Rightarrow> int" where
  "entry_value par es = (case map_of es par of None \<Rightarrow> int_max | Some v \<Rightarrow> c_trunc v)"

lemma find_datum:
  "find (\<lambda>d. paramID d = par) (map (synop_datum obt pos tbt typ code) es)
     = map_option (\<lambda>v. synop_datum obt pos tbt typ code (par, v)) (map_of es par)"
  by (induction es) (auto simp: synop_datum_def kvData_set_useinfo_def kvData_set_original_def)

lemma datum_values:
  "paramID (synop_datum obt pos tbt typ code e) = fst e" "original (synop_datum obt pos tbt typ code e) = snd e"
  "stationID (synop_datum obt pos tbt typ code e) = pos" "typeID (synop_datum obt pos tbt typ code e) = typ"
  "obstime (synop_datum obt pos tbt typ code e) = obt" "tbtime (synop_datum obt pos tbt typ code e) = tbt"
  "corrected (synop_datum obt pos tbt typ code e) = snd e"
  by (cases e; simp add: synop_datum_def kvData_set_useinfo_def kvData_set_original_def)+

text \<open>Which values of a report are stored: those of a parameter, unless they stand for a missing value.\<close>

definition stored_entries :: "(int \<times> real) list \<Rightarrow> (int \<times> real) list" where
  "stored_entries obs =
     (let es = filter (\<lambda>(par, v). par \<noteq> 0 \<and> -5000 < v) obs;
          drop_h = (entry_value 55 es = -3 \<and> (entry_value 273 es = int_max \<or> entry_value 15 es = int_max))
      in filter (\<lambda>(par, v). par = 55 \<longrightarrow> \<not> drop_h) es)"

lemma correct_h_values:
  assumes "distinct (map fst es)"
  shows "correct_h_VV_N (map (synop_datum obt pos tbt typ code) es) = map (synop_datum obt pos tbt typ code)
    (filter (\<lambda>(par, v). par = 55 \<longrightarrow> \<not> (entry_value 55 es = -3 \<and> (entry_value 273 es = int_max \<or> entry_value 15 es = int_max))) es)"
proof -
  let ?d = "map (synop_datum obt pos tbt typ code) es"
  have dist: "distinct (map paramID ?d)" using assms by (simp add: comp_def datum_values)
  have v: "last_value par ?d = entry_value par es" for par
    using fold_last_value [OF dist] by (simp add: last_value_def find_datum entry_value_def datum_values split: option.split)
  show ?thesis
    unfolding correct_h_VV_N_def v using erase_last_unique [OF dist]
    by (auto simp: filter_map comp_def datum_values case_prod_beta intro!: filter_cong [OF refl] arg_cong [where f = "map _"])
qed

lemma findStationid_ref: "fst (findStationid t i (sd\<lparr>sd_ref := r\<rparr>)) = fst (findStationid t i sd)"
  by (simp add: findStationid_def temporaryRegister_def Let_def split: option.split)

lemma decode_synop_cases:
  fixes now' :: "'t::linorder"
  shows "\<exists>obt code sd'. decode_synop cal now' text sd =
    (let obs = lexSynop text (sd_hshsInMeter sd); pos = fst (findStationid now' (pinfo obs) sd) in
     if stype obs = MOBIL \<or> unrecognised obs \<noteq> [] \<or> pos = 0 then (False, [], sd')
     else (True, map (synop_datum obt pos now' (synop_typeID obs) code) (stored_entries (syn_obs obs)), sd'))"
proof -
  let ?obs = "lexSynop text (sd_hshsInMeter sd)"
  let ?es = "filter (\<lambda>(par, v). par \<noteq> 0 \<and> -5000 < v) (syn_obs ?obs)"
  have "distinct (map fst (syn_obs ?obs))" using lexSynop_ok smap_ok_distinct unfolding report_ok_def by blast
  then have dist: "distinct (map fst ?es)" by (rule distinct_map_filter)
  let ?sd = "if continuous sd then sd\<lparr>sd_ref := now'\<rparr> else sd"
  have ref: "fst (findStationid now' (pinfo ?obs) ?sd) = fst (findStationid now' (pinfo ?obs) sd)"
    by (simp add: findStationid_ref)
  obtain pos sd1 where f: "findStationid now' (pinfo ?obs) ?sd = (pos, sd1)" by fastforce
  with ref have pos: "fst (findStationid now' (pinfo ?obs) sd) = pos" by simp
  show ?thesis
  proof (cases "stype ?obs = MOBIL \<or> unrecognised ?obs \<noteq> [] \<or> pos = 0")
    case True
    then show ?thesis using f pos by (auto simp: decode_synop_def Let_def)
  next
    case False
    let ?obt = "createObsTime cal (YY (pinfo ?obs)) (GG (pinfo ?obs)) (sd_ref ?sd)"
    let ?code = "if synop_typeID ?obs = 11 then 0 else checkObservationTime cal sd1 now' ?obt"
    have "decode_synop cal now' text sd
        = (True, correct_h_VV_N (map (synop_datum ?obt pos now' (synop_typeID ?obs) ?code) ?es), sd1)"
      using False f by (simp add: decode_synop_def Let_def)
    also have "correct_h_VV_N (map (synop_datum ?obt pos now' (synop_typeID ?obs) ?code) ?es)
        = map (synop_datum ?obt pos now' (synop_typeID ?obs) ?code) (stored_entries (syn_obs ?obs))"
      unfolding correct_h_values [OF dist] stored_entries_def Let_def by (rule HOL.refl)
    finally show ?thesis
      using False pos by (intro exI [of _ ?obt] exI [of _ ?code] exI [of _ sd1]) (simp add: Let_def)
  qed
qed

lemma sorted_filter: "sorted_wrt (<) (map f xs) \<Longrightarrow> sorted_wrt (<) (map f (filter P xs))"
  by (induction xs) auto

section \<open>Properties\<close>


definition demo_stations :: "int synop_decoder" where
  "demo_stations = \<lparr>sd_ref = 0, continuous = False, synopRegister = [(1492, 700)], tempoRegister = [], shipRegister = [],
     needTmp = False, lastTempoIndex = 100, tstat = None, sd_early = 0, sd_late = 0, rejectComment = [],
     sd_hshsInMeter = False, msgid = []\<rparr>"

definition demo_calendar :: "int calendar" where
  "demo_calendar = \<lparr>mk_time = \<lambda>y m d h. ((y * 12 + m) * 31 + d) * 24 + h, t_year = \<lambda>t. t div 24 div 31 div 12,
     t_month = \<lambda>t. t div 24 div 31 mod 12, t_day = \<lambda>t. t div 24 mod 31, t_hour = \<lambda>t. t mod 24, t_min = \<lambda>t. 0,
     addDay = \<lambda>d t. t + 24 * d, minDiff = \<lambda>a b. 60 * (a - b)\<rparr>"


text \<open>
  Ships and mobile stations without an entry in the station table get temporary identities: whatever the names
  in a sequence of reports, equal names get the same identity and different names different ones.
\<close>

theorem temporary_stations_distinct:
  assumes "temp_ok sd" "m < length names" "n < length names"
  shows "register_names names sd ! m = register_names names sd ! n \<longleftrightarrow> fst (names ! m) = fst (names ! n)"
proof -
  obtain f where f: "inj_on f (dom f)" "\<forall>n<length names. f (fst (names ! n)) = Some (register_names names sd ! n)"
    using register_names_stable [OF assms(1)] by blast
  have "f (fst (names ! m)) = Some (register_names names sd ! m)" "f (fst (names ! n)) = Some (register_names names sd ! n)"
    using f(2) assms(2,3) by blast+
  with f(1) show ?thesis by (auto simp: inj_on_def dom_def)
qed

theorem temporary_stations_distinct_witness:
  "register_names [(''LDWR'', 0), (''LEXX'', 1), (''LDWR'', 2)] demo_stations ! 0
     = register_names [(''LDWR'', 0), (''LEXX'', 1), (''LDWR'', 2)] demo_stations ! 2"
  using temporary_stations_distinct [of demo_stations 0 "[(''LDWR'', 0), (''LEXX'', 1), (''LDWR'', 2)]" 2]
  by (simp add: temp_ok_def demo_stations_def)

end
