(* ===== verification/Conf_Value.thy ===== *)
theory Conf_Value
  imports Text_Util Decode_Codes
begin

text \<open>
  Values of the configuration, \<^verbatim>\<open>src/lib/miconfparser/valelement.cc\<close>, \<^verbatim>\<open>valelement.h\<close> and \<^verbatim>\<open>trimstr.cc\<close>: a value is
  text with a type, read as a number or a truth value on demand; a key has a list of values. \<open>None\<close> is the exception
  of a value of the wrong type. The conversions of Boost, which read the text of other types than numbers, are
  arguments. A number of type \<^verbatim>\<open>FLOAT\<close> is read as the scanner writes it, without exponent; floating-point values are
  real numbers. The characters around a list, which the library keeps in global variables, are an argument.
\<close>

section \<open>Text\<close>

definition conf_trimset :: string where
  "conf_trimset = [CHR '' '', CHR 0x0A, CHR 0x0D, CHR 0x09]"

definition conf_trimstr :: "string \<Rightarrow> string \<Rightarrow> string" where
  "conf_trimstr cs s = rev (dropWhile (\<lambda>c. c \<in> set cs) (rev (dropWhile (\<lambda>c. c \<in> set cs) s)))"

text \<open>Runs of blanks become one blank.\<close>

function squeeze :: "string \<Rightarrow> string" where
  "squeeze [] = []"
| "squeeze (c # cs) = c # squeeze (if c = CHR '' '' then dropWhile (\<lambda>x. x = CHR '' '') cs else cs)"
  by pat_completeness auto
termination
  by (relation "measure length") (auto simp: le_imp_less_Suc length_dropWhile_le)

definition compress :: "string \<Rightarrow> string" where
  "compress s = squeeze (map (\<lambda>c. if c \<in> {CHR 0x0A, CHR 0x09, CHR 0x0D} then CHR '' '' else c) (conf_trimstr conf_trimset s))"

section \<open>Numbers\<close>

definition long_min :: int where
  "long_min = - 9223372036854775808"

definition long_max :: int where
  "long_max = 9223372036854775807"

text \<open>\<^verbatim>\<open>sscanf\<close> with \<^verbatim>\<open>%ld\<close>; out of range the nearest number is read.\<close>

definition scan_long :: "string \<Rightarrow> int option" where
  "scan_long s =
     (let t = dropWhile isspace s; u = (if t \<noteq> [] \<and> hd t \<in> {CHR ''+'', CHR ''-''} then tl t else t) in
      if u = [] \<or> \<not> isdigit (hd u) then None else Some (max long_min (min long_max (atoi s))))"

text \<open>\<^verbatim>\<open>sscanf\<close> with \<^verbatim>\<open>%lf\<close>, for numbers without exponent.\<close>

definition scan_double :: "string \<Rightarrow> real option" where
  "scan_double s =
     (let t = dropWhile isspace s; neg = (t \<noteq> [] \<and> hd t = CHR ''-'');
          u = (if t \<noteq> [] \<and> hd t \<in> {CHR ''+'', CHR ''-''} then tl t else t);
          ip = takeWhile isdigit u; r = dropWhile isdigit u;
          fp = (if r \<noteq> [] \<and> hd r = CHR ''.'' then takeWhile isdigit (tl r) else []);
          v = of_int (digits_val ip) + of_int (digits_val fp) / 10 ^ length fp
      in if ip = [] \<and> fp = [] then None else Some (if neg then - v else v))"

section \<open>Values\<close>

datatype ValType = VUndef | VId | VInt | VFloat | VString | VNil

record ValElement =
  valType :: ValType
  vtext :: string

definition undef_val :: ValElement where
  "undef_val = \<lparr>valType = VUndef, vtext = []\<rparr>"

definition mk_val :: "string \<Rightarrow> ValType \<Rightarrow> ValElement" where
  "mk_val v ty = \<lparr>valType = ty, vtext = compress (conf_trimstr conf_trimset v)\<rparr>"

definition val_of_string :: "string \<Rightarrow> ValElement" where
  "val_of_string v = mk_val v VString"

definition val_of_long :: "int \<Rightarrow> ValElement" where
  "val_of_long l = \<lparr>valType = VInt, vtext = show_int l\<rparr>"

definition setAsNil :: "ValElement \<Rightarrow> ValElement" where
  "setAsNil v = v\<lparr>valType := VNil, vtext := []\<rparr>"

definition valAsInt :: "(string \<Rightarrow> int option) \<Rightarrow> ValElement \<Rightarrow> int option" where
  "valAsInt cast_long v =
     (case valType v of
        VInt \<Rightarrow> scan_long (vtext v)
      | VFloat \<Rightarrow> Some \<lfloor>(case scan_double (vtext v) of None \<Rightarrow> 0 | Some d \<Rightarrow> d) + 1 / 2\<rfloor>
      | _ \<Rightarrow> cast_long (vtext v))"

definition valAsInt_default :: "(string \<Rightarrow> int option) \<Rightarrow> int \<Rightarrow> ValElement \<Rightarrow> int" where
  "valAsInt_default cast_long d v = (case valAsInt cast_long v of None \<Rightarrow> d | Some l \<Rightarrow> l)"

definition valAsBool :: "ValElement \<Rightarrow> bool option" where
  "valAsBool v =
     (if (valType v = VId \<or> valType v = VString) \<and> vtext v \<noteq> [] then
        (if hd (vtext v) = CHR ''t'' \<or> hd (vtext v) = CHR ''T'' then Some True
         else if hd (vtext v) = CHR ''f'' \<or> hd (vtext v) = CHR ''F'' then Some False
         else None)
      else None)"

definition valAsBool_default :: "bool \<Rightarrow> ValElement \<Rightarrow> bool" where
  "valAsBool_default d v = (case valAsBool v of None \<Rightarrow> d | Some b \<Rightarrow> b)"

definition valAsFloat :: "(string \<Rightarrow> real option) \<Rightarrow> ValElement \<Rightarrow> real option" where
  "valAsFloat cast_double v =
     (case valType v of
        VInt \<Rightarrow> map_option of_int (scan_long (vtext v))
      | VFloat \<Rightarrow> Some (case scan_double (vtext v) of None \<Rightarrow> 0 | Some d \<Rightarrow> d)
      | _ \<Rightarrow> cast_double (vtext v))"

definition valAsFloat_default :: "(string \<Rightarrow> real option) \<Rightarrow> real \<Rightarrow> ValElement \<Rightarrow> real" where
  "valAsFloat_default cast_double d v = (case valAsFloat cast_double v of None \<Rightarrow> d | Some x \<Rightarrow> x)"

text \<open>A quote in the text of a string is escaped.\<close>

definition escape_quotes :: "string \<Rightarrow> string" where
  "escape_quotes s = concat (map (\<lambda>c. if c = CHR 0x22 then [CHR 0x5C, CHR 0x22] else [c]) s)"

definition val_toString :: "bool \<Rightarrow> ValElement \<Rightarrow> string option" where
  "val_toString quoted v =
     (if valType v = VUndef then None
      else if valType v = VNil then Some ''nil''
      else if valType v \<noteq> VString \<and> \<not> quoted then Some (vtext v)
      else Some (CHR 0x22 # (if valType v = VString then escape_quotes (vtext v) else vtext v) @ [CHR 0x22]))"

section \<open>Lists of values\<close>

record ValElementList =
  elems :: "ValElement list"
  isList_flag :: bool
  isNil :: bool

definition new_list :: ValElementList where
  "new_list = \<lparr>elems = [], isList_flag = False, isNil = True\<rparr>"

definition vl_isList :: "ValElementList \<Rightarrow> bool" where
  "vl_isList l \<longleftrightarrow> length (elems l) > 1 \<or> isList_flag l"

definition vl_set_isList :: "bool \<Rightarrow> ValElementList \<Rightarrow> ValElementList" where
  "vl_set_isList b l = (if length (elems l) > 1 then l\<lparr>isList_flag := True\<rparr> else l\<lparr>isList_flag := b\<rparr>)"

text \<open>A value that is no list is replaced by the next one.\<close>

definition vl_push_back :: "ValElement \<Rightarrow> ValElementList \<Rightarrow> ValElementList" where
  "vl_push_back v l =
     (let l = l\<lparr>isNil := False\<rparr> in
      if isList_flag l \<or> elems l = [] then l\<lparr>elems := elems l @ [v]\<rparr> else l\<lparr>elems := v # tl (elems l)\<rparr>)"

definition vl_push_front :: "ValElement \<Rightarrow> ValElementList \<Rightarrow> ValElementList" where
  "vl_push_front v l =
     (let l = l\<lparr>isNil := False\<rparr> in
      if isList_flag l \<or> elems l = [] then l\<lparr>elems := v # elems l\<rparr> else l\<lparr>elems := v # tl (elems l)\<rparr>)"

definition vl_setAsNil :: "ValElementList \<Rightarrow> ValElementList" where
  "vl_setAsNil l = l\<lparr>isList_flag := False, isNil := True, elems := []\<rparr>"

definition vl_at :: "ValElementList \<Rightarrow> int \<Rightarrow> ValElement option" where
  "vl_at l i = (if i < 0 \<or> int (length (elems l)) \<le> i then None else Some (elems l ! nat i))"

definition vl_asString :: "string \<Rightarrow> int \<Rightarrow> ValElementList \<Rightarrow> string" where
  "vl_asString d i l = (case vl_at l i of None \<Rightarrow> d | Some v \<Rightarrow> if vtext v = [] then d else vtext v)"

definition vl_asInt :: "(string \<Rightarrow> int option) \<Rightarrow> int \<Rightarrow> int \<Rightarrow> ValElementList \<Rightarrow> int" where
  "vl_asInt cast_long d i l = (case vl_at l i of None \<Rightarrow> d | Some v \<Rightarrow> valAsInt_default cast_long d v)"

definition vl_asBool :: "bool \<Rightarrow> int \<Rightarrow> ValElementList \<Rightarrow> bool" where
  "vl_asBool d i l = (case vl_at l i of None \<Rightarrow> d | Some v \<Rightarrow> valAsBool_default d v)"

definition vl_asFloat :: "(string \<Rightarrow> real option) \<Rightarrow> real \<Rightarrow> int \<Rightarrow> ValElementList \<Rightarrow> real" where
  "vl_asFloat cast_double d i l = (case vl_at l i of None \<Rightarrow> d | Some v \<Rightarrow> valAsFloat_default cast_double d v)"

section \<open>Output\<close>

definition setListChars :: "string \<Rightarrow> char \<times> char \<Rightarrow> bool \<times> (char \<times> char)" where
  "setListChars s lc = (if length s \<noteq> 2 then (False, lc) else (True, (s ! 0, s ! 1)))"

definition getListChars :: "char \<times> char \<Rightarrow> string" where
  "getListChars lc = [fst lc, snd lc]"

definition show_val :: "ValElement \<Rightarrow> string" where
  "show_val v = (case val_toString False v of None \<Rightarrow> [] | Some s \<Rightarrow> s)"

definition show_vals :: "char \<times> char \<Rightarrow> ValElementList \<Rightarrow> string" where
  "show_vals lc l =
     (case elems l of
        [] \<Rightarrow> if vl_isList l then getListChars lc else if isNil l then ''nil'' else []
      | v # vs \<Rightarrow>
          if vs \<noteq> [] then fst lc # show_val v @ concat (map (\<lambda>w. CHR '','' # show_val w) vs) @ [snd lc]
          else if vl_isList l then fst lc # show_val v @ [snd lc]
          else show_val v)"

end
