(* ===== verification/Conf_Section.thy ===== *)
theory Conf_Section
  imports Conf_Value
begin

text \<open>
  Sections of the configuration, \<^verbatim>\<open>src/lib/miconfparser/confsection.cc\<close>: a tree of named sections with the values of
  their keys. Both maps of a section are ordered by name; more than one section may have the same name. A path of
  names is text with dots. Sections are values here: a pointer into the tree is the subtree. The null pointer is
  \<open>None\<close>.
\<close>

record ConfSectionPimpel =
  allowMultiple :: bool
  cs_lineno :: int
  cs_filename :: string
  cs_ignore :: bool

datatype ConfSection = ConfSection
  (pimpel: ConfSectionPimpel)
  (sectionList: "(string \<times> ConfSection list) list")
  (valueList: "(string \<times> ValElementList) list")

definition new_section :: "bool \<Rightarrow> string \<Rightarrow> int \<Rightarrow> ConfSection" where
  "new_section multiple file line = ConfSection \<lparr>allowMultiple = multiple, cs_lineno = line, cs_filename = file, cs_ignore = False\<rparr> [] []"

definition ignoreThisSection :: "bool \<Rightarrow> ConfSection \<Rightarrow> ConfSection" where
  "ignoreThisSection f s = ConfSection ((pimpel s)\<lparr>cs_ignore := f\<rparr>) (sectionList s) (valueList s)"

definition sectionExist :: "string \<Rightarrow> ConfSection \<Rightarrow> bool" where
  "sectionExist name s = (map_of (sectionList s) name \<noteq> None)"

definition addSection :: "string \<Rightarrow> ConfSection \<Rightarrow> bool \<Rightarrow> ConfSection \<Rightarrow> bool \<times> ConfSection" where
  "addSection name cs replaceIfExist s =
     (let put = (\<lambda>l. ConfSection (pimpel s) (smap_put name l (sectionList s)) (valueList s)) in
      case map_of (sectionList s) name of
        Some l \<Rightarrow>
          if replaceIfExist then (True, put [cs])
          else if allowMultiple (pimpel s) then (True, put (l @ [cs]))
          else (False, s)
      | None \<Rightarrow> (True, put [cs]))"

definition addValues :: "string \<Rightarrow> ValElementList \<Rightarrow> bool \<Rightarrow> ConfSection \<Rightarrow> bool \<times> ConfSection" where
  "addValues key l replaceIfExist s =
     (if map_of (valueList s) key \<noteq> None \<and> \<not> replaceIfExist then (False, s)
      else (True, ConfSection (pimpel s) (sectionList s) (smap_put key l (valueList s))))"

definition addValue :: "string \<Rightarrow> ValElement \<Rightarrow> bool \<Rightarrow> ConfSection \<Rightarrow> bool \<times> ConfSection" where
  "addValue key v replaceIfExist s = addValues key (vl_push_back v new_list) replaceIfExist s"

definition appendValue :: "string \<Rightarrow> ValElement \<Rightarrow> ConfSection \<Rightarrow> ConfSection" where
  "appendValue key v s =
     (let l = (case map_of (valueList s) key of
                 Some l \<Rightarrow> vl_push_back v (vl_set_isList True l)
               | None \<Rightarrow> vl_push_back v new_list)
      in ConfSection (pimpel s) (sectionList s) (smap_put key l (valueList s)))"

section \<open>Lookup\<close>

definition path_set :: string where
  "path_set = [CHR '' '', CHR 0x0A, CHR 0x0D, CHR 0x09, CHR ''.'']"

definition dot :: "char \<Rightarrow> bool" where
  "dot c \<longleftrightarrow> c = CHR ''.''"

lemma dropWhile_tail_less: "x # r = dropWhile P cs \<Longrightarrow> length r < length cs"
  using length_dropWhile_le [of P cs] by (metis Suc_le_lessD length_Cons)

text \<open>\<open>moved\<close>: the current section is no longer the one the search began with.\<close>

function get_section_loop :: "bool \<Rightarrow> ConfSection \<Rightarrow> string \<Rightarrow> ConfSection option" where
  "get_section_loop moved s cs =
     (let name = takeWhile (\<lambda>c. \<not> dot c) cs; rest = dropWhile (\<lambda>c. \<not> dot c) cs in
      if name = [] then (if moved then Some s else None)
      else case map_of (sectionList s) name of
        None \<Rightarrow> None
      | Some l \<Rightarrow>
          let (moved, s) = (case l of [] \<Rightarrow> (moved, s) | x # _ \<Rightarrow> (True, x)) in
          case rest of [] \<Rightarrow> Some s | _ # r \<Rightarrow> get_section_loop moved s r)"
  by pat_completeness auto
termination
  by (relation "measure (\<lambda>(moved, s, cs). length cs)")
    (auto intro: dropWhile_tail_less)

declare get_section_loop.simps [simp del]

definition getSection :: "ConfSection \<Rightarrow> string \<Rightarrow> ConfSection option" where
  "getSection s path = (let cs = conf_trimstr path_set path in if cs = [] then Some s else get_section_loop False s cs)"

function get_all_loop :: "bool \<Rightarrow> ConfSection \<Rightarrow> ConfSection list \<Rightarrow> string \<Rightarrow> ConfSection list" where
  "get_all_loop moved s found cs =
     (let name = takeWhile (\<lambda>c. \<not> dot c) cs; rest = dropWhile (\<lambda>c. \<not> dot c) cs in
      if name = [] then (if moved then found else [])
      else case map_of (sectionList s) name of
        None \<Rightarrow> []
      | Some l \<Rightarrow>
          let (moved, s, found) = (case l of [] \<Rightarrow> (moved, s, found) | x # _ \<Rightarrow> (True, x, l)) in
          case rest of [] \<Rightarrow> found | _ # r \<Rightarrow> get_all_loop moved s found r)"
  by pat_completeness auto
termination
  by (relation "measure (\<lambda>(moved, s, found, cs). length cs)")
    (auto intro: dropWhile_tail_less)

declare get_all_loop.simps [simp del]

definition getAllSection :: "ConfSection \<Rightarrow> string \<Rightarrow> ConfSection list" where
  "getAllSection s path = (let cs = conf_trimstr path_set path in if cs = [] then [] else get_all_loop False s [] cs)"

text \<open>The parts of a text in front of and behind its last dot.\<close>

definition before_last_dot :: "string \<Rightarrow> string" where
  "before_last_dot s = (if list_ex dot s then rev (tl (dropWhile (\<lambda>c. \<not> dot c) (rev s))) else [])"

definition after_last_dot :: "string \<Rightarrow> string" where
  "after_last_dot s = rev (takeWhile (\<lambda>c. \<not> dot c) (rev s))"

definition getValue :: "ConfSection \<Rightarrow> string \<Rightarrow> ValElementList" where
  "getValue s key =
     (let k = conf_trimstr path_set key in
      if k = [] then new_list
      else case getSection s (before_last_dot k) of
        None \<Rightarrow> new_list
      | Some x \<Rightarrow> (case map_of (valueList x) (after_last_dot k) of None \<Rightarrow> new_list | Some l \<Rightarrow> l))"

text \<open>The loop of the search in the enclosing sections, \<open>n\<close> times.\<close>

fun get_value_up :: "nat \<Rightarrow> ConfSection \<Rightarrow> string \<Rightarrow> string \<Rightarrow> (ValElementList \<times> string) option" where
  "get_value_up 0 s sec key = None"
| "get_value_up (Suc n) s sec key =
     (let v = getValue s (if sec = [] then key else sec @ ''.'' @ key) in
      if elems v \<noteq> [] then Some (v, sec)
      else get_value_up n s (before_last_dot sec) key)"

definition getValueRecursivt :: "ConfSection \<Rightarrow> string \<Rightarrow> string \<Rightarrow> ValElementList \<Rightarrow> ValElementList \<times> string option" where
  "getValueRecursivt s startInSection key d =
     (let n = length (filter dot startInSection); n = (if n \<noteq> 0 \<or> startInSection \<noteq> [] then n + 1 else n) in
      case get_value_up (n + 1) s startInSection key of Some (v, sec) \<Rightarrow> (v, Some sec) | None \<Rightarrow> (d, None))"

definition getKeys :: "ConfSection \<Rightarrow> string list" where
  "getKeys s = map fst (valueList s)"

definition getSubSections :: "ConfSection \<Rightarrow> string list" where
  "getSubSections s = map fst (sectionList s)"

section \<open>Ignored sections\<close>

fun deleteAllIgnored :: "ConfSection \<Rightarrow> ConfSection"
  and delete_in_entries :: "(string \<times> ConfSection list) list \<Rightarrow> (string \<times> ConfSection list) list"
  and delete_in_list :: "ConfSection list \<Rightarrow> ConfSection list" where
  "deleteAllIgnored (ConfSection p secs vals) = ConfSection p (delete_in_entries secs) vals"
| "delete_in_entries [] = []"
| "delete_in_entries ((n, l) # es) =
     (let l = delete_in_list l in if l = [] then delete_in_entries es else (n, l) # delete_in_entries es)"
| "delete_in_list [] = []"
| "delete_in_list (s # ss) = (if cs_ignore (pimpel s) then delete_in_list ss else deleteAllIgnored s # delete_in_list ss)"

section \<open>Output\<close>

definition sectionCount :: "(string \<times> int) list \<Rightarrow> string \<Rightarrow> int \<times> (string \<times> int) list" where
  "sectionCount counts name =
     (case map_of counts name of
        None \<Rightarrow> (0, smap_put name 0 counts)
      | Some n \<Rightarrow> (n + 1, smap_put name (n + 1) counts))"

text \<open>The name under which the next section of a name is printed; the list characters \<^verbatim>\<open>[]\<close> stand for HOCON.\<close>

definition next_name :: "char \<times> char \<Rightarrow> bool \<Rightarrow> (string \<times> int) list \<Rightarrow> string \<Rightarrow> string \<times> (string \<times> int) list" where
  "next_name lc multiple counts name =
     (if multiple \<and> getListChars lc = ''[]'' then
        (case sectionCount counts name of (n, counts') \<Rightarrow> (if n > 0 then name @ ''_'' @ show_int n else name, counts'))
      else (name, counts))"

definition nl :: string where
  "nl = [CHR 0x0A]"

definition indent :: "bool \<Rightarrow> nat \<Rightarrow> string" where
  "indent pritty nSpace = replicate (if pritty then nSpace else 0) (CHR '' '')"

definition print_values :: "char \<times> char \<Rightarrow> string \<Rightarrow> (string \<times> ValElementList) list \<Rightarrow> string" where
  "print_values lc space vals = concat (map (\<lambda>(k, l). space @ k @ ''='' @ show_vals lc l @ nl) vals)"

fun print_section :: "char \<times> char \<Rightarrow> nat \<Rightarrow> bool \<Rightarrow> ConfSection \<Rightarrow> string"
  and print_entries :: "char \<times> char \<Rightarrow> bool \<Rightarrow> nat \<Rightarrow> bool \<Rightarrow> (string \<times> int) list \<Rightarrow> (string \<times> ConfSection list) list \<Rightarrow> string"
  and print_sections :: "char \<times> char \<Rightarrow> bool \<Rightarrow> nat \<Rightarrow> bool \<Rightarrow> (string \<times> int) list \<Rightarrow> string \<Rightarrow> ConfSection list
    \<Rightarrow> string \<times> (string \<times> int) list" where
  "print_section lc nSpace pritty (ConfSection p secs vals) =
     print_values lc (indent pritty nSpace) vals @ (if pritty \<and> secs \<noteq> [] then nl else [])
     @ print_entries lc (allowMultiple p) nSpace pritty [] secs"
| "print_entries lc multiple nSpace pritty counts [] = []"
| "print_entries lc multiple nSpace pritty counts ((name, l) # es) =
     (case print_sections lc multiple nSpace pritty counts name l of
        (t, counts') \<Rightarrow> t @ (if pritty \<and> es \<noteq> [] then nl else []) @ print_entries lc multiple nSpace pritty counts' es)"
| "print_sections lc multiple nSpace pritty counts name [] = ([], counts)"
| "print_sections lc multiple nSpace pritty counts name (s # ss) =
     (case next_name lc multiple counts name of
        (name', counts') \<Rightarrow>
          (case print_sections lc multiple nSpace pritty counts' name' ss of
             (t, counts'') \<Rightarrow>
               (indent pritty nSpace @ name' @ '' {'' @ nl @ print_section lc (nSpace + 3) True s @ indent pritty nSpace @ ''}'' @ nl @ t,
                counts'')))"

definition conf_print :: "char \<times> char \<Rightarrow> bool \<Rightarrow> ConfSection \<Rightarrow> string" where
  "conf_print lc pritty s = print_section lc 0 pritty s"

end
