(* ===== verification/Conf_Parser.thy ===== *)
theory Conf_Parser
  imports Conf_Section
begin

text \<open>
  The parser of the configuration, \<^verbatim>\<open>src/lib/miconfparser/confparser.cc\<close>: the scanner (theory \<open>Conf_Lexer\<close>) hands it
  one token after the other. Tokens are shifted on a stack and reduced when a value, a list or a section is complete;
  open sections are on a second stack. The messages of errors are constructors, with file and line. Reading the top
  of an empty stack is undefined in C++; the result is then \<open>None\<close>. Debug output is not modelled.
\<close>

section \<open>Tokens and state\<close>

datatype TokenType = MiTT_ID | MiTT_IGNORE_ID | MiTT_STRING | MiTT_INT | MiTT_FLOAT | MiTT_ALIAS | MiTT_EQUAL
  | MiTT_OB | MiTT_CB | MiTT_OP | MiTT_CP | MiTT_NL | MiTT_COMMA

datatype Token = Token (tt: TokenType) (tval: string) (tline: int)

datatype conf_error = InvalidToken char | InvalidInList | CantStartList | InvalidVariable | CantStartSection
  | OverwritesVariable string | UnexpectedToken string | InvalidStartOfList | MissingName | EmptySectionStack
  | ExpectsName | EmptyTokenStack | Unbalanced | OverwritesSection string | NoVariable string | TokensLeft | UnbalancedSections

record ConfParser =
  p_error :: bool
  p_stack :: "ConfSection list"
  listContext :: bool
  tokenStack :: "Token list"
  errs :: "(string \<times> int \<times> conf_error) list"
  cur_file :: string
  cur_line :: int
  p_multiple :: bool
  p_deleteIgnored :: bool

definition p_fail :: "conf_error \<Rightarrow> ConfParser \<Rightarrow> ConfParser" where
  "p_fail e p = p\<lparr>p_error := True, errs := errs p @ [(cur_file p, cur_line p, e)]\<rparr>"

definition p_push :: "Token \<Rightarrow> ConfParser \<Rightarrow> ConfParser" where
  "p_push t p = p\<lparr>tokenStack := t # tokenStack p\<rparr>"

text \<open>After a reduction the token stack is empty or its top is an opening brace.\<close>

definition check_top :: "ConfParser \<Rightarrow> ConfParser" where
  "check_top p =
     (case tokenStack p of [] \<Rightarrow> p | t # _ \<Rightarrow> if tt t = MiTT_OB then p else p_fail (UnexpectedToken (tval t)) p)"

section \<open>Reductions\<close>

definition add_to_top :: "(ConfSection \<Rightarrow> bool \<times> ConfSection) \<Rightarrow> ConfParser \<Rightarrow> bool \<times> ConfParser" where
  "add_to_top f p = (case p_stack p of [] \<Rightarrow> (False, p) | s # ss \<Rightarrow> (case f s of (ok, s') \<Rightarrow> (ok, p\<lparr>p_stack := s' # ss\<rparr>)))"

text \<open>The value of an identifier: \<^verbatim>\<open>nil\<close> stands for no value.\<close>

definition val_of_id :: "string \<Rightarrow> ValElement" where
  "val_of_id s = (if s = ''nil'' then setAsNil undef_val else mk_val s VId)"

definition empty_string_val :: ValElement where
  "empty_string_val = mk_val [] VString"

fun colapse_list_loop :: "TokenType \<Rightarrow> ValElementList \<Rightarrow> Token list \<Rightarrow> ConfParser \<Rightarrow> ConfParser" where
  "colapse_list_loop prev vl [] p = p_fail InvalidVariable (p\<lparr>tokenStack := []\<rparr>)"
| "colapse_list_loop prev vl (t # ts) p =
     (case tt t of
        MiTT_STRING \<Rightarrow> colapse_list_loop (tt t) (vl_push_front (mk_val (tval t) VString) vl) ts p
      | MiTT_ID \<Rightarrow>
          if prev = MiTT_EQUAL then
            (case add_to_top (addValues (tval t) vl False) (p\<lparr>tokenStack := ts\<rparr>) of
               (ok, p) \<Rightarrow> if ok then check_top p else p_fail (OverwritesVariable (tval t)) p)
          else colapse_list_loop (tt t) (vl_push_front (val_of_id (tval t)) vl) ts p
      | MiTT_INT \<Rightarrow> colapse_list_loop (tt t) (vl_push_front (mk_val (tval t) VInt) vl) ts p
      | MiTT_FLOAT \<Rightarrow> colapse_list_loop (tt t) (vl_push_front (mk_val (tval t) VFloat) vl) ts p
      | MiTT_EQUAL \<Rightarrow>
          if prev \<noteq> MiTT_OP then p_fail InvalidStartOfList (p\<lparr>tokenStack := ts\<rparr>)
          else colapse_list_loop (tt t) vl ts p
      | MiTT_COMMA \<Rightarrow>
          colapse_list_loop (tt t) (if prev = MiTT_COMMA \<or> prev = MiTT_CP then vl_push_front empty_string_val vl else vl) ts p
      | MiTT_OP \<Rightarrow> colapse_list_loop (tt t) (if prev = MiTT_COMMA then vl_push_front empty_string_val vl else vl) ts p
      | _ \<Rightarrow> colapse_list_loop (tt t) vl ts p)"

definition colapseList :: "ConfParser \<Rightarrow> ConfParser" where
  "colapseList p =
     (if p_stack p = [] then p_fail EmptySectionStack p
      else colapse_list_loop MiTT_CP (vl_set_isList True new_list) (tokenStack p) p)"

text \<open>A key that is no identifier is reported, but the flag that stops the parser is not set.\<close>

definition colapseKeyVal :: "Token \<Rightarrow> ConfParser \<Rightarrow> ConfParser" where
  "colapseKeyVal t p =
     (case tokenStack p of
        [] \<Rightarrow> p_fail MissingName p
      | key # rest \<Rightarrow>
          if p_stack p = [] then p_fail EmptySectionStack (p\<lparr>tokenStack := rest\<rparr>)
          else if tt key \<noteq> MiTT_ID then (p_fail ExpectsName p)\<lparr>p_error := False\<rparr>
          else
            let add = (\<lambda>v. case add_to_top (addValue (tval key) v False) p of
                  (ok, p) \<Rightarrow> if ok then check_top (p\<lparr>tokenStack := rest\<rparr>)
                             else p_fail (OverwritesVariable (tval t)) (p\<lparr>tokenStack := rest\<rparr>))
            in (case tt t of
                  MiTT_STRING \<Rightarrow> add (mk_val (tval t) VString)
                | MiTT_ID \<Rightarrow> add (val_of_id (tval t))
                | MiTT_FLOAT \<Rightarrow> add (mk_val (tval t) VFloat)
                | MiTT_INT \<Rightarrow> add (mk_val (tval t) VInt)
                | MiTT_NL \<Rightarrow> check_top (p\<lparr>tokenStack := rest\<rparr>)
                | _ \<Rightarrow> p_fail (UnexpectedToken (tval t)) (p\<lparr>tokenStack := rest\<rparr>)))"

definition colapseSection :: "ConfParser \<Rightarrow> ConfParser option" where
  "colapseSection p =
     (case tokenStack p of
        [] \<Rightarrow> Some (p_fail EmptyTokenStack p)
      | ob # rest \<Rightarrow>
          if tt ob \<noteq> MiTT_OB then Some (p_fail (UnexpectedToken (tval ob)) p)
          else
            (case rest of
               [] \<Rightarrow> None
             | name # ts \<Rightarrow>
                 let p = p\<lparr>tokenStack := rest\<rparr> in
                 if tt name \<noteq> MiTT_ID \<and> tt name \<noteq> MiTT_IGNORE_ID then Some (p_fail (UnexpectedToken (tval name)) p)
                 else
                   (case p_stack p of
                      sect # parent # ss \<Rightarrow>
                        let p = p\<lparr>p_stack := parent # ss\<rparr> in
                        (case (if tt name = MiTT_IGNORE_ID \<and> p_deleteIgnored p then (True, p)
                               else add_to_top (addSection (tval name) sect False) p) of
                           (ok, p) \<Rightarrow>
                             if ok then Some (check_top (p\<lparr>tokenStack := ts\<rparr>))
                             else Some (p_fail (OverwritesSection (tval name)) p))
                    | _ \<Rightarrow> Some (p_fail Unbalanced p))))"

section \<open>Shifting\<close>

definition open_section :: "Token \<Rightarrow> ConfParser \<Rightarrow> ConfParser" where
  "open_section name p =
     (let s = new_section (p_multiple p) (cur_file p) (cur_line p) in
      p\<lparr>p_stack := (if tt name = MiTT_IGNORE_ID then ignoreThisSection True s else s) # p_stack p\<rparr>)"

definition checkToken :: "Token \<Rightarrow> ConfParser \<Rightarrow> ConfParser option" where
  "checkToken t p =
     (if p_error p then Some p
      else case tokenStack p of
        [] \<Rightarrow> if tt t = MiTT_NL then Some p else Some (p_push t p)
      | prev # rest \<Rightarrow>
          if listContext p then
            (case tt t of
               MiTT_NL \<Rightarrow> Some p
             | MiTT_CP \<Rightarrow> Some (colapseList (p\<lparr>listContext := False\<rparr>))
             | _ \<Rightarrow> if tt t \<in> {MiTT_STRING, MiTT_ID, MiTT_INT, MiTT_FLOAT, MiTT_COMMA} then Some (p_push t p)
                    else Some (p_fail InvalidInList p))
          else if tt t = MiTT_OP then
            (if tt prev = MiTT_EQUAL then Some (p_push (Token MiTT_OP [] (cur_line p)) (p\<lparr>listContext := True\<rparr>))
             else Some (p_fail CantStartList p))
          else if tt prev = MiTT_EQUAL then
            (if tt t \<in> {MiTT_ID, MiTT_STRING, MiTT_INT, MiTT_FLOAT, MiTT_NL} then Some (colapseKeyVal t (p\<lparr>tokenStack := rest\<rparr>))
             else Some (p_fail InvalidVariable p))
          else
            (case tt t of
               MiTT_NL \<Rightarrow> Some p
             | MiTT_EQUAL \<Rightarrow> Some (p_push (Token MiTT_EQUAL [] (cur_line p)) p)
             | MiTT_OB \<Rightarrow>
                 if tt prev \<noteq> MiTT_ID \<and> tt prev \<noteq> MiTT_IGNORE_ID then Some (p_fail CantStartSection p)
                 else Some (p_push t (open_section prev p))
             | MiTT_CB \<Rightarrow> colapseSection p
             | _ \<Rightarrow> Some (p_push t p)))"

section \<open>Tokens of the scanner\<close>

definition p_token :: "TokenType \<Rightarrow> string \<Rightarrow> ConfParser \<Rightarrow> ConfParser option" where
  "p_token ty s p = checkToken (Token ty s (cur_line p)) p"

definition charToken :: "char \<times> char \<Rightarrow> char \<Rightarrow> ConfParser \<Rightarrow> ConfParser option" where
  "charToken lc ch p =
     (if ch = CHR ''='' then p_token MiTT_EQUAL ''='' p
      else if ch = CHR ''}'' then p_token MiTT_CB ''}'' p
      else if ch = CHR ''{'' then p_token MiTT_OB ''{'' p
      else if ch = CHR '','' then p_token MiTT_COMMA '','' p
      else if ch = CHR 0x0A then p_token MiTT_NL [CHR 0x5C, CHR ''n''] p
      else if ch = fst lc then p_token MiTT_OP [fst lc] p
      else if ch = snd lc then p_token MiTT_CP [snd lc] p
      else Some (p_fail (InvalidToken ch) p))"

section \<open>Begin and end\<close>

definition new_parser :: "bool \<Rightarrow> bool \<Rightarrow> ConfParser" where
  "new_parser multiple deleteIgnored =
     \<lparr>p_error = False, p_stack = [new_section multiple ''<STREAM>'' 1], listContext = False, tokenStack = [], errs = [],
      cur_file = ''<STREAM>'', cur_line = 1, p_multiple = multiple, p_deleteIgnored = deleteIgnored\<rparr>"

text \<open>The end of \<^verbatim>\<open>parse()\<close>: the result, or \<open>None\<close> for the null pointer.\<close>

definition p_finish :: "ConfParser \<Rightarrow> ConfSection option" where
  "p_finish p =
     (if p_error p then None
      else if tokenStack p \<noteq> [] then None
      else if length (p_stack p) > 1 then None
      else case p_stack p of [] \<Rightarrow> None | s # _ \<Rightarrow> Some s)"

end
