(* ===== verification/Conf_Lexer.thy ===== *)
theory Conf_Lexer
  imports Conf_Parser Flex_Scan
begin

text \<open>
  The scanner of the configuration, \<^verbatim>\<open>src/lib/miconfparser/ConfParserLexer.ll\<close>: its rules for each start condition,
  included files, and the replacement of environment variables in their names. The files and the environment are
  arguments. Two loops may not end: a file may include itself, and the value of a variable may contain the variable;
  not returning is \<open>None\<close>. When the parser has noted an error, the generated scanner is given no more input; what is
  left in its buffer has no influence on the result and is passed over.
\<close>

section \<open>Rules\<close>

definition r_char :: "char \<Rightarrow> rexp" where
  "r_char c = Cls (\<lambda>x. x = c)"

definition r_digit :: rexp where
  "r_digit = Cls isdigit"

definition letter :: "char \<Rightarrow> bool" where
  "letter c \<longleftrightarrow> c = CHR ''_'' \<or> (97 \<le> (of_char c :: nat) \<and> (of_char c :: nat) \<le> 122) \<or> (65 \<le> (of_char c :: nat) \<and> (of_char c :: nat) \<le> 90)"

definition id_char :: "char \<Rightarrow> bool" where
  "id_char c \<longleftrightarrow> letter c \<or> isdigit c \<or> c = CHR ''-''"

definition r_id :: rexp where
  "r_id = Seq (plus (Cls letter)) (Star (Cls id_char))"

definition r_sign :: rexp where
  "r_sign = Alt (Cls (\<lambda>c. c = CHR ''-'' \<or> c = CHR ''+'')) One"

definition r_int :: rexp where
  "r_int = Seq r_sign (plus r_digit)"

definition r_float :: rexp where
  "r_float = Seq r_sign (Seq (plus r_digit) (Seq (r_char (CHR ''.'')) (Star r_digit)))"

datatype conf_cond = INITIAL | START_STRING | START_COMMENT | START_INCLUDE

datatype conf_act = Skip | NewLine | BeginInclude | Include | BeginComment | EndComment | IntTok | FloatTok | IdTok | IgnoreTok
  | AliasTok | BeginString | StringTok | EndString | CharTok

definition conf_rules :: "conf_cond \<Rightarrow> (rexp \<times> conf_act) list" where
  "conf_rules c =
     (case c of
        INITIAL \<Rightarrow>
          [(plus (Cls (\<lambda>c. c \<in> {CHR '' '', CHR 0x0D, CHR 0x09})), Skip),
           (r_char (CHR 0x0A), NewLine),
           (str ''@include'', BeginInclude),
           (r_char (CHR ''#''), BeginComment),
           (r_int, IntTok),
           (r_float, FloatTok),
           (r_id, IdTok),
           (Seq (r_char (CHR ''!'')) r_id, IgnoreTok),
           (Seq (r_char (CHR ''$'')) r_id, AliasTok),
           (r_char (CHR 0x22), BeginString),
           (Cls (\<lambda>c. c \<noteq> CHR 0x0A), CharTok)]
      | START_INCLUDE \<Rightarrow>
          [(plus (Cls (\<lambda>c. c \<in> {CHR '' '', CHR 0x09})), Skip),
           (plus (Cls (\<lambda>c. c \<notin> {CHR '' '', CHR 0x0D, CHR 0x09, CHR 0x0A})), Include)]
      | START_COMMENT \<Rightarrow>
          [(Star (Cls (\<lambda>c. c \<noteq> CHR 0x0A)), Skip),
           (r_char (CHR 0x0A), EndComment)]
      | START_STRING \<Rightarrow>
          [(Star (Cls (\<lambda>c. c \<noteq> CHR 0x22)), StringTok),
           (r_char (CHR 0x22), EndString)])"

section \<open>Included files\<close>

text \<open>The position of a character from a position on.\<close>

definition find_from :: "char \<Rightarrow> nat \<Rightarrow> string \<Rightarrow> nat option" where
  "find_from c i s = (let n = length (takeWhile (\<lambda>x. x \<noteq> c) (drop i s)) in if i + n < length s then Some (i + n) else None)"

text \<open>
  One round of the loop that replaces variables, for a \<^verbatim>\<open>${\<close> at position \<open>i\<close>: the name of the file and the variable
  that is not there. A variable without a value is replaced by its name.
\<close>

definition expand_at :: "(string \<Rightarrow> string option) \<Rightarrow> nat \<Rightarrow> string \<Rightarrow> string \<times> string option" where
  "expand_at env i file =
     (let file = take i file @ drop (i + 2) file in
      case find_from (CHR ''}'') i file of
        None \<Rightarrow> (file, None)
      | Some ii \<Rightarrow>
          let var = take (ii - i) (drop i file); file = take ii file @ drop (ii + 1) file in
          if var = [] then (file, None)
          else case env var of
            None \<Rightarrow> (file, Some var)
          | Some val \<Rightarrow> (if val \<noteq> [] then take i file @ val @ drop ii file else file, None))"

partial_function (option) expand_vars :: "(string \<Rightarrow> string option) \<Rightarrow> string \<Rightarrow> string list \<Rightarrow> (string \<times> string list) option" where
  "expand_vars env file missing =
     (case find_sub ''${'' file of
        None \<Rightarrow> Some (file, missing)
      | Some i \<Rightarrow>
          (case expand_at env i file of
             (file', m) \<Rightarrow> expand_vars env file' (case m of None \<Rightarrow> missing | Some v \<Rightarrow> missing @ [v])))"

section \<open>The scanner\<close>

record ConfScan =
  cond :: conf_cond
  stringContinue :: bool
  sinput :: string
  istStack :: "(string \<times> int \<times> string) list"
  sparser :: ConfParser

text \<open>The file that an \<^verbatim>\<open>@include\<close> names; a file that cannot be opened is passed over.\<close>

definition newStream :: "(string \<Rightarrow> string option) \<Rightarrow> (string \<Rightarrow> string option) \<Rightarrow> string \<Rightarrow> ConfScan \<Rightarrow> ConfScan option" where
  "newStream files env name s =
     (case expand_vars env name [] of
        None \<Rightarrow> None
      | Some (file, missing) \<Rightarrow>
          let p = sparser s; p = p\<lparr>errs := errs p @ map (\<lambda>v. (cur_file p, cur_line p, NoVariable v)) missing\<rparr>; s = s\<lparr>sparser := p\<rparr> in
          if file = [] then Some s
          else case files file of
            None \<Rightarrow> Some s
          | Some content \<Rightarrow>
              Some (s\<lparr>sinput := content, istStack := (sinput s, cur_line p, cur_file p) # istStack s,
                      sparser := p\<lparr>cur_line := 1, cur_file := file\<rparr>\<rparr>))"

text \<open>The end of a file: back to the file that included it.\<close>

definition deleteStream :: "ConfScan \<Rightarrow> ConfScan option" where
  "deleteStream s =
     (case istStack s of
        [] \<Rightarrow> None
      | (rest, line, file) # st \<Rightarrow>
          Some (s\<lparr>sinput := rest, istStack := st, sparser := (sparser s)\<lparr>cur_line := line, cur_file := file\<rparr>\<rparr>))"

text \<open>
  The action of a rule on the text it has matched, which is no longer in the input. The outer \<open>option\<close> is a loop
  that does not end, the inner one is undefined behaviour.
\<close>

definition with_parser :: "ConfScan \<Rightarrow> ConfParser option \<Rightarrow> ConfScan option option" where
  "with_parser s r = Some (map_option (\<lambda>p. s\<lparr>sparser := p\<rparr>) r)"

definition next_line :: "ConfParser \<Rightarrow> ConfParser" where
  "next_line p = p\<lparr>cur_line := cur_line p + 1\<rparr>"

definition conf_exec :: "(string \<Rightarrow> string option) \<Rightarrow> (string \<Rightarrow> string option) \<Rightarrow> char \<times> char \<Rightarrow> conf_act \<Rightarrow> string \<Rightarrow> ConfScan
    \<Rightarrow> ConfScan option option" where
  "conf_exec files env lc a text s =
     (let p = sparser s in
      case a of
        Skip \<Rightarrow> Some (Some s)
      | NewLine \<Rightarrow> with_parser s (map_option next_line (charToken lc (hd text) p))
      | BeginInclude \<Rightarrow> Some (Some (s\<lparr>cond := START_INCLUDE\<rparr>))
      | Include \<Rightarrow> (case newStream files env text s of None \<Rightarrow> None | Some s \<Rightarrow> Some (Some (s\<lparr>cond := INITIAL\<rparr>)))
      | BeginComment \<Rightarrow> Some (Some (s\<lparr>cond := START_COMMENT\<rparr>))
      | EndComment \<Rightarrow> Some (Some (s\<lparr>cond := INITIAL, sparser := next_line p\<rparr>))
      | IntTok \<Rightarrow> with_parser s (p_token MiTT_INT text p)
      | FloatTok \<Rightarrow> with_parser s (p_token MiTT_FLOAT text p)
      | IdTok \<Rightarrow> with_parser s (p_token MiTT_ID text p)
      | IgnoreTok \<Rightarrow> with_parser s (p_token MiTT_IGNORE_ID text p)
      | AliasTok \<Rightarrow> Some (Some s)
      | BeginString \<Rightarrow> Some (Some (s\<lparr>cond := START_STRING\<rparr>))
      | StringTok \<Rightarrow> with_parser (s\<lparr>stringContinue := text \<noteq> [] \<and> last text = CHR 0x5C\<rparr>) (p_token MiTT_STRING text p)
      | EndString \<Rightarrow> Some (Some (if stringContinue s then s else s\<lparr>cond := INITIAL\<rparr>))
      | CharTok \<Rightarrow> with_parser s (charToken lc (hd text) p))"

definition conf_step :: "(string \<Rightarrow> string option) \<Rightarrow> (string \<Rightarrow> string option) \<Rightarrow> char \<times> char \<Rightarrow> ConfScan
    \<Rightarrow> ConfScan option option" where
  "conf_step files env lc s =
     (case best_rule (conf_rules (cond s)) (sinput s) of
        None \<Rightarrow> Some (Some (s\<lparr>sinput := tl (sinput s)\<rparr>))
      | Some (n, a) \<Rightarrow> conf_exec files env lc a (take n (sinput s)) (s\<lparr>sinput := drop n (sinput s)\<rparr>))"

text \<open>The result of a scan: the parser, or undefined behaviour.\<close>

partial_function (option) conf_scan :: "(string \<Rightarrow> string option) \<Rightarrow> (string \<Rightarrow> string option) \<Rightarrow> char \<times> char \<Rightarrow> ConfScan
    \<Rightarrow> ConfParser option option" where
  "conf_scan files env lc s =
     (if p_error (sparser s) then Some (Some (sparser s))
      else if sinput s = [] then
        (case deleteStream s of None \<Rightarrow> Some (Some (sparser s)) | Some s' \<Rightarrow> conf_scan files env lc s')
      else
        (case conf_step files env lc s of
           None \<Rightarrow> None
         | Some None \<Rightarrow> Some None
         | Some (Some s') \<Rightarrow> conf_scan files env lc s'))"

declare expand_vars.simps [code] conf_scan.simps [code]

text \<open>
  \<^verbatim>\<open>ConfParser::parse\<close>. \<open>before\<close> is what an earlier scan has left: the start condition of the generated scanner and the
  variable \<^verbatim>\<open>stringContinue\<close> are global.
\<close>

definition conf_parse :: "(string \<Rightarrow> string option) \<Rightarrow> (string \<Rightarrow> string option) \<Rightarrow> char \<times> char \<Rightarrow> bool \<Rightarrow> bool \<Rightarrow> conf_cond \<times> bool \<Rightarrow> string
    \<Rightarrow> ConfSection option option option" where
  "conf_parse files env lc multiple deleteIgnored before text =
     map_option (map_option p_finish)
       (conf_scan files env lc
          \<lparr>cond = fst before, stringContinue = snd before, sinput = text, istStack = [], sparser = new_parser multiple deleteIgnored\<rparr>)"

section \<open>A reference scanner\<close>

text \<open>What the rules of the initial condition find at the front of a text that is not empty.\<close>

definition blank :: "char \<Rightarrow> bool" where
  "blank c \<longleftrightarrow> c \<in> {CHR '' '', CHR 0x0D, CHR 0x09}"

definition sign_char :: "char \<Rightarrow> bool" where
  "sign_char c \<longleftrightarrow> c = CHR ''-'' \<or> c = CHR ''+''"

definition number_token :: "string \<Rightarrow> nat \<times> conf_act" where
  "number_token s =
     (let n = length (takeWhile isdigit s); r = dropWhile isdigit s in
      if r \<noteq> [] \<and> hd r = CHR ''.'' then (n + 1 + length (takeWhile isdigit (tl r)), FloatTok) else (n, IntTok))"

definition conf_token :: "char \<Rightarrow> string \<Rightarrow> nat \<times> conf_act" where
  "conf_token c cs =
     (let word = (\<lambda>w. length (takeWhile id_char w)); starts = (\<lambda>p. cs \<noteq> [] \<and> p (hd cs)) in
      if blank c then (Suc (length (takeWhile blank cs)), Skip)
      else if c = CHR 0x0A then (1, NewLine)
      else if c = CHR ''#'' then (1, BeginComment)
      else if c = CHR 0x22 then (1, BeginString)
      else if c = CHR ''@'' \<and> take 7 cs = ''include'' then (8, BeginInclude)
      else if isdigit c then number_token (c # cs)
      else if sign_char c \<and> starts isdigit then (case number_token cs of (n, a) \<Rightarrow> (Suc n, a))
      else if letter c then (Suc (word cs), IdTok)
      else if c = CHR ''!'' \<and> starts letter then (Suc (word cs), IgnoreTok)
      else if c = CHR ''$'' \<and> starts letter then (Suc (word cs), AliasTok)
      else (1, CharTok))"

lemma letter_id: "letter c \<Longrightarrow> id_char c"
  by (simp add: id_char_def)

lemma matches_r_id: "matches r_id s \<longleftrightarrow> s \<noteq> [] \<and> letter (hd s) \<and> list_all id_char s"
proof
  assume "matches r_id s"
  then obtain u v where "s = u @ v" "u \<noteq> []" "list_all letter u" "list_all id_char v" by (auto simp: r_id_def)
  then show "s \<noteq> [] \<and> letter (hd s) \<and> list_all id_char s"
    by (cases u) (auto simp: list_all_iff letter_id)
next
  assume s: "s \<noteq> [] \<and> letter (hd s) \<and> list_all id_char s"
  then have "s = [hd s] @ tl s" by simp
  moreover have "matches (plus (Cls letter)) [hd s]" "matches (Star (Cls id_char)) (tl s)" using s by (cases s; simp)+
  ultimately show "matches r_id s" unfolding r_id_def by (metis matches.seq)
qed

lemma longest_r_id: "longest r_id s = (if s \<noteq> [] \<and> letter (hd s) then Some (length (takeWhile id_char s)) else None)"
proof (cases "s \<noteq> [] \<and> letter (hd s)")
  case True
  then obtain c cs where s: "s = c # cs" "letter c" by (cases s) auto
  let ?n = "length (takeWhile id_char s)"
  have "longest r_id s = Some ?n"
  proof (rule longest_unique)
    show "?n \<le> length s" by (rule length_takeWhile_le)
    show "matches r_id (take ?n s)"
      using s by (simp add: matches_r_id takeWhile_eq_take [symmetric] letter_id list_all_iff) (metis set_takeWhileD)
    show "m \<le> ?n" if "m \<le> length s" "matches r_id (take m s)" for m
    proof -
      have "list_all id_char (take m s)" using that(2) by (simp add: matches_r_id)
      then have "takeWhile id_char s = take m s @ takeWhile id_char (drop m s)"
        by (metis append_take_drop_id list_all_iff takeWhile_append2)
      then show ?thesis using that(1) by simp
    qed
  qed
  with True show ?thesis by simp
next
  case False
  have "longest r_id s = None"
  proof (rule longest_no_match)
    show "\<not> matches r_id (take m s)" for m using False by (cases s; cases m) (auto simp: matches_r_id)
  qed
  with False show ?thesis by simp
qed

lemma longest_fraction:
  "longest (Seq (Star r_digit) (Seq (r_char (CHR ''.'')) (Star r_digit))) s =
     (case dropWhile isdigit s of
        [] \<Rightarrow> None
      | c # r \<Rightarrow> if c = CHR ''.'' then Some (length (takeWhile isdigit s) + 1 + length (takeWhile isdigit r)) else None)"
proof (induction s)
  case (Cons c cs)
  have "\<not> isdigit (CHR ''.'')" by (simp add: isdigit_def)
  then show ?case using Cons by (cases "dropWhile isdigit cs") (auto simp: r_digit_def r_char_def simp del: dropWhile_eq_Nil_conv)
qed (simp add: r_digit_def r_char_def)

lemma longest_r_int:
  "longest r_int (c # cs) =
     (if isdigit c then Some (Suc (length (takeWhile isdigit cs)))
      else if sign_char c \<and> cs \<noteq> [] \<and> isdigit (hd cs) then Some (Suc (length (takeWhile isdigit cs)))
      else None)"
proof -
  have "\<not> (isdigit c \<and> sign_char c)" by (auto simp: isdigit_def sign_char_def)
  then show ?thesis
    by (cases cs) (auto simp: r_int_def r_sign_def r_digit_def plus_def sign_char_def)
qed

lemma longest_r_float:
  "longest r_float (c # cs) =
     (if isdigit c \<or> sign_char c \<and> cs \<noteq> [] \<and> isdigit (hd cs) then
        (case dropWhile isdigit cs of
           [] \<Rightarrow> None
         | x # r \<Rightarrow> if x = CHR ''.'' then Some (Suc (length (takeWhile isdigit cs)) + 1 + length (takeWhile isdigit r)) else None)
      else None)"
proof -
  let ?frac = "Seq (Star r_digit) (Seq (r_char (CHR ''.'')) (Star r_digit))"
  let ?rest = "Seq (plus r_digit) (Seq (r_char (CHR ''.'')) (Star r_digit))"
  have x: "\<not> (isdigit c \<and> sign_char c)" by (auto simp: isdigit_def sign_char_def)
  have plus_d: "\<not> nullable (plus r_digit)" "deriv b (plus r_digit) = (if isdigit b then Star r_digit else Zero)" for b
    by (simp_all add: r_digit_def plus_def)
  have rest: "deriv b ?rest = (if isdigit b then ?frac else Zero)" for b
    by (simp add: plus_d)
  have digits: "longest ?rest (b # bs) = (if isdigit b then map_option Suc (longest ?frac bs) else None)" for b bs
    by (simp add: rest plus_def r_digit_def split: option.split)
  have "deriv c r_float = (if sign_char c then ?rest else if isdigit c then ?frac else Zero)"
    using x by (auto simp: r_float_def r_sign_def sign_char_def plus_d)
  moreover have "\<not> nullable r_float" by (simp add: r_float_def plus_d)
  ultimately have e: "longest r_float (c # cs) = (if sign_char c then map_option Suc (longest ?rest cs) else if isdigit c then map_option Suc (longest ?frac cs) else None)"
    by (simp split: option.split)
  have n: "longest ?rest [] = None" by (simp add: plus_def r_digit_def)
  show ?thesis
  proof (cases "dropWhile isdigit cs")
    case Nil
    then show ?thesis using x n unfolding e longest_fraction by (cases cs) (auto simp: digits longest_fraction simp del: dropWhile_eq_Nil_conv longest.simps)
  next
    case (Cons d ds)
    then show ?thesis using x n unfolding e longest_fraction by (cases cs) (auto simp: digits longest_fraction simp del: dropWhile_eq_Nil_conv longest.simps)
  qed
qed

lemma longest_Cls: "longest (Cls p) (c # cs) = (if p c then Some 1 else None)"
  by simp

lemma longest_marked: "longest (Seq (r_char x) r) (c # cs) = (if c = x then map_option Suc (longest r cs) else None)"
  by (auto simp: r_char_def split: option.split)

text \<open>The first characters of the classes are different.\<close>

definition special :: "char \<Rightarrow> bool" where
  "special c \<longleftrightarrow> c \<in> {CHR 0x0A, CHR ''#'', CHR 0x22, CHR ''@'', CHR ''!'', CHR ''$''}"

lemma char_classes:
  "blank c \<Longrightarrow> \<not> isdigit c \<and> \<not> sign_char c \<and> \<not> letter c \<and> \<not> special c"
  "isdigit c \<Longrightarrow> \<not> blank c \<and> \<not> sign_char c \<and> \<not> letter c \<and> \<not> special c"
  "sign_char c \<Longrightarrow> \<not> blank c \<and> \<not> isdigit c \<and> \<not> letter c \<and> \<not> special c"
  "letter c \<Longrightarrow> \<not> blank c \<and> \<not> isdigit c \<and> \<not> sign_char c \<and> \<not> special c"
  "special c \<Longrightarrow> \<not> blank c \<and> \<not> isdigit c \<and> \<not> sign_char c \<and> \<not> letter c"
  by (auto simp: blank_def isdigit_def sign_char_def letter_def special_def)

lemma conf_rules_longest:
  "map (\<lambda>(r, a). (longest r (c # cs), a)) (conf_rules INITIAL) =
     [(if blank c then Some (Suc (length (takeWhile blank cs))) else None, Skip),
      (if c = CHR 0x0A then Some 1 else None, NewLine),
      (if c = CHR ''@'' \<and> take 7 cs = ''include'' then Some 8 else None, BeginInclude),
      (if c = CHR ''#'' then Some 1 else None, BeginComment),
      (longest r_int (c # cs), IntTok), (longest r_float (c # cs), FloatTok),
      (if letter c then Some (length (takeWhile id_char (c # cs))) else None, IdTok),
      (if c = CHR ''!'' then map_option Suc (longest r_id cs) else None, IgnoreTok),
      (if c = CHR ''$'' then map_option Suc (longest r_id cs) else None, AliasTok),
      (if c = CHR 0x22 then Some 1 else None, BeginString),
      (if c \<noteq> CHR 0x0A then Some 1 else None, CharTok)]"
proof -
  have b: "(\<lambda>c. c \<in> {CHR '' '', CHR 0x0D, CHR 0x09}) = blank" by (simp add: fun_eq_iff blank_def)
  show ?thesis
    unfolding conf_rules_def conf_cond.case list.map prod.case b r_char_def
    by (simp add: longest_Cls longest_marked [unfolded r_char_def] longest_r_id eval_nat_numeral del: longest.simps)
qed

text \<open>The choice among the lengths found by the rules.\<close>

fun best_of :: "(nat option \<times> 'a) list \<Rightarrow> (nat \<times> 'a) option" where
  "best_of [] = None"
| "best_of ((l, a) # ls) =
     (case (l, best_of ls) of
        (None, b) \<Rightarrow> b
      | (Some n, None) \<Rightarrow> Some (n, a)
      | (Some n, Some (m, b)) \<Rightarrow> if n < m then Some (m, b) else Some (n, a))"

lemma best_rule_of: "best_rule rs s = best_of (map (\<lambda>(r, a). (longest r s, a)) rs)"
  by (induction rs) auto

text \<open>
  C36. The rules of the scanner find at every position what the reference scanner finds: the class of the token is
  decided by its first characters, and its end by the first character that cannot belong to it.
\<close>

theorem conf_rules_reference: "best_rule (conf_rules INITIAL) (c # cs) = Some (conf_token c cs)"
proof -
  note [simp del] = longest.simps
  note b = best_rule_of conf_rules_longest
  consider "blank c" | "special c" | "isdigit c" | "sign_char c" | "letter c"
    | "\<not> blank c" "\<not> special c" "\<not> isdigit c" "\<not> sign_char c" "\<not> letter c"
    by blast
  then show ?thesis
  proof cases
    case 1
    then show ?thesis using char_classes(1) [OF 1] by (simp add: b conf_token_def longest_r_int longest_r_float special_def)
  next
    case 2
    then show ?thesis using char_classes(5) [OF 2]
      by (auto simp: b conf_token_def longest_r_int longest_r_float longest_r_id special_def split: option.split)
  next
    case 3
    then show ?thesis using char_classes(2) [OF 3]
      by (cases "dropWhile isdigit cs")
        (simp_all add: b conf_token_def longest_r_int longest_r_float special_def number_token_def Let_def del: dropWhile_eq_Nil_conv)
  next
    case 4
    then show ?thesis using char_classes(3) [OF 4]
      by (cases "dropWhile isdigit cs")
        (simp_all add: b conf_token_def longest_r_int longest_r_float special_def number_token_def Let_def del: dropWhile_eq_Nil_conv)
  next
    case 5
    then show ?thesis using char_classes(4) [OF 5] letter_id [OF 5]
      by (simp add: b conf_token_def longest_r_int longest_r_float special_def)
  next
    case 6
    then show ?thesis by (simp add: b conf_token_def longest_r_int longest_r_float special_def)
  qed
qed

end
