(* ===== verification/Conf_Result.thy ===== *)
theory Conf_Result
  imports Conf_Lexer "HOL-Library.Sublist"
begin

text \<open>
  What the parser of the configuration promises of its result: the invariant of its stacks, and that the result
  is a well-formed tree, for every text, every file and every environment. Then that parsing comes to an end, when the
  files do not include each other in a circle and the values of the environment contain no variables, and that it does
  not otherwise.
\<close>

section \<open>Well-formed trees\<close>

definition vals_ok :: "ValElementList \<Rightarrow> bool" where
  "vals_ok l \<longleftrightarrow> list_all (\<lambda>v. valType v \<noteq> VUndef) (elems l) \<and> (if isList_flag l then isNil l = (elems l = []) else \<not> isNil l \<and> length (elems l) = 1)"

text \<open>\<open>m\<close>: sections of the same name are allowed; \<open>d\<close>: ignored sections are left out.\<close>

fun tree_ok :: "bool \<Rightarrow> bool \<Rightarrow> ConfSection \<Rightarrow> bool"
  and entries_ok :: "bool \<Rightarrow> bool \<Rightarrow> (string \<times> ConfSection list) list \<Rightarrow> bool"
  and sections_ok :: "bool \<Rightarrow> bool \<Rightarrow> ConfSection list \<Rightarrow> bool" where
  "tree_ok m d (ConfSection p secs vals) \<longleftrightarrow>
     allowMultiple p = m \<and> smap_ok secs \<and> smap_ok vals \<and> list_all (\<lambda>(k, l). vals_ok l) vals \<and> entries_ok m d secs"
| "entries_ok m d [] \<longleftrightarrow> True"
| "entries_ok m d ((n, l) # es) \<longleftrightarrow> l \<noteq> [] \<and> (m \<or> length l = 1) \<and> sections_ok m d l \<and> entries_ok m d es"
| "sections_ok m d [] \<longleftrightarrow> True"
| "sections_ok m d (s # ss) \<longleftrightarrow> (d \<longrightarrow> \<not> cs_ignore (pimpel s)) \<and> tree_ok m d s \<and> sections_ok m d ss"

lemma sections_ok_append [simp]: "sections_ok m d (a @ b) \<longleftrightarrow> sections_ok m d a \<and> sections_ok m d b"
  by (induction a) auto

lemma entries_ok_put: "entries_ok m d es \<Longrightarrow> l \<noteq> [] \<Longrightarrow> m \<or> length l = 1 \<Longrightarrow> sections_ok m d l \<Longrightarrow> entries_ok m d (smap_put n l es)"
  by (induction n l es rule: smap_put.induct) auto

lemma entries_ok_get: "entries_ok m d es \<Longrightarrow> map_of es n = Some l \<Longrightarrow> l \<noteq> [] \<and> (m \<or> length l = 1) \<and> sections_ok m d l"
  by (induction es) (auto split: if_splits)

lemma all_vals_put: "list_all (\<lambda>(k, l). P l) vals \<Longrightarrow> P l \<Longrightarrow> list_all (\<lambda>(k, l). P l) (smap_put k l vals)"
  by (induction k l vals rule: smap_put.induct) auto

lemma new_section_ok: "tree_ok m d (new_section m f l)" "tree_ok m d (ignoreThisSection b (new_section m f l))"
  by (simp_all add: new_section_def ignoreThisSection_def)

lemma addSection_ok:
  assumes "tree_ok m d s" "tree_ok m d cs" "d \<longrightarrow> \<not> cs_ignore (pimpel cs)" "addSection name cs r s = (ok, s')"
  shows "tree_ok m d s'" "pimpel s' = pimpel s"
proof -
  obtain p secs vals where s: "s = ConfSection p secs vals" by (cases s)
  show "tree_ok m d s'"
    using assms entries_ok_get [of m d secs name]
    by (auto simp: s addSection_def Let_def intro!: entries_ok_put split: option.splits if_splits)
  show "pimpel s' = pimpel s" using assms(4) by (auto simp: s addSection_def Let_def split: option.splits if_splits)
qed

lemma addValues_ok:
  assumes "tree_ok m d s" "vals_ok l" "addValues key l r s = (ok, s')"
  shows "tree_ok m d s'" "pimpel s' = pimpel s"
proof -
  obtain p secs vals where s: "s = ConfSection p secs vals" by (cases s)
  show "tree_ok m d s'" "pimpel s' = pimpel s"
    using assms by (auto simp: s addValues_def intro!: all_vals_put split: if_splits)
qed

lemma one_val_ok: "valType v \<noteq> VUndef \<Longrightarrow> vals_ok (vl_push_back v new_list)"
  by (simp add: vals_ok_def vl_push_back_def new_list_def)

section \<open>The invariant of the stacks\<close>

text \<open>For every open brace on the stack of tokens: is the section in front of it to be ignored?\<close>

fun open_flags :: "Token list \<Rightarrow> bool list" where
  "open_flags [] = []"
| "open_flags (t # ts) = (if tt t = MiTT_OB then (case ts of [] \<Rightarrow> [] | n # _ \<Rightarrow> [tt n = MiTT_IGNORE_ID]) else []) @ open_flags ts"

definition list_tokens :: "TokenType set" where
  "list_tokens = {MiTT_STRING, MiTT_ID, MiTT_INT, MiTT_FLOAT, MiTT_COMMA}"

text \<open>A list begins only at the bottom of the stack, or it is the one that is being read.\<close>

definition lists_ok :: "bool \<Rightarrow> Token list \<Rightarrow> bool" where
  "lists_ok inlist ts \<longleftrightarrow>
     (if inlist then \<exists>xs op eq rest. ts = xs @ op # eq # rest \<and> list_all (\<lambda>t. tt t \<in> list_tokens) xs \<and> tt op = MiTT_OP \<and>
        tt eq = MiTT_EQUAL \<and> MiTT_OP \<notin> tt ` set (butlast rest)
      else MiTT_OP \<notin> tt ` set (butlast ts))"

definition parser_ok :: "bool \<Rightarrow> bool \<Rightarrow> ConfParser \<Rightarrow> bool" where
  "parser_ok m d p \<longleftrightarrow>
     p_multiple p = m \<and> p_deleteIgnored p = d \<and> list_all (tree_ok m d) (p_stack p) \<and>
     map (\<lambda>s. cs_ignore (pimpel s)) (p_stack p) = open_flags (tokenStack p) @ [False] \<and> lists_ok (listContext p) (tokenStack p)"

definition parser_inv :: "bool \<Rightarrow> bool \<Rightarrow> ConfParser \<Rightarrow> bool" where
  "parser_inv m d p \<longleftrightarrow> p_error p \<or> parser_ok m d p"

lemma failed [simp]: "p_error (p_fail e p)" "parser_inv m d (p_fail e p)"
  by (simp_all add: p_fail_def parser_inv_def)

lemma check_top_inv: "parser_ok m d p \<Longrightarrow> parser_inv m d (check_top p)"
  by (simp add: check_top_def parser_inv_def split: list.split)

lemma parser_ok_stack: "parser_ok m d p \<Longrightarrow> p_stack p \<noteq> []"
  by (auto simp: parser_ok_def)

lemma no_op_tail: "MiTT_OP \<notin> tt ` set (butlast (t # ts)) \<Longrightarrow> MiTT_OP \<notin> tt ` set (butlast ts)"
  by (auto split: if_splits)

text \<open>Shifting a token.\<close>

lemma push_ok:
  assumes "parser_ok m d p" "\<not> listContext p" "tt t \<noteq> MiTT_OB" "tt t \<noteq> MiTT_OP \<or> tokenStack p = []"
  shows "parser_ok m d (p_push t p)"
  using assms by (auto simp: parser_ok_def p_push_def lists_ok_def)

lemma push_in_list_ok:
  assumes "parser_ok m d p" "listContext p" "tt t \<in> list_tokens"
  shows "parser_ok m d (p_push t p)"
proof -
  obtain xs op eq rest where l: "tokenStack p = xs @ op # eq # rest" "list_all (\<lambda>t. tt t \<in> list_tokens) xs" "tt op = MiTT_OP"
    "tt eq = MiTT_EQUAL" "MiTT_OP \<notin> tt ` set (butlast rest)"
    using assms(1,2) by (auto simp: parser_ok_def lists_ok_def)
  then have "t # tokenStack p = (t # xs) @ op # eq # rest" "list_all (\<lambda>t. tt t \<in> list_tokens) (t # xs)" using assms(3) by simp_all
  then have "lists_ok True (t # tokenStack p)" unfolding lists_ok_def using l(3-5) by (simp only: if_True) blast
  moreover have "tt t \<noteq> MiTT_OB" using assms(3) by (auto simp: list_tokens_def)
  ultimately show ?thesis using assms(1,2) by (simp add: parser_ok_def p_push_def)
qed

lemma pop_ok:
  assumes "parser_ok m d p" "\<not> listContext p" "tokenStack p = t # ts" "tt t \<noteq> MiTT_OB"
  shows "parser_ok m d (p\<lparr>tokenStack := ts\<rparr>)"
  using assms by (auto simp: parser_ok_def lists_ok_def split: if_splits)

text \<open>Reducing a value.\<close>

definition keeps_tree :: "bool \<Rightarrow> bool \<Rightarrow> (ConfSection \<Rightarrow> bool \<times> ConfSection) \<Rightarrow> bool" where
  "keeps_tree m d f \<longleftrightarrow> (\<forall>s. tree_ok m d s \<longrightarrow> tree_ok m d (snd (f s)) \<and> pimpel (snd (f s)) = pimpel s)"

lemma keeps_tree_ops:
  "vals_ok l \<Longrightarrow> keeps_tree m d (addValues key l r)"
  "valType v \<noteq> VUndef \<Longrightarrow> keeps_tree m d (addValue key v r)"
  "tree_ok m d cs \<Longrightarrow> d \<longrightarrow> \<not> cs_ignore (pimpel cs) \<Longrightarrow> keeps_tree m d (addSection name cs r)"
  unfolding keeps_tree_def addValue_def by (metis addValues_ok one_val_ok addSection_ok prod.collapse)+

lemma add_to_top_ok:
  assumes "parser_ok m d p" "add_to_top f p = (ok, p')" "keeps_tree m d f"
  shows "parser_ok m d p'" "tokenStack p' = tokenStack p" "listContext p' = listContext p"
proof -
  obtain s ss where p: "p_stack p = s # ss" using parser_ok_stack [OF assms(1)] by (cases "p_stack p") auto
  obtain b s' where f: "f s = (b, s')" by (cases "f s")
  have "tree_ok m d s' \<and> pimpel s' = pimpel s" using assms(1,3) p f by (auto simp: parser_ok_def keeps_tree_def)
  then show "parser_ok m d p'" "tokenStack p' = tokenStack p" "listContext p' = listContext p"
    using assms(1,2) p f by (auto simp: add_to_top_def parser_ok_def)
qed

lemma val_types: "valType (mk_val v ty) = ty" "valType (val_of_id v) \<noteq> VUndef"
  by (simp_all add: mk_val_def val_of_id_def setAsNil_def)

lemma colapseKeyVal_inv:
  assumes "parser_ok m d p" "\<not> listContext p"
  shows "parser_inv m d (colapseKeyVal t p)"
proof (cases "tokenStack p")
  case Nil
  then show ?thesis by (simp add: colapseKeyVal_def)
next
  case (Cons key rest)
  show ?thesis
  proof (cases "tt key = MiTT_ID")
    case False
    have "parser_ok m d ((p_fail ExpectsName p)\<lparr>p_error := False\<rparr>)" using assms(1) by (simp add: parser_ok_def p_fail_def)
    then show ?thesis using Cons False parser_ok_stack [OF assms(1)] by (simp add: colapseKeyVal_def parser_inv_def)
  next
    case True
    then have rest: "parser_ok m d (q\<lparr>tokenStack := rest\<rparr>)" if "parser_ok m d q" "tokenStack q = tokenStack p" "\<not> listContext q" for q
      using pop_ok [OF that(1,3)] Cons that(2) by simp
    have add: "parser_inv m d (case add_to_top (addValue (tval key) v False) p of
        (ok, p) \<Rightarrow> if ok then check_top (p\<lparr>tokenStack := rest\<rparr>) else p_fail (OverwritesVariable (tval t)) (p\<lparr>tokenStack := rest\<rparr>))"
      if v: "valType v \<noteq> VUndef" for v
    proof -
      obtain ok q where q: "add_to_top (addValue (tval key) v False) p = (ok, q)" by fastforce
      from add_to_top_ok [OF assms(1) q keeps_tree_ops(2) [OF v]] have "parser_ok m d (q\<lparr>tokenStack := rest\<rparr>)" using assms(2) by (intro rest) auto
      then show ?thesis using q by (simp add: check_top_inv)
    qed
    show ?thesis
      using Cons True parser_ok_stack [OF assms(1)] add [of "mk_val (tval t) VString"] add [of "val_of_id (tval t)"] add [of "mk_val (tval t) VFloat"]
        add [of "mk_val (tval t) VInt"] check_top_inv [OF rest [OF assms(1) refl assms(2)]]
      by (cases "tt t") (simp_all add: colapseKeyVal_def val_types Let_def)
  qed
qed

text \<open>Reducing a list.\<close>

lemma loop_fails:
  assumes "MiTT_OP \<notin> tt ` set (butlast ts)" "prev \<noteq> MiTT_EQUAL" "prev = MiTT_OP \<longrightarrow> ts = []"
  shows "p_error (colapse_list_loop prev vl ts p)"
  using assms
proof (induction ts arbitrary: prev vl)
  case (Cons t ts)
  have "tt t = MiTT_OP \<longrightarrow> ts = []" using Cons.prems(1) by (cases ts) auto
  moreover have "p_error (colapse_list_loop q vl' ts p)" if "q \<noteq> MiTT_EQUAL" "q = MiTT_OP \<longrightarrow> ts = []" for q vl'
    using Cons.IH no_op_tail [OF Cons.prems(1)] that by blast
  ultimately show ?case using Cons.prems(2,3) by (cases "tt t") auto
qed simp

lemma push_front_ok: "valType v \<noteq> VUndef \<Longrightarrow> vals_ok vl \<and> isList_flag vl \<Longrightarrow> vals_ok (vl_push_front v vl) \<and> isList_flag (vl_push_front v vl)"
  by (simp add: vals_ok_def vl_push_front_def)

lemma loop_values:
  assumes "list_all (\<lambda>t. tt t \<in> list_tokens) xs" "tt op = MiTT_OP" "tt eq = MiTT_EQUAL" "prev \<noteq> MiTT_EQUAL" "vals_ok vl \<and> isList_flag vl"
  shows "\<exists>vl'. vals_ok vl' \<and> colapse_list_loop prev vl (xs @ op # eq # rest) p = colapse_list_loop MiTT_EQUAL vl' rest p"
  using assms
proof (induction xs arbitrary: prev vl)
  case Nil
  have "vals_ok (vl_push_front empty_string_val vl)" using Nil.prems(5) push_front_ok [of empty_string_val vl] by (simp add: empty_string_val_def val_types)
  then show ?case using Nil.prems by (cases "prev = MiTT_COMMA") auto
next
  case (Cons t xs)
  have IH: "\<exists>vl'. vals_ok vl' \<and> colapse_list_loop (tt t) w (xs @ op # eq # rest) p = colapse_list_loop MiTT_EQUAL vl' rest p"
    if "vals_ok w \<and> isList_flag w" for w
    using Cons.prems(1) that by (intro Cons.IH Cons.prems(2,3)) (auto simp: list_tokens_def)
  note val = IH [OF push_front_ok [OF _ Cons.prems(5)]]
  have e: "valType empty_string_val \<noteq> VUndef" by (simp add: empty_string_val_def val_types)
  have "tt t \<in> list_tokens" using Cons.prems(1) by simp
  then consider "tt t = MiTT_STRING" | "tt t = MiTT_ID" | "tt t = MiTT_INT" | "tt t = MiTT_FLOAT" | "tt t = MiTT_COMMA"
    by (auto simp: list_tokens_def)
  then show ?case
  proof cases
    case 1
    then show ?thesis using val [of "mk_val (tval t) VString"] by (simp add: val_types)
  next
    case 2
    then show ?thesis using val [of "val_of_id (tval t)"] Cons.prems(4) by (simp add: val_types)
  next
    case 3
    then show ?thesis using val [of "mk_val (tval t) VInt"] by (simp add: val_types)
  next
    case 4
    then show ?thesis using val [of "mk_val (tval t) VFloat"] by (simp add: val_types)
  next
    case 5
    then show ?thesis using val [of empty_string_val] e IH [OF Cons.prems(5)] by simp
  qed
qed

lemma colapseList_inv:
  assumes "parser_ok m d p" "listContext p"
  shows "parser_inv m d (colapseList (p\<lparr>listContext := False\<rparr>))"
proof -
  obtain xs op eq rest where l: "tokenStack p = xs @ op # eq # rest" "list_all (\<lambda>t. tt t \<in> list_tokens) xs" "tt op = MiTT_OP"
    "tt eq = MiTT_EQUAL" "MiTT_OP \<notin> tt ` set (butlast rest)"
    using assms by (auto simp: parser_ok_def lists_ok_def)
  let ?p = "p\<lparr>listContext := False\<rparr>"
  obtain vl where vl: "vals_ok vl" "colapseList ?p = colapse_list_loop MiTT_EQUAL vl rest ?p"
    using loop_values [OF l(2-4), of MiTT_CP "vl_set_isList True new_list" rest ?p] parser_ok_stack [OF assms(1)] l(1)
    by (auto simp: colapseList_def vals_ok_def vl_set_isList_def new_list_def)
  have noflags: "open_flags (xs @ ts) = open_flags ts" for ts using l(2) by (induction xs) (auto simp: list_tokens_def)
  show ?thesis
  proof (cases rest)
    case Nil
    then show ?thesis using vl(2) by simp
  next
    case (Cons t ts)
    let ?q = "?p\<lparr>tokenStack := ts\<rparr>"
    show ?thesis
    proof (cases "tt t = MiTT_ID")
      case True
      have q: "parser_ok m d ?q"
        using assms l True no_op_tail [of t ts] by (simp add: parser_ok_def lists_ok_def noflags Cons)
      obtain ok r where r: "add_to_top (addValues (tval t) vl False) ?q = (ok, r)" by fastforce
      have "parser_ok m d r" by (rule add_to_top_ok(1) [OF q r keeps_tree_ops(1) [OF vl(1)]])
      then show ?thesis using vl(2) Cons True r by (simp add: check_top_inv)
    next
      case False
      have op: "tt t = MiTT_OP \<longrightarrow> ts = []" using l(5) Cons by (cases ts) auto
      have "MiTT_OP \<notin> tt ` set (butlast ts)" using no_op_tail [of t ts] l(5) Cons by blast
      then have "p_error (colapse_list_loop q w ts ?p)" if "q \<noteq> MiTT_EQUAL" "q = MiTT_OP \<longrightarrow> ts = []" for q w
        using loop_fails that by blast
      then have "p_error (colapseList ?p)" unfolding vl(2) Cons using False op by (cases "tt t") auto
      then show ?thesis by (simp add: parser_inv_def)
    qed
  qed
qed

text \<open>Sections, and the next token.\<close>

lemma colapseSection_inv:
  assumes "parser_ok m d p" "\<not> listContext p" "colapseSection p = Some p'"
  shows "parser_inv m d p'"
proof (rule ccontr)
  assume bad: "\<not> parser_inv m d p'"
  then have ne: "\<not> p_error p'" by (simp add: parser_inv_def)
  obtain ob name ts where t: "tokenStack p = ob # name # ts" "tt ob = MiTT_OB" "tt name = MiTT_ID \<or> tt name = MiTT_IGNORE_ID"
    using assms(3) ne by (auto simp: colapseSection_def Let_def split: list.splits if_splits)
  obtain sect parent ss where s: "p_stack p = sect # parent # ss"
    using assms(3) ne t by (auto simp: colapseSection_def Let_def split: list.splits if_splits)
  have m: "p_multiple p = m" "p_deleteIgnored p = d" "tree_ok m d sect" "tree_ok m d parent" "cs_ignore (pimpel sect) = (tt name = MiTT_IGNORE_ID)"
    using assms(1) t s by (auto simp: parser_ok_def)
  let ?q = "p\<lparr>p_stack := parent # ss, tokenStack := ts\<rparr>"
  have q: "parser_ok m d ?q"
    using assms(1,2) t s no_op_tail [of name ts] no_op_tail [of ob "name # ts"] by (auto simp: parser_ok_def lists_ok_def)
  show False
  proof (cases "tt name = MiTT_IGNORE_ID \<and> d")
    case True
    then have "p' = check_top ?q" using assms(3) t s m by (simp add: colapseSection_def Let_def)
    then show False using bad check_top_inv [OF q] by simp
  next
    case False
    obtain ok r where r: "add_to_top (addSection (tval name) sect False) ?q = (ok, r)" by fastforce
    have "parser_ok m d r" using False m(5) by (intro add_to_top_ok(1) [OF q r keeps_tree_ops(3) [OF m(3)]]) auto
    moreover have "p' = check_top r \<or> p_error p'"
      using assms(3) t s m False r
      by (auto simp: colapseSection_def Let_def add_to_top_def intro!: arg_cong [of _ _ check_top] split: prod.splits if_splits)
    ultimately show False using bad check_top_inv ne by auto
  qed
qed

lemma checkToken_inv:
  assumes "parser_inv m d p" "checkToken t p = Some p'"
  shows "parser_inv m d p'"
proof (cases "p_error p")
  case False
  then have ok: "parser_ok m d p" using assms(1) by (simp add: parser_inv_def)
  show ?thesis
  proof (cases "tokenStack p")
    case Nil
    then have "\<not> listContext p" using ok by (auto simp: parser_ok_def lists_ok_def)
    then have "tt t \<noteq> MiTT_OB \<Longrightarrow> parser_ok m d (p_push t p)" using push_ok [OF ok] Nil by blast
    moreover have "tt t = MiTT_OB \<Longrightarrow> parser_ok m d (p_push t p)"
      using ok Nil \<open>\<not> listContext p\<close> by (simp add: parser_ok_def p_push_def lists_ok_def)
    ultimately have "parser_ok m d (p_push t p)" by blast
    then show ?thesis using assms(2) False Nil ok by (auto simp: checkToken_def parser_inv_def split: if_splits)
  next
    case (Cons prev rest)
    show ?thesis
    proof (cases "listContext p")
      case True
      then show ?thesis
        using assms(2) False Cons ok colapseList_inv [OF ok True] push_in_list_ok [OF ok True, of t]
        by (cases "tt t") (auto simp: checkToken_def parser_inv_def list_tokens_def)
    next
      case no_list: False
      note push = push_ok [OF ok no_list, unfolded Cons list.distinct(2) HOL.simp_thms]
      consider (start) "tt t = MiTT_OP" | (val) "tt t \<noteq> MiTT_OP" "tt prev = MiTT_EQUAL" | (brace) "tt t = MiTT_OB" "tt prev \<noteq> MiTT_EQUAL"
        | (close) "tt t = MiTT_CB" "tt prev \<noteq> MiTT_EQUAL"
        | (other) "tt t \<noteq> MiTT_OP" "tt t \<noteq> MiTT_OB" "tt t \<noteq> MiTT_CB" "tt prev \<noteq> MiTT_EQUAL"
        by blast
      then show ?thesis
      proof cases
        case start
        have "parser_ok m d (p_push (Token MiTT_OP [] (cur_line p)) (p\<lparr>listContext := True\<rparr>))" if e: "tt prev = MiTT_EQUAL"
        proof -
          have "MiTT_OP \<notin> tt ` set (butlast rest)"
            using ok no_list no_op_tail [of prev rest] by (simp add: parser_ok_def lists_ok_def Cons)
          then have "lists_ok True (Token MiTT_OP [] (cur_line p) # prev # rest)"
            unfolding lists_ok_def using e
            by (simp only: if_True) (rule exI [of _ "[]"], rule exI [of _ "Token MiTT_OP [] (cur_line p)"], rule exI [of _ prev], rule exI [of _ rest], simp)
          then show ?thesis using ok Cons by (simp add: parser_ok_def p_push_def)
        qed
        then show ?thesis using assms(2) False no_list Cons start by (auto simp: checkToken_def parser_inv_def split: if_splits)
      next
        case val
        have "parser_inv m d (colapseKeyVal t (p\<lparr>tokenStack := rest\<rparr>))"
          using pop_ok [OF ok no_list Cons] val(2) no_list by (intro colapseKeyVal_inv) simp_all
        then show ?thesis using assms(2) False no_list Cons val by (auto simp: checkToken_def split: if_splits)
      next
        case brace
        have "MiTT_OP \<notin> tt ` set (butlast (t # prev # rest))" using ok no_list brace(1) by (auto simp: parser_ok_def lists_ok_def Cons)
        then have "parser_ok m d (p_push t (open_section prev p))"
          using ok no_list brace Cons new_section_ok
          by (simp add: parser_ok_def p_push_def open_section_def lists_ok_def Let_def) (simp add: ignoreThisSection_def new_section_def)
        then show ?thesis using assms(2) False no_list Cons brace by (auto simp: checkToken_def parser_inv_def split: if_splits)
      next
        case close
        then show ?thesis using assms(2) False no_list Cons colapseSection_inv [OF ok no_list] by (simp add: checkToken_def)
      next
        case other
        then show ?thesis using assms(2) False no_list Cons ok push [of t] push [of "Token MiTT_EQUAL [] (cur_line p)"]
          by (cases "tt t") (auto simp: checkToken_def parser_inv_def)
      qed
    qed
  qed
qed (use assms in \<open>auto simp: checkToken_def\<close>)

section \<open>The result\<close>

lemma charToken_inv: "parser_inv m d p \<Longrightarrow> charToken lc ch p = Some p' \<Longrightarrow> parser_inv m d p'"
  by (auto simp: charToken_def p_token_def intro: checkToken_inv split: if_splits)

lemma parser_inv_simps [simp]: "parser_inv m d (next_line p) = parser_inv m d p"
  "parser_inv m d (p\<lparr>cur_line := l, cur_file := f\<rparr>) = parser_inv m d p" "parser_inv m d (p\<lparr>errs := es\<rparr>) = parser_inv m d p"
  by (simp_all add: parser_inv_def parser_ok_def next_line_def)

lemma newStream_inv: "parser_inv m d (sparser s) \<Longrightarrow> newStream files env name s = Some s' \<Longrightarrow> parser_inv m d (sparser s')"
  by (auto simp: newStream_def Let_def split: option.splits prod.splits if_splits)

lemma deleteStream_inv: "parser_inv m d (sparser s) \<Longrightarrow> deleteStream s = Some s' \<Longrightarrow> parser_inv m d (sparser s')"
  by (auto simp: deleteStream_def split: list.splits)

lemma conf_exec_inv:
  assumes "parser_inv m d (sparser s)" "conf_exec files env lc a text s = Some (Some s')"
  shows "parser_inv m d (sparser s')"
  using assms
  by (cases a) (auto simp: conf_exec_def with_parser_def p_token_def Let_def intro: charToken_inv [OF assms(1)] newStream_inv [OF assms(1)]
      checkToken_inv [OF assms(1)] split: option.splits)

lemma conf_step_inv: "parser_inv m d (sparser s) \<Longrightarrow> conf_step files env lc s = Some (Some s') \<Longrightarrow> parser_inv m d (sparser s')"
  by (auto simp: conf_step_def intro: conf_exec_inv [rotated] split: option.splits prod.splits)

lemma conf_scan_inv:
  assumes "conf_scan files env lc s = Some r"
  shows "\<forall>p. parser_inv m d (sparser s) \<longrightarrow> r = Some p \<longrightarrow> parser_inv m d p"
  using assms
proof (rule conf_scan.raw_induct [rotated])
  fix scan files env lc s r
  assume 1: "\<And>files env lc s r. scan files env lc s = Some r \<Longrightarrow> \<forall>p. parser_inv m d (sparser s) \<longrightarrow> r = Some p \<longrightarrow> parser_inv m d p"
    "(if p_error (sparser s) then Some (Some (sparser s))
      else if sinput s = [] then (case deleteStream s of None \<Rightarrow> Some (Some (sparser s)) | Some s' \<Rightarrow> scan files env lc s')
      else (case conf_step files env lc s of None \<Rightarrow> None | Some None \<Rightarrow> Some None | Some (Some s') \<Rightarrow> scan files env lc s')) = Some r"
  show "\<forall>p. parser_inv m d (sparser s) \<longrightarrow> r = Some p \<longrightarrow> parser_inv m d p"
  proof (intro allI impI)
    fix p
    assume p: "parser_inv m d (sparser s)" "r = Some p"
    have again: "parser_inv m d p" if "scan files env lc s' = Some r" "parser_inv m d (sparser s')" for s'
      using 1(1) [OF that(1)] that(2) p(2) by blast
    consider (error) "p_error (sparser s)" | (eof) "\<not> p_error (sparser s)" "sinput s = []" | (step) "\<not> p_error (sparser s)" "sinput s \<noteq> []"
      by blast
    then show "parser_inv m d p"
    proof cases
      case error
      then show ?thesis using 1(2) p by simp
    next
      case eof
      then show ?thesis using 1(2) p again deleteStream_inv [OF p(1)] by (cases "deleteStream s") simp_all
    next
      case step
      then obtain x where x: "conf_step files env lc s = Some x" using 1(2) by (cases "conf_step files env lc s") auto
      then show ?thesis using 1(2) p(2) step again conf_step_inv [OF p(1)] by (cases x) simp_all
    qed
  qed
qed

text \<open>
  C29. Whatever text is parsed, with whatever files and environment: a result is a well-formed tree. Its maps are
  ordered by name, a name has one section unless more are allowed, sections marked to be ignored are not there when
  they are to be left out, and every key has a value or a list.
\<close>

theorem conf_parse_result_ok:
  assumes "conf_parse files env lc m d before text = Some (Some (Some s))"
  shows "tree_ok m d s \<and> \<not> cs_ignore (pimpel s)"
proof -
  obtain p where p: "conf_scan files env lc \<lparr>cond = fst before, stringContinue = snd before, sinput = text, istStack = [],
      sparser = new_parser m d\<rparr> = Some (Some p)" "p_finish p = Some s"
    using assms by (auto simp: conf_parse_def)
  have "parser_inv m d (new_parser m d)" by (simp add: parser_inv_def parser_ok_def new_parser_def lists_ok_def new_section_def)
  then have inv: "parser_inv m d p" using conf_scan_inv [OF p(1), of m d] by simp
  have f: "\<not> p_error p" "tokenStack p = []" "length (p_stack p) \<le> 1" "\<exists>ss. p_stack p = s # ss"
    using p(2) by (auto simp: p_finish_def split: if_splits list.splits)
  then show ?thesis using inv by (auto simp: parser_inv_def parser_ok_def)
qed

definition no_file :: "string \<Rightarrow> string option" where
  "no_file name = None"

abbreviation round_brackets :: "char \<times> char" where
  "round_brackets \<equiv> (CHR ''('', CHR '')'')"

definition demo_place :: ConfSectionPimpel where
  "demo_place = \<lparr>allowMultiple = False, cs_lineno = 1, cs_filename = ''<STREAM>'', cs_ignore = False\<rparr>"

definition one_value :: "ValType \<Rightarrow> string \<Rightarrow> ValElementList" where
  "one_value ty w = \<lparr>elems = [\<lparr>valType = ty, vtext = w\<rparr>], isList_flag = False, isNil = False\<rparr>"

definition demo_text :: string where
  "demo_text = ''a{!b{}c=(1,x)}k='' @ [CHR 0x22, CHR ''v'', CHR 0x22, CHR 0x0A]"

definition demo_tree :: ConfSection where
  "demo_tree = ConfSection demo_place
     [(''a'', [ConfSection demo_place []
        [(''c'', \<lparr>elems = [\<lparr>valType = VInt, vtext = ''1''\<rparr>, \<lparr>valType = VId, vtext = ''x''\<rparr>], isList_flag = True, isNil = False\<rparr>)]])]
     [(''k'', one_value VString ''v'')]"

lemma demo_parse: "conf_parse no_file no_file round_brackets False True (INITIAL, False) demo_text = Some (Some (Some demo_tree))"
  by code_simp

lemma conf_parse_result_ok_witness: "tree_ok False True demo_tree \<and> \<not> cs_ignore (pimpel demo_tree)"
  by (rule conf_parse_result_ok [OF demo_parse])

section \<open>The end of parsing\<close>

text \<open>The rules always take something from a text that is not empty.\<close>

lemma number_token_pos: "isdigit c \<Longrightarrow> number_token (c # cs) = (n, a) \<Longrightarrow> 0 < n"
  by (auto simp: number_token_def Let_def split: if_splits)

lemma conf_token_pos: "conf_token c cs = (n, a) \<Longrightarrow> 0 < n"
  by (auto simp: conf_token_def Let_def dest: number_token_pos split: if_splits prod.splits)

lemma rules_take: "best_rule (conf_rules k) (c # cs) = Some (n, a) \<Longrightarrow> 0 < n"
proof (cases k)
  case INITIAL
  then show "best_rule (conf_rules k) (c # cs) = Some (n, a) \<Longrightarrow> 0 < n" by (simp add: conf_rules_reference conf_token_pos)
qed (auto simp: conf_rules_def r_char_def longest_Cls simp del: longest.simps split: if_splits)

text \<open>The names that a text may include: a word anywhere in it.\<close>

definition word_char :: "char \<Rightarrow> bool" where
  "word_char c \<longleftrightarrow> c \<notin> {CHR '' '', CHR 0x0D, CHR 0x09, CHR 0x0A}"

definition include_names :: "string \<Rightarrow> string list" where
  "include_names w = map (takeWhile word_char) (suffixes w)"

definition included :: "(string \<Rightarrow> string option) \<Rightarrow> (string \<Rightarrow> string option) \<Rightarrow> string \<Rightarrow> string option" where
  "included files env name = (case expand_vars env name [] of None \<Rightarrow> None | Some (file, missing) \<Rightarrow> files file)"

text \<open>Files are included at most \<open>k\<close> deep from a text.\<close>

fun include_depth :: "(string \<Rightarrow> string option) \<Rightarrow> (string \<Rightarrow> string option) \<Rightarrow> nat \<Rightarrow> string \<Rightarrow> bool" where
  "include_depth files env 0 w \<longleftrightarrow> list_all (\<lambda>name. included files env name = None) (include_names w)"
| "include_depth files env (Suc k) w \<longleftrightarrow>
     list_all (\<lambda>name. case included files env name of None \<Rightarrow> True | Some content \<Rightarrow> include_depth files env k content) (include_names w)"

lemma two_rules:
  "best_rule [(plus (Cls P), a), (plus (Cls Q), b)] (c # cs) =
     (if P c then
        (if Q c \<and> length (takeWhile P cs) < length (takeWhile Q cs) then Some (Suc (length (takeWhile Q cs)), b)
         else Some (Suc (length (takeWhile P cs)), a))
      else if Q c then Some (Suc (length (takeWhile Q cs)), b) else None)"
  by (simp del: longest.simps)

lemma include_rule:
  assumes "best_rule (conf_rules k) w = Some (n, Include)"
  shows "take n w = takeWhile word_char w"
proof (cases w)
  case Nil
  then show ?thesis using assms by simp
next
  case (Cons c cs)
  show ?thesis
  proof (cases k)
    case INITIAL
    then have "conf_token c cs = (n, Include)" using assms Cons by (simp add: conf_rules_reference)
    then show ?thesis by (auto simp: conf_token_def number_token_def Let_def split: if_splits prod.splits)
  next
    case START_INCLUDE
    have r: "conf_rules START_INCLUDE = [(plus (Cls (\<lambda>c. c = CHR '' '' \<or> c = CHR 0x09)), Skip), (plus (Cls word_char), Include)]"
      by (simp add: conf_rules_def word_char_def [abs_def])
    have b: "best_rule [(plus (Cls (\<lambda>c. c = CHR '' '' \<or> c = CHR 0x09)), Skip), (plus (Cls word_char), Include)] (c # cs) = Some (n, Include)"
      using assms unfolding Cons START_INCLUDE r .
    have "\<not> ((c = CHR '' '' \<or> c = CHR 0x09) \<and> word_char c)" by (auto simp: word_char_def)
    then have "word_char c \<and> n = Suc (length (takeWhile word_char cs))" using b unfolding two_rules by (auto split: if_splits)
    then show ?thesis by (simp add: Cons takeWhile_eq_take [of word_char cs, symmetric])
  qed (use assms Cons in \<open>auto simp: conf_rules_def r_char_def longest_Cls simp del: longest.simps split: if_splits\<close>)
qed

text \<open>A variable of the environment whose value has no other variable in it is replaced once.\<close>

definition clean_env :: "(string \<Rightarrow> string option) \<Rightarrow> bool" where
  "clean_env env \<longleftrightarrow> (\<forall>v x. env v = Some x \<longrightarrow> CHR ''$'' \<notin> set x)"

lemma count_cut: "i \<le> j \<Longrightarrow> count_list (take i f) c + count_list (drop j f) c \<le> count_list f c"
proof -
  assume "i \<le> j"
  then have "drop j f = drop (j - i) (drop i f)" by simp
  moreover have "count_list (drop n w) c \<le> count_list w c" for n w
    by (metis append_take_drop_id count_list_append le_add2)
  ultimately show ?thesis by (metis append_take_drop_id count_list_append nat_add_left_cancel_le)
qed

lemma expand_at_less:
  assumes "clean_env env" "find_sub ''${'' file = Some i"
  shows "count_list (fst (expand_at env i file)) (CHR ''$'') < count_list file (CHR ''$'')"
proof -
  let ?n = "\<lambda>w. count_list w (CHR ''$'')"
  let ?f = "take i file @ drop (i + 2) file"
  have "file = take i file @ ''${'' @ drop (i + 2) file" using find_sub_Some [OF assms(2)] by simp
  then have "?n file = ?n (take i file @ ''${'' @ drop (i + 2) file)" by simp
  then have f: "?n ?f < ?n file" by (simp add: count_list_append)
  show ?thesis
  proof (cases "find_from (CHR ''}'') i ?f")
    case None
    then show ?thesis using f by (simp add: expand_at_def Let_def)
  next
    case (Some ii)
    then have ii: "i \<le> ii" by (auto simp: find_from_def Let_def split: if_splits)
    let ?g = "take ii ?f @ drop (ii + 1) ?f"
    let ?var = "take (ii - i) (drop i ?f)"
    have g: "?n ?g \<le> ?n ?f" using count_cut [of ii "ii + 1" ?f "CHR ''$''"] by (simp add: count_list_append del: take_append drop_append)
    have "?n (take i ?g @ val @ drop ii ?g) \<le> ?n ?g" if "env ?var = Some val" for val
      using count_cut [OF ii, of ?g "CHR ''$''"] assms(1) that
      by (simp add: clean_env_def count_list_append count_notin del: take_append drop_append)
    then have "?n (fst (expand_at env i file)) \<le> ?n ?g"
      unfolding expand_at_def Let_def Some option.case by (auto split: option.splits simp del: take_append drop_append)
    then show ?thesis using f g by linarith
  qed
qed

lemma expand_vars_ends: "clean_env env \<Longrightarrow> \<exists>r. expand_vars env w ms = Some r"
proof (induction w arbitrary: ms rule: measure_induct_rule [where f = "\<lambda>w. count_list w (CHR ''$'')"])
  case (less w)
  show ?case
  proof (cases "find_sub ''${'' w")
    case None
    then show ?thesis by (simp add: expand_vars.simps)
  next
    case (Some i)
    then show ?thesis
      using less.IH [OF expand_at_less [OF less.prems Some] less.prems]
      by (subst expand_vars.simps) (cases "expand_at env i w"; simp)
  qed
qed

text \<open>Scanning comes to the end of the text it is in, or it is over.\<close>

lemma rules_length: "best_rule rs w = Some (n, a) \<Longrightarrow> n \<le> length w"
  using best_rule_spec [of rs w n a] by blast

lemma exec_input:
  assumes "conf_exec files env lc a text s = Some (Some s')" "a \<noteq> Include"
  shows "sinput s' = sinput s" "istStack s' = istStack s"
  using assms by (cases a; auto simp: conf_exec_def with_parser_def Let_def split: if_splits)+

lemma exec_total: "a \<noteq> Include \<or> clean_env env \<Longrightarrow> conf_exec files env lc a text s \<noteq> None"
  using expand_vars_ends [of env "text" "[]"]
  by (cases a) (auto simp: conf_exec_def with_parser_def newStream_def Let_def split: option.splits prod.splits)

lemma exec_include:
  assumes "clean_env env" "conf_exec files env lc Include text s = Some (Some s')"
  shows "(sinput s' = sinput s \<and> istStack s' = istStack s) \<or>
    (\<exists>content l f. included files env text = Some content \<and> sinput s' = content \<and> istStack s' = (sinput s, l, f) # istStack s)"
  using assms(2) by (auto simp: conf_exec_def newStream_def included_def Let_def split: option.splits prod.splits if_splits)

lemma depth_suffix: "include_depth files env k w \<Longrightarrow> suffix v w \<Longrightarrow> include_depth files env k v"
  by (cases k) (auto simp: include_names_def list_all_iff dest: suffix_order.trans)

lemma depth_name:
  assumes "include_depth files env k w" "included files env (takeWhile word_char w) = Some content"
  shows "\<exists>j. k = Suc j \<and> include_depth files env j content"
proof -
  have "takeWhile word_char w \<in> set (include_names w)" by (auto simp: include_names_def)
  then show ?thesis using assms by (cases k) (auto simp: list_all_iff split: option.splits)
qed

lemma scan_through:
  assumes "clean_env env"
  shows "include_depth files env k (sinput s) \<Longrightarrow> conf_scan files env lc s \<noteq> None \<or>
    (\<exists>s'. conf_scan files env lc s = conf_scan files env lc s' \<and> sinput s' = [] \<and> istStack s' = istStack s)"
proof (induction k arbitrary: s rule: less_induct)
  case (less k)
  show ?case
    using less.prems
  proof (induction s rule: measure_induct_rule [where f = "\<lambda>s. length (sinput s)"])
    case (less s)
    note outer = \<open>\<And>j s. j < k \<Longrightarrow> include_depth files env j (sinput s) \<Longrightarrow> _\<close>
    let ?scan = "conf_scan files env lc"
    let ?goal = "\<lambda>s. ?scan s \<noteq> None \<or> (\<exists>s'. ?scan s = ?scan s' \<and> sinput s' = [] \<and> istStack s' = istStack s)"
    show ?case
    proof (cases "p_error (sparser s) \<or> sinput s = []")
      case True
      then show ?thesis by (subst conf_scan.simps) auto
    next
      case False
      then obtain c cs where w: "sinput s = c # cs" by (cases "sinput s") auto
      have shorter: "?goal u" if "length (sinput u) < length (sinput s)" "suffix (sinput u) (sinput s)" for u
        using less.IH [OF that(1) depth_suffix [OF less.prems that(2)]] .
      show ?thesis
      proof (cases "conf_step files env lc s")
        case None
        then obtain n a where "best_rule (conf_rules (cond s)) (sinput s) = Some (n, a)"
          "conf_exec files env lc a (take n (sinput s)) (s\<lparr>sinput := drop n (sinput s)\<rparr>) = None"
          by (auto simp: conf_step_def split: option.splits)
        then show ?thesis using exec_total assms by blast
      next
        case (Some x)
        show ?thesis
        proof (cases x)
          case None
          then show ?thesis using False Some by (subst conf_scan.simps) simp
        next
          case (Some s1)
          then have step: "conf_step files env lc s = Some (Some s1)" using \<open>conf_step files env lc s = Some x\<close> by simp
          then have eq: "?scan s = ?scan s1" using False by (subst conf_scan.simps) simp
          have "(?goal s1 \<and> istStack s1 = istStack s) \<or> (\<exists>l f rest content. included files env (takeWhile word_char (sinput s)) = Some content \<and> sinput s1 = content \<and>
              istStack s1 = (rest, l, f) # istStack s \<and> length rest < length (sinput s) \<and> suffix rest (sinput s))"
            (is "_ \<or> ?inc")
          proof (cases "best_rule (conf_rules (cond s)) (sinput s)")
            case None
            then have "s1 = s\<lparr>sinput := cs\<rparr>" using step w by (simp add: conf_step_def)
            then show ?thesis using shorter [of s1] w by (simp add: suffix_Cons)
          next
            case (Some r)
            obtain n a where r: "best_rule (conf_rules (cond s)) (sinput s) = Some (n, a)" using Some by (cases r) simp
            let ?s0 = "s\<lparr>sinput := drop n (sinput s)\<rparr>"
            have ex: "conf_exec files env lc a (take n (sinput s)) ?s0 = Some (Some s1)" using step r by (simp add: conf_step_def)
            have less: "length (drop n (sinput s)) < length (sinput s)" "suffix (drop n (sinput s)) (sinput s)"
              using rules_take r w by (auto simp: suffix_drop)
            show ?thesis
            proof (cases "a = Include")
              case False
              then show ?thesis using exec_input [OF ex] shorter [of s1] less by simp
            next
              case True
              have t: "take n (sinput s) = takeWhile word_char (sinput s)" using include_rule r True by blast
              show ?thesis using exec_include [OF assms ex [unfolded True]] shorter [of s1] less t by auto
            qed
          qed
          then show ?thesis
          proof
            assume "?goal s1 \<and> istStack s1 = istStack s"
            then show ?thesis unfolding eq by (elim conjE) simp
          next
            assume ?inc
            then obtain l f rest content where inc: "included files env (takeWhile word_char (sinput s)) = Some content" "sinput s1 = content"
              "istStack s1 = (rest, l, f) # istStack s" "length rest < length (sinput s)" "suffix rest (sinput s)" by blast
            obtain j where j: "k = Suc j" "include_depth files env j content" using depth_name [OF less.prems inc(1)] by blast
            have "?goal s1" using outer [of j s1] j inc(2) by simp
            then show ?thesis
            proof
              assume "\<exists>s'. ?scan s1 = ?scan s' \<and> sinput s' = [] \<and> istStack s' = istStack s1"
              then obtain s2 where s2: "?scan s1 = ?scan s2" "sinput s2 = []" "istStack s2 = (rest, l, f) # istStack s" using inc(3) by auto
              show ?thesis
              proof (cases "p_error (sparser s2)")
                case True
                then show ?thesis unfolding eq s2(1) by (subst conf_scan.simps) simp
              next
                case False
                obtain s3 where s3: "deleteStream s2 = Some s3" "sinput s3 = rest" "istStack s3 = istStack s" using s2(3) by (simp add: deleteStream_def)
                have "?scan s2 = ?scan s3" using False s2(2) s3(1) by (subst conf_scan.simps) simp
                then show ?thesis using shorter [of s3] inc(4,5) s3(2,3) unfolding eq s2(1) by simp
              qed
            qed (simp add: eq)
          qed
        qed
      qed
    qed
  qed
qed


definition one_file :: "string \<Rightarrow> string option" where
  "one_file name = (if name = ''b'' then Some ''x=1'' else None)"


text \<open>Otherwise it need not end: a file that includes itself is read again and again, and so is a variable.\<close>

definition includes_itself :: "string \<Rightarrow> string option" where
  "includes_itself name = (if name = ''a'' then Some ''@include a'' else None)"

lemma include_rules:
  "best_rule (conf_rules START_INCLUDE) ''a'' = Some (1, Include)" "best_rule (conf_rules START_INCLUDE) '' a'' = Some (1, Skip)"
  by (simp_all add: conf_rules_def plus_def)

definition reads_itself :: "ConfScan \<Rightarrow> bool" where
  "reads_itself s \<longleftrightarrow> \<not> p_error (sparser s) \<and>
     (cond s = INITIAL \<and> sinput s = ''@include a'' \<or> cond s = START_INCLUDE \<and> (sinput s = '' a'' \<or> sinput s = ''a''))"

lemma reads_itself_again:
  assumes "reads_itself s"
  shows "\<exists>s'. conf_step includes_itself (\<lambda>_. None) lc s = Some (Some s') \<and> reads_itself s'"
proof -
  consider "cond s = INITIAL" "sinput s = ''@include a''" | "cond s = START_INCLUDE" "sinput s = '' a''" | "cond s = START_INCLUDE" "sinput s = ''a''"
    using assms by (auto simp: reads_itself_def)
  then show ?thesis
  proof cases
    case 1
    have "conf_token (CHR ''@'') ''include a'' = (8, BeginInclude)" by (simp add: conf_token_def blank_def)
    then show ?thesis using assms 1 by (simp add: conf_step_def conf_rules_reference conf_exec_def reads_itself_def Let_def)
  next
    case 2
    then show ?thesis using assms by (simp add: conf_step_def include_rules conf_exec_def reads_itself_def Let_def)
  next
    case 3
    have "expand_vars (\<lambda>_. None) ''a'' [] = Some (''a'', [])" by (simp add: expand_vars.simps find_sub.simps)
    then show ?thesis using assms 3
      by (simp add: conf_step_def include_rules conf_exec_def reads_itself_def newStream_def includes_itself_def Let_def)
  qed
qed

lemma includes_itself_loops: "conf_parse includes_itself (\<lambda>_. None) lc m d (INITIAL, c) ''@include a'' = None"
proof -
  have "\<not> reads_itself s" if "conf_scan files env lc s = Some r" "files = includes_itself" "env = (\<lambda>_. None)" for files env s r
  proof -
    have "files = includes_itself \<longrightarrow> env = (\<lambda>_. None) \<longrightarrow> \<not> reads_itself s"
      using that(1)
    proof (rule conf_scan.raw_induct [rotated])
      fix scan files env lc s r
      assume 1: "\<And>files env lc s r. scan files env lc s = Some r \<Longrightarrow> files = includes_itself \<longrightarrow> env = (\<lambda>_. None) \<longrightarrow> \<not> reads_itself s"
        "(if p_error (sparser s) then Some (Some (sparser s))
          else if sinput s = [] then (case deleteStream s of None \<Rightarrow> Some (Some (sparser s)) | Some s' \<Rightarrow> scan files env lc s')
          else (case conf_step files env lc s of None \<Rightarrow> None | Some None \<Rightarrow> Some None | Some (Some s') \<Rightarrow> scan files env lc s')) = Some r"
      show "files = includes_itself \<longrightarrow> env = (\<lambda>_. None) \<longrightarrow> \<not> reads_itself s"
      proof (intro impI notI)
        assume a: "files = includes_itself" "env = (\<lambda>_. None)" "reads_itself s"
        obtain s' where s': "conf_step files env lc s = Some (Some s')" "reads_itself s'" using reads_itself_again [OF a(3)] a(1,2) by blast
        have "\<not> p_error (sparser s)" "sinput s \<noteq> []" using a(3) by (auto simp: reads_itself_def)
        then have "scan files env lc s' = Some r" using 1(2) s'(1) by simp
        then show False using 1(1) a(1,2) s'(2) by blast
      qed
    qed
    then show ?thesis using that(2,3) by blast
  qed
  then have "conf_scan includes_itself (\<lambda>_. None) lc s = None" if "reads_itself s" for s using that by (cases "conf_scan includes_itself (\<lambda>_. None) lc s") auto
  then show ?thesis by (simp add: conf_parse_def reads_itself_def new_parser_def)
qed

lemma variable_loops: "expand_vars (\<lambda>v. if v = ''X'' then Some ''${X}'' else None) ''${X}'' missing = None"
proof -
  let ?env = "\<lambda>v. if v = ''X'' then Some ''${X}'' else None"
  have s: "find_sub ''${'' ''${X}'' = Some 0" "expand_at ?env 0 ''${X}'' = (''${X}'', None)"
    by (simp_all add: find_sub.simps expand_at_def find_from_def)
  have "\<not> (env = ?env \<and> w = ''${X}'')" if "expand_vars env w missing = Some r" for env w missing r
    using that
  proof (rule expand_vars.raw_induct [rotated])
    fix ev env w missing r
    assume 1: "\<And>env w missing r. ev env w missing = Some r \<Longrightarrow> \<not> (env = ?env \<and> w = ''${X}'')"
      "(case find_sub ''${'' w of None \<Rightarrow> Some (w, missing)
        | Some i \<Rightarrow> (case expand_at env i w of (w', m) \<Rightarrow> ev env w' (case m of None \<Rightarrow> missing | Some v \<Rightarrow> missing @ [v]))) = Some r"
    show "\<not> (env = ?env \<and> w = ''${X}'')"
    proof
      assume a: "env = ?env \<and> w = ''${X}''"
      have "ev ?env ''${X}'' missing = Some r" using 1(2) s a by simp
      then show False using 1(1) by blast
    qed
  qed
  then have "expand_vars ?env ''${X}'' missing \<noteq> Some r" for r by blast
  then show ?thesis by (meson not_Some_eq)
qed

section \<open>Surprises\<close>

text \<open>A brace without a name is pushed on the empty stack of tokens, and its end looks at the token in front of it.\<close>

lemma unnamed_section: "conf_parse no_file no_file round_brackets m d (INITIAL, False) ''{}'' = Some None"
  by (cases m; cases d; code_simp)

text \<open>The error that a key must be a name is reported and forgotten; the value is then the beginning of a section.\<close>

lemma forgotten_error:
  "conf_parse no_file no_file round_brackets False True (INITIAL, False) ''!n=5{}'' = Some (Some (Some (ConfSection demo_place [] [])))"
  by code_simp

text \<open>A comment takes the end of its line with it, so a key without value gets the next name as its value.\<close>

lemma comment_joins_lines:
  "conf_parse no_file no_file round_brackets False True (INITIAL, False) (''k=#c'' @ nl @ ''j'' @ nl)
    = Some (Some (Some (ConfSection demo_place [] [(''k'', one_value VId ''j'')])))"
  by code_simp

text \<open>The start condition of the scanner outlives a text whose last string has no end: the next text begins in this string.\<close>

lemma condition_outlives_text:
  "conf_parse no_file no_file round_brackets False True (INITIAL, False) (''k=1'' @ nl) = Some (Some (Some (ConfSection demo_place [] [(''k'', one_value VInt ''1'')])))"
  "conf_parse no_file no_file round_brackets False True (START_STRING, False) (''k=1'' @ nl) = Some (Some None)"
  by code_simp+

end
