(* ===== verification/Conf_Lookup.thy ===== *)
theory Conf_Lookup
  imports Conf_Result
begin

text \<open>
  The lookup functions of a section (theory \<open>Conf_Section\<close>) on the trees that the parser makes: a path of names leads
  from section to section, and a value that a section does not have is that of the nearest enclosing section.
\<close>

section \<open>Paths\<close>

definition name_ok :: "string \<Rightarrow> bool" where
  "name_ok n \<longleftrightarrow> n \<noteq> [] \<and> set n \<inter> set path_set = {}"

fun join_path :: "string list \<Rightarrow> string" where
  "join_path [] = []"
| "join_path [n] = n"
| "join_path (n # ns) = n @ CHR ''.'' # join_path ns"

text \<open>The first of the sections of a name, one after the other.\<close>

fun walk :: "ConfSection \<Rightarrow> string list \<Rightarrow> ConfSection option" where
  "walk s [] = Some s"
| "walk s (n # ns) = (case map_of (sectionList s) n of Some (x # _) \<Rightarrow> walk x ns | _ \<Rightarrow> None)"

definition value_at :: "ConfSection \<Rightarrow> string list \<Rightarrow> string \<Rightarrow> ValElementList" where
  "value_at s ns key =
     (case walk s ns of None \<Rightarrow> new_list | Some x \<Rightarrow> (case map_of (valueList x) key of None \<Rightarrow> new_list | Some l \<Rightarrow> l))"

lemma name_no_dot: "name_ok n \<Longrightarrow> list_all (\<lambda>c. \<not> dot c) n"
  by (auto simp: name_ok_def path_set_def dot_def list_all_iff)

lemma dot_CHR [simp]: "dot (CHR ''.'')"
  by (simp add: dot_def)

lemma cut_name:
  assumes "name_ok n"
  shows "takeWhile (\<lambda>c. \<not> dot c) n = n" "dropWhile (\<lambda>c. \<not> dot c) n = []"
    "takeWhile (\<lambda>c. \<not> dot c) (n @ CHR ''.'' # r) = n" "dropWhile (\<lambda>c. \<not> dot c) (n @ CHR ''.'' # r) = CHR ''.'' # r"
proof -
  have "\<And>c. c \<in> set n \<Longrightarrow> \<not> dot c" using name_no_dot [OF assms] by (simp add: list_all_iff)
  then show "takeWhile (\<lambda>c. \<not> dot c) n = n" "dropWhile (\<lambda>c. \<not> dot c) n = []"
    "takeWhile (\<lambda>c. \<not> dot c) (n @ CHR ''.'' # r) = n" "dropWhile (\<lambda>c. \<not> dot c) (n @ CHR ''.'' # r) = CHR ''.'' # r"
    by (simp_all add: takeWhile_append dropWhile_append)
qed

lemma sections_sub: "tree_ok m d s \<Longrightarrow> map_of (sectionList s) n = Some l \<Longrightarrow> l \<noteq> [] \<and> tree_ok m d (hd l)"
  using entries_ok_get [of m d "sectionList s" n l] by (cases s; cases l) auto

lemma section_loop:
  assumes "tree_ok m d s" "ns \<noteq> []" "list_all name_ok ns"
  shows "get_section_loop moved s (join_path ns) = walk s ns"
  using assms
proof (induction ns arbitrary: s moved rule: join_path.induct)
  case (2 n)
  then have n: "n \<noteq> []" "name_ok n" by (simp_all add: name_ok_def)
  show ?case
    using n(1) sections_sub [OF 2(1), of n] by (subst get_section_loop.simps) (auto simp: cut_name [OF n(2)] Let_def split: option.split list.split)
next
  case (3 n n' ns)
  then have n: "n \<noteq> []" "name_ok n" by (simp_all add: name_ok_def)
  have IH: "get_section_loop moved x (join_path (n' # ns)) = walk x (n' # ns)" if "tree_ok m d x" for x moved
    using 3(1) [OF that] 3(4) by simp
  show ?case
  proof (cases "map_of (sectionList s) n")
    case None
    then show ?thesis using n(1) by (subst get_section_loop.simps) (simp add: cut_name [OF n(2)] Let_def)
  next
    case (Some l)
    then obtain x xs where l: "l = x # xs" "tree_ok m d x" using sections_sub [OF 3(2) Some] by (cases l) auto
    then show ?thesis using n(1) Some IH [of x True] by (subst get_section_loop.simps) (simp add: cut_name [OF n(2)] Let_def)
  qed
qed simp

lemma path_ends:
  assumes "ns \<noteq> []" "list_all name_ok ns"
  shows "join_path ns \<noteq> [] \<and> hd (join_path ns) \<notin> set path_set \<and> last (join_path ns) \<notin> set path_set"
  using assms
proof (induction ns rule: join_path.induct)
  case (3 n n' ns)
  then have "hd n \<notin> set path_set" "n \<noteq> []" using hd_in_set [of n] by (auto simp: name_ok_def disjoint_iff)
  then show ?case using 3 by (auto simp: name_ok_def)
next
  case (2 n)
  then show ?case using hd_in_set [of n] last_in_set [of n] by (auto simp: name_ok_def disjoint_iff)
qed simp

lemma dropWhile_id: "w \<noteq> [] \<Longrightarrow> \<not> P (hd w) \<Longrightarrow> dropWhile P w = w"
  by (cases w) auto

lemma trim_ends: "w \<noteq> [] \<Longrightarrow> hd w \<notin> set cs \<Longrightarrow> last w \<notin> set cs \<Longrightarrow> conf_trimstr cs w = w"
  using dropWhile_id [of w] dropWhile_id [of "rev w"] by (simp add: conf_trimstr_def hd_rev)

lemma trim_path:
  assumes "list_all name_ok ns"
  shows "conf_trimstr path_set (join_path ns) = join_path ns"
proof (cases "ns = []")
  case False
  then show ?thesis using path_ends [OF False assms] trim_ends by blast
qed (simp add: conf_trimstr_def)

lemma section_of_path: "tree_ok m d s \<Longrightarrow> list_all name_ok ns \<Longrightarrow> getSection s (join_path ns) = walk s ns"
  using section_loop [of m d s ns False] trim_path [of ns] path_ends [of ns] by (cases "ns = []") (auto simp: getSection_def Let_def)

lemma split_last:
  assumes "name_ok k"
  shows "after_last_dot (join_path (ns @ [k])) = k \<and> before_last_dot (join_path (ns @ [k])) = join_path ns"
proof -
  have k: "takeWhile (\<lambda>c. \<not> dot c) (rev k) = rev k" "dropWhile (\<lambda>c. \<not> dot c) (rev k) = []" "\<not> list_ex dot k"
    using name_no_dot [OF assms] by (auto simp: list_all_iff list_ex_iff)
  have "join_path (ns @ [k]) = (if ns = [] then k else join_path ns @ CHR ''.'' # k)" by (induction ns rule: join_path.induct) auto
  moreover have "takeWhile (\<lambda>c. \<not> dot c) (rev k @ CHR ''.'' # r) = rev k \<and> dropWhile (\<lambda>c. \<not> dot c) (rev k @ CHR ''.'' # r) = CHR ''.'' # r" for r
    using k(1,2) name_no_dot [OF assms] by (auto simp: takeWhile_append dropWhile_append list_all_iff)
  ultimately show ?thesis by (auto simp: after_last_dot_def before_last_dot_def k)
qed

lemma lookup_follows_path':
  assumes "tree_ok m d s" "list_all name_ok ns" "name_ok key"
  shows "getValue s (join_path (ns @ [key])) = value_at s ns key"
proof -
  have "list_all name_ok (ns @ [key])" using assms(2,3) by simp
  moreover have "join_path (ns @ [key]) \<noteq> []" using path_ends [of "ns @ [key]"] assms(2,3) by simp
  ultimately show ?thesis
    using section_of_path [OF assms(1,2)] trim_path [of "ns @ [key]"] split_last [OF assms(3), of ns]
    by (auto simp: getValue_def value_at_def Let_def split: option.split)
qed

text \<open>
  C37. On a tree of the parser the value of a key with a path is the value in the section that the path leads to, and
  the section of a path is found by going from section to section.
\<close>

theorem lookup_follows_path:
  assumes "tree_ok m d s" "list_all name_ok ns" "name_ok key"
  shows "getSection s (join_path ns) = walk s ns \<and> getValue s (join_path (ns @ [key])) = value_at s ns key"
  using section_of_path [OF assms(1,2)] lookup_follows_path' [OF assms] by simp

lemma lookup_follows_path_witness:
  "getSection demo_tree (join_path [''a'']) = walk demo_tree [''a''] \<and> getValue demo_tree (join_path ([''a''] @ [''c''])) = value_at demo_tree [''a''] ''c''"
proof (rule lookup_follows_path)
  show "tree_ok False True demo_tree" by code_simp
  show "list_all name_ok [''a'']" "name_ok ''c''" by (simp_all add: name_ok_def path_set_def)
qed

section \<open>Inherited values\<close>

text \<open>The sections that enclose a section, from the inside to the outside.\<close>

definition enclosing :: "string list \<Rightarrow> string list list" where
  "enclosing ns = rev (prefixes ns)"

definition inherited :: "ConfSection \<Rightarrow> string list \<Rightarrow> string \<Rightarrow> ValElementList \<Rightarrow> ValElementList \<times> string option" where
  "inherited s ns key d =
     (case find (\<lambda>vs. elems (value_at s vs key) \<noteq> []) (enclosing ns) of
        Some vs \<Rightarrow> (value_at s vs key, Some (join_path vs))
      | None \<Rightarrow> (d, None))"

lemma join_snoc: "join_path (ns @ [n]) = (if ns = [] then n else join_path ns @ CHR ''.'' # n)"
  by (induction ns rule: join_path.induct) auto

lemma dots_in_path: "list_all name_ok ns \<Longrightarrow> length (filter dot (join_path ns)) = length ns - 1"
proof (induction ns rule: join_path.induct)
  case (2 n)
  then show ?case using name_no_dot [of n] by (auto simp: list_all_iff filter_empty_conv)
next
  case (3 n n' ns)
  then have "filter dot n = []" using name_no_dot [of n] by (auto simp: list_all_iff filter_empty_conv)
  then show ?case using 3 by simp
qed simp

lemma no_section_before: "list_all name_ok [n] \<Longrightarrow> before_last_dot n = []"
  using split_last [of n "[]"] by simp

lemma search_up:
  assumes "tree_ok m d s" "name_ok key"
  shows "list_all name_ok ns \<Longrightarrow>
    get_value_up (length ns + 1) s (join_path ns) key =
      (case find (\<lambda>vs. elems (value_at s vs key) \<noteq> []) (enclosing ns) of
         Some vs \<Rightarrow> Some (value_at s vs key, join_path vs)
       | None \<Rightarrow> None)"
proof (induction ns rule: rev_induct)
  case Nil
  have "getValue s key = value_at s [] key" using assms lookup_follows_path' [of m d s "[]" key] by simp
  then show ?case by (simp add: enclosing_def Let_def)
next
  case (snoc n ns)
  let ?ns = "ns @ [n]"
  have "join_path ?ns @ ''.'' @ key = join_path (?ns @ [key])" using join_snoc [of ?ns key] by simp
  then have "getValue s (if join_path ?ns = [] then key else join_path ?ns @ ''.'' @ key) = value_at s ?ns key"
    using lookup_follows_path' [OF assms(1) snoc.prems assms(2)] path_ends [OF _ snoc.prems] by simp
  moreover have "before_last_dot (join_path ?ns) = join_path ns" using split_last [of n ns] snoc.prems by simp
  ultimately show ?case using snoc by (simp add: enclosing_def Let_def)
qed

text \<open>
  C35. A value that is looked up recursively is that of the innermost section, from the one the search starts in to the
  root, in which the key has a value; the name of this section comes with it. Without one it is the default.
\<close>

theorem value_is_inherited:
  assumes "tree_ok m d s" "list_all name_ok ns" "name_ok key"
  shows "getValueRecursivt s (join_path ns) key dflt = inherited s ns key dflt"
proof -
  have "(let n = length (filter dot (join_path ns)) in if n \<noteq> 0 \<or> join_path ns \<noteq> [] then n + 1 else n) = length ns"
    using dots_in_path [OF assms(2)] path_ends [OF _ assms(2)] by (cases ns) (auto simp: Let_def)
  then have "getValueRecursivt s (join_path ns) key dflt
      = (case get_value_up (length ns + 1) s (join_path ns) key of Some (v, sec) \<Rightarrow> (v, Some sec) | None \<Rightarrow> (dflt, None))"
    by (simp add: getValueRecursivt_def Let_def del: get_value_up.simps)
  then show ?thesis unfolding search_up [OF assms(1,3,2)] inherited_def by (simp split: option.split)
qed

lemma value_is_inherited_witness:
  "getValueRecursivt demo_tree (join_path [''a'', ''x'']) ''k'' new_list = inherited demo_tree [''a'', ''x''] ''k'' new_list"
proof (rule value_is_inherited)
  show "tree_ok False True demo_tree" by code_simp
  show "list_all name_ok [''a'', ''x'']" "name_ok ''k''" by (simp_all add: name_ok_def path_set_def)
qed

end
