(* ===== verification/Conf_Roundtrip.thy ===== *)
theory Conf_Roundtrip
  imports Conf_Result
begin

text \<open>
  What the parser makes of the text that a section is printed as: scanner (theory \<open>Conf_Lexer\<close>), parser (theory
  \<open>Conf_Parser\<close>) and output (theory \<open>Conf_Section\<close>) together. A section comes back as it was, apart from the places
  where its sections began, when its names and values can be written in the format. Then the values that do not come
  back.
\<close>

section \<open>What can be written\<close>

definition wf_name :: "string \<Rightarrow> bool" where
  "wf_name w \<longleftrightarrow> w \<noteq> [] \<and> letter (hd w) \<and> list_all id_char w"

definition digits :: "string \<Rightarrow> bool" where
  "digits w \<longleftrightarrow> w \<noteq> [] \<and> list_all isdigit w"

definition unsigned :: "string \<Rightarrow> string" where
  "unsigned w = (if w \<noteq> [] \<and> sign_char (hd w) then tl w else w)"

definition wf_int :: "string \<Rightarrow> bool" where
  "wf_int w \<longleftrightarrow> digits (unsigned w)"

definition wf_float :: "string \<Rightarrow> bool" where
  "wf_float w \<longleftrightarrow> (let u = unsigned w; r = dropWhile isdigit u in
     digits (takeWhile isdigit u) \<and> r \<noteq> [] \<and> hd r = CHR ''.'' \<and> list_all isdigit (tl r))"

definition wf_string :: "string \<Rightarrow> bool" where
  "wf_string w \<longleftrightarrow> w \<noteq> [] \<and> CHR 0x22 \<notin> set w \<and> last w \<noteq> CHR 0x5C \<and> compress (conf_trimstr conf_trimset w) = w"

definition wf_val :: "ValElement \<Rightarrow> bool" where
  "wf_val v \<longleftrightarrow>
     (case valType v of
        VUndef \<Rightarrow> False
      | VId \<Rightarrow> wf_name (vtext v) \<and> vtext v \<noteq> ''nil''
      | VInt \<Rightarrow> wf_int (vtext v)
      | VFloat \<Rightarrow> wf_float (vtext v)
      | VString \<Rightarrow> wf_string (vtext v)
      | VNil \<Rightarrow> vtext v = [])"

definition wf_vals :: "ValElementList \<Rightarrow> bool" where
  "wf_vals l \<longleftrightarrow> list_all wf_val (elems l) \<and> (if isList_flag l then isNil l = (elems l = []) else \<not> isNil l \<and> length (elems l) = 1)"

fun wf_section :: "bool \<Rightarrow> ConfSection \<Rightarrow> bool"
  and wf_entries :: "bool \<Rightarrow> (string \<times> ConfSection list) list \<Rightarrow> bool"
  and wf_sections :: "bool \<Rightarrow> ConfSection list \<Rightarrow> bool" where
  "wf_section m (ConfSection p secs vals) \<longleftrightarrow>
     allowMultiple p = m \<and> \<not> cs_ignore p \<and> smap_ok vals \<and> smap_ok secs \<and> list_all (\<lambda>(k, l). wf_name k \<and> wf_vals l) vals \<and> wf_entries m secs"
| "wf_entries m [] \<longleftrightarrow> True"
| "wf_entries m ((n, l) # es) \<longleftrightarrow> wf_name n \<and> l \<noteq> [] \<and> (m \<or> length l = 1) \<and> wf_sections m l \<and> wf_entries m es"
| "wf_sections m [] \<longleftrightarrow> True"
| "wf_sections m (s # ss) \<longleftrightarrow> wf_section m s \<and> wf_sections m ss"

text \<open>A tree without the places its sections were read from.\<close>

definition forget_place :: "ConfSectionPimpel \<Rightarrow> ConfSectionPimpel" where
  "forget_place p = p\<lparr>cs_lineno := 0, cs_filename := []\<rparr>"

fun forget :: "ConfSection \<Rightarrow> ConfSection"
  and forget_entries :: "(string \<times> ConfSection list) list \<Rightarrow> (string \<times> ConfSection list) list"
  and forget_sections :: "ConfSection list \<Rightarrow> ConfSection list" where
  "forget (ConfSection p secs vals) = ConfSection (forget_place p) (forget_entries secs) vals"
| "forget_entries [] = []"
| "forget_entries ((n, l) # es) = (n, forget_sections l) # forget_entries es"
| "forget_sections [] = []"
| "forget_sections (s # ss) = forget s # forget_sections ss"

text \<open>The characters around lists must be characters without any other meaning.\<close>

definition list_chars_ok :: "char \<times> char \<Rightarrow> bool" where
  "list_chars_ok lc \<longleftrightarrow> fst lc \<noteq> snd lc \<and>
     (\<forall>c\<in>{fst lc, snd lc}. \<not> blank c \<and> \<not> special c \<and> \<not> isdigit c \<and> \<not> sign_char c \<and> \<not> letter c \<and> c \<notin> {CHR ''='', CHR ''{'', CHR ''}'', CHR '','', CHR ''.''})"

section \<open>Text that is not changed\<close>

definition no_space :: "string \<Rightarrow> bool" where
  "no_space w \<longleftrightarrow> list_all (\<lambda>c. c \<notin> set conf_trimset) w"

lemma trim_no_space: "no_space w \<Longrightarrow> conf_trimstr conf_trimset w = w"
proof -
  have *: "dropWhile (\<lambda>c. c \<in> set conf_trimset) u = u" if "set u \<subseteq> set w" "no_space w" for u
    using that by (cases u) (auto simp: no_space_def list_all_iff)
  show "no_space w \<Longrightarrow> conf_trimstr conf_trimset w = w" by (simp add: conf_trimstr_def *)
qed

lemma squeeze_no_space: "list_all (\<lambda>c. c \<noteq> CHR '' '') w \<Longrightarrow> squeeze w = w"
  by (induction w) auto

lemma compress_no_space:
  assumes "no_space w"
  shows "compress (conf_trimstr conf_trimset w) = w"
proof -
  have "map (\<lambda>c. if c \<in> {CHR 0x0A, CHR 0x09, CHR 0x0D} then CHR '' '' else c) w = w"
    using assms by (intro map_idI) (auto simp: no_space_def list_all_iff conf_trimset_def)
  moreover have "squeeze w = w" using assms by (intro squeeze_no_space) (auto simp: no_space_def list_all_iff conf_trimset_def)
  ultimately show ?thesis using assms by (simp add: compress_def trim_no_space)
qed

lemma id_char_no_space: "id_char c \<Longrightarrow> c \<notin> set conf_trimset"
  by (auto simp: id_char_def letter_def isdigit_def conf_trimset_def)

lemma number_no_space: "isdigit c \<or> sign_char c \<or> c = CHR ''.'' \<Longrightarrow> c \<notin> set conf_trimset"
  by (auto simp: isdigit_def sign_char_def conf_trimset_def)

lemma wf_name_no_space: "wf_name w \<Longrightarrow> no_space w"
  using id_char_no_space by (auto simp: wf_name_def no_space_def list_all_iff)

lemma unsigned_chars: "c \<in> set w \<Longrightarrow> sign_char c \<or> c \<in> set (unsigned w)"
  by (cases w) (auto simp: unsigned_def)

lemma wf_int_no_space: "wf_int w \<Longrightarrow> no_space w"
  unfolding wf_int_def digits_def no_space_def list_all_iff using unsigned_chars [of _ w] number_no_space by blast

lemma wf_float_no_space:
  assumes "wf_float w"
  shows "no_space w"
proof -
  let ?u = "unsigned w"
  let ?d = "dropWhile isdigit ?u"
  have d: "?d \<noteq> []" "hd ?d = CHR ''.''" "list_all isdigit (tl ?d)" using assms unfolding wf_float_def Let_def by blast+
  then obtain fp where r: "?d = CHR ''.'' # fp" and fp: "list_all isdigit fp"
    by (metis list.collapse)
  have ip: "list_all isdigit (takeWhile isdigit ?u)" by (auto simp: list_all_iff dest: set_takeWhileD)
  have u: "?u = takeWhile isdigit ?u @ CHR ''.'' # fp" using takeWhile_dropWhile_id [of isdigit ?u] by (simp only: r)
  have "isdigit c \<or> sign_char c \<or> c = CHR ''.''" if "c \<in> set w" for c
  proof -
    have "set ?u = set (takeWhile isdigit ?u) \<union> insert (CHR ''.'') (set fp)" by (subst u) simp
    then show ?thesis using unsigned_chars [OF that] ip fp unfolding list_all_iff by blast
  qed
  then show ?thesis unfolding no_space_def list_all_iff using number_no_space by blast
qed

text \<open>The token of a value, and the value of the token.\<close>

definition val_token :: "ValElement \<Rightarrow> TokenType" where
  "val_token v = (case valType v of VInt \<Rightarrow> MiTT_INT | VFloat \<Rightarrow> MiTT_FLOAT | VString \<Rightarrow> MiTT_STRING | _ \<Rightarrow> MiTT_ID)"

definition val_word :: "ValElement \<Rightarrow> string" where
  "val_word v = (if valType v = VNil then ''nil'' else vtext v)"

definition val_of_token :: "TokenType \<Rightarrow> string \<Rightarrow> ValElement" where
  "val_of_token ty w = (if ty = MiTT_ID then val_of_id w else mk_val w (case ty of MiTT_INT \<Rightarrow> VInt | MiTT_FLOAT \<Rightarrow> VFloat | _ \<Rightarrow> VString))"

lemma val_back:
  assumes "wf_val v"
  shows "val_of_token (val_token v) (val_word v) = v"
proof -
  have "compress (conf_trimstr conf_trimset (vtext v)) = vtext v"
    using assms wf_name_no_space wf_int_no_space wf_float_no_space compress_no_space
    by (auto simp: wf_val_def wf_string_def no_space_def split: ValType.splits)
  then show ?thesis
    using assms by (cases v) (auto simp: val_of_token_def val_token_def val_word_def val_of_id_def mk_val_def wf_val_def setAsNil_def undef_val_def
        split: ValType.splits)
qed

section \<open>Scanning what was printed\<close>

definition st :: "bool \<Rightarrow> (string \<times> int \<times> string) list \<Rightarrow> string \<Rightarrow> ConfParser \<Rightarrow> ConfScan" where
  "st c files' w p = \<lparr>cond = INITIAL, stringContinue = c, sinput = w, istStack = files', sparser = p\<rparr>"

text \<open>Scanning \<open>w\<close> takes the parser from \<open>p\<close> to \<open>p'\<close>, whatever follows; \<open>reads\<close>: when \<open>x\<close> follows.\<close>

type_synonym surroundings = "(string \<Rightarrow> string option) \<times> (string \<Rightarrow> string option)"

definition scans :: "surroundings \<Rightarrow> char \<times> char \<Rightarrow> string \<Rightarrow> ConfParser \<Rightarrow> ConfParser \<Rightarrow> bool" where
  "scans fe lc w p p' \<longleftrightarrow> (\<forall>c fs rest. \<exists>c'. conf_scan (fst fe) (snd fe) lc (st c fs (w @ rest) p) = conf_scan (fst fe) (snd fe) lc (st c' fs rest p'))"

definition reads :: "surroundings \<Rightarrow> char \<times> char \<Rightarrow> string \<Rightarrow> char \<Rightarrow> ConfParser \<Rightarrow> ConfParser \<Rightarrow> bool" where
  "reads fe lc w x p p' \<longleftrightarrow>
     (\<forall>c fs rest. \<exists>c'. conf_scan (fst fe) (snd fe) lc (st c fs (w @ x # rest) p) = conf_scan (fst fe) (snd fe) lc (st c' fs (x # rest) p'))"

lemma scans_Nil [simp]: "scans fe lc [] p p"
  by (auto simp: scans_def)

lemma scans_append: "scans fe lc v p q \<Longrightarrow> scans fe lc w q r \<Longrightarrow> scans fe lc (v @ w) p r"
  unfolding scans_def by (metis append_assoc)

lemma scans_reads: "scans fe lc w p q \<Longrightarrow> reads fe lc w x p q"
  unfolding scans_def reads_def by blast

lemma reads_append: "reads fe lc w x p q \<Longrightarrow> scans fe lc (x # v) q r \<Longrightarrow> scans fe lc (w @ x # v) p r"
  unfolding scans_def reads_def by (metis append_Cons append_assoc)

lemma scan_token:
  assumes "conf_token c cs = (Suc n, a)" "\<not> p_error p"
    "conf_exec f e lc a (c # take n cs) (st k fs (drop n cs) p) = Some (Some s)"
  shows "conf_scan f e lc (st k fs (c # cs) p) = conf_scan f e lc s"
  using assms by (subst conf_scan.simps) (simp add: conf_step_def conf_rules_reference st_def)

lemma scans_token:
  assumes "\<And>cs. conf_token b cs = (Suc 0, a)" "\<not> p_error p"
    "\<And>c fs rest. conf_exec (fst fe) (snd fe) lc a [b] (st c fs rest p) = Some (Some (st c fs rest p'))"
  shows "scans fe lc [b] p p'"
  unfolding scans_def
proof (intro allI exI)
  show "conf_scan (fst fe) (snd fe) lc (st c fs ([b] @ rest) p) = conf_scan (fst fe) (snd fe) lc (st c fs rest p')" for c fs rest
    using scan_token [OF assms(1,2), of "fst fe" "snd fe" lc rest c fs "st c fs rest p'"] assms(3) by simp
qed

lemma reads_token:
  assumes "\<And>rest. conf_token b (bs @ x # rest) = (Suc (length bs), a)" "\<not> p_error p"
    "\<And>c fs rest. conf_exec (fst fe) (snd fe) lc a (b # bs) (st c fs rest p) = Some (Some (st c fs rest p'))"
  shows "reads fe lc (b # bs) x p p'"
  unfolding reads_def
proof (intro allI exI)
  show "conf_scan (fst fe) (snd fe) lc (st c fs ((b # bs) @ x # rest) p) = conf_scan (fst fe) (snd fe) lc (st c fs (x # rest) p')" for c fs rest
    using scan_token [OF assms(1,2), of "fst fe" "snd fe" lc rest c fs "st c fs (x # rest) p'"] assms(3) by simp
qed

definition plain :: "char \<Rightarrow> bool" where
  "plain c \<longleftrightarrow> \<not> blank c \<and> \<not> special c \<and> \<not> isdigit c \<and> \<not> sign_char c \<and> \<not> letter c"

lemma scans_char:
  assumes "plain c" "\<not> p_error p" "charToken lc c p = Some p'"
  shows "scans fe lc [c] p p'"
proof -
  have "conf_token c cs = (Suc 0, CharTok)" for cs using assms(1) by (simp add: conf_token_def plain_def special_def Let_def)
  then show ?thesis by (rule scans_token) (use assms in \<open>simp_all add: conf_exec_def with_parser_def st_def Let_def\<close>)
qed

lemma scans_newline:
  assumes "\<not> p_error p" "charToken lc (CHR 0x0A) p = Some p'"
  shows "scans fe lc nl p (next_line p')"
proof -
  have "conf_token (CHR 0x0A) cs = (Suc 0, NewLine)" for cs by (simp add: conf_token_def blank_def Let_def)
  then show ?thesis
    unfolding nl_def by (rule scans_token) (use assms in \<open>simp_all add: conf_exec_def with_parser_def st_def Let_def\<close>)
qed

lemma takeWhile_stop: "list_all p w \<Longrightarrow> \<not> p x \<Longrightarrow> takeWhile p (w @ x # rest) = w \<and> dropWhile p (w @ x # rest) = x # rest"
  by (induction w) auto

lemma reads_blanks:
  assumes "\<not> p_error p" "list_all blank w" "\<not> blank x"
  shows "reads fe lc w x p p"
proof (cases w)
  case (Cons b bs)
  have "conf_token b (bs @ x # rest) = (Suc (length bs), Skip)" for rest
    using assms(2,3) takeWhile_stop [of blank bs x] by (simp add: Cons conf_token_def Let_def)
  then show ?thesis unfolding Cons by (rule reads_token) (use assms in \<open>simp_all add: conf_exec_def\<close>)
qed (auto simp: reads_def)

lemma reads_id:
  assumes "wf_name w" "\<not> id_char x" "\<not> p_error p" "p_token MiTT_ID w p = Some p'"
  shows "reads fe lc w x p p'"
proof -
  obtain b bs where w: "w = b # bs" "letter b" "list_all id_char bs" using assms(1) by (cases w) (auto simp: wf_name_def)
  have "conf_token b (bs @ x # rest) = (Suc (length bs), IdTok)" for rest
    using char_classes(4) [OF w(2)] takeWhile_stop [OF w(3) assms(2)] w(2) by (simp add: conf_token_def special_def Let_def)
  then show ?thesis
    unfolding w(1) by (rule reads_token) (use assms(3,4) w(1) in \<open>simp_all add: conf_exec_def with_parser_def st_def Let_def\<close>)
qed

lemma number_token_int: "digits u \<Longrightarrow> \<not> isdigit x \<Longrightarrow> x \<noteq> CHR ''.'' \<Longrightarrow> number_token (u @ x # rest) = (length u, IntTok)"
  using takeWhile_stop [of isdigit u x rest] by (simp add: number_token_def digits_def)

lemma number_token_float:
  "digits u \<Longrightarrow> list_all isdigit v \<Longrightarrow> \<not> isdigit x \<Longrightarrow> number_token (u @ CHR ''.'' # v @ x # rest) = (length u + 1 + length v, FloatTok)"
  using takeWhile_stop [of isdigit u "CHR ''.''" "v @ x # rest"] takeWhile_stop [of isdigit v x rest]
  by (simp add: number_token_def digits_def isdigit_def)

lemma conf_token_number:
  assumes "number_token u = (n, a)" "n \<noteq> 0" "u \<noteq> []" "isdigit (hd u)"
  shows "conf_token (hd u) (tl u) = (n, a)" "sign_char c \<Longrightarrow> conf_token c u = (Suc n, a)"
proof -
  show "conf_token (hd u) (tl u) = (n, a)"
    using assms char_classes(2) [OF assms(4)] by (simp add: conf_token_def special_def Let_def)
  show "conf_token c u = (Suc n, a)" if "sign_char c"
    using assms char_classes(3) [OF that] that by (simp add: conf_token_def special_def Let_def)
qed

lemma reads_number:
  assumes "\<And>rest. number_token (unsigned w @ x # rest) = (length (unsigned w), a)" "w \<noteq> []" "unsigned w \<noteq> []" "isdigit (hd (unsigned w))"
    "\<And>s. conf_exec (fst fe) (snd fe) lc a w s = with_parser s (p_token ty w (sparser s))" "\<not> p_error p" "p_token ty w p = Some p'"
  shows "reads fe lc w x p p'"
proof -
  obtain b bs where w: "w = b # bs" using assms(2) by (cases w) auto
  have "conf_token b (bs @ x # rest) = (Suc (length bs), a)" for rest
  proof (cases "sign_char b")
    case True
    then have u: "unsigned w = bs" by (simp add: w unsigned_def)
    show ?thesis using conf_token_number(2) [of "bs @ x # rest" "length bs" a b] assms(1,3,4) True unfolding u by simp
  next
    case False
    then have u: "unsigned w = b # bs" by (simp add: w unsigned_def)
    show ?thesis using conf_token_number(1) [of "(b # bs) @ x # rest" "length (b # bs)" a] assms(1,4) unfolding u by simp
  qed
  then show ?thesis
    unfolding w by (rule reads_token) (use assms(5-7) w in \<open>simp_all add: with_parser_def st_def\<close>)
qed

lemma scan_string_rules:
  assumes "w \<noteq> []" "CHR 0x22 \<notin> set w"
  shows "best_rule (conf_rules START_STRING) (w @ CHR 0x22 # rest) = Some (length w, StringTok)"
    "best_rule (conf_rules START_STRING) (CHR 0x22 # rest) = Some (Suc 0, EndString)"
proof -
  obtain b bs where w: "w = b # bs" "b \<noteq> CHR 0x22" using assms by (cases w) auto
  have "list_all (\<lambda>c. c \<noteq> CHR 0x22) w" using assms(2) by (auto simp: list_all_iff)
  then have "takeWhile (\<lambda>c. c \<noteq> CHR 0x22) (w @ CHR 0x22 # rest) = w" by (rule takeWhile_stop [THEN conjunct1]) simp
  then show "best_rule (conf_rules START_STRING) (w @ CHR 0x22 # rest) = Some (length w, StringTok)"
    using w(2) by (simp add: conf_rules_def r_char_def w(1))
  show "best_rule (conf_rules START_STRING) (CHR 0x22 # rest) = Some (Suc 0, EndString)"
    by (simp add: conf_rules_def r_char_def)
qed

lemma scans_string:
  assumes "wf_string w" "\<not> p_error p" "p_token MiTT_STRING w p = Some p'" "\<not> p_error p'"
  shows "scans fe lc (CHR 0x22 # w @ [CHR 0x22]) p p'"
  unfolding scans_def
proof (intro allI exI)
  fix c fs rest
  let ?scan = "conf_scan (fst fe) (snd fe) lc"
  have w: "w \<noteq> []" "CHR 0x22 \<notin> set w" "last w \<noteq> CHR 0x5C" using assms(1) by (auto simp: wf_string_def)
  let ?in = "w @ CHR 0x22 # rest"
  have t: "conf_token (CHR 0x22) ?in = (Suc 0, BeginString)" by (simp add: conf_token_def blank_def Let_def)
  have "?scan (st c fs (CHR 0x22 # ?in) p) = ?scan ((st c fs ?in p)\<lparr>cond := START_STRING\<rparr>)"
    using assms(2) by (intro scan_token [OF t]) (simp_all add: conf_exec_def st_def Let_def)
  also have "\<dots> = ?scan ((st False fs (CHR 0x22 # rest) p')\<lparr>cond := START_STRING\<rparr>)"
    using assms(2,3) w scan_string_rules(1) [OF w(1,2), of rest]
    by (subst conf_scan.simps) (simp add: st_def conf_step_def conf_exec_def with_parser_def Let_def)
  also have "\<dots> = ?scan (st False fs rest p')"
    using assms(4) scan_string_rules(2) [OF w(1,2), of rest]
    by (subst conf_scan.simps) (simp add: st_def conf_step_def conf_exec_def)
  finally show "?scan (st c fs ((CHR 0x22 # w @ [CHR 0x22]) @ rest) p) = ?scan (st False fs rest p')" by simp
qed

text \<open>A value, in front of what may follow it.\<close>

definition closer :: "char \<Rightarrow> bool" where
  "closer x \<longleftrightarrow> \<not> id_char x \<and> x \<noteq> CHR ''.''"

lemma escape_no_quotes: "CHR 0x22 \<notin> set w \<Longrightarrow> escape_quotes w = w"
  by (induction w) (auto simp: escape_quotes_def)

lemma reads_val:
  assumes "wf_val v" "closer x" "\<not> p_error p" "p_token (val_token v) (val_word v) p = Some p'" "\<not> p_error p'"
  shows "reads fe lc (show_val v) x p p'"
proof -
  have x: "\<not> id_char x" "\<not> isdigit x" "x \<noteq> CHR ''.''" using assms(2) by (auto simp: closer_def id_char_def)
  show ?thesis
  proof (cases "valType v")
    case VUndef
    then show ?thesis using assms(1) by (simp add: wf_val_def)
  next
    case VId
    then show ?thesis using assms x by (auto simp: wf_val_def show_val_def val_toString_def val_token_def val_word_def intro!: reads_id)
  next
    case VNil
    have "wf_name ''nil''" by (simp add: wf_name_def letter_def id_char_def)
    with VNil show ?thesis using assms x by (auto simp: show_val_def val_toString_def val_token_def val_word_def intro!: reads_id)
  next
    case VString
    then have w: "wf_string (vtext v)" using assms(1) by (simp add: wf_val_def)
    then have "show_val v = CHR 0x22 # vtext v @ [CHR 0x22]"
      using VString by (simp add: show_val_def val_toString_def escape_no_quotes wf_string_def)
    then show ?thesis using scans_string [OF w assms(3)] assms(4,5) VString by (simp add: val_token_def val_word_def scans_reads)
  next
    case VInt
    then have w: "digits (unsigned (vtext v))" using assms(1) by (simp add: wf_val_def wf_int_def)
    then have u: "unsigned (vtext v) \<noteq> []" "isdigit (hd (unsigned (vtext v)))" "vtext v \<noteq> []"
      by (cases "unsigned (vtext v)"; auto simp: digits_def unsigned_def)+
    have "show_val v = vtext v" using VInt by (simp add: show_val_def val_toString_def)
    moreover have "reads fe lc (vtext v) x p p'"
      by (rule reads_number [where a = IntTok and ty = MiTT_INT])
        (use number_token_int [OF w x(2,3)] u assms(3,4) VInt in \<open>simp_all add: conf_exec_def Let_def val_token_def val_word_def\<close>)
    ultimately show ?thesis by simp
  next
    case VFloat
    let ?u = "unsigned (vtext v)"
    let ?d = "dropWhile isdigit ?u"
    have w: "digits (takeWhile isdigit ?u)" "?d \<noteq> []" "hd ?d = CHR ''.''" "list_all isdigit (tl ?d)"
      using assms(1) VFloat unfolding wf_val_def wf_float_def Let_def by simp_all
    have e: "?u = takeWhile isdigit ?u @ CHR ''.'' # tl ?d" using w(2,3) by (metis list.collapse takeWhile_dropWhile_id)
    have n: "number_token (?u @ x # rest) = (length ?u, FloatTok)" for rest
    proof -
      have "number_token ((takeWhile isdigit ?u @ CHR ''.'' # tl ?d) @ x # rest) = (length (takeWhile isdigit ?u @ CHR ''.'' # tl ?d), FloatTok)"
        using number_token_float [OF w(1,4) x(2), of rest] by simp
      then show ?thesis unfolding e [symmetric] .
    qed
    have u: "?u \<noteq> []" "isdigit (hd ?u)" "vtext v \<noteq> []"
      using w(1) by (cases ?u; auto simp: digits_def unsigned_def split: if_splits)+
    have "show_val v = vtext v" using VFloat by (simp add: show_val_def val_toString_def)
    moreover have "reads fe lc (vtext v) x p p'"
      by (rule reads_number [where a = FloatTok and ty = MiTT_FLOAT])
        (use n u assms(3,4) VFloat in \<open>simp_all add: conf_exec_def Let_def val_token_def val_word_def\<close>)
    ultimately show ?thesis by simp
  qed
qed

section \<open>Parsing a line\<close>

text \<open>Between two lines the parser is not in a list, and the top of its stack is an opening brace.\<close>

definition ready :: "ConfParser \<Rightarrow> bool" where
  "ready p \<longleftrightarrow> \<not> p_error p \<and> \<not> listContext p \<and> (case tokenStack p of [] \<Rightarrow> True | t # _ \<Rightarrow> tt t = MiTT_OB)"

lemma ready_simps [simp]:
  "ready (p\<lparr>p_stack := x\<rparr>) = ready p" "ready (p\<lparr>cur_line := l\<rparr>) = ready p" "ready (next_line p) = ready p"
  by (simp_all add: ready_def next_line_def)

lemma check_top_ready: "ready p \<Longrightarrow> check_top p = p"
  by (cases "tokenStack p") (simp_all add: ready_def check_top_def)

lemma ready_newline: "ready p \<Longrightarrow> charToken lc (CHR 0x0A) p = Some p"
  by (simp add: ready_def charToken_def p_token_def checkToken_def split: list.splits)

lemma ready_blank_line: "ready p \<Longrightarrow> scans fe lc nl p (next_line p)"
  using scans_newline [of p lc p fe] ready_newline by (simp add: ready_def)

text \<open>The name and what follows it.\<close>

definition with_key :: "string \<Rightarrow> ConfParser \<Rightarrow> ConfParser" where
  "with_key k p = p_push (Token MiTT_ID k (cur_line p)) p"

definition with_equal :: "string \<Rightarrow> ConfParser \<Rightarrow> ConfParser" where
  "with_equal k p = p_push (Token MiTT_EQUAL [] (cur_line p)) (with_key k p)"

lemma ready_key: "ready p \<Longrightarrow> p_token MiTT_ID k p = Some (with_key k p)"
  by (simp add: ready_def p_token_def checkToken_def with_key_def split: list.splits)

lemma key_equal: "ready p \<Longrightarrow> charToken lc (CHR ''='') (with_key k p) = Some (with_equal k p)"
  by (simp add: ready_def charToken_def p_token_def checkToken_def with_equal_def with_key_def p_push_def)

definition put_entry :: "string \<Rightarrow> ValElementList \<Rightarrow> ConfParser \<Rightarrow> ConfParser" where
  "put_entry k l p =
     (case p_stack p of
        [] \<Rightarrow> p
      | s # ss \<Rightarrow> p\<lparr>p_stack := ConfSection (pimpel s) (sectionList s) (smap_put k l (valueList s)) # ss\<rparr>)"

lemma equal_value:
  assumes "ready p" "p_stack p = s # ss" "map_of (valueList s) k = None" "wf_val v"
  shows "p_token (val_token v) (val_word v) (with_equal k p) = Some (put_entry k (vl_push_back v new_list) p)"
proof -
  let ?t = "Token (val_token v) (val_word v) (cur_line p)"
  let ?q = "put_entry k (vl_push_back v new_list) p"
  have q: "ready ?q" "?q\<lparr>tokenStack := tokenStack p\<rparr> = ?q" using assms(1,2) by (simp_all add: put_entry_def)
  have "add_to_top (addValue k v False) (with_key k p) = (True, (with_key k p)\<lparr>p_stack := p_stack ?q\<rparr>)"
    using assms(2,3) by (simp add: add_to_top_def addValue_def addValues_def put_entry_def with_key_def p_push_def)
  moreover have "(with_key k p)\<lparr>p_stack := p_stack ?q, tokenStack := tokenStack p\<rparr> = ?q"
    using assms(2) by (simp add: put_entry_def with_key_def p_push_def)
  ultimately have "colapseKeyVal ?t (with_key k p) = ?q"
    using assms(2) val_back [OF assms(4)] check_top_ready [OF q(1)] q(2)
    by (cases "valType v") (simp_all add: colapseKeyVal_def with_key_def p_push_def val_token_def val_of_token_def)
  moreover have "checkToken ?t (with_equal k p) = Some (colapseKeyVal ?t (with_key k p))"
    using assms(1) by (cases "valType v") (simp_all add: checkToken_def with_equal_def with_key_def p_push_def ready_def val_token_def)
  ultimately show ?thesis by (simp add: p_token_def with_equal_def with_key_def p_push_def)
qed

text \<open>The tokens of a list on the stack.\<close>

definition elem_token :: "int \<Rightarrow> ValElement \<Rightarrow> Token" where
  "elem_token l v = Token (val_token v) (val_word v) l"

definition more_tokens :: "int \<Rightarrow> ValElement list \<Rightarrow> Token list" where
  "more_tokens l vs = rev (concat (map (\<lambda>v. [Token MiTT_COMMA '','' l, elem_token l v]) vs))"

lemma push_elem:
  assumes "listContext p" "\<not> p_error p" "tokenStack p \<noteq> []"
  shows "p_token (val_token v) (val_word v) p = Some (p_push (elem_token (cur_line p) v) p)"
    "charToken lc (CHR '','') p = Some (p_push (Token MiTT_COMMA '','' (cur_line p)) p)"
  using assms
  by (cases "valType v"; auto simp: p_token_def checkToken_def charToken_def elem_token_def val_token_def split: list.splits)+

declare colapse_list_loop.simps [simp del]

lemma loop_marks:
  "prev \<noteq> MiTT_COMMA \<Longrightarrow> colapse_list_loop prev vl (Token MiTT_OP w l # ts) p = colapse_list_loop MiTT_OP vl ts p"
  "prev \<noteq> MiTT_COMMA \<Longrightarrow> prev \<noteq> MiTT_CP \<Longrightarrow> colapse_list_loop prev vl (Token MiTT_COMMA w l # ts) p = colapse_list_loop MiTT_COMMA vl ts p"
  "colapse_list_loop MiTT_OP vl (Token MiTT_EQUAL w l # ts) p = colapse_list_loop MiTT_EQUAL vl ts p"
  by (simp_all add: colapse_list_loop.simps)

lemma loop_elem:
  assumes "wf_val v" "prev \<noteq> MiTT_EQUAL" "isList_flag vl"
  shows "colapse_list_loop prev vl (elem_token l v # ts) p
    = colapse_list_loop (val_token v) (vl\<lparr>isNil := False, elems := v # elems vl\<rparr>) ts p"
proof -
  have "colapse_list_loop prev vl (elem_token l v # ts) p = colapse_list_loop (val_token v) (vl_push_front (val_of_token (val_token v) (val_word v)) vl) ts p"
    using assms(2) by (cases "valType v") (simp_all add: colapse_list_loop.simps elem_token_def val_token_def val_of_token_def)
  then show ?thesis using assms(3) by (simp add: val_back [OF assms(1)] vl_push_front_def)
qed

lemma val_token_class: "val_token v \<noteq> MiTT_EQUAL" "val_token v \<noteq> MiTT_COMMA" "val_token v \<noteq> MiTT_CP"
  by (cases "valType v"; simp add: val_token_def)+

lemma loop_elems:
  assumes "list_all wf_val (v # vs)" "prev \<noteq> MiTT_EQUAL" "isList_flag vl"
  shows "colapse_list_loop prev vl (more_tokens l vs @ elem_token l v # Token MiTT_OP [] l # ts) p
    = colapse_list_loop MiTT_OP (vl\<lparr>isNil := False, elems := v # vs @ elems vl\<rparr>) ts p"
  using assms
proof (induction vs arbitrary: prev vl rule: rev_induct)
  case Nil
  then show ?case using val_token_class [of v] by (simp add: more_tokens_def loop_elem loop_marks)
next
  case (snoc w vs)
  have "more_tokens l (vs @ [w]) = elem_token l w # Token MiTT_COMMA '','' l # more_tokens l vs" by (simp add: more_tokens_def)
  then show ?case
    using snoc.prems snoc.IH [of MiTT_COMMA] val_token_class [of w] by (simp add: loop_elem loop_marks)
qed

lemma reads_elems:
  assumes "list_all wf_val vs" "closer x" "listContext p" "\<not> p_error p" "tokenStack p \<noteq> []"
  shows "reads fe lc (concat (map (\<lambda>w. CHR '','' # show_val w) vs)) x p (p\<lparr>tokenStack := more_tokens (cur_line p) vs @ tokenStack p\<rparr>)"
  using assms
proof (induction vs arbitrary: p)
  case Nil
  then show ?case by (auto simp: reads_def more_tokens_def)
next
  case (Cons v vs)
  let ?p1 = "p_push (Token MiTT_COMMA '','' (cur_line p)) p"
  let ?p2 = "p_push (elem_token (cur_line p) v) ?p1"
  let ?p3 = "p\<lparr>tokenStack := more_tokens (cur_line p) (v # vs) @ tokenStack p\<rparr>"
  have p1: "listContext ?p1" "\<not> p_error ?p1" "tokenStack ?p1 \<noteq> []" "cur_line ?p1 = cur_line p" using Cons.prems by (simp_all add: p_push_def)
  have p2: "listContext ?p2" "\<not> p_error ?p2" "tokenStack ?p2 \<noteq> []" using Cons.prems by (simp_all add: p_push_def)
  have comma: "scans fe lc '','' p ?p1"
    by (rule scans_char) (use Cons.prems push_elem(2) in \<open>auto simp: plain_def blank_def special_def isdigit_def sign_char_def letter_def\<close>)
  have "p\<lparr>tokenStack := more_tokens (cur_line p) vs @ tokenStack ?p2\<rparr> = ?p3"
    by (simp add: p_push_def more_tokens_def)
  then have rest: "reads fe lc (concat (map (\<lambda>w. CHR '','' # show_val w) vs)) x ?p2 ?p3"
    using Cons.IH [of ?p2] Cons.prems p2 by (simp add: p_push_def)
  define y where "y = hd (concat (map (\<lambda>w. CHR '','' # show_val w) vs) @ [x])"
  have y: "closer y" "\<exists>w. concat (map (\<lambda>w. CHR '','' # show_val w) vs) @ [x] = y # w"
    using Cons.prems(2) by (cases vs; simp add: y_def closer_def id_char_def letter_def isdigit_def)+
  have val: "reads fe lc (show_val v) y ?p1 ?p2"
    using reads_val [of v y ?p1 ?p2] Cons.prems(1) y(1) p1 p2(2) push_elem(1) [OF p1(1-3), of v] by simp
  show ?case
    unfolding reads_def
  proof (intro allI)
    fix c fs rest'
    let ?scan = "\<lambda>c w p. conf_scan (fst fe) (snd fe) lc (st c fs w p)"
    let ?vs = "concat (map (\<lambda>w. CHR '','' # show_val w) vs)"
    obtain w where w: "?vs @ x # rest' = y # w @ rest'" using y(2) by (metis append.assoc append_Cons append_Nil)
    obtain c1 where "?scan c ('','' @ show_val v @ ?vs @ x # rest') p = ?scan c1 (show_val v @ ?vs @ x # rest') ?p1"
      using comma unfolding scans_def by blast
    moreover obtain c2 where "?scan c1 (show_val v @ ?vs @ x # rest') ?p1 = ?scan c2 (?vs @ x # rest') ?p2"
      using val unfolding reads_def w by blast
    moreover obtain c3 where "?scan c2 (?vs @ x # rest') ?p2 = ?scan c3 (x # rest') ?p3"
      using rest unfolding reads_def by blast
    ultimately show "\<exists>c'. ?scan c (concat (map (\<lambda>w. CHR '','' # show_val w) (v # vs)) @ x # rest') p = ?scan c' (x # rest') ?p3"
      by (intro exI [of _ c3]) simp
  qed
qed

lemma char_rules: "closer (CHR 0x0A)" "closer (CHR ''='')" "plain (CHR ''='')" "plain (CHR ''{'')" "plain (CHR ''}'')"
  "\<not> id_char (CHR '' '')" "blank (CHR '' '')"
  by (simp_all add: closer_def plain_def blank_def special_def id_char_def letter_def isdigit_def sign_char_def)

lemma list_chars:
  assumes "list_chars_ok lc"
  shows "plain (fst lc)" "plain (snd lc)" "closer (snd lc)"
    "\<not> p_error p \<Longrightarrow> charToken lc (fst lc) p = p_token MiTT_OP [fst lc] p" "\<not> p_error p \<Longrightarrow> charToken lc (snd lc) p = p_token MiTT_CP [snd lc] p"
  using assms by (auto simp: list_chars_ok_def plain_def closer_def id_char_def sign_char_def charToken_def special_def)

text \<open>The state behind the opening character of a list, and the end of the list.\<close>

definition with_open :: "string \<Rightarrow> ConfParser \<Rightarrow> ConfParser" where
  "with_open k p = p_push (Token MiTT_OP [] (cur_line p)) ((with_equal k p)\<lparr>listContext := True\<rparr>)"

lemma open_list: "ready p \<Longrightarrow> p_token MiTT_OP w (with_equal k p) = Some (with_open k p)"
  by (simp add: p_token_def checkToken_def with_open_def with_equal_def with_key_def p_push_def ready_def)

lemma with_open_simps:
  assumes "ready p"
  shows "listContext (with_open k p)" "\<not> p_error (with_open k p)" "cur_line (with_open k p) = cur_line p"
    "tokenStack (with_open k p) = Token MiTT_OP [] (cur_line p) # Token MiTT_EQUAL [] (cur_line p) # Token MiTT_ID k (cur_line p) # tokenStack p"
  using assms by (simp_all add: with_open_def with_equal_def with_key_def p_push_def ready_def)

lemma close_list:
  assumes "ready p" "p_stack p = s # ss" "map_of (valueList s) k = None" "wf_vals l" "isList_flag l"
  defines "q \<equiv> (case elems l of [] \<Rightarrow> with_open k p
      | v # vs \<Rightarrow> (with_open k p)\<lparr>tokenStack := more_tokens (cur_line p) vs @ elem_token (cur_line p) v # tokenStack (with_open k p)\<rparr>)"
  shows "p_token MiTT_CP w q = Some (put_entry k l p)" "\<not> p_error q"
proof -
  note o = with_open_simps [OF assms(1)]
  let ?vl = "vl_set_isList True new_list"
  let ?ts = "Token MiTT_EQUAL [] (cur_line p) # Token MiTT_ID k (cur_line p) # tokenStack p"
  have q: "listContext q" "\<not> p_error q" "tokenStack q \<noteq> []" "p_stack q = s # ss"
    using o assms(2) by (auto simp: q_def with_open_def with_equal_def with_key_def p_push_def split: list.split)
  then show "\<not> p_error q" by simp
  let ?q = "q\<lparr>listContext := False\<rparr>"
  have "colapse_list_loop MiTT_CP ?vl (tokenStack q) ?q = colapse_list_loop MiTT_OP l ?ts ?q"
  proof (cases "elems l")
    case Nil
    have "l = ?vl" using assms(4,5) Nil by (cases l) (simp add: wf_vals_def vl_set_isList_def new_list_def)
    then show ?thesis using Nil o by (simp add: q_def loop_marks)
  next
    case (Cons v vs)
    have "l = ?vl\<lparr>isNil := False, elems := v # vs @ elems ?vl\<rparr>"
      using assms(4,5) Cons by (cases l) (simp add: wf_vals_def vl_set_isList_def new_list_def)
    moreover have "list_all wf_val (v # vs)" using assms(4) Cons by (simp add: wf_vals_def)
    moreover have "isList_flag ?vl" by (simp add: vl_set_isList_def new_list_def)
    ultimately show ?thesis
      using loop_elems [of v vs MiTT_CP ?vl "cur_line p" ?ts ?q] Cons o by (simp add: q_def)
  qed
  also have "\<dots> = colapse_list_loop MiTT_EQUAL l (Token MiTT_ID k (cur_line p) # tokenStack p) ?q" by (rule loop_marks)
  also have "\<dots> = put_entry k l p"
  proof -
    have r: "?q\<lparr>tokenStack := tokenStack p\<rparr> = p"
      using assms(1) by (auto simp: q_def ready_def with_open_def with_equal_def with_key_def p_push_def split: list.split)
    have "add_to_top (addValues k l False) p = (True, put_entry k l p)"
      using assms(2,3) by (simp add: add_to_top_def addValues_def put_entry_def)
    moreover have "check_top (put_entry k l p) = put_entry k l p"
      using assms(1,2) by (intro check_top_ready) (simp add: put_entry_def)
    ultimately show ?thesis by (simp add: colapse_list_loop.simps r)
  qed
  finally have "colapseList ?q = put_entry k l p" using q by (simp add: colapseList_def)
  then show "p_token MiTT_CP w q = Some (put_entry k l p)"
    using q by (cases "tokenStack q") (simp_all add: p_token_def checkToken_def)
qed

lemma put_entry_ready: "ready p \<Longrightarrow> ready (put_entry k l p)"
  by (simp add: put_entry_def split: list.split)

lemma ready_no_error: "ready p \<Longrightarrow> \<not> p_error p"
  by (simp add: ready_def)

lemma scans_values:
  assumes "ready p" "p_stack p = s # ss" "map_of (valueList s) k = None" "wf_vals l" "list_chars_ok lc"
  shows "reads fe lc (show_vals lc l) (CHR 0x0A) (with_equal k p) (put_entry k l p)"
proof (cases "isList_flag l")
  case False
  then obtain v where v: "elems l = [v]" "wf_val v" "l = vl_push_back v new_list"
    using assms(4) by (cases l; cases "elems l") (auto simp: wf_vals_def vl_push_back_def new_list_def)
  have "\<not> p_error (with_equal k p)" using assms(1) by (simp add: ready_def with_equal_def with_key_def p_push_def)
  moreover have "\<not> p_error (put_entry k l p)" using assms(1) by (intro ready_no_error put_entry_ready)
  moreover have "show_vals lc l = show_val v" using v(1) False by (simp add: show_vals_def vl_isList_def)
  ultimately show ?thesis
    using reads_val [OF v(2) char_rules(1)] equal_value [OF assms(1-3) v(2)] v(3) by simp
next
  case True
  have e: "\<not> p_error (with_equal k p)" using assms(1) by (simp add: ready_def with_equal_def with_key_def p_push_def)
  note o = with_open_simps [OF assms(1)]
  note lc = list_chars [OF assms(5)]
  have op: "scans fe lc [fst lc] (with_equal k p) (with_open k p)"
    by (rule scans_char) (simp_all add: lc e open_list [OF assms(1)])
  note cl = close_list [OF assms(1-4) True]
  show ?thesis
  proof (cases "elems l")
    case Nil
    have "scans fe lc [snd lc] (with_open k p) (put_entry k l p)"
      by (rule scans_char) (use cl Nil lc in simp_all)
    then have "scans fe lc ([fst lc] @ [snd lc]) (with_equal k p) (put_entry k l p)" by (rule scans_append [OF op])
    then show ?thesis using Nil True by (simp add: show_vals_def vl_isList_def getListChars_def scans_reads)
  next
    case (Cons v vs)
    have wf: "wf_val v" "list_all wf_val vs" using assms(4) Cons by (simp_all add: wf_vals_def)
    let ?more = "concat (map (\<lambda>w. CHR '','' # show_val w) vs)"
    let ?p1 = "p_push (elem_token (cur_line p) v) (with_open k p)"
    let ?q = "(with_open k p)\<lparr>tokenStack := more_tokens (cur_line p) vs @ elem_token (cur_line p) v # tokenStack (with_open k p)\<rparr>"
    have p1: "listContext ?p1" "\<not> p_error ?p1" "tokenStack ?p1 \<noteq> []" "cur_line ?p1 = cur_line p" "?p1\<lparr>tokenStack := more_tokens (cur_line p) vs @ tokenStack ?p1\<rparr> = ?q"
      using o by (simp_all add: p_push_def)
    have more: "reads fe lc ?more (snd lc) ?p1 ?q" using reads_elems [OF wf(2) lc(3) p1(1-3)] p1(4,5) by simp
    have close: "scans fe lc [snd lc] ?q (put_entry k l p)"
      by (rule scans_char) (use cl Cons lc in simp_all)
    have tail: "scans fe lc (?more @ [snd lc]) ?p1 (put_entry k l p)" by (rule reads_append [OF more close])
    obtain y w where y: "?more @ [snd lc] = y # w" "closer y"
      using lc(3) by (cases vs) (auto simp: closer_def id_char_def letter_def isdigit_def)
    have "reads fe lc (show_val v) y (with_open k p) ?p1"
      using reads_val [OF wf(1) y(2), where p = "with_open k p" and p' = ?p1] push_elem(1) [of "with_open k p" v] o p1(2) by simp
    then have "scans fe lc (show_val v @ ?more @ [snd lc]) (with_open k p) (put_entry k l p)"
      using reads_append tail unfolding y(1) by blast
    then have "scans fe lc ([fst lc] @ show_val v @ ?more @ [snd lc]) (with_equal k p) (put_entry k l p)" by (rule scans_append [OF op])
    then show ?thesis using Cons True by (cases vs) (simp_all add: show_vals_def vl_isList_def scans_reads)
  qed
qed

lemma scans_value_line:
  assumes "ready p" "p_stack p = s # ss" "map_of (valueList s) k = None" "wf_name k" "wf_vals l" "list_chars_ok lc"
  shows "scans fe lc (k @ ''='' @ show_vals lc l @ nl) p (next_line (put_entry k l p))"
proof -
  have key: "reads fe lc k (CHR ''='') p (with_key k p)"
    using reads_id [OF assms(4) _ ready_no_error [OF assms(1)] ready_key [OF assms(1)]] char_rules(2) by (simp add: closer_def)
  have "\<not> p_error (with_key k p)" using assms(1) by (simp add: ready_def with_key_def p_push_def)
  then have eq: "scans fe lc ''='' (with_key k p) (with_equal k p)"
    using scans_char [OF char_rules(3)] key_equal [OF assms(1)] by blast
  have "scans fe lc (show_vals lc l @ nl) (with_equal k p) (next_line (put_entry k l p))"
    using reads_append [OF scans_values [OF assms(1-3,5,6)], of _ "[]"] ready_blank_line [OF put_entry_ready [OF assms(1)]]
    by (simp add: nl_def)
  then have "scans fe lc (CHR ''='' # show_vals lc l @ nl) (with_key k p) (next_line (put_entry k l p))"
    using scans_append [OF eq] by simp
  then show ?thesis using reads_append [OF key] by simp
qed

section \<open>Parsing sections\<close>

text \<open>The state with other sections, in some line.\<close>

definition moved :: "ConfSection list \<Rightarrow> ConfParser \<Rightarrow> ConfParser \<Rightarrow> bool" where
  "moved stk p p' \<longleftrightarrow> (\<exists>l. p' = p\<lparr>p_stack := stk, cur_line := l\<rparr>)"

lemma movedD:
  assumes "moved stk p p'"
  shows "p_stack p' = stk" "ready p' = ready p" "p_multiple p' = p_multiple p" "tokenStack p' = tokenStack p"
  using assms by (auto simp: moved_def)

lemma moved_trans: "moved stk p p' \<Longrightarrow> moved stk' p' p'' \<Longrightarrow> moved stk' p p''"
  by (auto simp: moved_def)

lemma moved_line: "moved stk p p' \<Longrightarrow> moved stk p (next_line p')"
  by (auto simp: moved_def next_line_def)

lemma moved_refl: "p_stack p = stk \<Longrightarrow> moved stk p p"
  unfolding moved_def by (rule exI [of _ "cur_line p"]) auto

lemma smap_put_last: "smap_ok (m @ (k, v) # r) \<Longrightarrow> smap_put k v m = m @ [(k, v)] \<and> map_of m k = None"
  by (induction m rule: smap_put.induct) (auto simp: sorted_wrt_append)

lemma smap_put_again: "smap_ok (m @ (k, v) # r) \<Longrightarrow> smap_put k v' (m @ [(k, v)]) = m @ [(k, v')] \<and> map_of (m @ [(k, v)]) k = Some v"
  by (induction m) (auto simp: sorted_wrt_append)

lemma reads_indent: "\<not> p_error p \<Longrightarrow> \<not> blank x \<Longrightarrow> reads fe lc (indent b n) x p p"
  by (rule reads_blanks) (simp_all add: indent_def list_all_iff char_rules)

lemma wf_name_first: "wf_name k \<Longrightarrow> \<exists>b bs. k = b # bs \<and> \<not> blank b"
  using char_classes(4) by (cases k) (auto simp: wf_name_def)

lemma scans_value_lines:
  assumes "ready p" "p_stack p = ConfSection q secs vals0 # ss" "smap_ok (vals0 @ vals)" "list_all (\<lambda>(k, l). wf_name k \<and> wf_vals l) vals"
    "list_chars_ok lc"
  shows "\<exists>p'. scans fe lc (print_values lc (indent b n) vals) p p' \<and> moved (ConfSection q secs (vals0 @ vals) # ss) p p'"
  using assms(1-4)
proof (induction vals arbitrary: p vals0)
  case Nil
  then show ?case by (intro exI [of _ p]) (simp add: print_values_def moved_refl)
next
  case (Cons e vals)
  obtain k l where e: "e = (k, l)" by (cases e)
  have wf: "wf_name k" "wf_vals l" using Cons.prems(4) e by simp_all
  have last: "smap_put k l vals0 = vals0 @ [(k, l)]" "map_of vals0 k = None" using smap_put_last [of vals0 k l vals] Cons.prems(3) e by simp_all
  let ?p = "next_line (put_entry k l p)"
  have line: "scans fe lc (k @ ''='' @ show_vals lc l @ nl) p ?p"
    using scans_value_line [OF Cons.prems(1,2) _ wf assms(5)] last(2) by simp
  obtain x xs where x: "k = x # xs" "\<not> blank x" using wf_name_first [OF wf(1)] by blast
  have whole: "scans fe lc (indent b n @ k @ ''='' @ show_vals lc l @ nl) p ?p"
    using reads_append [OF reads_indent [OF ready_no_error [OF Cons.prems(1)] x(2)]] line unfolding x(1) append_Cons by blast
  have mv: "moved (ConfSection q secs (vals0 @ [(k, l)]) # ss) p ?p"
    unfolding moved_def using Cons.prems(2) last(1) by (intro exI [of _ "cur_line p + 1"]) (simp add: next_line_def put_entry_def)
  have "ready ?p" using Cons.prems(1) put_entry_ready by simp
  from Cons.IH [OF this, of "vals0 @ [(k, l)]"] obtain p' where p': "scans fe lc (print_values lc (indent b n) vals) ?p p'"
    "moved (ConfSection q secs ((vals0 @ [(k, l)]) @ vals) # ss) ?p p'"
    using movedD(1) [OF mv] Cons.prems(3,4) e by auto
  have "scans fe lc ((indent b n @ k @ ''='' @ show_vals lc l @ nl) @ print_values lc (indent b n) vals) p p'"
    by (rule scans_append [OF whole p'(1)])
  moreover have "moved (ConfSection q secs (vals0 @ e # vals) # ss) p p'" using moved_trans [OF mv p'(2)] e by simp
  ultimately show ?case using e by (intro exI [of _ p']) (simp add: print_values_def)
qed

text \<open>The braces.\<close>

definition opened :: "string \<Rightarrow> ConfParser \<Rightarrow> ConfParser" where
  "opened name p = p_push (Token MiTT_OB ''{'' (cur_line p)) (open_section (Token MiTT_ID name (cur_line p)) (with_key name p))"

lemma opened_simps:
  assumes "ready p"
  shows "ready (opened name p)" "p_stack (opened name p) = new_section (p_multiple p) (cur_file p) (cur_line p) # p_stack p"
    "tokenStack (opened name p) = Token MiTT_OB ''{'' (cur_line p) # Token MiTT_ID name (cur_line p) # tokenStack p"
    "p_multiple (opened name p) = p_multiple p"
  using assms by (simp_all add: opened_def open_section_def with_key_def p_push_def ready_def Let_def)

lemma scans_open:
  assumes "ready p" "wf_name name"
  shows "scans fe lc (indent b n @ name @ '' {'' @ nl) p (next_line (opened name p))"
proof -
  obtain x xs where x: "name = x # xs" "\<not> blank x" using wf_name_first [OF assms(2)] by blast
  have k: "\<not> p_error (with_key name p)" using assms(1) by (simp add: ready_def with_key_def p_push_def)
  have "charToken lc (CHR ''{'') (with_key name p) = Some (opened name p)"
    using assms(1) by (simp add: charToken_def p_token_def checkToken_def with_key_def p_push_def opened_def ready_def)
  then have brace: "scans fe lc ''{'' (with_key name p) (opened name p)" using scans_char [OF char_rules(4) k] by blast
  then have "scans fe lc ('' '' @ CHR ''{'' # nl) (with_key name p) (next_line (opened name p))"
    using reads_append [OF reads_blanks [OF k, of "'' ''"], of "CHR ''{''" fe lc nl]
      scans_append [OF brace ready_blank_line [OF opened_simps(1) [OF assms(1)]]] char_rules(7)
    by (simp add: blank_def)
  then have "scans fe lc (name @ CHR '' '' # CHR ''{'' # nl) p (next_line (opened name p))"
    using reads_append [OF reads_id [OF assms(2) char_rules(6) ready_no_error [OF assms(1)] ready_key [OF assms(1)]]] by simp
  then show ?thesis
    using reads_append [OF reads_indent [OF ready_no_error [OF assms(1)] x(2)]] unfolding x(1) by simp
qed

definition closed :: "ConfSection list \<Rightarrow> Token list \<Rightarrow> ConfParser \<Rightarrow> ConfParser" where
  "closed sections ts p = p\<lparr>p_stack := sections, tokenStack := ts\<rparr>"

lemma scans_close:
  assumes "ready p" "p_stack p = sect # parent # ss" "tokenStack p = Token MiTT_OB w l # Token MiTT_ID name l' # ts"
    "case ts of [] \<Rightarrow> True | t # _ \<Rightarrow> tt t = MiTT_OB" "addSection name sect False parent = (True, parent')"
  shows "scans fe lc (indent b n @ ''}'' @ nl) p (next_line (closed (parent' # ss) ts p))"
proof -
  let ?q = "closed (parent' # ss) ts p"
  have q: "ready ?q" using assms(1,4) by (simp add: ready_def closed_def)
  have "checkToken (Token MiTT_CB ''}'' (cur_line p)) p = Some ?q"
    using assms check_top_ready [OF q] by (simp add: checkToken_def colapseSection_def add_to_top_def ready_def closed_def Let_def)
  then have "charToken lc (CHR ''}'') p = Some ?q" by (simp add: charToken_def p_token_def)
  then have "scans fe lc ''}'' p ?q" using scans_char [OF char_rules(5) ready_no_error [OF assms(1)]] by blast
  then have "scans fe lc (CHR ''}'' # nl) p (next_line ?q)" using scans_append ready_blank_line [OF q] by fastforce
  moreover have "\<not> blank (CHR ''}'')" by (simp add: blank_def)
  ultimately show ?thesis using reads_append [OF reads_indent [OF ready_no_error [OF assms(1)]]] by simp
qed

text \<open>What a section is printed as gives the section back, in a parser with an empty section on top.\<close>

definition in_section :: "bool \<Rightarrow> ConfParser \<Rightarrow> bool" where
  "in_section m p \<longleftrightarrow> ready p \<and> p_multiple p = m"

definition restores :: "surroundings \<Rightarrow> char \<times> char \<Rightarrow> bool \<Rightarrow> ConfSection \<Rightarrow> bool" where
  "restores fe lc m s \<longleftrightarrow>
     (\<forall>n b p q ss. in_section m p \<longrightarrow> p_stack p = ConfSection q [] [] # ss \<longrightarrow> allowMultiple q = m \<longrightarrow>
        (\<exists>p' s'. scans fe lc (print_section lc n b s) p p' \<and> moved (s' # ss) p p' \<and>
           forget s' = ConfSection (forget_place q) (forget_entries (sectionList s)) (valueList s)))"

definition restores_entries :: "surroundings \<Rightarrow> char \<times> char \<Rightarrow> bool \<Rightarrow> (string \<times> ConfSection list) list \<Rightarrow> bool" where
  "restores_entries fe lc m es \<longleftrightarrow>
     (\<forall>n b counts p q secs vals ss. in_section m p \<longrightarrow> p_stack p = ConfSection q secs vals # ss \<longrightarrow> allowMultiple q = m \<longrightarrow> smap_ok (secs @ es) \<longrightarrow>
        (\<exists>p' es'. scans fe lc (print_entries lc m n b counts es) p p' \<and> moved (ConfSection q (secs @ es') vals # ss) p p' \<and>
           forget_entries es' = forget_entries es))"

definition one_entry :: "string \<Rightarrow> ConfSection list \<Rightarrow> (string \<times> ConfSection list) list" where
  "one_entry name l = (if l = [] then [] else [(name, l)])"

definition print_one :: "char \<times> char \<Rightarrow> nat \<Rightarrow> bool \<Rightarrow> string \<Rightarrow> ConfSection \<Rightarrow> string" where
  "print_one lc n b name s = indent b n @ name @ '' {'' @ nl @ print_section lc (n + 3) True s @ indent b n @ ''}'' @ nl"

definition restores_sections :: "surroundings \<Rightarrow> char \<times> char \<Rightarrow> bool \<Rightarrow> ConfSection list \<Rightarrow> bool" where
  "restores_sections fe lc m l \<longleftrightarrow>
     (\<forall>n b name p q secs vals ss before. in_section m p \<longrightarrow> p_stack p = ConfSection q (secs @ one_entry name before) vals # ss \<longrightarrow>
        allowMultiple q = m \<longrightarrow> smap_ok (secs @ [(name, before)]) \<longrightarrow> wf_name name \<longrightarrow> m \<or> length (before @ l) \<le> 1 \<longrightarrow>
        (\<exists>p' l'. scans fe lc (concat (map (print_one lc n b name) l)) p p' \<and> moved (ConfSection q (secs @ one_entry name (before @ l')) vals # ss) p p' \<and>
           forget_sections l' = forget_sections l))"

lemma print_sections_one:
  "\<not> (m \<and> getListChars lc = ''[]'') \<Longrightarrow> print_sections lc m n b counts name l = (concat (map (print_one lc n b name) l), counts)"
  by (induction l) (auto simp: next_name_def print_one_def)

lemma moved_in_section: "moved stk p p' \<Longrightarrow> in_section m p \<Longrightarrow> in_section m p'"
  by (simp add: in_section_def movedD)

lemma scans_maybe_newline:
  assumes "in_section m p" "p_stack p = stk"
  shows "\<exists>p'. scans fe lc (if b then nl else []) p p' \<and> moved stk p p'"
proof (cases b)
  case True
  then show ?thesis using assms ready_blank_line [of p fe lc] moved_line [OF moved_refl [OF assms(2)]] by (auto simp: in_section_def)
next
  case False
  then show ?thesis using moved_refl [OF assms(2)] by (intro exI [of _ p]) simp
qed

lemma forget_entries_append [simp]: "forget_entries (a @ b) = forget_entries a @ forget_entries b"
  by (induction a) auto

lemma forget_entries_names: "map fst (forget_entries es) = map fst es"
  by (induction es) auto

lemma forget_sections_length [simp]: "length (forget_sections l) = length l"
  by (induction l) auto

lemma restores_section_step:
  assumes "restores_entries fe lc m secs" "wf_section m (ConfSection p0 secs vals)" "list_chars_ok lc"
  shows "restores fe lc m (ConfSection p0 secs vals)"
  unfolding restores_def
proof (intro allI impI)
  fix n b p q ss
  assume p: "in_section m p" "p_stack p = ConfSection q [] [] # ss" "allowMultiple q = m"
  have wf: "smap_ok vals" "smap_ok secs" "list_all (\<lambda>(k, l). wf_name k \<and> wf_vals l) vals" "allowMultiple p0 = m" using assms(2) by simp_all
  obtain p1 where p1: "scans fe lc (print_values lc (indent b n) vals) p p1" "moved (ConfSection q [] vals # ss) p p1"
    using scans_value_lines [OF _ p(2) _ wf(3) assms(3), where fe = fe and b = b and n = n] p(1) wf(1) unfolding in_section_def append_Nil by blast
  obtain p2 where p2: "scans fe lc (if b \<and> secs \<noteq> [] then nl else []) p1 p2" "moved (ConfSection q [] vals # ss) p1 p2"
    using scans_maybe_newline [OF moved_in_section [OF p1(2) p(1)] movedD(1) [OF p1(2)]] by blast
  note mv = moved_trans [OF p1(2) p2(2)]
  obtain p3 es' where p3: "scans fe lc (print_entries lc m n b [] secs) p2 p3" "moved (ConfSection q ([] @ es') vals # ss) p2 p3"
    "forget_entries es' = forget_entries secs"
    using assms(1) moved_in_section [OF mv p(1)] movedD(1) [OF mv] p(3) wf(2) unfolding restores_entries_def by (metis append_Nil)
  have "scans fe lc (print_section lc n b (ConfSection p0 secs vals)) p p3"
    using scans_append [OF p1(1) scans_append [OF p2(1) p3(1)]] wf(4) by simp
  moreover have "moved (ConfSection q es' vals # ss) p p3" using moved_trans [OF mv p3(2)] by simp
  ultimately show "\<exists>p' s'. scans fe lc (print_section lc n b (ConfSection p0 secs vals)) p p' \<and> moved (s' # ss) p p' \<and>
      forget s' = ConfSection (forget_place q) (forget_entries (sectionList (ConfSection p0 secs vals))) (valueList (ConfSection p0 secs vals))"
    using p3(3) by (intro exI [of _ p3] exI [of _ "ConfSection q es' vals"]) simp
qed

lemma restores_entries_step:
  assumes "restores_sections fe lc m l" "restores_entries fe lc m es" "wf_entries m ((name, l) # es)" "\<not> (m \<and> getListChars lc = ''[]'')"
  shows "restores_entries fe lc m ((name, l) # es)"
  unfolding restores_entries_def
proof (intro allI impI)
  fix n b counts p q secs vals ss
  assume p: "in_section m p" "p_stack p = ConfSection q secs vals # ss" "allowMultiple q = m" "smap_ok (secs @ (name, l) # es)"
  have wf: "wf_name name" "l \<noteq> []" "m \<or> length ([] @ l) \<le> 1" using assms(3) by auto
  have ok: "smap_ok (secs @ [(name, [])])" "\<And>l'. smap_ok ((secs @ [(name, l')]) @ es)" using p(4) by (auto simp: sorted_wrt_append)
  have "p_stack p = ConfSection q (secs @ one_entry name []) vals # ss" using p(2) by (simp add: one_entry_def)
  then obtain p1 l' where p1: "scans fe lc (concat (map (print_one lc n b name) l)) p p1"
    "moved (ConfSection q (secs @ one_entry name ([] @ l')) vals # ss) p p1" "forget_sections l' = forget_sections l"
    using assms(1) p(1,3) ok(1) wf(1,3) unfolding restores_sections_def by blast
  have "l' \<noteq> []" using p1(3) wf(2) forget_sections_length by (metis length_0_conv)
  then have mv1: "moved (ConfSection q (secs @ [(name, l')]) vals # ss) p p1" using p1(2) by (simp add: one_entry_def)
  obtain p2 where p2: "scans fe lc (if b \<and> es \<noteq> [] then nl else []) p1 p2" "moved (ConfSection q (secs @ [(name, l')]) vals # ss) p1 p2"
    using scans_maybe_newline [OF moved_in_section [OF mv1 p(1)] movedD(1) [OF mv1]] by blast
  note mv = moved_trans [OF mv1 p2(2)]
  obtain p3 es' where p3: "scans fe lc (print_entries lc m n b counts es) p2 p3"
    "moved (ConfSection q ((secs @ [(name, l')]) @ es') vals # ss) p2 p3" "forget_entries es' = forget_entries es"
    using assms(2) moved_in_section [OF mv p(1)] movedD(1) [OF mv] p(3) ok(2) [of l'] unfolding restores_entries_def by blast
  have "scans fe lc (print_entries lc m n b counts ((name, l) # es)) p p3"
    using scans_append [OF p1(1) scans_append [OF p2(1) p3(1)]] by (simp add: print_sections_one [OF assms(4)])
  moreover have "moved (ConfSection q (secs @ (name, l') # es') vals # ss) p p3" using moved_trans [OF mv p3(2)] by simp
  moreover have "forget_entries ((name, l') # es') = forget_entries ((name, l) # es)" using p1(3) p3(3) by simp
  ultimately show "\<exists>p' es'. scans fe lc (print_entries lc m n b counts ((name, l) # es)) p p' \<and>
      moved (ConfSection q (secs @ es') vals # ss) p p' \<and> forget_entries es' = forget_entries ((name, l) # es)" by blast
qed

lemma opened_line:
  assumes "in_section m p"
  shows "in_section m (next_line (opened name p))"
    "p_stack (next_line (opened name p)) = new_section m (cur_file p) (cur_line p) # p_stack p"
  using assms opened_simps [of p name] by (simp_all add: in_section_def next_line_def)

lemma moved_closed:
  assumes "moved stk (next_line (opened name p)) p'"
  shows "moved stk' p (next_line (closed stk' (tokenStack p) p'))"
proof -
  obtain l where "p' = (next_line (opened name p))\<lparr>p_stack := stk, cur_line := l\<rparr>" using assms unfolding moved_def by blast
  then show ?thesis
    unfolding moved_def
    by (intro exI [of _ "l + 1"]) (simp add: closed_def next_line_def opened_def open_section_def with_key_def p_push_def Let_def)
qed

lemma add_another:
  assumes "allowMultiple q = m" "smap_ok (secs @ [(name, before)])" "m \<or> before = []"
  shows "addSection name s False (ConfSection q (secs @ one_entry name before) vals)
    = (True, ConfSection q (secs @ one_entry name (before @ [s])) vals)"
proof (cases "before = []")
  case True
  then show ?thesis using smap_put_last [of secs name before "[]"] smap_put_last [of secs name "[s]" "[]"] assms(2)
    by (simp add: one_entry_def addSection_def Let_def)
next
  case False
  then show ?thesis using smap_put_again [of secs name before "[]" "before @ [s]"] assms by (simp add: one_entry_def addSection_def Let_def)
qed

lemma restores_sections_step:
  assumes "restores fe lc m s" "restores_sections fe lc m l" "wf_section m s"
  shows "restores_sections fe lc m (s # l)"
  unfolding restores_sections_def
proof (intro allI impI)
  fix n b name p q secs vals ss before
  assume p: "in_section m p" "p_stack p = ConfSection q (secs @ one_entry name before) vals # ss" "allowMultiple q = m"
    "smap_ok (secs @ [(name, before)])" "wf_name name" "m \<or> length (before @ s # l) \<le> 1"
  have r: "ready p" using p(1) by (simp add: in_section_def)
  let ?p1 = "next_line (opened name p)"
  let ?parent = "\<lambda>l'. ConfSection q (secs @ one_entry name (before @ l')) vals # ss"
  let ?q = "\<lparr>allowMultiple = m, cs_lineno = cur_line p, cs_filename = cur_file p, cs_ignore = False\<rparr>"
  note o = opened_line [OF p(1)]
  have "p_stack ?p1 = ConfSection ?q [] [] # p_stack p" using o(2) by (simp add: new_section_def)
  then obtain p2 s' where p2: "scans fe lc (print_section lc (n + 3) True s) ?p1 p2" "moved (s' # p_stack p) ?p1 p2"
    "forget s' = ConfSection (forget_place ?q) (forget_entries (sectionList s)) (valueList s)"
    using assms(1) o(1) unfolding restores_def by (metis ConfSectionPimpel.select_convs(1))
  have s': "forget s' = forget s" using p2(3) assms(3) by (cases s) (simp add: forget_place_def)
  let ?p3 = "next_line (closed (?parent [s']) (tokenStack p) p2)"
  have close: "scans fe lc (indent b n @ ''}'' @ nl) p2 ?p3"
  proof (rule scans_close)
    show "ready p2" using moved_in_section [OF p2(2) o(1)] by (simp add: in_section_def)
    show "p_stack p2 = s' # ConfSection q (secs @ one_entry name before) vals # ss" using movedD(1) [OF p2(2)] p(2) by simp
    show "tokenStack p2 = Token MiTT_OB ''{'' (cur_line p) # Token MiTT_ID name (cur_line p) # tokenStack p"
      using movedD(4) [OF p2(2)] opened_simps(3) [OF r] by (simp add: next_line_def)
    show "case tokenStack p of [] \<Rightarrow> True | t # _ \<Rightarrow> tt t = MiTT_OB" using r by (simp add: ready_def)
    show "addSection name s' False (ConfSection q (secs @ one_entry name before) vals)
        = (True, ConfSection q (secs @ one_entry name (before @ [s'])) vals)"
      using p(6) by (intro add_another [OF p(3,4)]) auto
  qed
  have one: "scans fe lc (print_one lc n b name s) p ?p3"
    using scans_append [OF scans_open [OF r p(5), of fe lc b n] scans_append [OF p2(1) close]] by (simp add: print_one_def)
  have mv: "moved (?parent [s']) p ?p3" by (rule moved_closed [OF p2(2)])
  have "smap_ok (secs @ [(name, before @ [s'])])" "m \<or> length ((before @ [s']) @ l) \<le> 1" using p(4,6) by simp_all
  then obtain p4 l' where p4: "scans fe lc (concat (map (print_one lc n b name) l)) ?p3 p4"
    "moved (ConfSection q (secs @ one_entry name ((before @ [s']) @ l')) vals # ss) ?p3 p4" "forget_sections l' = forget_sections l"
    using assms(2) moved_in_section [OF mv p(1)] movedD(1) [OF mv] p(3,5) unfolding restores_sections_def by blast
  have "scans fe lc (concat (map (print_one lc n b name) (s # l))) p p4" using scans_append [OF one p4(1)] by simp
  moreover have "moved (?parent (s' # l')) p p4" using moved_trans [OF mv p4(2)] by simp
  moreover have "forget_sections (s' # l') = forget_sections (s # l)" using s' p4(3) by simp
  ultimately show "\<exists>p' l'. scans fe lc (concat (map (print_one lc n b name) (s # l))) p p' \<and> moved (?parent l') p p' \<and>
      forget_sections l' = forget_sections (s # l)" by blast
qed

lemma restores_all:
  assumes "\<not> (m \<and> getListChars lc = ''[]'')" "list_chars_ok lc"
  shows "wf_section m s \<Longrightarrow> restores fe lc m s" "wf_entries m es \<Longrightarrow> restores_entries fe lc m es"
    "wf_sections m l \<Longrightarrow> restores_sections fe lc m l"
proof (induction s and es and l rule: forget_forget_entries_forget_sections.induct)
  case (1 p secs vals)
  then show ?case using restores_section_step [OF _ 1(2) assms(2)] by simp
next
  case 2
  have "\<exists>p' es'. scans fe lc [] p p' \<and> moved (ConfSection q (secs @ es') vals # ss) p p' \<and> forget_entries es' = []"
    if "p_stack p = ConfSection q secs vals # ss" for p q secs vals ss
    using moved_refl [OF that] by (intro exI [of _ p] exI [of _ "[]"]) simp
  then show ?case unfolding restores_entries_def by simp
next
  case (3 n l es)
  then show ?case using restores_entries_step [OF _ _ 3(3) assms(1)] by simp
next
  case 4
  have "\<exists>p' l'. scans fe lc [] p p' \<and> moved (ConfSection q (secs @ one_entry name (before @ l')) vals # ss) p p' \<and> forget_sections l' = []"
    if "p_stack p = ConfSection q (secs @ one_entry name before) vals # ss" for p q secs name before vals ss
    using moved_refl [OF that] by (intro exI [of _ p] exI [of _ "[]"]) simp
  then show ?case unfolding restores_sections_def by simp
next
  case (5 s ss)
  then show ?case using restores_sections_step by simp
qed

section \<open>The round_brackets trip\<close>

text \<open>
  C28. A section is printed as text from which the parser reads the section, when its names and values can be written
  and no list is mistaken for HOCON. Whatever files there are, no start condition left by another text matters but
  an unfinished string.
\<close>

theorem conf_roundtrip:
  assumes "wf_section m s" "list_chars_ok lc" "\<not> (m \<and> getListChars lc = ''[]'')"
  shows "\<exists>s'. conf_parse files env lc m del (INITIAL, c) (conf_print lc pritty s) = Some (Some (Some s')) \<and> forget s' = forget s"
proof -
  let ?p = "new_parser m del"
  let ?q = "\<lparr>allowMultiple = m, cs_lineno = 1, cs_filename = ''<STREAM>'', cs_ignore = False\<rparr>"
  have p: "in_section m ?p" "p_stack ?p = ConfSection ?q [] [] # []" "allowMultiple ?q = m"
    by (simp_all add: in_section_def ready_def new_parser_def new_section_def)
  obtain p' s' where p': "scans (files, env) lc (print_section lc 0 pritty s) ?p p'" "moved [s'] ?p p'"
    "forget s' = ConfSection (forget_place ?q) (forget_entries (sectionList s)) (valueList s)"
    using restores_all(1) [OF assms(3,2,1), unfolded restores_def] p by blast
  obtain c' where "conf_scan files env lc (st c [] (conf_print lc pritty s) ?p) = conf_scan files env lc (st c' [] [] p')"
    using p'(1) unfolding scans_def conf_print_def by (metis append_Nil2 fst_conv snd_conv)
  also have "\<dots> = Some (Some p')" by (subst conf_scan.simps) (simp add: st_def deleteStream_def)
  finally have "conf_scan files env lc (st c [] (conf_print lc pritty s) ?p) = Some (Some p')" .
  moreover have "p_finish p' = Some s'" using p'(2) by (auto simp: moved_def p_finish_def new_parser_def)
  moreover have "forget s' = forget s" using p'(3) assms(1) by (cases s) (simp add: forget_place_def)
  ultimately show ?thesis by (simp add: conf_parse_def st_def)
qed

lemma conf_roundtrip_witness:
  "\<exists>s'. conf_parse no_file no_file round_brackets False True (INITIAL, False) (conf_print round_brackets True demo_tree) = Some (Some (Some s')) \<and> forget s' = forget demo_tree"
proof (rule conf_roundtrip)
  show "wf_section False demo_tree" by code_simp
  show "list_chars_ok round_brackets" by (simp add: list_chars_ok_def blank_def special_def isdigit_def sign_char_def letter_def)
  show "\<not> (False \<and> getListChars round_brackets = ''[]'')" by simp
qed

section \<open>What does not come back\<close>

text \<open>The empty string is printed as two quotes, between which the scanner finds nothing: the key is lost.\<close>

definition one_key :: "ValElementList \<Rightarrow> ConfSection" where
  "one_key v = ConfSection demo_place [] [(''k'', v)]"

lemma empty_string_lost:
  "conf_parse no_file no_file round_brackets False True (INITIAL, False) (conf_print round_brackets False (one_key (one_value VString [])))
    = Some (Some (Some (ConfSection demo_place [] [])))"
  by code_simp

text \<open>A quote is printed with a backslash; the scanner makes two tokens of the text around it.\<close>

lemma quote_not_read:
  "conf_parse no_file no_file round_brackets False True (INITIAL, False) (conf_print round_brackets False (one_key (one_value VString [CHR ''a'', CHR 0x22, CHR ''b''])))
    = Some (Some None)"
  by code_simp

text \<open>For HOCON the sections of one name get different names, but the third gets the name of the second again.\<close>

lemma third_name:
  "conf_print (CHR ''['', CHR '']'') False
      (ConfSection (demo_place\<lparr>allowMultiple := True\<rparr>) [(''a'', [new_section True [] 1, new_section True [] 2, new_section True [] 3])] [])
    = ''a {'' @ nl @ ''}'' @ nl @ ''a_1 {'' @ nl @ ''}'' @ nl @ ''a_1 {'' @ nl @ ''}'' @ nl"
  by code_simp

end
