(* ===== verification/Station_Filter.thy ===== *)
theory Station_Filter
  imports Conf_Lookup Kv_Data Kv_Text_Data
begin

text \<open>
  The filters of stations, \<^verbatim>\<open>src/lib/decoder/decoderbase/StationFilter.cc\<close>: which data are saved, which are published
  and which are given to the quality control, by station and type. The filters are read from the configuration
  (theory \<open>Conf_Section\<close>); a filter with an error is left out. Sets of numbers are ordered lists. Log output is
  not modelled; the conversion of Boost for numbers written as strings is an argument.
\<close>

section \<open>A filter\<close>

record StationFilterElement =
  rangeFrom :: int
  rangeTo :: int
  stationIdList :: "int list"
  typeids :: "int list"
  f_name :: string
  addToWokque :: bool
  f_publish :: bool
  saveToDb :: bool

definition default_filter :: StationFilterElement where
  "default_filter =
     \<lparr>rangeFrom = -1, rangeTo = -1, stationIdList = [], typeids = [], f_name = ''__default__'', addToWokque = True,
      f_publish = True, saveToDb = True\<rparr>"

definition new_filter :: "string \<Rightarrow> StationFilterElement" where
  "new_filter name =
     \<lparr>rangeFrom = -1, rangeTo = -1, stationIdList = [], typeids = [], f_name = name, addToWokque = True,
      f_publish = False, saveToDb = True\<rparr>"

text \<open>The station 0 stands for all stations.\<close>

definition addStation :: "int \<Rightarrow> StationFilterElement \<Rightarrow> StationFilterElement" where
  "addStation sid e =
     (if sid = 0 then e\<lparr>stationIdList := [0]\<rparr>
      else if stationIdList e \<noteq> [] \<and> hd (stationIdList e) = 0 then e
      else e\<lparr>stationIdList := sset_insert (<) sid (stationIdList e)\<rparr>)"

definition setStationRange :: "int \<Rightarrow> int \<Rightarrow> StationFilterElement \<Rightarrow> StationFilterElement" where
  "setStationRange a b e =
     (if a = b then addStation a (e\<lparr>rangeFrom := -1, rangeTo := -1\<rparr>)
      else if a < b then e\<lparr>rangeFrom := a, rangeTo := b\<rparr>
      else e\<lparr>rangeFrom := b, rangeTo := a\<rparr>)"

definition stationDefined :: "int \<Rightarrow> StationFilterElement \<Rightarrow> bool" where
  "stationDefined sid e \<longleftrightarrow>
     rangeFrom e > -1 \<and> rangeTo e > -1 \<and> rangeFrom e \<le> sid \<and> sid \<le> rangeTo e
     \<or> list_ex (\<lambda>x. x = 0 \<or> x = sid) (stationIdList e)"

text \<open>The smallest and the greatest number stand for all negative and all positive types.\<close>

definition typeDefined :: "int \<Rightarrow> StationFilterElement \<Rightarrow> bool" where
  "typeDefined tid e \<longleftrightarrow>
     typeids e \<noteq> [] \<and> (tid < 0 \<and> hd (typeids e) = long_min \<or> tid > 0 \<and> hd (typeids e) = long_max)
     \<or> tid \<in> set (typeids e)"

definition filter_matches :: "int \<Rightarrow> int \<Rightarrow> StationFilterElement \<Rightarrow> bool" where
  "filter_matches sid tid e \<longleftrightarrow> stationDefined sid e \<and> (typeids e = [] \<or> typeDefined tid e)"

section \<open>Configuration\<close>

datatype filter_error = InvalidValues string string | InvalidRange

fun setVals :: "(string \<Rightarrow> int option) \<Rightarrow> string \<Rightarrow> ValElement list \<Rightarrow> int list \<Rightarrow> filter_error + int list" where
  "setVals cast key [] dst = Inr dst"
| "setVals cast key (e # es) dst =
     (if vtext e = ''neg'' then Inr [long_min]
      else if vtext e = ''pos'' then Inr [long_max]
      else
        let v = valAsInt_default cast long_min e in
        if v = long_min then Inl (InvalidValues key (vtext e)) else setVals cast key es (sset_insert (<) v dst))"

definition read_range :: "(string \<Rightarrow> int option) \<Rightarrow> ValElementList \<Rightarrow> StationFilterElement \<Rightarrow> filter_error + StationFilterElement" where
  "read_range cast val e =
     (if elems val = [] then Inr e
      else
        let v1 = vl_asInt cast (-1) 0 val; v2 = vl_asInt cast (-1) 1 val;
            v2 = (if v2 < 0 \<and> length (elems val) = 1 then long_max else v2)
        in if v1 < 0 \<or> v2 < 0 then Inl InvalidRange else Inr (setStationRange v1 v2 e))"

definition read_actions :: "ConfSection \<Rightarrow> StationFilterElement \<Rightarrow> StationFilterElement" where
  "read_actions conf e =
     (let e = e\<lparr>saveToDb := vl_asBool (saveToDb e) 0 (getValue conf ''save_to_db'')\<rparr>;
          e = e\<lparr>f_publish := vl_asBool (f_publish e) 0 (getValue conf ''publish'')\<rparr>;
          e = e\<lparr>addToWokque := vl_asBool (addToWokque e) 0 (getValue conf ''add_to_work_queue'')\<rparr>
      in if saveToDb e then e else e\<lparr>addToWokque := False\<rparr>)"

definition readConfig :: "(string \<Rightarrow> int option) \<Rightarrow> ConfSection \<Rightarrow> string \<Rightarrow> bool \<Rightarrow> filter_error + StationFilterElement" where
  "readConfig cast conf name isDefault =
     (let e = read_actions conf (if isDefault then default_filter else new_filter name) in
      if isDefault then Inr e
      else
        res_bind (read_range cast (getValue conf ''station_range'') e) (\<lambda>e.
        res_bind (setVals cast ''station_list'' (elems (getValue conf ''station_list'')) (stationIdList e)) (\<lambda>l.
        let e = e\<lparr>stationIdList := l\<rparr> in
        res_bind (setVals cast ''typeid_list'' (elems (getValue conf ''typeid_list'')) (typeids e)) (\<lambda>l.
        Inr (e\<lparr>typeids := l\<rparr>)))))"

section \<open>All filters\<close>

record StationFilters =
  defaultFilter :: StationFilterElement
  filters :: "StationFilterElement list"

definition new_filters :: StationFilters where
  "new_filters = \<lparr>defaultFilter = default_filter, filters = []\<rparr>"

definition filterNames :: "StationFilters \<Rightarrow> string list" where
  "filterNames fs = map f_name (filters fs)"

definition getFilterByName :: "string \<Rightarrow> StationFilters \<Rightarrow> StationFilterElement option" where
  "getFilterByName name fs = find (\<lambda>f. f_name f = name) (filters fs)"

definition filter_for :: "StationFilters \<Rightarrow> int \<Rightarrow> int \<Rightarrow> StationFilterElement" where
  "filter_for fs sid tid = (case find (filter_matches sid tid) (filters fs) of Some f \<Rightarrow> f | None \<Rightarrow> defaultFilter fs)"

text \<open>
  The loop over data, with the filter of the station and type before: it is looked up again only when one of them has
  changed. At the begin it is a filter of its own, for a station and type that do not exist.
\<close>

fun select_loop :: "StationFilters \<Rightarrow> bool \<Rightarrow> ('d \<Rightarrow> int \<times> int) \<Rightarrow> int \<times> int \<Rightarrow> StationFilterElement \<Rightarrow> 'd list \<Rightarrow> 'd list" where
  "select_loop fs saveData place p f [] = []"
| "select_loop fs saveData place p f (d # ds) =
     (let (p, f) = (if p \<noteq> place d then (place d, filter_for fs (fst (place d)) (snd (place d))) else (p, f)) in
      if (if saveData then saveToDb f else f_publish f) then d # select_loop fs saveData place p f ds
      else select_loop fs saveData place p f ds)"

definition data_place :: "'t kvData \<Rightarrow> int \<times> int" where
  "data_place d = (stationID d, typeID d)"

definition text_place :: "'t kvTextData \<Rightarrow> int \<times> int" where
  "text_place d = (txt_stationID d, txt_typeID d)"

definition publishOrSaveData :: "StationFilters \<Rightarrow> bool \<Rightarrow> 't kvData list \<Rightarrow> 't kvData list" where
  "publishOrSaveData fs saveData sd = select_loop fs saveData data_place (long_max, long_max) default_filter sd"

definition publishOrSaveTextData :: "StationFilters \<Rightarrow> bool \<Rightarrow> 't kvTextData list \<Rightarrow> 't kvTextData list" where
  "publishOrSaveTextData fs saveData td = select_loop fs saveData text_place (long_max, long_max) default_filter td"

definition saveDataToDb :: "StationFilters \<Rightarrow> 't kvData list \<Rightarrow> 't kvTextData list \<Rightarrow> 't kvData list \<times> 't kvTextData list" where
  "saveDataToDb fs sd td = (publishOrSaveData fs True sd, publishOrSaveTextData fs True td)"

definition publishData :: "StationFilters \<Rightarrow> 't kvData list \<Rightarrow> 't kvTextData list \<Rightarrow> 't kvData list \<times> 't kvTextData list" where
  "publishData fs sd td = (publishOrSaveData fs False sd, publishOrSaveTextData fs False td)"

text \<open>The result and the names of the filters with errors, which are logged.\<close>

definition read_filter :: "(string \<Rightarrow> int option) \<Rightarrow> ConfSection \<Rightarrow> string \<Rightarrow> StationFilters \<times> (string \<times> filter_error) list
    \<Rightarrow> StationFilters \<times> (string \<times> filter_error) list" where
  "read_filter cast fconf name r =
     (case getSection fconf name of
        None \<Rightarrow> r
      | Some conf \<Rightarrow>
          (case r of (fs, bad) \<Rightarrow>
             if name = ''default'' then
               (case readConfig cast conf name True of Inl e \<Rightarrow> (fs, bad @ [(name, e)]) | Inr f \<Rightarrow> (fs\<lparr>defaultFilter := f\<rparr>, bad))
             else
               (case readConfig cast conf name False of
                  Inl e \<Rightarrow> (fs, bad @ [(name, e)])
                | Inr f \<Rightarrow> (fs\<lparr>filters := filters fs @ [f]\<rparr>, bad))))"

definition filters_readConfig :: "(string \<Rightarrow> int option) \<Rightarrow> ConfSection \<Rightarrow> StationFilters \<times> (string \<times> filter_error) list" where
  "filters_readConfig cast conf =
     (case getSection conf ''kvDataInputd.filters'' of
        None \<Rightarrow> (new_filters, [])
      | Some fconf \<Rightarrow> fold (read_filter cast fconf) (getSubSections fconf) (new_filters, []))"

section \<open>Selection\<close>

lemma select_loop_filter:
  "f = filter_for fs (fst p) (snd p) \<or> list_all (\<lambda>d. place d \<noteq> p) (take 1 ds) \<Longrightarrow>
    select_loop fs saveData place p f ds =
      filter (\<lambda>d. let f = filter_for fs (fst (place d)) (snd (place d)) in if saveData then saveToDb f else f_publish f) ds"
proof (induction ds arbitrary: p f)
  case (Cons d ds)
  let ?f = "filter_for fs (fst (place d)) (snd (place d))"
  have IH: "select_loop fs saveData place (place d) ?f ds =
      filter (\<lambda>d. let f = filter_for fs (fst (place d)) (snd (place d)) in if saveData then saveToDb f else f_publish f) ds"
    by (rule Cons.IH) simp
  show ?case using IH Cons.prems by (cases "p = place d") (auto simp: Let_def)
qed simp

text \<open>
  C38. What is saved (or published) are exactly the data whose own filter says so, in their order, although the filter is
  looked up only when station or type change: no station has the number that the loop begins with.
\<close>

theorem selection_by_own_filter:
  assumes "list_all (\<lambda>d. stationID d < long_max) sd" "list_all (\<lambda>d. txt_stationID d < long_max) td"
  shows "saveDataToDb fs sd td =
      (filter (\<lambda>d. saveToDb (filter_for fs (stationID d) (typeID d))) sd,
       filter (\<lambda>d. saveToDb (filter_for fs (txt_stationID d) (txt_typeID d))) td)
    \<and> publishData fs sd td =
      (filter (\<lambda>d. f_publish (filter_for fs (stationID d) (typeID d))) sd,
       filter (\<lambda>d. f_publish (filter_for fs (txt_stationID d) (txt_typeID d))) td)"
proof -
  have "list_all (\<lambda>d. data_place d \<noteq> (long_max, long_max)) (take 1 sd)" "list_all (\<lambda>d. text_place d \<noteq> (long_max, long_max)) (take 1 td)"
    using assms by (cases sd; cases td; auto simp: data_place_def text_place_def)+
  then show ?thesis
    by (simp add: saveDataToDb_def publishData_def publishOrSaveData_def publishOrSaveTextData_def select_loop_filter data_place_def text_place_def Let_def)
qed

definition demo_filters :: StationFilters where
  "demo_filters =
     \<lparr>defaultFilter = default_filter,
      filters = [(new_filter ''aws'')\<lparr>stationIdList := [20], saveToDb := False, f_publish := True\<rparr>]\<rparr>"

lemma selection_by_own_filter_witness:
  "saveDataToDb demo_filters [kvData_clean (0 :: nat), (kvData_clean 0)\<lparr>stationID := 20\<rparr>] [] =
      (filter (\<lambda>d. saveToDb (filter_for demo_filters (stationID d) (typeID d))) [kvData_clean (0 :: nat), (kvData_clean 0)\<lparr>stationID := 20\<rparr>],
       filter (\<lambda>d. saveToDb (filter_for demo_filters (txt_stationID d) (txt_typeID d))) [])"
  using selection_by_own_filter [of "[kvData_clean (0 :: nat), (kvData_clean 0)\<lparr>stationID := 20\<rparr>]" "[]" demo_filters]
  by (simp add: kvData_clean_def long_max_def)

section \<open>Meaning of the configuration\<close>

text \<open>The numbers of a list of values.\<close>

definition numbers :: "(string \<Rightarrow> int option) \<Rightarrow> ValElement list \<Rightarrow> int set" where
  "numbers cast vs = valAsInt_default cast long_min ` set vs"

definition is_sign :: "ValElement \<Rightarrow> bool" where
  "is_sign v \<longleftrightarrow> vtext v = ''neg'' \<or> vtext v = ''pos''"

definition configured_range :: "(string \<Rightarrow> int option) \<Rightarrow> ValElementList \<Rightarrow> int \<Rightarrow> bool" where
  "configured_range cast val sid \<longleftrightarrow>
     (case map (valAsInt_default cast (-1)) (elems val) of
        [] \<Rightarrow> False
      | [a] \<Rightarrow> a \<le> sid
      | a # b # _ \<Rightarrow> min a b \<le> sid \<and> sid \<le> max a b \<or> a = 0 \<and> b = 0)"

definition configured_types :: "(string \<Rightarrow> int option) \<Rightarrow> ValElement list \<Rightarrow> int \<Rightarrow> bool" where
  "configured_types cast vs tid \<longleftrightarrow>
     (case find is_sign vs of
        Some v \<Rightarrow> if vtext v = ''neg'' then tid < 0 else tid > 0
      | None \<Rightarrow> vs = [] \<or> tid \<in> numbers cast vs)"

lemma set_sset_insert [simp]: "set (sset_insert (<) (x :: int) s) = insert x (set s)"
  by (induction s) auto

lemma setVals_numbers: "setVals cast key vs dst = Inr l \<Longrightarrow> find is_sign vs = None \<Longrightarrow> set l = set dst \<union> numbers cast vs"
proof (induction vs arbitrary: dst)
  case (Cons v vs)
  then have "\<not> is_sign v" "find is_sign vs = None" by (auto split: if_splits)
  then show ?case using Cons.IH [of "sset_insert (<) (valAsInt_default cast long_min v) dst"] Cons.prems
    by (auto simp: is_sign_def numbers_def Let_def split: if_splits)
qed (simp add: numbers_def)

lemma setVals_sign: "setVals cast key vs dst = Inr l \<Longrightarrow> find is_sign vs = Some v \<Longrightarrow> l = [if vtext v = ''neg'' then long_min else long_max]"
  by (induction vs arbitrary: dst) (auto simp: is_sign_def Let_def split: if_splits)

lemma setVals_not_min: "setVals cast key vs dst = Inr l \<Longrightarrow> find is_sign vs = None \<Longrightarrow> long_min \<notin> numbers cast vs"
  by (induction vs arbitrary: dst) (auto simp: is_sign_def numbers_def Let_def split: if_splits)

lemma setVals_stays: "setVals cast key vs dst = Inr l \<Longrightarrow> find is_sign vs = None \<Longrightarrow> vs = [] \<Longrightarrow> l = dst"
  by simp

lemma read_actions_places [simp]:
  "rangeFrom (read_actions conf e) = rangeFrom e" "rangeTo (read_actions conf e) = rangeTo e"
  "stationIdList (read_actions conf e) = stationIdList e" "typeids (read_actions conf e) = typeids e" "f_name (read_actions conf e) = f_name e"
  by (simp_all add: read_actions_def Let_def)

lemma new_filter_simps [simp]:
  "rangeFrom (new_filter name) = -1" "stationIdList (new_filter name) = []" "typeids (new_filter name) = []" "f_name (new_filter name) = name"
  by (simp_all add: new_filter_def)

lemma read_range_frame:
  assumes "read_range cast val e = Inr e'"
  shows "typeids e' = typeids e \<and> saveToDb e' = saveToDb e \<and> addToWokque e' = addToWokque e \<and> f_name e' = f_name e"
  using assms by (auto simp: read_range_def setStationRange_def addStation_def Let_def split: if_splits)

lemma read_range_station:
  assumes "read_range cast val e = Inr e'" "rangeFrom e = -1" "stationIdList e = []" "sid < long_max"
  shows "stationDefined sid e' \<longleftrightarrow> configured_range cast val sid"
proof -
  consider "elems val = []" | v where "elems val = [v]" | v w vs where "elems val = v # w # vs"
    by (cases "elems val" rule: remdups_adj.cases) auto
  then show ?thesis
  proof cases
    case 1
    then show ?thesis using assms by (simp add: read_range_def configured_range_def stationDefined_def)
  next
    case 2
    then show ?thesis using assms
      by (auto simp: read_range_def configured_range_def stationDefined_def setStationRange_def addStation_def vl_asInt_def vl_at_def long_max_def
          Let_def split: if_splits)
  next
    case 3
    then show ?thesis using assms
      by (auto simp: read_range_def configured_range_def stationDefined_def setStationRange_def addStation_def vl_asInt_def vl_at_def
          Let_def split: if_splits)
  qed
qed

text \<open>
  C1. A filter that has been read from the configuration applies to the stations of its range and list and to the
  types of its list: a list with 0 holds for all stations, a range with one end for all stations from there on, no list
  of types for all types, and \<^verbatim>\<open>neg\<close> and \<^verbatim>\<open>pos\<close> for all negative or positive types.
\<close>

theorem filter_as_configured:
  assumes "readConfig cast conf name False = Inr e" "sid < long_max" "tid < long_max"
    "list_all (\<lambda>v. \<not> is_sign v) (elems (getValue conf ''station_list''))"
    "list_all (\<lambda>v. valAsInt_default cast long_min v < long_max) (elems (getValue conf ''typeid_list''))"
  shows "filter_matches sid tid e \<longleftrightarrow>
    (configured_range cast (getValue conf ''station_range'') sid
      \<or> 0 \<in> numbers cast (elems (getValue conf ''station_list'')) \<or> sid \<in> numbers cast (elems (getValue conf ''station_list'')))
    \<and> configured_types cast (elems (getValue conf ''typeid_list'')) tid"
proof -
  let ?stations = "elems (getValue conf ''station_list'')"
  let ?types = "elems (getValue conf ''typeid_list'')"
  let ?e0 = "read_actions conf (new_filter name)"
  obtain e1 l ts where r: "read_range cast (getValue conf ''station_range'') ?e0 = Inr e1"
    "setVals cast ''station_list'' ?stations (stationIdList e1) = Inr l"
    "setVals cast ''typeid_list'' ?types [] = Inr ts" "e = e1\<lparr>stationIdList := l, typeids := ts\<rparr>"
    using assms(1) read_range_frame [of cast "getValue conf ''station_range''" ?e0]
    by (auto simp: readConfig_def res_bind_Inr_iff Let_def)
  have e0: "rangeFrom ?e0 = -1" "stationIdList ?e0 = []" by simp_all
  have "find is_sign ?stations = None" using assms(4) by (auto simp: find_None_iff list_all_iff)
  then have "set l = set (stationIdList e1) \<union> numbers cast ?stations" using setVals_numbers [OF r(2)] by blast
  then have st: "stationDefined sid e \<longleftrightarrow> stationDefined sid e1 \<or> 0 \<in> numbers cast ?stations \<or> sid \<in> numbers cast ?stations"
    unfolding r(4) by (auto simp: stationDefined_def list_ex_iff)
  have ty: "(typeids e = [] \<or> typeDefined tid e) \<longleftrightarrow> configured_types cast ?types tid"
  proof (cases "find is_sign ?types")
    case (Some v)
    then have "ts = [if vtext v = ''neg'' then long_min else long_max]" using setVals_sign [OF r(3)] by blast
    then show ?thesis using Some assms(3) by (auto simp: r(4) typeDefined_def configured_types_def long_min_def long_max_def)
  next
    case None
    then have s: "set ts = numbers cast ?types" using setVals_numbers [OF r(3)] by simp
    have "ts = [] \<longleftrightarrow> ?types = []" using s by (auto simp: numbers_def)
    moreover have "ts \<noteq> [] \<Longrightarrow> hd ts \<noteq> long_min \<and> hd ts \<noteq> long_max"
      using s setVals_not_min [OF r(3) None] assms(5) hd_in_set [of ts] by (auto simp: numbers_def list_all_iff)
    ultimately show ?thesis using s None by (auto simp: r(4) typeDefined_def configured_types_def)
  qed
  show ?thesis
    unfolding filter_matches_def using st ty read_range_station [OF r(1) e0 assms(2)] by blast
qed

text \<open>A configuration with one filter.\<close>

definition int_values :: "string list \<Rightarrow> ValElementList" where
  "int_values ws = \<lparr>elems = map (\<lambda>w. \<lparr>valType = VInt, vtext = w\<rparr>) ws, isList_flag = True, isNil = (ws = [])\<rparr>"

definition demo_aws :: ConfSection where
  "demo_aws = ConfSection demo_place []
     [(''publish'', one_value VId ''true''), (''save_to_db'', one_value VId ''false''),
      (''station_range'', int_values [''1'', ''10'']), (''typeid_list'', int_values [''508'', ''302''])]"

definition demo_conf :: ConfSection where
  "demo_conf = ConfSection demo_place
     [(''kvDataInputd'', [ConfSection demo_place [(''filters'', [ConfSection demo_place [(''aws'', [demo_aws])] []])] []])] []"

definition demo_aws_filter :: StationFilterElement where
  "demo_aws_filter =
     \<lparr>rangeFrom = 1, rangeTo = 10, stationIdList = [], typeids = [302, 508], f_name = ''aws'', addToWokque = False,
      f_publish = True, saveToDb = False\<rparr>"

definition no_cast :: "string \<Rightarrow> int option" where
  "no_cast s = None"

lemma demo_aws_read: "readConfig no_cast demo_aws ''aws'' False = Inr demo_aws_filter"
  by code_simp

lemma filter_as_configured_witness:
  "filter_matches 7 302 demo_aws_filter \<longleftrightarrow>
    (configured_range no_cast (getValue demo_aws ''station_range'') 7
      \<or> 0 \<in> numbers no_cast (elems (getValue demo_aws ''station_list'')) \<or> 7 \<in> numbers no_cast (elems (getValue demo_aws ''station_list'')))
    \<and> configured_types no_cast (elems (getValue demo_aws ''typeid_list'')) 302"
proof (rule filter_as_configured [OF demo_aws_read])
  show "(7 :: int) < long_max" "(302 :: int) < long_max" by (simp_all add: long_max_def)
  show "list_all (\<lambda>v. \<not> is_sign v) (elems (getValue demo_aws ''station_list''))" by code_simp
  show "list_all (\<lambda>v. valAsInt_default no_cast long_min v < long_max) (elems (getValue demo_aws ''typeid_list''))" by code_simp
qed

text \<open>The documentation lets \<^verbatim>\<open>-1\<close> stand for an open end of a range, but such a range is an error.\<close>

lemma open_range_is_error:
  "readConfig no_cast (ConfSection demo_place [] [(''station_range'', int_values [''5'', ''-1''])]) ''aws'' False = Inl InvalidRange"
  "readConfig no_cast (ConfSection demo_place [] [(''station_range'', int_values [''-1'', ''5''])]) ''aws'' False = Inl InvalidRange"
  by code_simp+

text \<open>The documented default is not to publish, but data without a filter of their own are published.\<close>

lemma default_publishes: "f_publish (filter_for (fst (filters_readConfig no_cast (ConfSection demo_place [] []))) sid tid)"
proof -
  have "filters_readConfig no_cast (ConfSection demo_place [] []) = (new_filters, [])" by code_simp
  then show ?thesis by (simp add: filter_for_def new_filters_def default_filter_def)
qed

section \<open>All filters of a configuration\<close>

definition filters_ok :: "StationFilters \<Rightarrow> bool" where
  "filters_ok fs \<longleftrightarrow>
     list_all (\<lambda>f. saveToDb f \<or> \<not> addToWokque f) (defaultFilter fs # filters fs) \<and> sorted_wrt (<) (filterNames fs) \<and> ''default'' \<notin> set (filterNames fs)"

lemma readConfig_name:
  assumes "readConfig cast conf name d = Inr e"
  shows "saveToDb e \<or> \<not> addToWokque e" "\<not> d \<Longrightarrow> f_name e = name"
proof -
  have a: "saveToDb (read_actions conf f) \<or> \<not> addToWokque (read_actions conf f)" for f by (simp add: read_actions_def Let_def)
  show "saveToDb e \<or> \<not> addToWokque e" "\<not> d \<Longrightarrow> f_name e = name"
    using assms a [of default_filter] a [of "new_filter name"] by (auto simp: readConfig_def res_bind_Inr_iff Let_def dest!: read_range_frame split: if_splits)
qed

lemma read_filter_ok:
  assumes "filters_ok fs" "list_all (\<lambda>n. n < name) (filterNames fs)" "read_filter cast fconf name (fs, bad) = (fs', bad')"
  shows "filters_ok fs' \<and> list_all (\<lambda>n. n \<le> name) (filterNames fs')"
proof -
  have le: "list_all (\<lambda>n. n \<le> name) (filterNames fs)" using assms(2) by (auto simp: list_all_iff)
  consider "fs' = fs" | f where "fs' = fs\<lparr>defaultFilter := f\<rparr>" "saveToDb f \<or> \<not> addToWokque f"
    | f where "fs' = fs\<lparr>filters := filters fs @ [f]\<rparr>" "saveToDb f \<or> \<not> addToWokque f" "f_name f = name" "name \<noteq> ''default''"
    using assms(3) readConfig_name [of cast _ name] by (auto simp: read_filter_def split: option.splits sum.splits if_splits)
  then show ?thesis
    by cases (use assms(1,2) le in \<open>auto simp: filters_ok_def filterNames_def sorted_wrt_append list_all_iff\<close>)
qed

lemma read_filters_ok:
  assumes "filters_ok fs" "sorted_wrt (<) names" "\<And>n n'. n \<in> set (filterNames fs) \<Longrightarrow> n' \<in> set names \<Longrightarrow> n < n'"
  shows "filters_ok (fst (fold (read_filter cast fconf) names (fs, bad)))"
  using assms
proof (induction names arbitrary: fs bad)
  case (Cons name names)
  obtain fs' bad' where r: "read_filter cast fconf name (fs, bad) = (fs', bad')" by fastforce
  have ok: "filters_ok fs'" "list_all (\<lambda>n. n \<le> name) (filterNames fs')"
    using read_filter_ok [OF Cons.prems(1) _ r] Cons.prems(3) by (auto simp: list_all_iff)
  have "n < n'" if "n \<in> set (filterNames fs')" "n' \<in> set names" for n n'
    using ok(2) Cons.prems(2) that by (fastforce simp: list_all_iff)
  then have "filters_ok (fst (fold (read_filter cast fconf) names (fs', bad')))"
    using Cons.prems(2) by (intro Cons.IH [OF ok(1)]) auto
  then show ?case by (simp add: r)
qed simp

lemma walk_ok: "tree_ok m d s \<Longrightarrow> walk s ns = Some x \<Longrightarrow> tree_ok m d x"
proof (induction ns arbitrary: s)
  case (Cons n ns)
  then show ?case using sections_sub [OF Cons.prems(1), of n] by (auto split: option.splits list.splits)
qed simp

text \<open>
  The filters read from a configuration are in the order of their names, one for each name and none for the default,
  and no filter gives to the quality control what it does not save.
\<close>

theorem filters_readConfig_ok:
  assumes "tree_ok m d conf"
  shows "filters_ok (fst (filters_readConfig cast conf))"
proof (cases "getSection conf ''kvDataInputd.filters''")
  case None
  then show ?thesis by (simp add: filters_readConfig_def filters_ok_def new_filters_def default_filter_def filterNames_def)
next
  case (Some fconf)
  have "''kvDataInputd.filters'' = join_path [''kvDataInputd'', ''filters'']" by simp
  then have "walk conf [''kvDataInputd'', ''filters''] = Some fconf"
    using Some section_of_path [OF assms, of "[''kvDataInputd'', ''filters'']"] by (simp add: name_ok_def path_set_def)
  then have "tree_ok m d fconf" by (rule walk_ok [OF assms])
  then have "sorted_wrt (<) (getSubSections fconf)" by (cases fconf) (simp add: getSubSections_def)
  then have "filters_ok (fst (fold (read_filter cast fconf) (getSubSections fconf) (new_filters, [])))"
    by (intro read_filters_ok) (simp_all add: filters_ok_def new_filters_def default_filter_def filterNames_def)
  then show ?thesis using Some by (simp add: filters_readConfig_def)
qed

lemma filters_readConfig_ok_witness: "filters_ok (fst (filters_readConfig no_cast demo_conf))"
proof (rule filters_readConfig_ok)
  show "tree_ok False True demo_conf" by code_simp
qed

end
