(* ===== verification/Kl_Data.thy ===== *)
theory Kl_Data
  imports Data_Container Decode_Codes Text_Util
begin

text \<open>
  The decoder of a message in the format \<^verbatim>\<open>kldata\<close>, \<^verbatim>\<open>src/lib/decoder/kldecoder/DataDecode.cc\<close>, with \<^verbatim>\<open>kldata.h\<close> and
  \<^verbatim>\<open>paramdef.cc\<close>: a header that names the parameters, and lines with a time and a value for each of them. A positon in
  a text is the rest of the text from there. The conversions of Boost for times and numbers are arguments. The texts of
  messages are not modelled, only whether there are warnings; errors are values.
\<close>

section \<open>Data\<close>

record ParamDef =
  pd_name :: string
  pd_id :: int
  pd_sensor :: int
  pd_level :: int
  pd_code :: bool

record KlData =
  kl_val :: string
  kl_cinfo :: kvControlInfo
  kl_uinfo :: kvUseInfo

definition new_KlData :: KlData where
  "new_KlData = \<lparr>kl_val = [], kl_cinfo = clear_flag, kl_uinfo = clear_useinfo\<rparr>"

text \<open>\<open>ReadOutOfRange\<close>: a character behind the end of a text is read, or an element is written behind the end of a
  vector.\<close>

datatype kl_error =
  NoOptionalPart | MissingParenthesis | TooManyOptional | ReadOutOfRange
| BadSensor int | MissingName | DuplicateParam
| NoParameterData | WrongNumberOfData | InvalidObstime | NoData | NoParameters

text \<open>What the library of times and the conversion of numbers give.\<close>

record 't kl_env =
  time_from_string_nothrow :: "string \<Rightarrow> 't"
  kl_is_special :: "'t \<Rightarrow> bool"
  kl_not_a_date_time :: 't
  kl_neg_infin :: 't
  kl_total_seconds :: "'t \<Rightarrow> 't \<Rightarrow> int"
  lexical_cast_float :: "string \<Rightarrow> real option"

section \<open>Splitting at commas outside parentheses\<close>

lemma drop_Cons_less: "dropWhile P s = c # cs \<Longrightarrow> length cs < length s"
  using length_dropWhile_le [of P s] by simp

text \<open>
  The optional part, from behind its parenthesis: the number of its commas and what follows its end. In the source the
  search may fail and the character at the position \<^verbatim>\<open>npos\<close> is read.
\<close>

function optional_part :: "nat \<Rightarrow> string \<Rightarrow> (nat \<times> string) option" where
  "optional_part n s =
     (case dropWhile (\<lambda>c. c \<notin> {CHR '','', CHR '')''}) s of
        [] \<Rightarrow> None
      | c # cs \<Rightarrow> if c = CHR '','' then optional_part (n + 1) cs else Some (n, cs))"
  by pat_completeness auto

termination
  by (relation "measure (\<lambda>(n, s). length s)") (simp_all add: drop_Cons_less)

declare optional_part.simps [simp del]

lemma optional_part_length: "optional_part n s = Some (m, r) \<Longrightarrow> length r < length s"
proof (induction n s rule: optional_part.induct)
  case (1 n s)
  then obtain c cs where d: "dropWhile (\<lambda>c. c \<notin> {CHR '','', CHR '')''}) s = c # cs"
    by (subst (asm) optional_part.simps) (auto split: list.splits)
  have l: "length cs < length s" by (rule drop_Cons_less [OF d])
  show ?case
  proof (cases "c = CHR '',''")
    case True
    then have "length r < length cs" using 1 d by (simp add: optional_part.simps [of n s])
    then show ?thesis using l by simp
  next
    case False
    then show ?thesis using 1(2) d l by (simp add: optional_part.simps [of n s])
  qed
qed

function splitString :: "int \<Rightarrow> string \<Rightarrow> kl_error + string list" where
  "splitString maxNumberOfOtionalElements s =
     (let pre = takeWhile (\<lambda>c. c \<notin> {CHR '','', CHR ''(''}) s in
      case dropWhile (\<lambda>c. c \<notin> {CHR '','', CHR ''(''}) s of
        [] \<Rightarrow> Inr [trimstr s]
      | c # cs \<Rightarrow>
          if c = CHR '','' then res_bind (splitString maxNumberOfOtionalElements cs) (\<lambda>l. Inr (trimstr pre # l))
          else if maxNumberOfOtionalElements = 0 then Inl NoOptionalPart
          else
            (case optional_part 0 cs of
               None \<Rightarrow> Inl ReadOutOfRange
             | Some (n, r) \<Rightarrow>
                 if int n > maxNumberOfOtionalElements - 1 then Inl TooManyOptional
                 else
                   (case dropWhile (\<lambda>c. c \<noteq> CHR '','') r of
                      [] \<Rightarrow> Inr [trimstr s]
                    | d # ds \<Rightarrow>
                        res_bind (splitString maxNumberOfOtionalElements ds)
                          (\<lambda>l. Inr (trimstr (take (length s - length (d # ds)) s) # l)))))"
  by pat_completeness auto

termination
proof (relation "measure (\<lambda>(m, s). length s)", goal_cases)
  case (2 m s pre c cs)
  then show ?case by (simp add: drop_Cons_less)
next
  case (3 m s pre c cs x n r d ds)
  have "length cs < length s" "length r < length cs" "length ds < length r"
    using drop_Cons_less [OF 3(2)] optional_part_length [of 0 cs n r] drop_Cons_less [OF 3(8)] 3 by simp_all
  then show ?case by simp
qed simp

declare splitString.simps [simp del]

section \<open>The header\<close>

definition updateParamList :: "ParamDef \<Rightarrow> ParamDef list \<Rightarrow> kl_error + ParamDef list" where
  "updateParamList param paramsList = (if param \<in> set paramsList then Inl DuplicateParam else Inr (paramsList @ [param]))"

text \<open>The optional part of an element between its parentheses, as a comma string.\<close>

definition inside :: "string \<Rightarrow> kl_error + Elem list" where
  "inside s =
     (let r = tl (dropWhile (\<lambda>c. c \<noteq> CHR ''('') s) in
      if CHR '')'' \<in> set r then
        (case comma_init_char (takeWhile (\<lambda>c. c \<noteq> CHR '')'') r) (CHR '','') of None \<Rightarrow> Inl ReadOutOfRange | Some v \<Rightarrow> Inr v)
      else Inl MissingParenthesis)"

definition comma_at :: "nat \<Rightarrow> Elem list \<Rightarrow> string" where
  "comma_at i v = snd (comma_get i \<lparr>cs_data = v, separator = '',''\<rparr>)"

text \<open>Name, sensor and level of an element of the header.\<close>

definition header_elem :: "string \<Rightarrow> kl_error + string \<times> int \<times> int" where
  "header_elem param =
     (if CHR ''('' \<notin> set param then Inr (param, 0, 0)
      else
        let name = trimstr (takeWhile (\<lambda>c. c \<noteq> CHR ''('') param) in
        res_bind (inside param) (\<lambda>cs.
          if length cs > 2 then Inl TooManyOptional
          else
            let sen = atoi (comma_at 0 cs) in
            if sen > 9 then Inl (BadSensor sen) else Inr (name, sen, atoi (comma_at 1 cs))))"

text \<open>
  The element with the identity of its parameter: -1 when it is unknown, -2 for a text with sensor or level. Both are a
  warning.
\<close>

definition header_def :: "ParamList \<Rightarrow> string \<times> int \<times> int \<Rightarrow> kl_error + ParamDef \<times> bool" where
  "header_def params e =
     (case e of (name, sen, lev) \<Rightarrow>
        if name = [] then Inl MissingName
        else
          let isCode = (hd name = CHR ''_''); name = (if isCode then tl name else name) in
          if name = [] then Inl MissingName
          else
            let (i, warn) = (case findParamInList params name of
                 None \<Rightarrow> (-1, True)
               | Some it \<Rightarrow>
                   if isTextParam_id (param_id it) params \<and> (sen > 0 \<or> lev > 0) then (-2, True) else (param_id it, False))
            in Inr (\<lparr>pd_name = name, pd_id = i, pd_sensor = sen, pd_level = lev, pd_code = isCode\<rparr>, warn))"

fun header_loop :: "ParamList \<Rightarrow> string list \<Rightarrow> ParamDef list \<times> bool \<Rightarrow> kl_error + ParamDef list \<times> bool" where
  "header_loop params [] acc = Inr acc"
| "header_loop params (p # ps) acc =
     res_bind (header_elem p) (\<lambda>e. res_bind (header_def params e) (\<lambda>(pd, w).
       res_bind (updateParamList pd (fst acc)) (\<lambda>paramsList. header_loop params ps (paramsList, snd acc \<or> w))))"

text \<open>The parameters, and whether there are warnings.\<close>

definition decodeHeader :: "ParamList \<Rightarrow> string \<Rightarrow> kl_error + ParamDef list \<times> bool" where
  "decodeHeader params header =
     res_bind (splitString 2 header) (\<lambda>paramStrings. header_loop params paramStrings ([], False))"

section \<open>A line of data\<close>

definition to_upper :: "char \<Rightarrow> char" where
  "to_upper c = (let v = of_char c :: nat in if 97 \<le> v \<and> v \<le> 122 then char_of (v - 32) else c)"

definition hexCharToInt :: "char \<Rightarrow> int" where
  "hexCharToInt c =
     (let v = schar (to_upper c) in
      if v \<ge> 48 \<and> v \<le> 57 then v - 48 else if v \<ge> 65 \<and> v \<le> 70 then v - 65 + 10 else 0)"

definition set_flags :: "dataFlag \<Rightarrow> string \<Rightarrow> dataFlag" where
  "set_flags d flags =
     fold (\<lambda>i f. if flags ! i = CHR ''x'' \<or> flags ! i = CHR ''X'' then f else set_flag f (int i) (hexCharToInt (flags ! i)))
       [0..<length flags] d"

definition setUseinfo :: "string \<Rightarrow> kvUseInfo" where
  "setUseinfo flags = (if length flags \<noteq> 16 then clear_useinfo else set_flags clear_useinfo flags)"

definition setControlInfo :: "string \<Rightarrow> kvControlInfo" where
  "setControlInfo flags = (if length flags \<noteq> 16 then clear_flag else set_flags clear_flag flags)"

definition checkNaN :: "string \<Rightarrow> string" where
  "checkNaN val = (if map to_upper val = ''NAN'' \<or> map to_upper val = ''INF'' then [] else val)"

text \<open>Value, control information, use information and whether there is a warning.\<close>

definition data_elem :: "string \<Rightarrow> kl_error + (string \<times> kvControlInfo \<times> kvUseInfo \<times> bool) option" where
  "data_elem s =
     (let buf = trimstr s in
      if CHR ''('' \<notin> set buf then Inr (Some (checkNaN buf, clear_flag, clear_useinfo, False))
      else
        let val = checkNaN (trimstr (takeWhile (\<lambda>c. c \<noteq> CHR ''('') buf)) in
        res_bind (inside buf) (\<lambda>cs.
          if length cs = 0 then Inr None
          else if length cs > 2 then Inl TooManyOptional
          else
            let b0 = comma_at 0 cs; b1 = (if length cs = 2 then comma_at 1 cs else []) in
            Inr (Some (val, (if length b0 = 16 then setControlInfo b0 else clear_flag),
              (if length b1 = 16 then setUseinfo b1 else clear_useinfo), length b0 \<notin> {0, 16} \<or> length b1 \<notin> {0, 16}))))"

definition late_code :: "'t kl_env \<Rightarrow> kvTypes list \<Rightarrow> int \<Rightarrow> 't \<Rightarrow> 't \<Rightarrow> kvUseInfo \<Rightarrow> kvUseInfo" where
  "late_code env types typeId receivedTime obt u =
     (if kl_is_special env receivedTime then u
      else let f = getUseinfo7Code (kl_total_seconds env) typeId receivedTime obt types in set_flag u 7 (if f < 0 then 0 else f))"

fun data_loop :: "(kvUseInfo \<Rightarrow> kvUseInfo) \<Rightarrow> string list \<Rightarrow> nat \<Rightarrow> KlData list \<Rightarrow> bool \<Rightarrow> kl_error + KlData list \<times> bool" where
  "data_loop late [] index da warn = Inr (da, warn)"
| "data_loop late (s # ss) index da warn =
     res_bind (data_elem s) (\<lambda>e.
       case e of
         None \<Rightarrow> data_loop late ss index da warn
       | Some (val, c, u, w) \<Rightarrow>
           data_loop late ss (index + 1)
             (if val \<noteq> [] then da[index := \<lparr>kl_val = val, kl_cinfo = c, kl_uinfo = late u\<rparr>] else da) (warn \<or> w))"

definition decode_line :: "'t kl_env \<Rightarrow> kvTypes list \<Rightarrow> int \<Rightarrow> 't \<Rightarrow> nat \<Rightarrow> string \<Rightarrow> kl_error + 't \<times> KlData list \<times> bool" where
  "decode_line env types typeId receivedTime daSize sdata =
     res_bind (splitString 2 sdata) (\<lambda>dtmp.
       if length dtmp < 2 then Inl NoParameterData
       else if daSize \<noteq> length dtmp - 1 then Inl WrongNumberOfData
       else
         let obt = time_from_string_nothrow env (hd dtmp) in
         if kl_is_special env obt then Inl InvalidObstime
         else
           res_bind (data_loop (late_code env types typeId receivedTime obt) (tl dtmp) 0 (replicate daSize new_KlData) False)
             (\<lambda>(da, warn). Inr (obt, da, warn)))"

section \<open>The message\<close>

text \<open>The lines that \<^verbatim>\<open>getline\<close> reads one after the other.\<close>

function getlines :: "string \<Rightarrow> string list" where
  "getlines s =
     (if s = [] then []
      else takeWhile (\<lambda>c. c \<noteq> CHR 0x0A) s # getlines (tl (dropWhile (\<lambda>c. c \<noteq> CHR 0x0A) s)))"
  by pat_completeness auto

termination
proof (relation "measure length", simp)
  fix s :: string
  assume s: "s \<noteq> []"
  have "length (dropWhile (\<lambda>c. c \<noteq> CHR 0x0A) s) \<le> length s" by (rule length_dropWhile_le)
  moreover have "length (tl xs) < Suc n" if "length xs \<le> Suc n" for xs :: string and n using that by (cases xs) auto
  ultimately show "(tl (dropWhile (\<lambda>c. c \<noteq> CHR 0x0A) s), s) \<in> measure length" using s by (cases s) auto
qed

declare getlines.simps [simp del]

text \<open>
  One value of a line. The message with the value, and whether there is a warning: a code that has no decoding. A value
  that is no number is left out.
\<close>

definition add_value :: "'t kl_env \<Rightarrow> ParamList \<Rightarrow> int \<Rightarrow> int \<Rightarrow> 't::linorder \<Rightarrow> ParamDef \<Rightarrow> KlData
    \<Rightarrow> ('t, 'r) KvalobsData \<times> bool \<Rightarrow> ('t, 'r) KvalobsData \<times> bool" where
  "add_value env params stationid typeId obt pd d kw =
     (case kw of (kd, warn) \<Rightarrow>
        if kl_val d = [] then (kd, warn)
        else if pd_id pd < 0 then (kd, warn)
        else if isTextParam_id (pd_id pd) params then
          (kd_insert_text (kl_is_special env) (kl_neg_infin env)
             (kvTextData_set stationid obt (kl_val d) (pd_id pd) (kl_not_a_date_time env) typeId) kd, warn)
        else if pd_code pd \<and> pd_name pd \<noteq> ''VV'' \<and> pd_name pd \<noteq> ''HL'' then (kd, True)
        else
          let val = (if pd_code pd then (if pd_name pd = ''VV'' then VV (kl_val d) else HL (kl_val d)) else kl_val d) in
          (case lexical_cast_float env val of
             None \<Rightarrow> (kd, warn)
           | Some fval \<Rightarrow>
               (kd_insert (kl_is_special env) (kl_neg_infin env)
                  (kvData_set stationid obt fval (pd_id pd) (kl_not_a_date_time env) typeId (pd_sensor pd) (pd_level pd) fval
                     (kl_cinfo d) (kl_uinfo d) []) kd, warn)))"

fun lines_loop :: "'t kl_env \<Rightarrow> ParamList \<Rightarrow> kvTypes list \<Rightarrow> int \<Rightarrow> int \<Rightarrow> 't::linorder \<Rightarrow> ParamDef list \<Rightarrow> string list
    \<Rightarrow> ('t, 'r) KvalobsData \<times> bool \<Rightarrow> kl_error + ('t, 'r) KvalobsData \<times> bool" where
  "lines_loop env params types stationid typeId receivedTime pds [] kw = Inr kw"
| "lines_loop env params types stationid typeId receivedTime pds (l # ls) kw =
     res_bind (decode_line env types typeId receivedTime (length pds) l) (\<lambda>(obt, da, w).
       lines_loop env params types stationid typeId receivedTime pds ls
         (fold (\<lambda>(pd, d). add_value env params stationid typeId obt pd d) (zip pds da) (fst kw, snd kw \<or> w)))"

definition decodeData :: "'t kl_env \<Rightarrow> ParamList \<Rightarrow> kvTypes list \<Rightarrow> string \<Rightarrow> int \<Rightarrow> int \<Rightarrow> 't::linorder
    \<Rightarrow> kl_error + ('t, 'r) KvalobsData \<times> bool" where
  "decodeData env params types obsData stationid typeId receivedTime =
     (case getlines obsData of
        [] \<Rightarrow> Inl NoData
      | h # ls \<Rightarrow>
          res_bind (decodeHeader params h) (\<lambda>(pds, warn).
            if length pds < 1 then Inl NoParameters
            else lines_loop env params types stationid typeId receivedTime pds ls
                   (new_KvalobsData (kl_not_a_date_time env), warn)))"

end
