(* ===== verification/Kl_Data_Props.thy ===== *)
theory Kl_Data_Props
  imports Kl_Data
begin

text \<open>
  Results on the decoder of messages in the format \<^verbatim>\<open>kldata\<close>: splitting at commas outside parentheses, what a decoded
  message contains, and that a table of values that is printed in this format is decoded to its values.
\<close>

section \<open>Splitting\<close>

lemma dropWhile_prefix: "(\<And>x. x \<in> set a \<Longrightarrow> P x) \<Longrightarrow> dropWhile P (a @ b) = dropWhile P b"
  by (induction a) auto

lemma takeWhile_prefix: "(\<And>x. x \<in> set a \<Longrightarrow> P x) \<Longrightarrow> takeWhile P (a @ b) = a @ takeWhile P b"
  by (induction a) auto

definition commas :: "string \<Rightarrow> nat" where
  "commas s = length (filter (\<lambda>c. c = CHR '','') s)"

lemma optional_part_skip: "c \<noteq> CHR '','' \<Longrightarrow> c \<noteq> CHR '')'' \<Longrightarrow> optional_part n (c # s) = optional_part n s"
  by (simp add: optional_part.simps [of n "c # s"] optional_part.simps [of n s])

lemma optional_part_comma: "optional_part n (CHR '','' # s) = optional_part (n + 1) s"
  by (simp add: optional_part.simps [of n "CHR '','' # s"])

lemma optional_part_end: "optional_part n (CHR '')'' # s) = Some (n, s)"
  by (simp add: optional_part.simps [of n "CHR '')'' # s"])

lemma optional_part_inside: "CHR '')'' \<notin> set b \<Longrightarrow> optional_part n (b @ CHR '')'' # c) = Some (n + commas b, c)"
proof (induction b arbitrary: n)
  case Nil
  then show ?case by (simp add: optional_part_end commas_def)
next
  case (Cons x b)
  then show ?case by (cases "x = CHR '',''") (auto simp: optional_part_comma optional_part_skip commas_def)
qed

text \<open>An element: no comma, or one part in parentheses with few commas and no comma after it.\<close>

definition plain_elem :: "int \<Rightarrow> string \<Rightarrow> bool" where
  "plain_elem m p \<longleftrightarrow>
     CHR '','' \<notin> set p \<and> CHR ''('' \<notin> set p
     \<or> (\<exists>a b c. p = a @ CHR ''('' # b @ CHR '')'' # c \<and> CHR '','' \<notin> set a \<and> CHR ''('' \<notin> set a \<and> CHR '')'' \<notin> set b
          \<and> int (commas b) \<le> m - 1 \<and> CHR '','' \<notin> set c)"

lemma plain_elem_optional:
  "CHR '','' \<notin> set a \<Longrightarrow> CHR ''('' \<notin> set a \<Longrightarrow> CHR '')'' \<notin> set b \<Longrightarrow> int (commas b) \<le> m - 1 \<Longrightarrow> CHR '','' \<notin> set c \<Longrightarrow>
    plain_elem m (a @ CHR ''('' # b @ CHR '')'' # c)"
  unfolding plain_elem_def by blast

lemma splitString_elem:
  assumes "plain_elem m p"
  shows "splitString m p = Inr [trimstr p]"
    "splitString m (p @ CHR '','' # r) = res_bind (splitString m r) (\<lambda>l. Inr (trimstr p # l))"
proof -
  let ?P = "\<lambda>c. c \<notin> {CHR '','', CHR ''(''}"
  from assms consider "CHR '','' \<notin> set p" "CHR ''('' \<notin> set p"
    | a b c where "p = a @ CHR ''('' # b @ CHR '')'' # c" "CHR '','' \<notin> set a" "CHR ''('' \<notin> set a" "CHR '')'' \<notin> set b"
        "int (commas b) \<le> m - 1" "CHR '','' \<notin> set c" unfolding plain_elem_def by blast
  then have "splitString m p = Inr [trimstr p]
    \<and> splitString m (p @ CHR '','' # r) = res_bind (splitString m r) (\<lambda>l. Inr (trimstr p # l))"
  proof cases
    case 1
    then have *: "\<And>x. x \<in> set p \<Longrightarrow> ?P x" by auto
    have "dropWhile ?P (p @ t) = dropWhile ?P t" "takeWhile ?P (p @ t) = p @ takeWhile ?P t" for t
      using dropWhile_prefix [of p ?P t] takeWhile_prefix [of p ?P t] * by auto
    from this [of "[]"] this [of "CHR '','' # r"] show ?thesis
      by (simp add: splitString.simps [of m p] splitString.simps [of m "p @ CHR '','' # r"] del: dropWhile_eq_Nil_conv)
  next
    case 2
    have pa: "dropWhile ?P (a @ CHR ''('' # t) = CHR ''('' # t" for t
      by (rule trans [OF dropWhile_prefix]) (use 2(2,3) in auto)
    have o: "optional_part 0 (b @ CHR '')'' # t) = Some (commas b, t)" for t using optional_part_inside [OF 2(4), of 0 t] by simp
    have c: "dropWhile (\<lambda>x. x \<noteq> CHR '','') (c @ t) = dropWhile (\<lambda>x. x \<noteq> CHR '','') t" for t
      by (rule dropWhile_prefix) (use 2(6) in auto)
    have m: "m \<noteq> 0" "\<not> int (commas b) > m - 1" using 2(5) by auto
    have "splitString m p = Inr [trimstr p]"
      using pa [of "b @ CHR '')'' # c"] o [of c] c [of "[]"] m
      by (subst splitString.simps) (simp add: 2(1) Let_def del: dropWhile_eq_Nil_conv)
    moreover have "splitString m (p @ CHR '','' # r) = res_bind (splitString m r) (\<lambda>l. Inr (trimstr p # l))"
      using pa [of "b @ CHR '')'' # c @ CHR '','' # r"] o [of "c @ CHR '','' # r"] c [of "CHR '','' # r"] m
      by (subst splitString.simps) (simp add: 2(1) Let_def del: dropWhile_eq_Nil_conv)
    ultimately show ?thesis by simp
  qed
  then show "splitString m p = Inr [trimstr p]"
    "splitString m (p @ CHR '','' # r) = res_bind (splitString m r) (\<lambda>l. Inr (trimstr p # l))" by simp_all
qed

lemma splitString_joined:
  "ps \<noteq> [] \<Longrightarrow> list_all (plain_elem m) ps \<Longrightarrow> splitString m (intercalate '','' ps) = Inr (map trimstr ps)"
proof (induction ps)
  case (Cons p ps)
  then show ?case by (cases "ps = []") (simp_all add: splitString_elem intercalate_Cons)
qed simp

section \<open>Trimming and comma strings\<close>

definition trimmed :: "string \<Rightarrow> bool" where
  "trimmed s \<longleftrightarrow> s = [] \<or> hd s \<notin> set trimset \<and> last s \<notin> set trimset"

lemma trimstr_trimmed [simp]: "trimmed s \<Longrightarrow> trimstr s = s"
proof (cases "s = []")
  case False
  assume "trimmed s"
  then have "hd s \<notin> set trimset" "last s \<notin> set trimset" using False by (auto simp: trimmed_def)
  moreover have "dropWhile P xs = xs" if "xs \<noteq> []" "\<not> P (hd xs)" for P and xs :: string using that by (cases xs) auto
  ultimately show ?thesis using False by (simp add: trimstr_def trimstr_where_def trim_front_def trim_back_def hd_rev)
qed (simp add: trimstr_def trimstr_where_def trim_front_def trim_back_def)

lemma trimmed_trimstr: "trimmed (trimstr s)"
proof -
  let ?P = "\<lambda>c. c \<in> set trimset"
  let ?s = "dropWhile ?P s"
  let ?t = "rev (dropWhile ?P (rev ?s))"
  have t: "trimstr s = ?t" by (simp add: trimstr_def trimstr_where_def trim_front_def trim_back_def)
  have s: "?s = ?t @ rev (takeWhile ?P (rev ?s))" by (metis rev_append rev_rev_ident takeWhile_dropWhile_id)
  show ?thesis
  proof (cases "?t = []")
    case False
    then have "last ?t \<notin> set trimset" using hd_dropWhile [of ?P "rev ?s"] by (simp add: last_rev)
    moreover have "hd ?t = hd ?s" using s False by (metis hd_append2)
    moreover have "?s \<noteq> []" using s False by (metis append_is_Nil_conv)
    then have "hd ?s \<notin> set trimset" using hd_dropWhile [of ?P s] by simp
    ultimately show ?thesis unfolding trimmed_def t by presburger
  next
    case True
    then show ?thesis unfolding trimmed_def t by blast
  qed
qed

lemma comma_loop_plain:
  "sep \<notin> set w \<Longrightarrow> CHR 0x22 \<notin> set w \<Longrightarrow> comma_loop sep (w @ r) ost ch False isStr i v = comma_loop sep r (ost @ w) ch False isStr i v"
  by (induction w arbitrary: ost) auto

lemma count_sep_plain: "prot \<notin> set s \<Longrightarrow> count_sep sep prot s ch False = length (filter (\<lambda>c. c = sep) s)"
  by (induction s arbitrary: ch) auto

definition plain_part :: "string \<Rightarrow> bool" where
  "plain_part w \<longleftrightarrow> CHR '','' \<notin> set w \<and> CHR 0x22 \<notin> set w \<and> CHR ''('' \<notin> set w \<and> CHR '')'' \<notin> set w"

lemma mk_Elem_plain: "CHR 0x22 \<notin> set w \<Longrightarrow> mk_Elem w b = \<lparr>elem_str = w, isString = b\<rparr>"
  by (cases w) (auto simp: mk_Elem_def)

lemma comma_two:
  assumes "plain_part a" "plain_part b" "trimmed a" "trimmed b"
  shows "comma_init_char (a @ CHR '','' # b) (CHR '','') = Some [\<lparr>elem_str = a, isString = False\<rparr>, \<lparr>elem_str = b, isString = False\<rparr>]"
proof -
  have "count_sep (CHR '','') (CHR 0x22) (a @ CHR '','' # b) (CHR 0x00) False = 1"
    using assms(1,2) by (auto simp: plain_part_def count_sep_plain filter_empty_conv)
  then show ?thesis
    using assms comma_loop_plain [of "CHR '',''" b "[]" "[]"]
    by (simp add: comma_init_char_def plain_part_def comma_loop_plain vec_write_def mk_Elem_plain numeral_2_eq_2)
qed

lemma inside_two:
  assumes "plain_part a" "plain_part b" "trimmed a" "trimmed b" "CHR ''('' \<notin> set n"
  shows "inside (n @ CHR ''('' # a @ CHR '','' # b @ '')'') = Inr [\<lparr>elem_str = a, isString = False\<rparr>, \<lparr>elem_str = b, isString = False\<rparr>]"
proof -
  have d: "tl (dropWhile (\<lambda>c. c \<noteq> CHR ''('') (n @ CHR ''('' # t)) = t" for t
  proof -
    have "dropWhile (\<lambda>c. c \<noteq> CHR ''('') (n @ CHR ''('' # t) = CHR ''('' # t"
      by (rule trans [OF dropWhile_prefix]) (use assms(5) in auto)
    then show ?thesis by simp
  qed
  have "takeWhile (\<lambda>c. c \<noteq> CHR '')'') ((a @ CHR '','' # b) @ '')'') = (a @ CHR '','' # b) @ []"
    using assms(1,2) by (subst takeWhile_prefix) (auto simp: plain_part_def)
  then show ?thesis using comma_two [OF assms(1-4)] by (simp add: inside_def d Let_def)
qed


section \<open>Printing\<close>

text \<open>A table in the format of the decoder.\<close>

definition show_def :: "ParamDef \<Rightarrow> string" where
  "show_def pd =
     ((if pd_code pd then ''_'' else []) @ pd_name pd) @ CHR ''('' # show_int (pd_sensor pd) @ CHR '','' # show_int (pd_level pd) @ '')''"

definition show_cell :: "KlData \<Rightarrow> string" where
  "show_cell d =
     (if kl_val d = [] then [] else kl_val d @ CHR ''('' # nibbles (kl_cinfo d) @ CHR '','' # nibbles (kl_uinfo d) @ '')'')"

definition show_row :: "('t \<Rightarrow> string) \<Rightarrow> 't \<times> KlData list \<Rightarrow> string" where
  "show_row show_time r = intercalate '','' (show_time (fst r) # map show_cell (snd r))"

definition show_message :: "('t \<Rightarrow> string) \<Rightarrow> ParamDef list \<Rightarrow> ('t \<times> KlData list) list \<Rightarrow> string" where
  "show_message show_time pds rows =
     concat (map (\<lambda>l. l @ [CHR 0x0A]) (intercalate '','' (map show_def pds) # map (show_row show_time) rows))"

definition no_break :: "string \<Rightarrow> bool" where
  "no_break s \<longleftrightarrow> CHR 0x0A \<notin> set s"

definition text_ok :: "string \<Rightarrow> bool" where
  "text_ok w \<longleftrightarrow> plain_part w \<and> trimmed w \<and> no_break w"

text \<open>A known parameter, and a value with hexadecimal flags.\<close>

definition def_ok :: "ParamList \<Rightarrow> ParamDef \<Rightarrow> bool" where
  "def_ok params pd \<longleftrightarrow>
     text_ok (pd_name pd) \<and> pd_name pd \<noteq> [] \<and> hd (pd_name pd) \<noteq> CHR ''_'' \<and> pd_sensor pd \<le> 9
     \<and> (case findParamInList params (pd_name pd) of
          None \<Rightarrow> False
        | Some it \<Rightarrow> pd_id pd = param_id it \<and> \<not> (isTextParam_id (param_id it) params \<and> (pd_sensor pd > 0 \<or> pd_level pd > 0)))"

definition hex_flag :: "dataFlag \<Rightarrow> bool" where
  "hex_flag f \<longleftrightarrow> wf_flag f \<and> list_all (\<lambda>c. c \<in> set ''0123456789ABCDEF'') (nibbles f)"

definition cell_ok :: "KlData \<Rightarrow> bool" where
  "cell_ok d \<longleftrightarrow> text_ok (kl_val d) \<and> checkNaN (kl_val d) = kl_val d \<and> hex_flag (kl_cinfo d) \<and> hex_flag (kl_uinfo d)"

subsection \<open>Numbers and flags\<close>

lemma show_int_chars: "c \<in> set (show_int i) \<Longrightarrow> isdigit c \<or> c = CHR ''-''"
  using show_nat_digits by (auto simp: show_int_def list_all_iff split: if_splits)

definition marks :: string where
  "marks = [CHR '','', CHR 0x22, CHR ''('', CHR '')'', CHR 0x0A, CHR '' '', CHR 0x09, CHR 0x0D]"

lemma text_okI:
  assumes "\<And>c. c \<in> set w \<Longrightarrow> c \<notin> set marks"
  shows "text_ok w"
proof -
  have m: "set trimset \<subseteq> set marks" "{CHR '','', CHR 0x22, CHR ''('', CHR '')'', CHR 0x0A} \<subseteq> set marks"
    by (simp_all add: marks_def trimset_def)
  have "trimmed w" using assms [of "hd w"] assms [of "last w"] m(1) by (cases "w = []") (auto simp: trimmed_def)
  moreover have "c \<notin> set w" if "c \<in> {CHR '','', CHR 0x22, CHR ''('', CHR '')'', CHR 0x0A}" for c using assms m(2) that by blast
  ultimately show ?thesis by (simp add: text_ok_def plain_part_def no_break_def)
qed

lemma text_ok_show_int: "text_ok (show_int i)"
proof (rule text_okI)
  fix c assume "c \<in> set (show_int i)"
  then have c: "isdigit c \<or> c = CHR ''-''" by (rule show_int_chars)
  have "list_all (\<lambda>c. \<not> isdigit c \<and> c \<noteq> CHR ''-'') marks" by code_simp
  then show "c \<notin> set marks" using c by (auto simp: list_all_iff)
qed

lemma hex_char:
  assumes "c \<in> set ''0123456789ABCDEF''"
  shows "c \<noteq> CHR ''x'' \<and> c \<noteq> CHR ''X'' \<and> legal (hexCharToInt c) \<and> inttochar (hexCharToInt c) = c"
proof -
  have "list_all (\<lambda>c. c \<noteq> CHR ''x'' \<and> c \<noteq> CHR ''X'' \<and> legal (hexCharToInt c) \<and> inttochar (hexCharToInt c) = c) ''0123456789ABCDEF''"
    by code_simp
  then show ?thesis using assms unfolding list_all_iff by blast
qed

lemma hex_flag_text: "hex_flag f \<Longrightarrow> text_ok (nibbles f) \<and> length (nibbles f) = 16"
proof
  assume f: "hex_flag f"
  then show "length (nibbles f) = 16" by (simp add: hex_flag_def wf_flag_def kvDataFlag_size_def)
  have "list_all (\<lambda>c. c \<notin> set ''0123456789ABCDEF'') marks" by code_simp
  then show "text_ok (nibbles f)" using f unfolding hex_flag_def list_all_iff by (blast intro: text_okI)
qed

lemma set_flags_nibbles:
  assumes "hex_flag f" "wf_flag d"
  shows "set_flags d (nibbles f) = f"
proof -
  have l: "length (nibbles f) = 16" using hex_flag_text [OF assms(1)] by simp
  have h: "nibbles f ! i \<noteq> CHR ''x'' \<and> nibbles f ! i \<noteq> CHR ''X'' \<and> legal (hexCharToInt (nibbles f ! i))
      \<and> inttochar (hexCharToInt (nibbles f ! i)) = nibbles f ! i" if "i < 16" for i
    using assms(1) l that by (intro hex_char) (auto simp: hex_flag_def list_all_iff)
  have "set_flags d (nibbles f) = fold (\<lambda>i f'. set_flag f' (int i) (hexCharToInt (nibbles f ! i))) [0..<16] d"
    unfolding set_flags_def l by (rule fold_cong) (use h in auto)
  then have "nibbles (set_flags d (nibbles f)) = map (\<lambda>i. inttochar (hexCharToInt (nibbles f ! i))) [0..<16] @ drop 16 (nibbles d)"
    using h by (simp add: nibbles_fold_set_flag [OF assms(2)])
  also have "\<dots> = nibbles f" using h l assms(2) by (intro list_eq_nthI) (auto simp: wf_flag_def kvDataFlag_size_def)
  finally show ?thesis by (intro dataFlag.equality) simp_all
qed


subsection \<open>Elements\<close>

definition print_name :: "ParamDef \<Rightarrow> string" where
  "print_name pd = (if pd_code pd then ''_'' else []) @ pd_name pd"

lemma print_name_ok: "def_ok params pd \<Longrightarrow> text_ok (print_name pd) \<and> print_name pd \<noteq> []"
proof -
  assume "def_ok params pd"
  then have t: "text_ok (pd_name pd)" "pd_name pd \<noteq> []" by (auto simp: def_ok_def)
  have "CHR ''_'' \<notin> set trimset" by (simp add: set_trimset)
  then show ?thesis using t by (auto simp: text_ok_def plain_part_def no_break_def trimmed_def print_name_def)
qed

lemma takeWhile_until: "c \<notin> set a \<Longrightarrow> takeWhile (\<lambda>x. x \<noteq> c) (a @ c # b) = a"
proof -
  assume "c \<notin> set a"
  then have "takeWhile (\<lambda>x. x \<noteq> c) (a @ c # b) = a @ takeWhile (\<lambda>x. x \<noteq> c) (c # b)" by (intro takeWhile_prefix) auto
  then show ?thesis by simp
qed

lemma header_elem_show:
  assumes "def_ok params pd"
  shows "header_elem (show_def pd) = Inr (print_name pd, pd_sensor pd, pd_level pd)"
proof -
  let ?a = "show_int (pd_sensor pd)" and ?b = "show_int (pd_level pd)"
  note n = print_name_ok [OF assms]
  have s: "show_def pd = print_name pd @ CHR ''('' # ?a @ CHR '','' # ?b @ '')''" by (simp add: show_def_def print_name_def)
  have tw: "takeWhile (\<lambda>c. c \<noteq> CHR ''('') (show_def pd) = print_name pd"
    unfolding s by (rule takeWhile_until) (use n in \<open>simp add: text_ok_def plain_part_def\<close>)
  have "inside (show_def pd) = Inr [\<lparr>elem_str = ?a, isString = False\<rparr>, \<lparr>elem_str = ?b, isString = False\<rparr>]"
    unfolding s using text_ok_show_int n by (intro inside_two) (auto simp: text_ok_def plain_part_def)
  moreover have "CHR ''('' \<in> set (show_def pd)" unfolding s by simp
  moreover have "pd_sensor pd \<le> 9" using assms by (simp add: def_ok_def)
  ultimately show ?thesis using n by (simp add: header_elem_def tw comma_at_def comma_get_def text_ok_def)
qed

lemma header_def_show:
  assumes "def_ok params pd"
  shows "header_def params (print_name pd, pd_sensor pd, pd_level pd) = Inr (pd, False)"
proof -
  have n: "pd_name pd \<noteq> []" "hd (pd_name pd) \<noteq> CHR ''_''" using assms by (auto simp: def_ok_def)
  then show ?thesis using assms
    by (cases pd) (auto simp: header_def_def print_name_def def_ok_def Let_def hd_append split: option.splits)
qed

lemma header_loop_show:
  "list_all (def_ok params) pds \<Longrightarrow> distinct (acc @ pds) \<Longrightarrow> header_loop params (map show_def pds) (acc, w) = Inr (acc @ pds, w)"
proof (induction pds arbitrary: acc)
  case (Cons pd pds)
  then show ?case using Cons.IH [of "acc @ [pd]"] by (simp add: header_elem_show [of params] header_def_show updateParamList_def)
qed simp

lemma trimmed_closed: "trimmed a \<Longrightarrow> a \<noteq> [] \<Longrightarrow> trimmed (a @ b @ '')'')"
  by (simp add: trimmed_def set_trimset)

lemma show_def_elem:
  assumes "def_ok params pd"
  shows "plain_elem 2 (show_def pd) \<and> trimmed (show_def pd) \<and> no_break (show_def pd)"
proof -
  let ?b = "show_int (pd_sensor pd) @ CHR '','' # show_int (pd_level pd)"
  have s: "show_def pd = print_name pd @ CHR ''('' # ?b @ CHR '')'' # []" by (simp add: show_def_def print_name_def)
  note n = print_name_ok [OF assms] text_ok_show_int [of "pd_sensor pd"] text_ok_show_int [of "pd_level pd"]
  have "commas ?b = 1" using n by (auto simp: commas_def text_ok_def plain_part_def filter_empty_conv)
  then have "plain_elem 2 (show_def pd)"
    unfolding s using n by (intro plain_elem_optional) (auto simp: text_ok_def plain_part_def)
  moreover have "trimmed (show_def pd)"
    unfolding s using n trimmed_closed [of "print_name pd" "CHR ''('' # ?b"] by (simp add: text_ok_def)
  moreover have "no_break (show_def pd)" unfolding s using n by (auto simp: no_break_def text_ok_def)
  ultimately show ?thesis by blast
qed

lemma decodeHeader_show:
  assumes "list_all (def_ok params) pds" "distinct pds" "pds \<noteq> []"
  shows "decodeHeader params (intercalate '','' (map show_def pds)) = Inr (pds, False)"
proof -
  have e: "plain_elem 2 (show_def pd) \<and> trimmed (show_def pd)" if "pd \<in> set pds" for pd
    using show_def_elem [of params pd] assms(1) that by (auto simp: list_all_iff)
  then have "map trimstr (map show_def pds) = map show_def pds" "list_all (plain_elem 2) (map show_def pds)"
    by (auto simp: list_all_iff)
  then have "splitString 2 (intercalate '','' (map show_def pds)) = Inr (map show_def pds)"
    using splitString_joined [of "map show_def pds" 2] assms(3) by simp
  then show ?thesis using header_loop_show [of params pds "[]"] assms by (simp add: decodeHeader_def)
qed

lemma data_elem_show:
  assumes "cell_ok d"
  shows "data_elem (show_cell d) =
    Inr (Some (if kl_val d = [] then ([], clear_flag, clear_useinfo, False) else (kl_val d, kl_cinfo d, kl_uinfo d, False)))"
proof (cases "kl_val d = []")
  case True
  then show ?thesis by (simp add: data_elem_def show_cell_def checkNaN_def trimmed_def)
next
  case False
  let ?c = "nibbles (kl_cinfo d)" and ?u = "nibbles (kl_uinfo d)"
  have v: "text_ok (kl_val d)" "checkNaN (kl_val d) = kl_val d" and h: "hex_flag (kl_cinfo d)" "hex_flag (kl_uinfo d)"
    using assms by (simp_all add: cell_ok_def)
  note ht = hex_flag_text [OF h(1)] hex_flag_text [OF h(2)]
  have s: "show_cell d = kl_val d @ CHR ''('' # ?c @ CHR '','' # ?u @ '')''" using False by (simp add: show_cell_def)
  have t: "trimstr (show_cell d) = show_cell d"
    unfolding s using trimmed_closed [of "kl_val d" "CHR ''('' # ?c @ CHR '','' # ?u"] v(1) False by (simp add: text_ok_def)
  have tw: "takeWhile (\<lambda>c. c \<noteq> CHR ''('') (show_cell d) = kl_val d"
    unfolding s by (rule takeWhile_until) (use v in \<open>simp add: text_ok_def plain_part_def\<close>)
  have "inside (show_cell d) = Inr [\<lparr>elem_str = ?c, isString = False\<rparr>, \<lparr>elem_str = ?u, isString = False\<rparr>]"
    unfolding s using ht v by (intro inside_two) (auto simp: text_ok_def plain_part_def)
  moreover have "CHR ''('' \<in> set (show_cell d)" unfolding s by simp
  ultimately show ?thesis
    using False ht v h by (simp add: data_elem_def t tw comma_at_def comma_get_def text_ok_def setControlInfo_def setUseinfo_def
        set_flags_nibbles)
qed

definition read_cell :: "(kvUseInfo \<Rightarrow> kvUseInfo) \<Rightarrow> KlData \<Rightarrow> KlData" where
  "read_cell late d = (if kl_val d = [] then new_KlData else d\<lparr>kl_uinfo := late (kl_uinfo d)\<rparr>)"

lemma data_loop_show:
  "list_all cell_ok ds \<Longrightarrow> data_loop late (map show_cell ds) (length pre) (pre @ replicate (length ds) new_KlData) w =
     Inr (pre @ map (read_cell late) ds, w)"
proof (induction ds arbitrary: pre)
  case (Cons d ds)
  let ?x = "read_cell late d"
  have IH: "data_loop late (map show_cell ds) (length pre + 1) (pre @ ?x # replicate (length ds) new_KlData) w = Inr (pre @ ?x # map (read_cell late) ds, w)"
    using Cons.IH [of "pre @ [?x]"] Cons.prems by simp
  have d: "data_elem (show_cell d) =
      Inr (Some (if kl_val d = [] then ([], clear_flag, clear_useinfo, False) else (kl_val d, kl_cinfo d, kl_uinfo d, False)))"
    using Cons.prems by (intro data_elem_show) simp
  have x: "kl_val d = [] \<Longrightarrow> new_KlData = ?x" "kl_val d \<noteq> [] \<Longrightarrow> \<lparr>kl_val = kl_val d, kl_cinfo = kl_cinfo d, kl_uinfo = late (kl_uinfo d)\<rparr> = ?x"
    by (simp_all add: read_cell_def)
  show ?case using IH by (cases "kl_val d = []") (simp_all add: d x list_update_append)
qed simp


subsection \<open>Lines\<close>

lemma show_cell_elem:
  assumes "cell_ok d"
  shows "plain_elem 2 (show_cell d) \<and> no_break (show_cell d)"
proof (cases "kl_val d = []")
  case True
  then show ?thesis by (simp add: show_cell_def plain_elem_def no_break_def)
next
  case False
  let ?b = "nibbles (kl_cinfo d) @ CHR '','' # nibbles (kl_uinfo d)"
  have n: "text_ok (kl_val d)" "text_ok (nibbles (kl_cinfo d))" "text_ok (nibbles (kl_uinfo d))"
    using assms hex_flag_text by (auto simp: cell_ok_def)
  have s: "show_cell d = kl_val d @ CHR ''('' # ?b @ CHR '')'' # []" using False by (simp add: show_cell_def)
  have "commas ?b = 1" using n by (auto simp: commas_def text_ok_def plain_part_def filter_empty_conv)
  then have "plain_elem 2 (show_cell d)" unfolding s using n by (intro plain_elem_optional) (auto simp: text_ok_def plain_part_def)
  moreover have "no_break (show_cell d)" unfolding s using n by (auto simp: no_break_def text_ok_def)
  ultimately show ?thesis by blast
qed

text \<open>A time that is read back, and a row of the table.\<close>

definition time_ok :: "'t kl_env \<Rightarrow> ('t \<Rightarrow> string) \<Rightarrow> 't \<Rightarrow> bool" where
  "time_ok env show_time t \<longleftrightarrow> text_ok (show_time t) \<and> time_from_string_nothrow env (show_time t) = t \<and> \<not> kl_is_special env t"

definition row_ok :: "'t kl_env \<Rightarrow> ('t \<Rightarrow> string) \<Rightarrow> nat \<Rightarrow> 't \<times> KlData list \<Rightarrow> bool" where
  "row_ok env show_time n r \<longleftrightarrow> time_ok env show_time (fst r) \<and> length (snd r) = n \<and> list_all cell_ok (snd r)"

lemma decode_line_show:
  assumes "row_ok env show_time n r" "n > 0"
  shows "decode_line env types typeId rt n (show_row show_time r) =
    Inr (fst r, map (read_cell (late_code env types typeId rt (fst r))) (snd r), False)"
proof -
  obtain t ds where r: "r = (t, ds)" by fastforce
  have t: "text_ok (show_time t)" "time_from_string_nothrow env (show_time t) = t" "\<not> kl_is_special env t"
    and ds: "length ds = n" "list_all cell_ok ds"
    using assms(1) by (auto simp: r row_ok_def time_ok_def)
  have "plain_elem 2 (show_time t)" using t(1) by (simp add: plain_elem_def text_ok_def plain_part_def)
  moreover have "list_all (plain_elem 2) (map show_cell ds)" using ds(2) show_cell_elem by (auto simp: list_all_iff)
  ultimately have "splitString 2 (show_row show_time r) = Inr (show_time t # map trimstr (map show_cell ds))"
    using splitString_joined [of "show_time t # map show_cell ds" 2] t(1) by (simp add: r show_row_def text_ok_def)
  moreover have "data_elem (trimstr s) = data_elem s" for s by (simp add: data_elem_def trimmed_trimstr)
  then have "data_loop late (map trimstr ss) i da w = data_loop late ss i da w" for late ss i da w
    by (induction late ss i da w rule: data_loop.induct) (simp_all split: option.split add: res_bind_def split: sum.split)
  ultimately show ?thesis
    using t ds assms(2) data_loop_show [OF ds(2), of "late_code env types typeId rt t" "[]" False]
    by (simp add: decode_line_def r del: map_map)
qed

lemma no_break_intercalate: "list_all no_break ps \<Longrightarrow> no_break (intercalate '','' ps)"
  by (induction "'','' :: string" ps rule: intercalate.induct) (auto simp: no_break_def)

lemma getlines_concat: "list_all no_break ls \<Longrightarrow> getlines (concat (map (\<lambda>l. l @ [CHR 0x0A]) ls)) = ls"
proof (induction ls)
  case Nil
  then show ?case by (simp add: getlines.simps)
next
  case (Cons l ls)
  have tw: "takeWhile (\<lambda>c. c \<noteq> CHR 0x0A) (l @ CHR 0x0A # r) = l" for r using Cons.prems by (intro takeWhile_until) (simp add: no_break_def)
  have dw: "dropWhile (\<lambda>c. c \<noteq> CHR 0x0A) (l @ CHR 0x0A # r) = CHR 0x0A # r" for r
    by (rule trans [OF dropWhile_prefix]) (use Cons.prems in \<open>auto simp: no_break_def\<close>)
  show ?case using Cons by (subst getlines.simps) (simp add: tw dw)
qed

section \<open>Values of a table\<close>

text \<open>The values of a table: those that are given and are numbers.\<close>

definition cell_value :: "'t kl_env \<Rightarrow> (kvUseInfo \<Rightarrow> kvUseInfo) \<Rightarrow> int \<Rightarrow> int \<Rightarrow> 't \<Rightarrow> ParamDef \<Rightarrow> KlData \<Rightarrow> 't kvData option" where
  "cell_value env late stationid typeId obt pd d =
     (if kl_val d = [] then None
      else map_option (\<lambda>v. kvData_set stationid obt v (pd_id pd) (kl_not_a_date_time env) typeId (pd_sensor pd) (pd_level pd) v
              (kl_cinfo d) (late (kl_uinfo d)) []) (lexical_cast_float env (kl_val d)))"

fun row_values :: "'t kl_env \<Rightarrow> (kvUseInfo \<Rightarrow> kvUseInfo) \<Rightarrow> int \<Rightarrow> int \<Rightarrow> 't \<Rightarrow> ParamDef list \<Rightarrow> KlData list \<Rightarrow> 't kvData list" where
  "row_values env late stationid typeId obt (pd # pds) (d # ds) =
     (case cell_value env late stationid typeId obt pd d of None \<Rightarrow> [] | Some x \<Rightarrow> [x])
       @ row_values env late stationid typeId obt pds ds"
| "row_values env late stationid typeId obt _ _ = []"

definition table_values :: "'t kl_env \<Rightarrow> kvTypes list \<Rightarrow> int \<Rightarrow> int \<Rightarrow> 't \<Rightarrow> ParamDef list \<Rightarrow> ('t \<times> KlData list) list \<Rightarrow> 't kvData list" where
  "table_values env types stationid typeId rt pds rows =
     concat (map (\<lambda>(t, ds). row_values env (late_code env types typeId rt t) stationid typeId t pds ds) rows)"

definition scalar_def :: "ParamList \<Rightarrow> ParamDef \<Rightarrow> bool" where
  "scalar_def params pd \<longleftrightarrow> \<not> pd_code pd \<and> pd_id pd \<ge> 0 \<and> \<not> isTextParam_id (pd_id pd) params"

lemma add_value_scalar:
  "scalar_def params pd \<Longrightarrow> add_value env params sid tid t pd (read_cell late d) (kd, w) =
     (fold (kd_insert (kl_is_special env) (kl_neg_infin env)) (case cell_value env late sid tid t pd d of None \<Rightarrow> [] | Some x \<Rightarrow> [x]) kd, w)"
  by (auto simp: add_value_def scalar_def_def cell_value_def read_cell_def new_KlData_def Let_def split: option.splits)

lemma add_values_scalar:
  "list_all (scalar_def params) pds \<Longrightarrow>
     fold (\<lambda>(pd, d). add_value env params sid tid t pd d) (zip pds (map (read_cell late) ds)) (kd, w) =
       (fold (kd_insert (kl_is_special env) (kl_neg_infin env)) (row_values env late sid tid t pds ds) kd, w)"
proof (induction env late sid tid t pds ds arbitrary: kd rule: row_values.induct)
  case (1 env late sid tid t pd pds d ds)
  then show ?case by (simp add: add_value_scalar)
qed simp_all

lemma lines_loop_show:
  assumes "list_all (scalar_def params) pds" "pds \<noteq> []"
  shows "list_all (row_ok env show_time (length pds)) rows \<Longrightarrow>
    lines_loop env params types sid tid rt pds (map (show_row show_time) rows) (kd, False) =
      Inr (fold (kd_insert (kl_is_special env) (kl_neg_infin env)) (table_values env types sid tid rt pds rows) kd, False)"
proof (induction rows arbitrary: kd)
  case (Cons r rows)
  then have "decode_line env types tid rt (length pds) (show_row show_time r) =
    Inr (fst r, map (read_cell (late_code env types tid rt (fst r))) (snd r), False)"
    using assms(2) by (intro decode_line_show) auto
  moreover obtain t ds where "r = (t, ds)" by fastforce
  ultimately show ?case using Cons by (simp add: table_values_def add_values_scalar [OF assms(1)])
qed (simp add: table_values_def)


section \<open>Insertion of values at different places\<close>

lemma inserts_set:
  assumes "obs_ok (kd_obs kd)"
    "sorted_wrt (\<lambda>a b. \<not> same_place (stored sp ni a) (stored sp ni b)) ds"
    "\<And>x d. x \<in> set (flat_data False tb (kd_obs kd)) \<Longrightarrow> d \<in> set ds \<Longrightarrow> \<not> same_place x (stored sp ni d)"
  shows "set (flat_data False tb (kd_obs (fold (kd_insert sp ni) ds kd))) = set (flat_data False tb (kd_obs kd)) \<union> stored sp ni ` set ds"
  using assms
proof (induction ds arbitrary: kd)
  case (Cons d ds)
  let ?kd = "kd_insert sp ni d kd"
  have ok: "obs_ok (kd_obs ?kd)" using Cons.prems(1) by (simp add: kd_insert_def obs_ok_insert)
  have new: "set (flat_data False tb (kd_obs ?kd)) = insert (stored sp ni d) (set (flat_data False tb (kd_obs kd)))"
    using flat_data_insert [OF Cons.prems(1), of _ tb sp ni d] Cons.prems(3) by (auto simp: kd_insert_def)
  have "set (flat_data False tb (kd_obs (fold (kd_insert sp ni) ds ?kd))) = set (flat_data False tb (kd_obs ?kd)) \<union> stored sp ni ` set ds"
    by (rule Cons.IH [OF ok]) (use Cons.prems new in auto)
  then show ?case using new by simp
qed simp

definition column :: "ParamDef \<Rightarrow> int \<times> int \<times> int" where
  "column pd = (pd_id pd, pd_sensor pd, pd_level pd)"

definition value_column :: "'t kvData \<Rightarrow> int \<times> int \<times> int" where
  "value_column x = (paramID x, sensor x, level x)"

lemma cell_value_place: "cell_value env late sid tid t pd d = Some x \<Longrightarrow> obstime x = t \<and> value_column x = column pd"
  by (auto simp: cell_value_def kvData_set_def value_column_def column_def split: if_splits)

lemma row_values_in:
  "x \<in> set (row_values env late sid tid t pds ds) \<Longrightarrow> obstime x = t \<and> value_column x \<in> column ` set pds"
  by (induction env late sid tid t pds ds rule: row_values.induct) (auto dest: cell_value_place cell_value_place [OF sym] split: option.splits)

lemma row_values_distinct: "distinct (map column pds) \<Longrightarrow> distinct (map value_column (row_values env late sid tid t pds ds))"
proof (induction env late sid tid t pds ds rule: row_values.induct)
  case (1 env late sid tid t pd pds d ds)
  have "value_column x \<notin> value_column ` set (row_values env late sid tid t pds ds)" if "cell_value env late sid tid t pd d = Some x" for x
  proof -
    have "value_column x \<notin> column ` set pds" using cell_value_place [OF that] 1(2) by simp
    then show ?thesis using row_values_in [of _ env late sid tid t pds ds] by fastforce
  qed
  then show ?case using 1 by (auto split: option.split)
qed simp_all

lemma table_values_distinct:
  assumes "distinct (map column pds)" "distinct (map fst rows)"
  shows "sorted_wrt (\<lambda>a b. (obstime a, value_column a) \<noteq> (obstime b, value_column b)) (table_values env types sid tid rt pds rows)"
  using assms(2)
proof (induction rows)
  case Nil
  then show ?case by (simp add: table_values_def)
next
  case (Cons r rows)
  obtain t ds where r: "r = (t, ds)" by fastforce
  let ?l = "late_code env types tid rt t"
  have "sorted_wrt (\<lambda>a b. value_column a \<noteq> value_column b) (row_values env ?l sid tid t pds ds)"
    using row_values_distinct [OF assms(1), of env ?l sid tid t ds] by (simp add: distinct_conv_nth sorted_wrt_iff_nth_less)
  then have "sorted_wrt (\<lambda>a b. (obstime a, value_column a) \<noteq> (obstime b, value_column b)) (row_values env ?l sid tid t pds ds)"
    by (auto intro: sorted_wrt_mono_rel [rotated])
  moreover have "obstime x \<in> fst ` set rows" if "x \<in> set (table_values env types sid tid rt pds rows)" for x
    using that by (auto simp: table_values_def dest!: row_values_in intro!: rev_image_eqI)
  then have "obstime x \<noteq> t" if "x \<in> set (table_values env types sid tid rt pds rows)" for x using that Cons.prems r by auto
  ultimately show ?case using Cons r row_values_in [of _ env ?l sid tid t pds ds]
    by (auto simp: table_values_def sorted_wrt_append)
qed

section \<open>Properties\<close>

text \<open>
  A table of values, with one column for each parameter, sensor and level and one row for each time, that is
  printed in this format is decoded without warnings, and the message holds exactly the values of the table that are given
  and are numbers: each with the station and type of the message, the time of its row, the parameter, sensor and level of
  its column, its control information, and its use information with the code for late observations.
\<close>

theorem kl_message_roundtrip:
  fixes env :: "'t::linorder kl_env"
  assumes "list_all (def_ok params) pds" "list_all (scalar_def params) pds" "distinct (map column pds)" "pds \<noteq> []"
    "list_all (row_ok env show_time (length pds)) rows" "distinct (map fst rows)"
  shows "\<exists>kd :: ('t, 'r) KvalobsData.
    decodeData env params types (show_message show_time pds rows) sid tid rt = Inr (kd, False)
    \<and> set (kd_data kd False tb) = stored (kl_is_special env) (kl_neg_infin env) ` set (table_values env types sid tid rt pds rows)"
proof -
  let ?sp = "kl_is_special env" and ?ni = "kl_neg_infin env" and ?vs = "table_values env types sid tid rt pds rows"
  let ?kd0 = "new_KvalobsData (kl_not_a_date_time env) :: ('t, 'r) KvalobsData"
  have d: "distinct pds" using assms(3) by (simp add: distinct_map)
  have "no_break (intercalate '','' (map show_def pds))"
    using assms(1,4) show_def_elem by (intro no_break_intercalate) (auto simp: list_all_iff)
  moreover have "no_break (show_row show_time r)" if "r \<in> set rows" for r
    using assms(5) that show_cell_elem unfolding show_row_def
    by (intro no_break_intercalate) (auto simp: list_all_iff row_ok_def time_ok_def text_ok_def)
  ultimately have "getlines (show_message show_time pds rows) = intercalate '','' (map show_def pds) # map (show_row show_time) rows"
    unfolding show_message_def by (intro getlines_concat) (auto simp: list_all_iff)
  then have dec: "decodeData env params types (show_message show_time pds rows) sid tid rt = Inr (fold (kd_insert ?sp ?ni) ?vs ?kd0, False)"
    using decodeHeader_show [OF assms(1) d assms(4)] lines_loop_show [OF assms(2,4,5), of types sid tid rt ?kd0] assms(4)
    by (cases pds) (simp_all add: decodeData_def)
  have s: "plain_sensor_of (sensor x) = sensor x" if "x \<in> set ?vs" for x
  proof -
    have "value_column x \<in> column ` set pds" using that row_values_in by (fastforce simp: table_values_def)
    then show ?thesis using assms(1) by (auto simp: value_column_def column_def list_all_iff def_ok_def plain_sensor_of_def)
  qed
  have "sorted_wrt (\<lambda>a b. \<not> same_place (stored ?sp ?ni a) (stored ?sp ?ni b)) ?vs"
    by (rule sorted_wrt_mono_rel [OF _ table_values_distinct [OF assms(3,6)]])
      (use s in \<open>auto simp: same_place_def stored_def value_column_def\<close>)
  then have "set (flat_data False tb (kd_obs (fold (kd_insert ?sp ?ni) ?vs ?kd0))) = stored ?sp ?ni ` set ?vs"
    using inserts_set [of ?kd0 ?sp ?ni ?vs tb] by (simp add: new_KvalobsData_def flat_data_def)
  then show ?thesis using dec by (auto simp: kd_data_def)
qed


text \<open>A small table: two parameters, the second with two sensors, and a missing value.\<close>

definition demo_env :: "nat kl_env" where
  "demo_env =
     \<lparr>time_from_string_nothrow = (\<lambda>s. nat (atoi s)), kl_is_special = (\<lambda>t. t < 2), kl_not_a_date_time = 0, kl_neg_infin = 1,
      kl_total_seconds = (\<lambda>a b. int a - int b), lexical_cast_float = (\<lambda>s. Some (of_int (atoi s)))\<rparr>"

definition demo_params :: ParamList where
  "demo_params = [\<lparr>kode = ''FF'', param_id = 81, isScalar = True\<rparr>, \<lparr>kode = ''TA'', param_id = 211, isScalar = True\<rparr>]"

definition demo_defs :: "ParamDef list" where
  "demo_defs =
     [\<lparr>pd_name = ''TA'', pd_id = 211, pd_sensor = 0, pd_level = 2, pd_code = False\<rparr>,
      \<lparr>pd_name = ''FF'', pd_id = 81, pd_sensor = 0, pd_level = 0, pd_code = False\<rparr>,
      \<lparr>pd_name = ''FF'', pd_id = 81, pd_sensor = 1, pd_level = 0, pd_code = False\<rparr>]"

definition demo_cell :: "string \<Rightarrow> KlData" where
  "demo_cell v = \<lparr>kl_val = v, kl_cinfo = clear_flag, kl_uinfo = clear_useinfo\<rparr>"

definition demo_rows :: "(nat \<times> KlData list) list" where
  "demo_rows = [(10, [demo_cell ''-5'', demo_cell ''3'', demo_cell []]), (20, [demo_cell ''7'', demo_cell ''4'', demo_cell ''5''])]"

definition demo_show :: "nat \<Rightarrow> string" where
  "demo_show t = show_int (int t)"

lemma kl_message_roundtrip_witness:
  "\<exists>kd :: (nat, unit) KvalobsData.
    decodeData demo_env demo_params [] (show_message demo_show demo_defs demo_rows) 180 506 0 = Inr (kd, False)
    \<and> set (kd_data kd False 0) = stored (kl_is_special demo_env) (kl_neg_infin demo_env) ` set (table_values demo_env [] 180 506 0 demo_defs demo_rows)"
proof (rule kl_message_roundtrip)
  have cell: "list_all (\<lambda>v. \<forall>c\<in>set v. c \<notin> set marks) [''-5'', ''3'', [], ''7'', ''4'', ''5'']" by code_simp
  show "list_all (def_ok demo_params) demo_defs" by code_simp
  show "list_all (scalar_def demo_params) demo_defs" "distinct (map column demo_defs)" "demo_defs \<noteq> []"
    by (code_simp, code_simp, simp add: demo_defs_def)
  show "list_all (row_ok demo_env demo_show (length demo_defs)) demo_rows" by code_simp
  show "distinct (map fst demo_rows)" by (simp add: demo_rows_def)
qed

section \<open>What a decoded message contains\<close>

definition defs_ok :: "ParamList \<Rightarrow> ParamDef list \<Rightarrow> bool" where
  "defs_ok params pds \<longleftrightarrow> list_all (\<lambda>pd. pd_sensor pd \<le> 9 \<and> (pd_id pd \<ge> 0 \<longrightarrow> pd_id pd \<in> param_id ` set params)) pds"

lemma header_loop_ok: "header_loop params ps acc = Inr r \<Longrightarrow> defs_ok params (fst acc) \<Longrightarrow> defs_ok params (fst r)"
proof (induction params ps acc rule: header_loop.induct)
  case (2 params p ps acc)
  then obtain e pd w where e: "header_elem p = Inr e" "header_def params e = Inr (pd, w)" "pd \<notin> set (fst acc)"
    "header_loop params ps (fst acc @ [pd], snd acc \<or> w) = Inr r"
    by (auto simp: res_bind_Inr_iff updateParamList_def split: if_splits)
  have "fst (snd e) \<le> 9" using e(1) by (auto simp: header_elem_def res_bind_Inr_iff Let_def split: if_splits)
  moreover have "it \<in> set params" if "findParamInList params n = Some it" for n it
    using that by (auto simp: findParamInList_def sset_find_def find_Some_iff)
  ultimately have "defs_ok params [pd]"
    using e(2) by (cases e) (auto simp: header_def_def defs_ok_def Let_def split: if_splits option.splits)
  then have "defs_ok params (fst acc @ [pd])" using 2(3) by (simp add: defs_ok_def)
  then show ?case using 2(1) [OF e(4)] by simp
qed simp

definition cell_wf :: "KlData \<Rightarrow> bool" where
  "cell_wf d \<longleftrightarrow> wf_flag (kl_cinfo d) \<and> wf_flag (kl_uinfo d)"

lemma wf_set_flags: "wf_flag d \<Longrightarrow> wf_flag (set_flags d s)"
proof -
  have "wf_flag d \<Longrightarrow> wf_flag (fold (\<lambda>i f. if s ! i = CHR ''x'' \<or> s ! i = CHR ''X'' then f else set_flag f (int i) (hexCharToInt (s ! i))) is d)" for "is"
    by (induction "is" arbitrary: d) simp_all
  then show "wf_flag d \<Longrightarrow> wf_flag (set_flags d s)" by (simp add: set_flags_def)
qed

lemma data_loop_wf:
  assumes "\<And>u. wf_flag u \<Longrightarrow> wf_flag (late u)"
  shows "data_loop late ss i da w = Inr (da', w') \<Longrightarrow> list_all cell_wf da \<Longrightarrow> list_all cell_wf da'"
  using assms
proof (induction late ss i da w rule: data_loop.induct)
  case (2 late s ss i da w)
  then obtain e where e: "data_elem s = Inr e" by (auto simp: res_bind_Inr_iff)
  show ?case
  proof (cases e)
    case None
    then show ?thesis using 2 e by simp
  next
    case (Some x)
    obtain val c u v where x: "x = (val, c, u, v)" by (cases x)
    have "wf_flag c" "wf_flag u"
      using e Some x by (auto simp: data_elem_def res_bind_Inr_iff setControlInfo_def setUseinfo_def wf_set_flags Let_def split: if_splits)
    then have "cell_wf \<lparr>kl_val = val, kl_cinfo = c, kl_uinfo = late u\<rparr>" using 2(5) by (simp add: cell_wf_def)
    then have "list_all cell_wf (if val \<noteq> [] then da[i := \<lparr>kl_val = val, kl_cinfo = c, kl_uinfo = late u\<rparr>] else da)"
      using 2(4) by (auto simp: list_all_iff dest: subsetD [OF set_update_subset_insert])
    then show ?thesis using 2(2,3,5) e Some x by simp
  qed
qed simp

lemma decode_line_ok:
  assumes "decode_line env types typeId rt n s = Inr (t, da, w)"
  shows "\<not> kl_is_special env t \<and> list_all cell_wf da"
proof -
  obtain dtmp where t: "\<not> kl_is_special env t"
    and d: "data_loop (late_code env types typeId rt t) dtmp 0 (replicate n new_KlData) False = Inr (da, w)"
    using assms by (auto simp: decode_line_def res_bind_Inr_iff Let_def split: if_splits)
  have "wf_flag u \<Longrightarrow> wf_flag (late_code env types typeId rt t u)" for u by (simp add: late_code_def Let_def)
  moreover have "list_all cell_wf (replicate n new_KlData)" by (simp add: list_all_iff cell_wf_def new_KlData_def)
  ultimately show ?thesis using data_loop_wf [OF _ d] t by simp
qed

text \<open>What may be stored: the abstract view of a message.\<close>

definition stored_ok :: "'t kl_env \<Rightarrow> ParamList \<Rightarrow> int \<Rightarrow> int \<Rightarrow> int \<Rightarrow> int \<Rightarrow> 't \<Rightarrow> 't \<Rightarrow> int \<Rightarrow> int \<Rightarrow> DataContent \<Rightarrow> bool" where
  "stored_ok env params sid tid st ty ot tb sen par c \<longleftrightarrow>
     st = sid \<and> ty = tid \<and> \<not> kl_is_special env ot \<and> tb = kl_neg_infin env \<and> sen \<le> 9 \<and> par \<in> param_id ` set params
     \<and> \<not> isTextParam_id par params \<and> dc_corrected c = dc_original c \<and> wf_flag (dc_controlinfo c) \<and> wf_flag (dc_useinfo c)"

definition stored_text_ok :: "'t kl_env \<Rightarrow> ParamList \<Rightarrow> int \<Rightarrow> int \<Rightarrow> int \<Rightarrow> int \<Rightarrow> 't \<Rightarrow> 't \<Rightarrow> int \<Rightarrow> string \<Rightarrow> bool" where
  "stored_text_ok env params sid tid st ty ot tb par s \<longleftrightarrow>
     st = sid \<and> ty = tid \<and> \<not> kl_is_special env ot \<and> tb = kl_neg_infin env \<and> isTextParam_id par params \<and> s \<noteq> []"

definition message_ok :: "'t::linorder kl_env \<Rightarrow> ParamList \<Rightarrow> int \<Rightarrow> int \<Rightarrow> ('t, 'r) KvalobsData \<Rightarrow> bool" where
  "message_ok env params sid tid kd \<longleftrightarrow>
     (\<forall>st ty ot tb sen lev par c. data_get (kd_obs kd) st ty ot tb sen lev par = Some c \<longrightarrow> stored_ok env params sid tid st ty ot tb sen par c)
     \<and> (\<forall>st ty ot tb par s. text_get (kd_obs kd) st ty ot tb par = Some s \<longrightarrow> stored_text_ok env params sid tid st ty ot tb par s)"

lemma add_value_ok:
  assumes "kl_is_special env (kl_not_a_date_time env)" "message_ok env params sid tid (fst kw)" "\<not> kl_is_special env ot"
    "defs_ok params [pd]" "cell_wf d"
  shows "message_ok env params sid tid (fst (add_value env params sid tid ot pd d kw))"
proof -
  obtain kd w where kw: "kw = (kd, w)" by fastforce
  have "message_ok env params sid tid (kd_insert_text (kl_is_special env) (kl_neg_infin env)
      (kvTextData_set sid ot (kl_val d) (pd_id pd) (kl_not_a_date_time env) tid) kd)"
    if "isTextParam_id (pd_id pd) params" "kl_val d \<noteq> []"
    using assms that unfolding message_ok_def kw
    by (auto simp: kd_insert_text_def insert_text_obs_def tree_get Let_def kvTextData_set_def stored_text_ok_def split: if_splits)
  moreover have "message_ok env params sid tid (kd_insert (kl_is_special env) (kl_neg_infin env)
      (kvData_set sid ot v (pd_id pd) (kl_not_a_date_time env) tid (pd_sensor pd) (pd_level pd) v (kl_cinfo d) (kl_uinfo d) []) kd)"
    if "\<not> isTextParam_id (pd_id pd) params" "pd_id pd \<ge> 0" for v
    using assms that unfolding message_ok_def kw
    by (auto simp: kd_insert_def data_get_insert insert_obs_def tree_get Let_def kvData_set_def stored_ok_def defs_ok_def cell_wf_def
        DataContent_of_def plain_sensor_of_def split: if_splits)
  ultimately show ?thesis using assms(2) unfolding kw
    by (auto simp: add_value_def Let_def split: option.split)
qed

lemma add_values_ok:
  assumes "kl_is_special env (kl_not_a_date_time env)" "\<not> kl_is_special env ot"
  shows "defs_ok params pds \<Longrightarrow> list_all cell_wf ds \<Longrightarrow> message_ok env params sid tid (fst kw) \<Longrightarrow>
    message_ok env params sid tid (fst (fold (\<lambda>(pd, d). add_value env params sid tid ot pd d) (zip pds ds) kw))"
proof (induction pds ds arbitrary: kw rule: list_induct2')
  case (4 pd pds d ds)
  then show ?case using add_value_ok [OF assms(1) _ assms(2), of params sid tid kw pd d] by (simp add: defs_ok_def)
qed simp_all

lemma lines_loop_ok:
  assumes "kl_is_special env (kl_not_a_date_time env)" "defs_ok params pds"
  shows "lines_loop env params types sid tid rt pds ls kw = Inr r \<Longrightarrow> message_ok env params sid tid (fst kw) \<Longrightarrow> message_ok env params sid tid (fst r)"
proof (induction ls arbitrary: kw)
  case (Cons l ls)
  obtain ot da w where l: "decode_line env types tid rt (length pds) l = Inr (ot, da, w)"
    and r: "lines_loop env params types sid tid rt pds ls
      (fold (\<lambda>(pd, d). add_value env params sid tid ot pd d) (zip pds da) (fst kw, snd kw \<or> w)) = Inr r"
    using Cons.prems(1) by (auto simp: res_bind_Inr_iff)
  show ?case
    by (rule Cons.IH [OF r], rule add_values_ok [OF assms(1) _ assms(2)]) (use decode_line_ok [OF l] Cons.prems(2) in simp_all)
qed simp

text \<open>
  Whatever text is decoded, the message holds only data of the given station and type, at times that are no special
  values and under no table time yet: numbers of known parameters that are no texts, with a sensor not greater than 9,
  well-formed flags and the original value as corrected value; and texts, not empty, of parameters for texts.
\<close>

theorem kl_decoded_wellformed:
  fixes kd :: "('t::linorder, 'r) KvalobsData"
  assumes "decodeData env params types obsData sid tid rt = Inr (kd, w)" "kl_is_special env (kl_not_a_date_time env)"
  shows "message_ok env params sid tid kd"
proof -
  obtain h ls pds b where h: "decodeHeader params h = Inr (pds, b)"
    and r: "lines_loop env params types sid tid rt pds ls (new_KvalobsData (kl_not_a_date_time env), b) = Inr (kd, w)"
    using assms(1) by (auto simp: decodeData_def res_bind_Inr_iff split: list.splits if_splits)
  have "defs_ok params pds" using h header_loop_ok [of params _ "([], False)"] by (fastforce simp: decodeHeader_def res_bind_Inr_iff defs_ok_def)
  moreover have "message_ok env params sid tid (new_KvalobsData (kl_not_a_date_time env) :: ('t, 'r) KvalobsData)"
    by (simp add: message_ok_def new_KvalobsData_def data_get_def text_get_def at_tbtime_def at_obstime_def)
  ultimately show ?thesis using lines_loop_ok [OF assms(2) _ r] by simp
qed

lemma kl_decoded_wellformed_witness:
  "\<exists>kd :: (nat, unit) KvalobsData. decodeData demo_env demo_params [] (''_TA,FF(2)'' @ [CHR 0x0A] @ ''10,3,4(x)'') 180 506 0 = Inr (kd, True)
    \<and> message_ok demo_env demo_params 180 506 kd"
proof -
  define m :: "(nat, unit) KvalobsData" where
    "m = (case decodeData demo_env demo_params [] (''_TA,FF(2)'' @ [CHR 0x0A] @ ''10,3,4(x)'') 180 506 0 of Inr p \<Rightarrow> fst p)"
  have "case (decodeData demo_env demo_params [] (''_TA,FF(2)'' @ [CHR 0x0A] @ ''10,3,4(x)'') 180 506 0 :: kl_error + (nat, unit) KvalobsData \<times> bool) of
      Inl e \<Rightarrow> False | Inr p \<Rightarrow> snd p" by code_simp
  then have d: "decodeData demo_env demo_params [] (''_TA,FF(2)'' @ [CHR 0x0A] @ ''10,3,4(x)'') 180 506 0 = Inr (m, True)"
    by (auto simp: m_def split: sum.splits)
  then show ?thesis using kl_decoded_wellformed [OF d] by (simp add: demo_env_def)
qed

section \<open>Undefined behaviour and gaps\<close>

text \<open>A missing parenthesis after the optional part makes the search fail, and the character at \<^verbatim>\<open>npos\<close> is read.\<close>

lemma missing_parenthesis_reads_npos: "splitString 2 ''TA(0'' = Inl ReadOutOfRange"
  by code_simp

text \<open>A negative sensor passes the test for the range from 0 to 9.\<close>

lemma negative_sensor_accepted: "map_sum id (map pd_sensor \<circ> fst) (decodeHeader demo_params ''TA(-3,0)'') = Inr [-3]"
  by code_simp

text \<open>An element with empty parentheses is no empty list: it has one element, the empty text.\<close>

lemma empty_parentheses: "inside ''3()'' = Inr [\<lparr>elem_str = [], isString = False\<rparr>]"
  by code_simp

end
