(* ===== verification/Decoder_Base.thy ===== *)
theory Decoder_Base
  imports Obs_Update Db_Perform Station_Filter Text_Util Decode_Codes
begin

text \<open>
  What all decoders share, \<^verbatim>\<open>src/lib/decoder/decoderbase/decoder.cc\<close> and \<^verbatim>\<open>decoder.h\<close>: the keys of the type of an
  observation, the configuration of a decoder, the identities that select a process for the quality control, the
  observing programme, and the storing of data by the filters of stations and the transaction of \<open>Obs_Update\<close>. How a
  transaction is run is an argument; \<open>perform_update\<close> is the loop of \<open>Db_Perform\<close> for the transaction. The database of
  stations is an argument. Log output and the metadata in XML are not modelled.
  The properties: identities are given in turn, and what the result of storing means.
\<close>

section \<open>Identities for the quality control\<close>

record QaIdInfo =
  random_qa :: bool
  nextQaId :: int
  qaIdTypes :: "int list"
  qaMaxId :: int

text \<open>The default leaves two fields undefined; they are not read while the greatest identity is negative.\<close>

definition no_QaIdInfo :: QaIdInfo where
  "no_QaIdInfo = \<lparr>random_qa = True, nextQaId = 0, qaIdTypes = [], qaMaxId = -1\<rparr>"

definition new_QaIdInfo :: "int \<Rightarrow> int list \<Rightarrow> QaIdInfo" where
  "new_QaIdInfo maxId types =
     \<lparr>random_qa = \<not> (length types = 1 \<and> hd types = 0), nextQaId = 0, qaIdTypes = types, qaMaxId = maxId\<rparr>"

definition isQaIdConfiguredForType :: "int \<Rightarrow> QaIdInfo \<Rightarrow> bool" where
  "isQaIdConfiguredForType typ q =
     (if qaMaxId q < 0 \<or> qaIdTypes q = [] then False
      else if hd (qaIdTypes q) = 0 then True
      else list_ex (\<lambda>t. t = typ) (qaIdTypes q))"

text \<open>\<open>rnd\<close> is what \<^verbatim>\<open>rand()\<close> returns.\<close>

definition getQaIdToUse :: "int \<Rightarrow> QaIdInfo \<Rightarrow> int \<times> QaIdInfo" where
  "getQaIdToUse rnd q =
     (if qaMaxId q < 0 \<or> qaIdTypes q = [] then (-1, q)
      else if random_qa q then (rnd mod (qaMaxId q + 1), q)
      else (nextQaId q, q\<lparr>nextQaId := (nextQaId q + 1) mod (qaMaxId q + 1)\<rparr>))"

text \<open>The identities from the configuration (\<^verbatim>\<open>src/kvDataInputd/DataSrcApp.cc\<close>): the type 0 or \<^verbatim>\<open>"*"\<close> means all types.\<close>

fun read_qa_types :: "(string \<Rightarrow> int option) \<Rightarrow> ValElement list \<Rightarrow> int list \<Rightarrow> int list" where
  "read_qa_types cast [] types = types"
| "read_qa_types cast (v # vs) types =
     (if valType v = VInt then
        (let t = valAsInt_default cast 0 v in if t = 0 then [0] else read_qa_types cast vs (types @ [t]))
      else if valType v = VString \<and> vtext v = ''*'' then [0]
      else read_qa_types cast vs types)"

definition getQaIdInfo :: "(string \<Rightarrow> int option) \<Rightarrow> ConfSection \<Rightarrow> QaIdInfo" where
  "getQaIdInfo cast conf =
     (let types = read_qa_types cast (elems (getValue conf ''kvDataInputd.assign_qaid.types'')) [];
          maxQaId = vl_asInt cast (-1) 0 (getValue conf ''kvDataInputd.assign_qaid.max_qaid'')
      in if types = [] \<or> maxQaId < 0 then no_QaIdInfo else new_QaIdInfo maxQaId types)"

section \<open>Observing programme\<close>

text \<open>The flags of the hours 0 to 23 and of the days from Sunday (\<^verbatim>\<open>src/lib/kvalobs/kvObsPgm.cc\<close>).\<close>

record kvObsPgm =
  op_stationid :: int
  op_paramid :: int
  op_level :: int
  op_nr_sensor :: int
  op_typeid :: int
  op_collector :: bool
  op_hours :: "bool list"
  op_days :: "bool list"

text \<open>A point in time as the programme sees it: day of the week from Sunday, hour, minute and second.\<close>

record civil =
  c_day :: nat
  c_hour :: nat
  c_minute :: nat
  c_second :: nat

definition op_isOn :: "kvObsPgm \<Rightarrow> civil \<Rightarrow> bool" where
  "op_isOn p t =
     (if c_minute t \<noteq> 0 \<or> c_second t \<noteq> 0 then False
      else if c_day t < 7 \<and> \<not> op_days p ! c_day t then False
      else if c_hour t < 24 \<and> \<not> op_hours p ! c_hour t then False
      else True)"

datatype Active = YES | NO | MAYBE

definition isActive :: "kvObsPgm list \<Rightarrow> int \<Rightarrow> int \<Rightarrow> int \<Rightarrow> int \<Rightarrow> int \<Rightarrow> civil \<Rightarrow> bool \<times> Active" where
  "isActive obsPgm stationid typ paramid sen lev obt =
     (case find (\<lambda>p. op_stationid p = stationid \<and> op_typeid p = typ \<and> op_paramid p = paramid \<and> op_level p = lev
              \<and> op_nr_sensor p > sen \<and> op_isOn p obt) obsPgm of
        None \<Rightarrow> (False, NO)
      | Some p \<Rightarrow> (True, if op_collector p then MAYBE else YES))"

section \<open>The decoder\<close>

record ('t, 'r) Decoder =
  dec_name :: string
  theKvConf :: "ConfSection option"
  dec_filters :: StationFilters
  qaIdInfo :: "QaIdInfo option"
  useQaId_field :: int
  decodedData :: "('t, 'r) KvalobsData list"
  toPublish :: "('t, 'r) KvalobsData list"
  genCachElem :: "(int \<times> int \<times> bool) list"
  dec_params :: ParamList
  dec_types :: "kvTypes list"
  dec_obsType :: string
  dec_obs :: string
  dec_logdir :: string

definition new_Decoder :: "string \<Rightarrow> ParamList \<Rightarrow> kvTypes list \<Rightarrow> string \<Rightarrow> string \<Rightarrow> ('t, 'r) Decoder" where
  "new_Decoder name params types obsType obs =
     \<lparr>dec_name = name, theKvConf = None, dec_filters = new_filters, qaIdInfo = None, useQaId_field = -1, decodedData = [], toPublish = [],
      genCachElem = [], dec_params = params, dec_types = types, dec_obsType = obsType, dec_obs = obs, dec_logdir = []\<rparr>"

definition setQaIdInfo :: "int \<Rightarrow> QaIdInfo option \<Rightarrow> ('t, 'r, 'z) Decoder_scheme \<Rightarrow> ('t, 'r, 'z) Decoder_scheme" where
  "setQaIdInfo rnd info d =
     (case info of
        None \<Rightarrow> d\<lparr>qaIdInfo := None\<rparr>
      | Some q \<Rightarrow> (case getQaIdToUse rnd q of (i, q) \<Rightarrow> d\<lparr>qaIdInfo := Some q, useQaId_field := i\<rparr>))"

definition useQaId :: "int \<Rightarrow> ('t, 'r, 'z) Decoder_scheme \<Rightarrow> int" where
  "useQaId typ d =
     (case qaIdInfo d of
        Some q \<Rightarrow> if isQaIdConfiguredForType typ q then useQaId_field d else -1
      | None \<Rightarrow> -1)"

definition findType :: "int \<Rightarrow> ('t, 'r, 'z) Decoder_scheme \<Rightarrow> kvTypes option" where
  "findType typ d = find (\<lambda>t. types_typeID t = typ) (dec_types d)"

text \<open>A character, with the unknown type as 0.\<close>

definition dec_getUseinfo7Code :: "('t \<Rightarrow> 't \<Rightarrow> int) \<Rightarrow> int \<Rightarrow> 't \<Rightarrow> 't \<Rightarrow> ('t, 'r, 'z) Decoder_scheme \<Rightarrow> int" where
  "dec_getUseinfo7Code total_seconds typeId nowTime obt d =
     (let f = getUseinfo7Code total_seconds typeId nowTime obt (dec_types d) in if f < 0 then 0 else f)"

subsection \<open>Keys of the type of an observation\<close>

text \<open>The first key with its value; \<open>None\<close> stands for a write out of range in a comma string.\<close>

fun obs_key_loop :: "string \<Rightarrow> string list \<Rightarrow> string option" where
  "obs_key_loop keyToFind [] = Some []"
| "obs_key_loop keyToFind (keyval # kvs) =
     (case comma_init_char keyval (CHR ''='') of
        None \<Rightarrow> None
      | Some tmp \<Rightarrow>
          if length tmp < 2 then obs_key_loop keyToFind kvs
          else
            let key = trimstr (elem_str (tmp ! 0)) in
            if key = keyToFind \<and> length key \<ge> 2 then Some (elem_str (tmp ! 1)) else obs_key_loop keyToFind kvs)"

definition getObsTypeKey :: "string \<Rightarrow> ('t, 'r, 'z) Decoder_scheme \<Rightarrow> string option" where
  "getObsTypeKey keyToFind d =
     (let k = trimstr keyToFind in
      if k = [] then Some []
      else case comma_init_char (dec_obsType d) (CHR ''/'') of None \<Rightarrow> None | Some cstr \<Rightarrow> obs_key_loop k (map elem_str cstr))"

definition getMetaSaSd :: "('t, 'r, 'z) Decoder_scheme \<Rightarrow> string option" where
  "getMetaSaSd d = map_option (\<lambda>meta. if length meta < 2 then [] else meta) (getObsTypeKey ''meta_SaSd'' d)"

subsection \<open>Database of stations\<close>

text \<open>The answer to the query is a text, or none; an error of the statement is -2.\<close>

definition station_query :: "string \<Rightarrow> string \<Rightarrow> string" where
  "station_query key val = ''SELECT stationid FROM station WHERE '' @ key @ ''='' @ val"

definition getStationId :: "(string \<Rightarrow> unit + string option) \<Rightarrow> string \<Rightarrow> string \<Rightarrow> int" where
  "getStationId execQuery key val =
     (case execQuery (station_query key val) of
        Inl e \<Rightarrow> -2
      | Inr None \<Rightarrow> -1
      | Inr (Some s) \<Rightarrow> atoi s)"

definition isGenerated :: "(int \<Rightarrow> int \<Rightarrow> 'e + bool) \<Rightarrow> int \<Rightarrow> int \<Rightarrow> ('t, 'r, 'z) Decoder_scheme \<Rightarrow> ('e + bool) \<times> ('t, 'r, 'z) Decoder_scheme" where
  "isGenerated selectGenerated stationid typ d =
     (case find (\<lambda>(s, t, g). s = stationid \<and> t = typ) (genCachElem d) of
        Some (s, t, g) \<Rightarrow> (Inr g, d)
      | None \<Rightarrow>
          (case selectGenerated stationid typ of
             Inl e \<Rightarrow> (Inl e, d)
           | Inr g \<Rightarrow> (Inr g, d\<lparr>genCachElem := genCachElem d @ [(stationid, typ, g)]\<rparr>)))"

subsection \<open>Configuration\<close>

definition myConfSection :: "('t, 'r, 'z) Decoder_scheme \<Rightarrow> ConfSection option" where
  "myConfSection d = Option.bind (theKvConf d) (\<lambda>conf. getSection conf (''kvDataInputd.'' @ dec_name d))"

definition getKeyFromConf :: "string \<Rightarrow> ValElementList \<Rightarrow> ('t, 'r, 'z) Decoder_scheme \<Rightarrow> ValElementList" where
  "getKeyFromConf key defaultValue d =
     (case theKvConf d of
        None \<Rightarrow> defaultValue
      | Some conf \<Rightarrow> let val = getValue conf key in if elems val = [] then defaultValue else val)"

definition getKeyInMyConfSection :: "string \<Rightarrow> ValElementList \<Rightarrow> ('t, 'r, 'z) Decoder_scheme \<Rightarrow> ValElementList" where
  "getKeyInMyConfSection key defaultValue d =
     (case myConfSection d of
        None \<Rightarrow> defaultValue
      | Some conf \<Rightarrow> let val = getValue conf key in if elems val = [] then defaultValue else val)"

subsection \<open>Directories\<close>

definition drop_slash :: "string \<Rightarrow> string" where
  "drop_slash s = (if s \<noteq> [] \<and> last s = CHR ''/'' then butlast s else s)"

text \<open>The test for a slash takes its position from the text before it is trimmed; \<open>None\<close>: it is read out of range.\<close>

definition set_logdir :: "string \<Rightarrow> ('t, 'r, 'z) Decoder_scheme \<Rightarrow> ('t, 'r, 'z) Decoder_scheme option" where
  "set_logdir dir d =
     (let l = trimstr dir; i = length dir - 1 in
      if l = [] then Some (d\<lparr>dec_logdir := l\<rparr>)
      else if i > length l then None
      else Some (d\<lparr>dec_logdir := (if i < length l \<and> l ! i = CHR ''/'' then butlast l else l)\<rparr>))"

definition get_logdir :: "string \<Rightarrow> ('t, 'r, 'z) Decoder_scheme \<Rightarrow> string" where
  "get_logdir kvPath d = (if dec_logdir d \<noteq> [] then dec_logdir d else kvPath)"

text \<open>
  The directories that are made one in the other, and the result. Whether \<^verbatim>\<open>mkdir\<close> succeeds does not matter: it is
  compared with -1 by \<^verbatim>\<open><\<close>, and never is less.
\<close>

definition dir_parts :: "string \<Rightarrow> string \<Rightarrow> ('t, 'r, 'z) Decoder_scheme \<Rightarrow> string list" where
  "dir_parts place dir d =
     [drop_slash place, ''decoders'', dec_name d] @
     (if dir = [] then []
      else filter (\<lambda>p. p \<noteq> []) (map trimstr (split_on (CHR ''/'') (drop_slash dir))))"

definition createOrCheckDir :: "string \<Rightarrow> string \<Rightarrow> ('t, 'r, 'z) Decoder_scheme \<Rightarrow> string list \<times> string" where
  "createOrCheckDir place dir d =
     (let parts = dir_parts place dir d in
      (map (\<lambda>n. concat (map (\<lambda>p. p @ ''/'') (take n parts)) @ parts ! n) [0..<length parts], concat (map (\<lambda>p. p @ ''/'') parts)))"

section \<open>Storing of data\<close>

text \<open>Publishing without storing.\<close>

definition dataToPublish_of :: "'t::linorder env \<Rightarrow> 't kvData list \<Rightarrow> 't kvTextData list \<Rightarrow> ('t, 'r, 'z) Decoder_scheme
    \<Rightarrow> bool \<times> ('t, 'r, 'z) Decoder_scheme" where
  "dataToPublish_of env sd td d =
     (let (sd, td) = publishData (dec_filters d) sd td;
          pubData = KvalobsData_of (is_special env) (neg_infin env) (not_a_date_time env) sd td
      in if \<not> kd_empty pubData then (True, d\<lparr>toPublish := toPublish d @ [pubData]\<rparr>) else (False, d))"

definition new_DataUpdate :: "'t env \<Rightarrow> 't \<Rightarrow> int \<Rightarrow> int \<Rightarrow> 't kvData list \<Rightarrow> 't kvTextData list \<Rightarrow> string \<Rightarrow> DBAddType \<Rightarrow> bool \<Rightarrow> bool
    \<Rightarrow> DuplicateTestType \<Rightarrow> int \<Rightarrow> ('t, 'r) DataUpdate" where
  "new_DataUpdate env obt stationid typ sd td lg mode work try dupl qa =
     \<lparr>newData = sd, newTextData = td, du_obstime = obt, du_stationid = stationid, du_typeid = typ, logid = lg, insertOrUpdate = mode,
      addToWorkQueue = work, tryToUseDataTbTime = try, duplicateTestType = dupl, qaId = qa, du_observationid = 0,
      dataToPublish = new_KvalobsData (not_a_date_time env), insertType = NoType, onlyHqcData = False\<rparr>"

text \<open>How the transaction is run: the outcome, the tables and the transaction afterwards, and its callbacks.\<close>

type_synonym ('t, 'r) performer =
  "('t, 'r) DataUpdate \<Rightarrow> 't tables \<Rightarrow> (perform_result \<times> ('t tables \<times> ('t, 'r) DataUpdate) \<times> callback list) option"

text \<open>
  The loop of PostgreSQL for the transaction. \<open>f\<close> gives what happens in each attempt: of its body only whether the
  connection fails. Between attempts the transaction keeps what it has computed; it is computed again
  (lemma \<open>run_again\<close>), so that each attempt begins with the transaction as it was.
\<close>

definition update_attempt :: "'t::linorder env \<Rightarrow> (db_error \<Rightarrow> tx_exn) \<Rightarrow> unit attempt \<Rightarrow> ('t tables \<times> ('t, 'r) DataUpdate) attempt" where
  "update_attempt env exn f =
     \<lparr>begins = begins f, reconnects = reconnects f,
      tx_body = (\<lambda>(t, u).
        case tx_body f () of
          Inl e \<Rightarrow> Inl e
        | Inr r \<Rightarrow> (case DataUpdate_run env u t of Inl e \<Rightarrow> Inl (exn e) | Inr (b, u', t') \<Rightarrow> Inr (b, t', u'))),
      commit_fails = commit_fails f, rollback_fails = rollback_fails f, late = late f\<rparr>"

definition perform_update :: "'t::linorder env \<Rightarrow> (db_error \<Rightarrow> tx_exn) \<Rightarrow> (nat \<Rightarrow> unit attempt) \<Rightarrow> ('t, 'r) performer" where
  "perform_update env exn f u t = pg_perform (\<lambda>i. update_attempt env exn (f i)) 20 (t, u)"

text \<open>
  The result, or the exception with \<^verbatim>\<open>mayRecover\<close>; \<open>None\<close>: the loop does not return. What is inserted or updated is
  asked of an object that is never filled.
\<close>

definition addDataToDbThrow :: "'t::linorder env \<Rightarrow> ('t, 'r) performer \<Rightarrow> 't \<Rightarrow> int \<Rightarrow> int \<Rightarrow> 't kvData list \<Rightarrow> 't kvTextData list \<Rightarrow> string
    \<Rightarrow> DBAddType \<Rightarrow> bool \<Rightarrow> bool \<Rightarrow> bool \<Rightarrow> ('t, 'r, 'z) Decoder_scheme \<times> 't tables \<Rightarrow> ((bool + bool) \<times> ('t, 'r, 'z) Decoder_scheme \<times> 't tables) option" where
  "addDataToDbThrow env perform obt stationid typ sd td lg mode work try partialDuplicateTest w =
     (case w of (d, t) \<Rightarrow>
        let f = filter_for (dec_filters d) stationid typ in
        if \<not> (saveToDb f \<or> f_publish f) then Some (Inr True, d, t)
        else if f_publish f \<and> \<not> saveToDb f then Some (Inr True, snd (dataToPublish_of env sd td d), t)
        else
          let (sd, td) = saveDataToDb (dec_filters d) sd td in
          if sd = [] \<and> td = [] then Some (Inr True, d, t)
          else
            let u = new_DataUpdate env obt stationid typ sd td lg mode work try (if partialDuplicateTest then Partial else Complete)
                      (useQaId typ d) in
            (case perform u t of
               None \<Rightarrow> None
             | Some (MaxRetry mayRecover, (t, u), callbacks) \<Rightarrow> Some (Inl mayRecover, d, t)
             | Some (Returned, (t, u), callbacks) \<Rightarrow>
                 let ok = (OnSuccess \<in> set callbacks);
                     d = d\<lparr>decodedData := decodedData d @ [new_KvalobsData (not_a_date_time env)]\<rparr>;
                     d = (if ok \<and> \<not> kd_empty (dataToPublish u) \<and> f_publish f then d\<lparr>toPublish := toPublish d @ [dataToPublish u]\<rparr> else d)
                 in Some (Inr ok, d, t)))"

definition addDataToDb :: "'t::linorder env \<Rightarrow> ('t, 'r) performer \<Rightarrow> 't \<Rightarrow> int \<Rightarrow> int \<Rightarrow> 't kvData list \<Rightarrow> 't kvTextData list \<Rightarrow> string
    \<Rightarrow> DBAddType \<Rightarrow> bool \<Rightarrow> bool \<Rightarrow> bool \<Rightarrow> ('t, 'r, 'z) Decoder_scheme \<times> 't tables \<Rightarrow> (bool \<times> ('t, 'r, 'z) Decoder_scheme \<times> 't tables) option" where
  "addDataToDb env perform obt stationid typ sd td lg mode work try partialDuplicateTest w =
     (case addDataToDbThrow env perform obt stationid typ sd td lg mode work try partialDuplicateTest w of
        None \<Rightarrow> None
      | Some (Inl e, w) \<Rightarrow> Some (False, w)
      | Some (Inr b, w) \<Rightarrow> Some (b, w))"

section \<open>Identities in turn\<close>

text \<open>The state after some decoders have been made.\<close>

fun qa_after :: "int list \<Rightarrow> QaIdInfo \<Rightarrow> QaIdInfo" where
  "qa_after [] q = q"
| "qa_after (rnd # rnds) q = qa_after rnds (snd (getQaIdToUse rnd q))"

definition in_turn :: "QaIdInfo \<Rightarrow> bool" where
  "in_turn q \<longleftrightarrow> \<not> random_qa q \<and> qaIdTypes q \<noteq> [] \<and> 0 \<le> nextQaId q \<and> nextQaId q \<le> qaMaxId q"

lemma qa_after_next:
  "in_turn q \<Longrightarrow> in_turn (qa_after rnds q) \<and> qaMaxId (qa_after rnds q) = qaMaxId q
     \<and> nextQaId (qa_after rnds q) = (nextQaId q + int (length rnds)) mod (qaMaxId q + 1)"
proof (induction rnds arbitrary: q)
  case (Cons rnd rnds)
  let ?q = "snd (getQaIdToUse rnd q)"
  have q: "?q = q\<lparr>nextQaId := (nextQaId q + 1) mod (qaMaxId q + 1)\<rparr>" using Cons.prems by (auto simp: getQaIdToUse_def in_turn_def)
  then have "in_turn ?q" "qaMaxId ?q = qaMaxId q" using Cons.prems by (auto simp: in_turn_def intro: pos_mod_bound [of "qaMaxId q + 1", simplified])
  then show ?case using Cons.IH [of ?q] q by (simp add: mod_simps algebra_simps)
qed (auto simp: in_turn_def)

text \<open>
  C27. Where the identities are given in turn, every identity is always given again: whatever decoders have been made,
  each identity from 0 to the greatest is given to one of the next decoders, at most as many as there are identities.
\<close>

theorem qa_id_given_again:
  fixes rnds :: "nat \<Rightarrow> int"
  assumes "in_turn q" "0 \<le> i" "i \<le> qaMaxId q"
  shows "\<exists>k \<le> nat (qaMaxId q). fst (getQaIdToUse (rnds (n + k)) (qa_after (map rnds [0..<n + k]) q)) = i"
proof -
  let ?m = "qaMaxId q + 1" and ?n = "nextQaId q + int n"
  let ?k = "nat ((i - ?n) mod ?m)"
  have m: "?m > 0" using assms by linarith
  have k: "int ?k = (i - ?n) mod ?m" using m by simp
  have "?k \<le> nat (qaMaxId q)" using m pos_mod_bound [OF m, of "i - ?n"] by linarith
  moreover have "(?n + int ?k) mod ?m = i" unfolding k using assms m by (simp add: mod_simps)
  then have "fst (getQaIdToUse (rnds (n + ?k)) (qa_after (map rnds [0..<n + ?k]) q)) = i"
    using qa_after_next [OF assms(1), of "map rnds [0..<n + ?k]"] by (auto simp: getQaIdToUse_def in_turn_def algebra_simps)
  ultimately show ?thesis by blast
qed

theorem qa_id_given_again_witness:
  "\<exists>k \<le> 4. fst (getQaIdToUse 0 (qa_after (map (\<lambda>_. 0) [0..<7 + k]) (new_QaIdInfo 4 [0]))) = 3"
  using qa_id_given_again [where q = "new_QaIdInfo 4 [0]" and i = 3 and n = 7 and rnds = "\<lambda>_. 0"] by (simp add: in_turn_def new_QaIdInfo_def)

section \<open>Transactions\<close>

text \<open>A transaction that has been tried computes the same again, whatever it has kept.\<close>

lemma set_type_first: "x\<lparr>du_observationid := i, insertType := ty\<rparr> = x\<lparr>insertType := ty, du_observationid := i\<rparr>"
  by simp

lemma store_id: "store_observation env ob (w\<lparr>du_observationid := k\<rparr>) t = store_observation env ob w t"
  by (simp add: store_observation_def updateWorkQue_def res_bind_def split: sum.split)

lemma checkWorkQue_id: "checkWorkQue i (w\<lparr>du_observationid := k\<rparr>) t = (case checkWorkQue i w t of (w, t) \<Rightarrow> (w\<lparr>du_observationid := k\<rparr>, t))"
  by (simp add: checkWorkQue_def)

lemma checkWorkQue_frame: "checkWorkQue i w t = (w', t') \<Longrightarrow> newData w' = newData w \<and> newTextData w' = newTextData w \<and> du_stationid w' = du_stationid w
    \<and> du_typeid w' = du_typeid w \<and> du_obstime w' = du_obstime w \<and> tryToUseDataTbTime w' = tryToUseDataTbTime w"
  by (auto simp: checkWorkQue_def split: if_splits)

lemma replace_id: "replaceObservation env i (w\<lparr>du_observationid := k\<rparr>) t = replaceObservation env i w t"
  by (simp add: replaceObservation_def checkWorkQue_id store_id Let_def split: prod.split)

lemma merge_old_nonempty: "new \<noteq> [] \<Longrightarrow> merge_old same old new \<noteq> []"
proof -
  have "acc \<noteq> [] \<Longrightarrow> fold (\<lambda>e acc. if list_ex (same e) acc then acc else acc @ [e]) old acc \<noteq> []" for acc
    by (induction old arbitrary: acc) auto
  then show "new \<noteq> [] \<Longrightarrow> merge_old same old new \<noteq> []" by (simp add: merge_old_def)
qed

lemma update_id:
  "newData w \<noteq> [] \<or> newTextData w \<noteq> [] \<Longrightarrow> updateObservation env ob (w\<lparr>du_observationid := k\<rparr>) t = updateObservation env ob w t"
  using merge_old_nonempty [of "newData w" same_place "ob_data ob"] merge_old_nonempty [of "newTextData w" same_place_text "ob_textData ob"]
  by (auto simp: updateObservation_def checkWorkQue_id store_id Let_def split: prod.split)

text \<open>A transaction that has succeeded computes the same again, whatever it has kept of the attempt before.\<close>

lemma run_again:
  assumes "kd_clear X = kd_clear (dataToPublish u)" "newData u \<noteq> [] \<or> newTextData u \<noteq> []" "DataUpdate_run env u t = Inr (True, u', t')"
  shows "DataUpdate_run env (u\<lparr>du_observationid := i, dataToPublish := X, insertType := ty, onlyHqcData := b\<rparr>) t = Inr (True, u', t')"
proof -
  define v where "v = u\<lparr>du_observationid := i, dataToPublish := X, insertType := ty, onlyHqcData := b\<rparr>"
  define c where "c = onlyHqcDataCheck env u"
  have v: "onlyHqcDataCheck env v = c\<lparr>du_observationid := i, insertType := ty\<rparr>"
    using assms(1) by (simp add: onlyHqcDataCheck_def v_def c_def Let_def)
  have f: "newData c = newData u" "newTextData c = newTextData u" "logid c = logid u" "du_stationid c = du_stationid u" "du_typeid c = du_typeid u"
    "du_obstime c = du_obstime u" "tryToUseDataTbTime c = tryToUseDataTbTime u" "insertOrUpdate c = insertOrUpdate u" "duplicateTestType c = duplicateTestType u"
    by (simp_all add: c_def onlyHqcDataCheck_def Let_def)
  have v': "newData v = newData u" "newTextData v = newTextData u" "logid v = logid u" "du_obstime v = du_obstime u" by (simp_all add: v_def)
  let ?c = "c\<lparr>insertType := ty, du_observationid := i\<rparr>"
  have e: "isEqual env ?c o1 o2 = isEqual env c o1 o2" for o1 o2
    by (simp add: isEqual_def Let_def)
  have ok: "du_obstime u \<noteq> not_a_date_time env" "\<not> (newData u = [] \<and> newTextData u = [])"
    "\<not> (logid u \<noteq> [] \<and> (list_ex (\<lambda>d. obstime d = not_a_date_time env) (newData u) \<or> list_ex (\<lambda>d. txt_obstime d = not_a_date_time env) (newTextData u)))"
    using assms(2,3) f unfolding DataUpdate_run_def by (auto simp: Let_def c_def [symmetric] split: if_splits)
  define after where "after c old =
    (case old of
       None \<Rightarrow>
         let c = c\<lparr>insertType := INSERT\<rparr>; tb = useTbTime env (tryToUseDataTbTime c) (newData c) (newTextData c) (now env)
         in store_observation env (DbObservation_set (du_stationid c) (du_typeid c) (du_obstime c) tb (newData c) (newTextData c)) c t
     | Some ob \<Rightarrow>
         res_bind (isEqual env c (ob_data ob) (ob_textData ob)) (\<lambda>equal.
         if equal then Inr (True, c\<lparr>dataToPublish := kd_clear (dataToPublish c), insertType := DUPLICATE, du_observationid := ob_id ob\<rparr>, t)
         else if insertOrUpdate c = DbUpdate then updateObservation env ob (c\<lparr>insertType := UPDATE\<rparr>) t
         else replaceObservation env (ob_id ob) (c\<lparr>insertType := REPLACE\<rparr>) t))"
    for c :: "('a, 'b) DataUpdate" and old
  have run: "DataUpdate_run env w t = res_bind (getFromDb env (du_stationid u) (du_typeid u) (du_obstime u) t) (after (onlyHqcDataCheck env w))"
    if "newData w = newData u" "newTextData w = newTextData u" "logid w = logid u" "du_obstime w = du_obstime u" "du_stationid w = du_stationid u"
      "du_typeid w = du_typeid u" for w
  proof -
    have g: "newData (onlyHqcDataCheck env w) = newData w" "newTextData (onlyHqcDataCheck env w) = newTextData w"
      "logid (onlyHqcDataCheck env w) = logid w" "du_stationid (onlyHqcDataCheck env w) = du_stationid w" "du_typeid (onlyHqcDataCheck env w) = du_typeid w"
      "du_obstime (onlyHqcDataCheck env w) = du_obstime w" by (simp_all add: onlyHqcDataCheck_def Let_def)
    show ?thesis unfolding DataUpdate_run_def Let_def [of "onlyHqcDataCheck env w"] g that after_def
      by (simp only: if_not_P [OF ok(1)] if_not_P [OF ok(2)] if_not_P [OF ok(3)])
  qed
  have "after ?c = after c"
  proof
    fix old
    have upd: "?c\<lparr>insertType := INSERT\<rparr> = c\<lparr>insertType := INSERT, du_observationid := i\<rparr>"
      "?c\<lparr>insertType := UPDATE\<rparr> = c\<lparr>insertType := UPDATE, du_observationid := i\<rparr>"
      "?c\<lparr>insertType := REPLACE\<rparr> = c\<lparr>insertType := REPLACE, du_observationid := i\<rparr>"
      "?c\<lparr>dataToPublish := kd_clear (dataToPublish ?c), insertType := DUPLICATE, du_observationid := k\<rparr>
        = c\<lparr>dataToPublish := kd_clear (dataToPublish c), insertType := DUPLICATE, du_observationid := k\<rparr>" for k
      by simp_all
    have d: "newData (c\<lparr>insertType := UPDATE\<rparr>) \<noteq> [] \<or> newTextData (c\<lparr>insertType := UPDATE\<rparr>) \<noteq> []" using assms(2) f by simp
    have m: "insertOrUpdate ?c = insertOrUpdate c" "tryToUseDataTbTime ?c = tryToUseDataTbTime c" "newData ?c = newData c"
      "newTextData ?c = newTextData c" "du_stationid ?c = du_stationid c" "du_typeid ?c = du_typeid c" "du_obstime ?c = du_obstime c" by simp_all
    show "after ?c old = after c old"
      unfolding after_def e upd m update_id [OF d] store_id replace_id Let_def by (cases old) simp_all
  qed
  then have "DataUpdate_run env v t = DataUpdate_run env u t"
    using run [of v] run [of u] v' v by (simp add: c_def [symmetric] v_def set_type_first)
  then show ?thesis using assms(3) v_def by simp
qed

lemma pg_loop_returned:
  "pg_loop att i retry may d tr = Some y \<Longrightarrow> fst y = Returned \<Longrightarrow>
     (\<exists>j pre cb. try_body (att j) d = (cb, Inr (fst (snd y))) \<and> snd (snd y) = pre @ cb)
     \<and> (OnSuccess \<in> set (snd (snd y)) \<longrightarrow> OnSuccess \<in> set tr \<or> (\<exists>j d'. tx_body (att j) d = Inr (True, d')))"
proof (induction rule: pg_loop.raw_induct [rotated 1, consumes 1, case_names step])
  case (step pg_loop att i retry may d tr y)
  show ?case
  proof (cases "retry = 0 \<or> \<not> begins (att i)")
    case True
    then show ?thesis using step.hyps step.prems step.IH [of att "i + 1" "retry - 1" True d tr y] by (auto split: if_splits)
  next
    case False
    obtain cb o' where t: "try_body (att i) d = (cb, o')" by fastforce
    have cb: "OnSuccess \<in> set cb \<Longrightarrow> \<exists>d'. tx_body (att i) d = Inr (True, d')"
      using t by (auto simp: try_body_def split: sum.splits prod.splits bool.splits)
    show ?thesis
    proof (cases o')
      case (Inr x)
      then have "y = (Returned, x, tr @ cb)" using False t step.hyps by auto
      then show ?thesis using t Inr cb by auto
    next
      case (Inl e)
      obtain a b c where h: "pg_handle (late (att i)) retry e = (a, b, c)" by (cases "pg_handle (late (att i)) retry e") auto
      then have c: "OnSuccess \<notin> set c" by (cases e) auto
      have "pg_loop att (i + 1) a b d (tr @ cb @ c @ [OnRetry]) = Some y"
        using False t step.hyps Inl h by simp
      from step.IH [OF this step.prems] show ?thesis using c cb by auto
    qed
  qed
qed

lemma perform_update_cases:
  assumes "perform_update env exn f u t = Some (r, (t', u'), cbs)"
  shows "if r = Returned then (if OnSuccess \<in> set cbs then DataUpdate_run env u t = Inr (True, u', t') else (t', u') = (t, u)) else (t', u') = (t, u)"
proof -
  let ?att = "\<lambda>i. update_attempt env exn (f i)"
  have p: "pg_loop ?att 0 20 True (t, u) [] = Some (r, (t', u'), cbs)" using assms by (simp add: perform_update_def pg_perform_def)
  have body: "DataUpdate_run env u t = Inr (b, u1, t1)" if "tx_body (?att j) (t, u) = Inr (b, t1, u1)" for j b u1 t1
    using that by (auto simp: update_attempt_def split: sum.splits)
  show ?thesis
  proof (cases "r = Returned")
    case False
    then show ?thesis using pg_loop_result [OF p] by auto
  next
    case True
    obtain j pre cb where j: "try_body (?att j) (t, u) = (cb, Inr (t', u'))" "cbs = pre @ cb" using pg_loop_returned [OF p] True by auto
    then consider t1 u1 where "tx_body (?att j) (t, u) = Inr (True, t1, u1)" "(t', u') = (t1, u1)" "cb = [OnSuccess]"
      | t1 u1 where "tx_body (?att j) (t, u) = Inr (False, t1, u1)" "(t', u') = (t, u)"
      by (auto simp: try_body_def split: sum.splits prod.splits bool.splits option.splits)
    then show ?thesis
    proof cases
      case 1
      then show ?thesis using body [OF 1(1)] True j(2) by simp
    next
      case 2
      have "OnSuccess \<notin> set cbs"
        using pg_loop_returned [OF p] True body [OF 2(1)] body by fastforce
      then show ?thesis using 2 True by simp
    qed
  qed
qed


section \<open>Data that are stored\<close>

definition saves :: "StationFilters \<Rightarrow> 't kvData \<Rightarrow> bool" where
  "saves fs x \<longleftrightarrow> saveToDb (filter_for fs (stationID x) (typeID x))"

definition saves_text :: "StationFilters \<Rightarrow> 't kvTextData \<Rightarrow> bool" where
  "saves_text fs x \<longleftrightarrow> saveToDb (filter_for fs (txt_stationID x) (txt_typeID x))"

lemma saved_by_own_filter:
  assumes "list_all (\<lambda>d. stationID d < long_max) sd" "list_all (\<lambda>d. txt_stationID d < long_max) td"
  shows "saveDataToDb fs sd td = (filter (saves fs) sd, filter (saves_text fs) td)"
proof -
  have d: "list_all (\<lambda>d. data_place d \<noteq> (long_max, long_max)) (take 1 sd)" "list_all (\<lambda>d. text_place d \<noteq> (long_max, long_max)) (take 1 td)"
    using assms by (cases sd; cases td; auto simp: data_place_def text_place_def)+
  have s: "saves fs = (\<lambda>d. saveToDb (filter_for fs (stationID d) (typeID d)))"
    "saves_text fs = (\<lambda>d. saveToDb (filter_for fs (txt_stationID d) (txt_typeID d)))"
    by (simp_all add: fun_eq_iff saves_def saves_text_def)
  have "select_loop fs True data_place (long_max, long_max) default_filter sd = filter (saves fs) sd"
    by (subst select_loop_filter) (use d(1) in \<open>auto simp: s data_place_def Let_def\<close>)
  moreover have "select_loop fs True text_place (long_max, long_max) default_filter td = filter (saves_text fs) td"
    by (subst select_loop_filter) (use d(2) in \<open>auto simp: s text_place_def Let_def\<close>)
  ultimately show ?thesis by (simp add: saveDataToDb_def publishOrSaveData_def publishOrSaveTextData_def)
qed

text \<open>The transaction that the decoder runs for data that are stored, and the four ways of storing.\<close>

definition update_for :: "'t env \<Rightarrow> 't \<Rightarrow> int \<Rightarrow> int \<Rightarrow> 't kvData list \<Rightarrow> 't kvTextData list \<Rightarrow> string \<Rightarrow> DBAddType \<Rightarrow> bool \<Rightarrow> bool \<Rightarrow> bool
    \<Rightarrow> ('t, 'r, 'z) Decoder_scheme \<Rightarrow> ('t, 'r) DataUpdate" where
  "update_for env obt sid tid sd td lg mode work try part d =
     new_DataUpdate env obt sid tid (filter (saves (dec_filters d)) sd) (filter (saves_text (dec_filters d)) td) lg mode work try
       (if part then Partial else Complete) (useQaId tid d)"

definition stores_any :: "int \<Rightarrow> int \<Rightarrow> 't kvData list \<Rightarrow> 't kvTextData list \<Rightarrow> ('t, 'r, 'z) Decoder_scheme \<Rightarrow> bool" where
  "stores_any sid tid sd td d \<longleftrightarrow> saveToDb (filter_for (dec_filters d) sid tid)
     \<and> (filter (saves (dec_filters d)) sd \<noteq> [] \<or> filter (saves_text (dec_filters d)) td \<noteq> [])"

lemma add_nothing:
  assumes "saveDataToDb (dec_filters d) sd td = (filter (saves (dec_filters d)) sd, filter (saves_text (dec_filters d)) td)"
    "\<not> stores_any sid tid sd td d"
    "addDataToDbThrow env perform obt sid tid sd td lg mode work try part (d, t) = Some (r, d', t')"
  shows "t' = t"
proof (cases "saveToDb (filter_for (dec_filters d) sid tid)")
  case True
  then have e: "filter (saves (dec_filters d)) sd = []" "filter (saves_text (dec_filters d)) td = []" using assms(2) by (auto simp: stores_any_def)
  show ?thesis using assms(3)
    by (simp only: addDataToDbThrow_def Let_def assms(1) prod.case True e simp_thms if_True if_False) simp
qed (use assms(3) in \<open>auto simp: addDataToDbThrow_def Let_def split: if_splits\<close>)

lemma add_something:
  assumes "saveDataToDb (dec_filters d) sd td = (filter (saves (dec_filters d)) sd, filter (saves_text (dec_filters d)) td)"
    "stores_any sid tid sd td d"
    "addDataToDbThrow env perform obt sid tid sd td lg mode work try part (d, t) = Some (r, d', t')"
  shows "\<exists>q u' cbs. perform (update_for env obt sid tid sd td lg mode work try part d) t = Some (q, (t', u'), cbs)
     \<and> r = (case q of MaxRetry b \<Rightarrow> Inl b | Returned \<Rightarrow> Inr (OnSuccess \<in> set cbs))"
proof -
  have s: "saveToDb (filter_for (dec_filters d) sid tid)" "\<not> (filter (saves (dec_filters d)) sd = [] \<and> filter (saves_text (dec_filters d)) td = [])"
    using assms(2) by (auto simp: stores_any_def)
  show ?thesis using assms(3) s(1)
    unfolding addDataToDbThrow_def Let_def assms(1) prod.case if_not_P [OF s(2)] update_for_def [symmetric]
    by (auto split: option.splits prod.splits perform_result.splits if_splits)
qed


text \<open>
  C7. Storing the data of an observation, whatever fails in whatever attempt: an exception or the result false leave the
  tables as they were. The result true means that the transaction has run on the tables and is committed, for
  exactly the data whose own filter says that they are saved; or that the filter of the observation saves nothing, or no
  datum is saved, and then nothing has changed.
\<close>

theorem add_data_result_is_true:
  assumes "addDataToDbThrow env (perform_update env exn f) obt sid tid sd td lg mode work try part (d, t) = Some (r, d', t')"
    "list_all (\<lambda>d. stationID d < long_max) sd" "list_all (\<lambda>d. txt_stationID d < long_max) td"
  shows "if r = Inr True \<and> stores_any sid tid sd td d
    then \<exists>u'. DataUpdate_run env (update_for env obt sid tid sd td lg mode work try part d) t = Inr (True, u', t')
    else t' = t"
proof (cases "stores_any sid tid sd td d")
  case False
  then show ?thesis using add_nothing [OF saved_by_own_filter [OF assms(2,3)] False assms(1)] by simp
next
  case True
  obtain q u' cbs where p: "perform_update env exn f (update_for env obt sid tid sd td lg mode work try part d) t = Some (q, (t', u'), cbs)"
    and r: "r = (case q of MaxRetry b \<Rightarrow> Inl b | Returned \<Rightarrow> Inr (OnSuccess \<in> set cbs))"
    using add_something [OF saved_by_own_filter [OF assms(2,3)] True assms(1)] by blast
  show ?thesis using perform_update_cases [OF p] r True by (cases q) (auto split: if_splits)
qed

definition demo_update_attempts :: "nat \<Rightarrow> unit attempt" where
  "demo_update_attempts i = \<lparr>begins = True, reconnects = True, tx_body = (\<lambda>d. if i = 0 then Inl AbortedError else Inr (True, d)),
     commit_fails = None, rollback_fails = None, late = False\<rparr>"

definition demo_decoder :: "(nat, unit) Decoder" where
  "demo_decoder = new_Decoder ''kldecoder'' [] [] ''kldata'' []"

lemma demo_performed:
  "DataUpdate_run demo_env u t = Inr (True, u', t') \<Longrightarrow>
     perform_update demo_env (\<lambda>_. UnknownError) demo_update_attempts u t = Some (Returned, (t', u'), [OnAbort, OnRetry, OnSuccess])"
  by (simp add: perform_update_def pg_perform_def pg_loop.simps try_body_def update_attempt_def demo_update_attempts_def)

lemma demo_saves: "saves new_filters x" "saves_text new_filters y" "saveToDb (filter_for new_filters s ty)"
  by (simp_all add: saves_def saves_text_def new_filters_def filter_for_def default_filter_def)

lemma demo_update_for:
  "update_for demo_env 10 1 4 sd [] [] DbInsert True False True demo_decoder = demo_update sd DbInsert"
  by (simp add: update_for_def demo_decoder_def new_Decoder_def demo_saves new_DataUpdate_def demo_update_def useQaId_def demo_env_def
      filter_True)

theorem add_data_result_is_true_witness:
  "\<exists>d' t' u'. addDataToDbThrow demo_env (perform_update demo_env (\<lambda>_. UnknownError) demo_update_attempts) 10 1 4
      [demo_data 211 2, demo_data 262 5] [] [] DbInsert True False True (demo_decoder, demo_tables [data_row_val demo_env 7 (demo_data 211 1)])
      = Some (Inr True, d', t')
    \<and> DataUpdate_run demo_env (update_for demo_env 10 1 4 [demo_data 211 2, demo_data 262 5] [] [] DbInsert True False True demo_decoder)
        (demo_tables [data_row_val demo_env 7 (demo_data 211 1)]) = Inr (True, u', t')"
proof -
  let ?ds = "[demo_data 211 2, demo_data 262 5]" and ?t = "demo_tables [data_row_val demo_env 7 (demo_data 211 1)]"
  obtain u t where r: "DataUpdate_run demo_env (demo_update ?ds DbInsert) ?t = Inr (True, u, t)" using demo_run_values by blast
  have l: "list_all (\<lambda>d. stationID d < long_max) ?ds" "list_all (\<lambda>d. txt_stationID d < long_max) []"
    by (simp_all add: demo_data_def long_max_def)
  have f: "dec_filters demo_decoder = new_filters" by (simp add: demo_decoder_def new_Decoder_def)
  have a: "stores_any 1 4 ?ds [] demo_decoder" by (simp add: stores_any_def f demo_saves)
  have "\<exists>d'. addDataToDbThrow demo_env (perform_update demo_env (\<lambda>_. UnknownError) demo_update_attempts) 10 1 4 ?ds [] [] DbInsert True False True
      (demo_decoder, ?t) = Some (Inr True, d', t)"
    using saved_by_own_filter [OF l, of new_filters] demo_performed [OF r] demo_update_for [of ?ds]
    by (simp add: addDataToDbThrow_def f demo_saves Let_def update_for_def filter_True)
  then obtain d' where d: "addDataToDbThrow demo_env (perform_update demo_env (\<lambda>_. UnknownError) demo_update_attempts) 10 1 4 ?ds [] [] DbInsert True False True
      (demo_decoder, ?t) = Some (Inr True, d', t)" by blast
  then show ?thesis using add_data_result_is_true [OF d l] a by auto
qed

section \<open>Details\<close>

text \<open>A directory with spaces around it is read out of range, and one space keeps the slash at its end.\<close>

lemma logdir_out_of_range:
  "set_logdir '' /var '' d = None" "map_option dec_logdir (set_logdir ''/var/ '' d) = Some ''/var/''"
  by (simp_all add: set_logdir_def Let_def trimstr_def trimstr_where_def trim_front_def trim_back_def trimset_def)

text \<open>A value of a message goes into the query as it is.\<close>

lemma query_with_any_condition: "station_query ''stationid'' ''1 OR 1=1'' = ''SELECT stationid FROM station WHERE stationid=1 OR 1=1''"
  by (simp add: station_query_def)

end
