(* ===== verification/Kl_Decoder.thy ===== *)
theory Kl_Decoder
  imports Kl_Data_Props Decoder_Base
begin

text \<open>
  The decoder of the format \<^verbatim>\<open>kldata\<close>, \<^verbatim>\<open>src/lib/decoder/kldecoder/kldecoder.cc\<close>: a request with several messages is
  split, the type of the observation gives station, type and how to insert, the message is decoded by \<open>Kl_Data\<close>, and
  its values are stored time by time by \<open>Decoder_Base\<close>. What the sender is told and the log are not modelled. The clock is
  read as \<open>now\<close> of the environment. What is undefined in the source is a fault. The properties: a request is decoded
  message by message, and a message is stored time by time, each in a transaction.
\<close>

section \<open>Texts\<close>

fun find_word :: "string \<Rightarrow> string \<Rightarrow> nat option" where
  "find_word p [] = (if p = [] then Some 0 else None)"
| "find_word p (c # cs) = (if take (length p) (c # cs) = p then Some 0 else map_option Suc (find_word p cs))"

definition boost_trim :: "string \<Rightarrow> string" where
  "boost_trim s = rev (dropWhile isspace (rev (dropWhile isspace s)))"

definition quote_space :: string where
  "quote_space = [CHR 0x22, CHR '' '', CHR 0x09, CHR 0x0D, CHR 0x0A]"

definition decodeKeyVal :: "string \<Rightarrow> bool \<times> string \<times> string" where
  "decodeKeyVal keyval =
     (let (key, val) = (if CHR ''='' \<in> set keyval
            then (takeWhile (\<lambda>c. c \<noteq> CHR ''='') keyval, tl (dropWhile (\<lambda>c. c \<noteq> CHR ''='') keyval))
            else (keyval, []));
          key = trimstr key; val = trimstr_where TRIMBOTH quote_space val
      in (key \<noteq> [], key, val))"

definition removeRedirectFromObsType :: "string \<Rightarrow> string" where
  "removeRedirectFromObsType obstype =
     (case find_word ''redirected'' obstype of
        None \<Rightarrow> obstype
      | Some i \<Rightarrow> trimstr_where TRIMBOTH [CHR '' '', CHR 0x0D, CHR 0x0A, CHR ''/''] (take i obstype) @ dropWhile (\<lambda>c. c \<noteq> CHR ''/'') (drop i obstype))"

section \<open>Messages of a request\<close>

text \<open>The lines that are not read yet, the type of the next message if it is known, and how many messages have been found.\<close>

record GetObsHelper =
  in_lines :: "string list"
  gh_obstype :: string
  nMessages :: nat

definition new_GetObsHelper :: "string \<Rightarrow> string \<Rightarrow> GetObsHelper" where
  "new_GetObsHelper input obsType = \<lparr>in_lines = getlines (boost_trim input), gh_obstype = boost_trim obsType, nMessages = 0\<rparr>"

text \<open>The next line that is not empty and whether it is the type of a message, which is then remembered.\<close>

fun getLine :: "string list \<Rightarrow> string \<Rightarrow> (string \<times> bool) option \<times> string list \<times> string" where
  "getLine [] ot = (None, [], ot)"
| "getLine (l # ls) ot =
     (let line = boost_trim l in
      if line = [] then getLine ls ot
      else if find_word ''kldata'' line \<noteq> None then (Some (line, True), ls, line)
      else (Some (line, False), ls, ot))"

lemma getLine_length: "getLine ls ot = (r, ls', ot') \<Longrightarrow> length ls' \<le> length ls \<and> (r \<noteq> None \<longrightarrow> length ls' < length ls)"
  by (induction ls ot rule: getLine.induct) (auto simp: Let_def split: if_splits)

function skip_lines :: "string list \<Rightarrow> string \<Rightarrow> string list \<times> string" where
  "skip_lines ls ot =
     (case getLine ls ot of
        (None, ls', ot') \<Rightarrow> (ls', ot')
      | (Some (line, isObsType), ls', ot') \<Rightarrow> if isObsType then (ls', ot') else skip_lines ls' ot')"
  by pat_completeness auto

termination
  by (relation "measure (\<lambda>(ls, ot). length ls)", simp) (auto dest!: getLine_length [OF sym])

declare skip_lines.simps [simp del]

definition getObsType :: "GetObsHelper \<Rightarrow> string \<times> GetObsHelper" where
  "getObsType h =
     (let (ls, ot) = (if gh_obstype h = [] then skip_lines (in_lines h) (gh_obstype h) else (in_lines h, gh_obstype h))
      in (ot, h\<lparr>in_lines := ls, gh_obstype := []\<rparr>))"

function read_data :: "string list \<Rightarrow> string \<Rightarrow> string \<Rightarrow> string \<times> string list \<times> string" where
  "read_data ls ot buf =
     (case getLine ls ot of
        (None, ls', ot') \<Rightarrow> (buf, ls', ot')
      | (Some (line, isObsType), ls', ot') \<Rightarrow> if isObsType then (buf, ls', ot') else read_data ls' ot' (buf @ line @ [CHR 0x0A]))"
  by pat_completeness auto

termination
  by (relation "measure (\<lambda>(ls, ot, buf). length ls)", simp) (auto dest!: getLine_length [OF sym])

declare read_data.simps [simp del]

text \<open>Whether there is a message, its type, its text, and the helper afterwards.\<close>

definition getObs :: "GetObsHelper \<Rightarrow> bool \<times> string \<times> string \<times> GetObsHelper" where
  "getObs h =
     (case getObsType h of
        (ot, h) \<Rightarrow>
          if ot = [] then (False, ot, [], h)
          else
            (case read_data (in_lines h) (gh_obstype h) [] of
               (dat, ls, ot') \<Rightarrow>
                 let h = h\<lparr>in_lines := ls, gh_obstype := ot'\<rparr>;
                     h = (if dat \<noteq> [] then h\<lparr>nMessages := nMessages h + 1\<rparr> else h)
                 in (dat \<noteq> [], ot, dat, h)))"

definition multiMessage :: "GetObsHelper \<Rightarrow> bool" where
  "multiMessage h \<longleftrightarrow> nMessages h > 1"

section \<open>The decoder\<close>

datatype DecodeResult = Ok | NotSaved | Rejected | Error | Redirect

text \<open>
  What the source leaves undefined: a null pointer, a result that is never set, an element that is read or written out of
  range; and a transaction that does not return.
\<close>

datatype kl_fault = KlNullPointer | KlUninitialised | KlOutOfRange | KlNoReturn

record 't kvRejectdecode =
  rj_message :: string
  rj_tbtime :: 't
  rj_decoder :: string

record 't kl_world =
  kl_tables :: "'t tables"
  kl_rejects :: "'t kvRejectdecode list"

text \<open>
  The calendar and the conversion of numbers, as the table and as the decoder of messages see it, the query for
  stations, whether a rejected message can be saved, and how a transaction is run.
\<close>

record ('t, 'r) services =
  sv_env :: "'t env"
  sv_kl :: "'t kl_env"
  sv_query :: "string \<Rightarrow> unit + string option"
  sv_reject_saved :: "'t kvRejectdecode \<Rightarrow> bool"
  sv_perform :: "('t, 'r) performer"

record ('t, 'r) KlDecoder = "('t, 'r) Decoder" +
  kl_typeID :: int
  kl_stationID :: int
  stationidIn :: string
  redirectedFrom :: string
  kl_insertOrUpdate :: DBAddType
  receivedTime :: 't

definition c_int :: "int \<Rightarrow> int" where
  "c_int x = (x + 2 ^ 31) mod 2 ^ 32 - 2 ^ 31"

definition INT_MAX :: int where
  "INT_MAX = 2147483647"

subsection \<open>Type of an observation\<close>

definition station_keys :: "string list" where
  "station_keys = [''nationalnr'', ''stationid'', ''wmonr'', ''icaoid'', ''call_sign'']"

definition decode_key :: "('t, 'r) services \<Rightarrow> string \<Rightarrow> ('t, 'r) KlDecoder \<Rightarrow> ('t, 'r) KlDecoder" where
  "decode_key sv keyval d =
     (case decodeKeyVal keyval of
        (found, key, val) \<Rightarrow>
          if \<not> found then d
          else if key \<notin> set (station_keys @ [''type'', ''add'', ''received_time'', ''redirected'']) then d
          else if val = [] \<and> key \<noteq> ''add'' then d
          else if key = ''add'' then (if val = [] \<or> hd val = CHR ''t'' \<or> hd val = CHR ''T'' then d\<lparr>kl_insertOrUpdate := DbUpdate\<rparr> else d)
          else if key = ''received_time'' then d\<lparr>receivedTime := time_from_string_nothrow (sv_kl sv) val\<rparr>
          else if key = ''redirected'' then d\<lparr>redirectedFrom := val\<rparr>
          else if key = ''type'' then d\<lparr>kl_typeID := atoi val\<rparr>
          else
            let sid = c_int (getStationId (sv_query sv) key val); d = d\<lparr>stationidIn := key @ ''='' @ val\<rparr>
            in if sid < 0 then d\<lparr>kl_stationID := INT_MAX\<rparr> else d\<lparr>kl_stationID := sid\<rparr>)"

definition decodeObsType :: "('t, 'r) services \<Rightarrow> string \<Rightarrow> ('t, 'r) KlDecoder \<Rightarrow> kl_fault + ('t, 'r) KlDecoder" where
  "decodeObsType sv obstype d =
     (case comma_init_char obstype (CHR ''/'') of
        None \<Rightarrow> Inl KlOutOfRange
      | Some cstr \<Rightarrow>
          let d = d\<lparr>kl_typeID := INT_MAX, kl_stationID := INT_MAX, kl_insertOrUpdate := DbInsert,
                    receivedTime := kl_not_a_date_time (sv_kl sv)\<rparr>
          in Inr (if length cstr < 2 then d else fold (decode_key sv) (map elem_str (tl cstr)) d))"

definition new_KlDecoder :: "('t, 'r) services \<Rightarrow> ParamList \<Rightarrow> kvTypes list \<Rightarrow> string \<Rightarrow> string \<Rightarrow> kl_fault + ('t, 'r) KlDecoder" where
  "new_KlDecoder sv params types obsType obs =
     decodeObsType sv obsType
       (Decoder.extend (new_Decoder ''KlDataDecoder'' params types obsType obs)
          \<lparr>kl_typeID = INT_MAX, kl_stationID = INT_MAX, stationidIn = [], redirectedFrom = [], kl_insertOrUpdate = DbInsert,
           receivedTime = kl_not_a_date_time (sv_kl sv)\<rparr>)"

definition getSetUsinfo7 :: "('t, 'r) KlDecoder \<Rightarrow> kl_fault + bool" where
  "getSetUsinfo7 d =
     (case myConfSection d of
        None \<Rightarrow> Inl KlNullPointer
      | Some conf \<Rightarrow>
          let val = elems (getValue conf ''set_useinfo7'') in
          Inr (val \<noteq> [] \<and> (let v = vtext (hd val) in v \<noteq> [] \<and> (hd v = CHR ''t'' \<or> hd v = CHR ''T''))))"

subsection \<open>Rejected messages\<close>

definition kl_rejected :: "('t, 'r) services \<Rightarrow> bool \<Rightarrow> ('t, 'r) KlDecoder \<times> 't kl_world \<Rightarrow> DecodeResult \<times> ('t, 'r) KlDecoder \<times> 't kl_world" where
  "kl_rejected sv includeObs s =
     (case s of (d, w) \<Rightarrow>
        let row = \<lparr>rj_message = dec_obsType d @ (if includeObs then [CHR 0x0A] @ dec_obs d else []),
                   rj_tbtime = now (sv_env sv), rj_decoder = dec_name d\<rparr>
        in (Rejected, d, if sv_reject_saved sv row then w\<lparr>kl_rejects := kl_rejects w @ [row]\<rparr> else w))"

subsection \<open>Storing\<close>

fun insert_data_loop :: "('t::linorder, 'r) services \<Rightarrow> int \<Rightarrow> int \<Rightarrow> string \<Rightarrow> DBAddType \<Rightarrow> bool \<Rightarrow> ('t, 't kvData) by_obstime
    \<Rightarrow> ('t, 't kvTextData) by_obstime \<Rightarrow> ('t, 'r) KlDecoder \<times> 't tables
    \<Rightarrow> kl_fault + DecodeResult option \<times> ('t, 't kvTextData) by_obstime \<times> ('t, 'r) KlDecoder \<times> 't tables" where
  "insert_data_loop sv sid tid lg mode work [] txts s = Inr (None, txts, s)"
| "insert_data_loop sv sid tid lg mode work ((obt, ds) # dat) txts s =
     (let td = smap_at [] txts obt; txts = smap_del obt txts in
      case addDataToDbThrow (sv_env sv) (sv_perform sv) obt sid tid ds td lg mode work False True s of
        None \<Rightarrow> Inl KlNoReturn
      | Some (Inl mayRecover, s) \<Rightarrow> Inr (Some (if mayRecover then NotSaved else Rejected), txts, s)
      | Some (Inr False, s) \<Rightarrow> Inr (Some Rejected, txts, s)
      | Some (Inr True, s) \<Rightarrow> insert_data_loop sv sid tid lg mode work dat txts s)"

fun insert_text_loop :: "('t::linorder, 'r) services \<Rightarrow> int \<Rightarrow> int \<Rightarrow> string \<Rightarrow> DBAddType \<Rightarrow> bool \<Rightarrow> ('t, 't kvTextData) by_obstime
    \<Rightarrow> ('t, 'r) KlDecoder \<times> 't tables \<Rightarrow> kl_fault + DecodeResult \<times> ('t, 'r) KlDecoder \<times> 't tables" where
  "insert_text_loop sv sid tid lg mode work [] s = Inr (Ok, s)"
| "insert_text_loop sv sid tid lg mode work ((obt, td) # txts) s =
     (case addDataToDb (sv_env sv) (sv_perform sv) obt sid tid [] td lg mode work False True s of
        None \<Rightarrow> Inl KlNoReturn
      | Some (False, s) \<Rightarrow> Inr (NotSaved, s)
      | Some (True, s) \<Rightarrow> insert_text_loop sv sid tid lg mode work txts s)"

definition insertDataInDb :: "('t::linorder, 'r) services \<Rightarrow> ('t, 'r) KvalobsData \<Rightarrow> int \<Rightarrow> int \<Rightarrow> string
    \<Rightarrow> ('t, 'r) KlDecoder \<times> 't tables \<Rightarrow> kl_fault + DecodeResult \<times> ('t, 'r) KlDecoder \<times> 't tables" where
  "insertDataInDb sv theData sid tid lg s =
     (case (kc_text_of (Some theData) sid tid (now (sv_env sv)) True, kc_data_of (Some theData) sid tid (now (sv_env sv)) True) of
        (Some (n, txts), Some (k, dat)) \<Rightarrow>
          if int n + int k < 0 then Inr (Ok, s)
          else
            let f = filter_for (dec_filters (fst s)) sid tid; mode = kl_insertOrUpdate (fst s) in
            res_bind (insert_data_loop sv sid tid lg mode (addToWokque f) dat txts s) (\<lambda>(r, txts, s).
              case r of
                Some r \<Rightarrow> Inr (r, s)
              | None \<Rightarrow> insert_text_loop sv sid tid lg mode (addToWokque f) txts s)
      | _ \<Rightarrow> Inl KlNullPointer)"

definition idlog :: "int \<Rightarrow> int \<Rightarrow> string" where
  "idlog sid tid = ''n'' @ show_int sid @ ''-t'' @ show_int tid"

definition doExecute :: "('t::linorder, 'r) services \<Rightarrow> ('t, 'r) KlDecoder \<times> 't kl_world
    \<Rightarrow> kl_fault + DecodeResult \<times> ('t, 'r) KlDecoder \<times> 't kl_world" where
  "doExecute sv s =
     (case s of (d, w) \<Rightarrow>
        res_bind (getSetUsinfo7 d) (\<lambda>setUsinfo7.
          let tid = kl_typeID d; sid = kl_stationID d in
          if sid = INT_MAX then Inr (kl_rejected sv False (d, w))
          else if tid < 0 \<or> tid = INT_MAX then Inr (kl_rejected sv False (d, w))
          else
            let d = (if kl_is_special (sv_kl sv) (receivedTime d) \<and> setUsinfo7 then d\<lparr>receivedTime := now (sv_env sv)\<rparr> else d);
                lg = idlog sid tid;
                d = d\<lparr>dec_obs := trimstr (dec_obs d) @ [CHR 0x0A]\<rparr>
            in (case decodeData (sv_kl sv) (dec_params d) (dec_types d) (dec_obs d) sid tid (receivedTime d) of
                  Inl ReadOutOfRange \<Rightarrow> Inl KlOutOfRange
                | Inl e \<Rightarrow> Inr (kl_rejected sv True (d, w))
                | Inr (kvData, warnings) \<Rightarrow>
                    res_bind (insertDataInDb sv kvData sid tid lg (d, kl_tables w)) (\<lambda>(r, d, t). Inr (r, d, w\<lparr>kl_tables := t\<rparr>)))))"

text \<open>
  The loop over the messages of a request. An error ends it, but only after the next message has been taken from the
  helper; the result of the last message that was decoded, if there was one, and whether there was an error.
\<close>

lemma skip_lines_length: "length (fst (skip_lines ls ot)) \<le> length ls"
proof (induction ls ot rule: skip_lines.induct)
  case (1 ls ot)
  obtain r ls' ot' where g: "getLine ls ot = (r, ls', ot')" by (cases "getLine ls ot") auto
  then have l: "length ls' \<le> length ls" using getLine_length by blast
  show ?case using 1 g l by (subst skip_lines.simps) (fastforce split: option.splits prod.splits)
qed

lemma read_data_length:
  "read_data ls ot buf = (buf', ls', ot') \<Longrightarrow> length ls' \<le> length ls \<and> (buf' \<noteq> buf \<longrightarrow> length ls' < length ls)"
proof (induction ls ot buf rule: read_data.induct)
  case (1 ls ot buf)
  obtain r ls1 ot1 where g: "getLine ls ot = (r, ls1, ot1)" by (cases "getLine ls ot") auto
  note l = getLine_length [OF g]
  show ?case using 1 g l by (subst (asm) (2) read_data.simps) (fastforce split: option.splits prod.splits if_splits)
qed

lemma getObs_length: "getObs h = (True, ot, dat, h') \<Longrightarrow> length (in_lines h') < length (in_lines h)"
proof -
  assume a: "getObs h = (True, ot, dat, h')"
  obtain o1 h1 where t: "getObsType h = (o1, h1)" by fastforce
  have "length (in_lines h1) \<le> length (in_lines h)"
    using t skip_lines_length [of "in_lines h" "gh_obstype h"] by (auto simp: getObsType_def split: prod.splits if_splits)
  moreover have "length (in_lines h') < length (in_lines h1)"
    using a t read_data_length [of "in_lines h1" "gh_obstype h1" "[]"] by (auto simp: getObs_def Let_def split: prod.splits if_splits)
  ultimately show ?thesis by simp
qed

function execute_loop :: "('t::linorder, 'r) services \<Rightarrow> GetObsHelper \<Rightarrow> bool \<Rightarrow> DecodeResult option \<Rightarrow> ('t, 'r) KlDecoder \<times> 't kl_world
    \<Rightarrow> kl_fault + DecodeResult option \<times> bool \<times> GetObsHelper \<times> ('t, 'r) KlDecoder \<times> 't kl_world" where
  "execute_loop sv h err ret s =
     (case getObs h of
        (found, ot, dat, h') \<Rightarrow>
          let d = (fst s)\<lparr>dec_obsType := ot, dec_obs := dat\<rparr>; w = snd s in
          if found \<and> \<not> err then
            res_bind (decodeObsType sv ot d) (\<lambda>d.
            res_bind (doExecute sv (d\<lparr>dec_obsType := removeRedirectFromObsType (dec_obsType d)\<rparr>, w)) (\<lambda>(r, s).
            execute_loop sv h' (r = NotSaved \<or> r = Error) (Some r) s))
          else Inr (ret, err, h', d, w))"
  by pat_completeness auto

termination
  by (relation "measure (\<lambda>(sv, h, err, ret, s). length (in_lines h))", simp) (auto dest!: getObs_length [OF sym])

declare execute_loop.simps [simp del]

definition execute :: "('t::linorder, 'r) services \<Rightarrow> ('t, 'r) KlDecoder \<times> 't kl_world
    \<Rightarrow> kl_fault + DecodeResult \<times> ('t, 'r) KlDecoder \<times> 't kl_world" where
  "execute sv s =
     res_bind (execute_loop sv (new_GetObsHelper (dec_obs (fst s)) (dec_obsType (fst s))) False None s) (\<lambda>(ret, err, h, s).
       if err \<or> \<not> multiMessage h then (case ret of None \<Rightarrow> Inl KlUninitialised | Some r \<Rightarrow> Inr (r, s))
       else Inr (Ok, s))"

section \<open>Requests with several messages\<close>

text \<open>A request: for each message the line with its type, and its lines of data.\<close>

definition plain_line :: "string \<Rightarrow> bool" where
  "plain_line l \<longleftrightarrow> l \<noteq> [] \<and> \<not> isspace (hd l) \<and> \<not> isspace (last l) \<and> no_break l"

definition type_line :: "string \<Rightarrow> bool" where
  "type_line l \<longleftrightarrow> plain_line l \<and> find_word ''kldata'' l \<noteq> None"

definition data_line :: "string \<Rightarrow> bool" where
  "data_line l \<longleftrightarrow> plain_line l \<and> find_word ''kldata'' l = None"

definition request_ok :: "(string \<times> string list) list \<Rightarrow> bool" where
  "request_ok ms \<longleftrightarrow> list_all (\<lambda>(ot, ls). type_line ot \<and> ls \<noteq> [] \<and> list_all data_line ls) ms"

definition join_lines :: "string list \<Rightarrow> string" where
  "join_lines ls = concat (map (\<lambda>l. l @ [CHR 0x0A]) ls)"

definition request_lines :: "(string \<times> string list) list \<Rightarrow> string list" where
  "request_lines ms = concat (map (\<lambda>(ot, ls). ot # ls) ms)"

definition request_text :: "(string \<times> string list) list \<Rightarrow> string" where
  "request_text ms = join_lines (request_lines ms)"

lemma boost_trim_plain: "s \<noteq> [] \<Longrightarrow> \<not> isspace (hd s) \<Longrightarrow> \<not> isspace (last s) \<Longrightarrow> boost_trim s = s \<and> boost_trim (s @ [CHR 0x0A]) = s"
proof -
  assume a: "s \<noteq> []" "\<not> isspace (hd s)" "\<not> isspace (last s)"
  have "dropWhile isspace s = s" "dropWhile isspace (s @ [CHR 0x0A]) = s @ [CHR 0x0A]" using a by (cases s; simp)+
  moreover have "dropWhile isspace (rev s) = rev s" using a by (cases s rule: rev_cases) simp_all
  moreover have "isspace (CHR 0x0A)" by (simp add: isspace_def)
  ultimately show ?thesis by (simp add: boost_trim_def)
qed

lemma getlines_last: "list_all no_break ls \<Longrightarrow> no_break l \<Longrightarrow> l \<noteq> [] \<Longrightarrow> getlines (join_lines ls @ l) = ls @ [l]"
proof (induction ls)
  case Nil
  then have "takeWhile (\<lambda>c. c \<noteq> CHR 0x0A) l = l" "dropWhile (\<lambda>c. c \<noteq> CHR 0x0A) l = []"
    by (auto simp: no_break_def takeWhile_eq_all_conv dropWhile_eq_Nil_conv)
  then show ?case using Nil by (simp add: join_lines_def getlines.simps del: dropWhile_eq_Nil_conv)
next
  case (Cons x ls)
  have t: "takeWhile (\<lambda>c. c \<noteq> CHR 0x0A) (x @ CHR 0x0A # r) = x" for r using Cons.prems by (intro takeWhile_until) (simp add: no_break_def)
  have "dropWhile (\<lambda>c. c \<noteq> CHR 0x0A) (x @ CHR 0x0A # r) = CHR 0x0A # r" for r
    by (rule trans [OF dropWhile_prefix]) (use Cons.prems in \<open>auto simp: no_break_def\<close>)
  note t = t this
  then show ?case using Cons t by (subst getlines.simps) (simp add: join_lines_def)
qed

lemma getlines_trimmed:
  assumes "ls \<noteq> []" "list_all plain_line ls"
  shows "getlines (boost_trim (join_lines ls)) = ls"
proof -
  let ?t = "join_lines (butlast ls) @ last ls"
  have p: "\<forall>l \<in> set ls. plain_line l" using assms by (simp add: list_all_iff)
  then have l: "plain_line (last ls)" "plain_line (hd ls)" using assms(1) by auto
  have j: "join_lines ls = ?t @ [CHR 0x0A]"
    using arg_cong [OF append_butlast_last_id [OF assms(1), symmetric], of join_lines] by (simp add: join_lines_def)
  have "hd ?t = hd (hd ls)"
    using assms(1) l by (cases ls) (auto simp: join_lines_def plain_line_def split: if_splits)
  then have "boost_trim (join_lines ls) = ?t"
    unfolding j using boost_trim_plain [of ?t] l by (auto simp: plain_line_def)
  moreover have "list_all no_break (butlast ls)" using p by (auto simp: list_all_iff plain_line_def dest: in_set_butlastD)
  then have "getlines ?t = butlast ls @ [last ls]" using getlines_last l by (simp add: plain_line_def)
  ultimately show ?thesis using assms(1) by simp
qed

lemma getLine_plain:
  "type_line l \<Longrightarrow> getLine (l # ls) ot = (Some (l, True), ls, l)" "data_line l \<Longrightarrow> getLine (l # ls) ot = (Some (l, False), ls, ot)"
  by (auto simp: type_line_def data_line_def plain_line_def boost_trim_plain Let_def)

lemma read_data_lines:
  assumes "list_all data_line ls" "rest \<noteq> [] \<Longrightarrow> type_line (hd rest)"
  shows "read_data (ls @ rest) ot buf = (buf @ join_lines ls, tl rest, if rest = [] then ot else hd rest)"
  using assms(1)
proof (induction ls arbitrary: buf)
  case Nil
  show ?case using assms(2) by (cases rest) (simp_all add: read_data.simps getLine_plain join_lines_def del: getLine.simps(2))
next
  case (Cons l ls)
  then show ?case by (subst read_data.simps) (simp add: getLine_plain join_lines_def del: getLine.simps(2))
qed

text \<open>The helper before a list of messages.\<close>

fun before :: "(string \<times> string list) list \<Rightarrow> nat \<Rightarrow> GetObsHelper" where
  "before [] n = \<lparr>in_lines = [], gh_obstype = [], nMessages = n\<rparr>"
| "before ((ot, ls) # ms) n = \<lparr>in_lines = ls @ request_lines ms, gh_obstype = ot, nMessages = n\<rparr>"

lemma getObs_end: "getObs (before [] n) = (False, [], [], before [] n)"
  by (simp add: getObs_def getObsType_def skip_lines.simps)

lemma getObs_next:
  assumes "request_ok ((ot, ls) # ms)"
  shows "getObs (before ((ot, ls) # ms) n) = (True, ot, join_lines ls, before ms (n + 1))"
proof -
  have l: "list_all data_line ls" "ls \<noteq> []" "type_line ot" using assms by (auto simp: request_ok_def)
  have r: "request_lines ms \<noteq> [] \<Longrightarrow> type_line (hd (request_lines ms))" using assms by (cases ms) (auto simp: request_ok_def request_lines_def)
  have ot: "ot \<noteq> []" "join_lines ls \<noteq> []" using l by (auto simp: type_line_def plain_line_def join_lines_def neq_Nil_conv)
  have "\<lparr>in_lines = tl (request_lines ms), gh_obstype = (if request_lines ms = [] then [] else hd (request_lines ms)), nMessages = n + 1\<rparr>
      = before ms (n + 1)"
    by (cases ms) (auto simp: request_lines_def split: prod.splits)
  then show ?thesis using ot read_data_lines [OF l(1) r, of "[]" "[]"] by (simp add: getObs_def getObsType_def)
qed

lemma getObs_start:
  assumes "request_ok ms" "ms \<noteq> []"
  shows "getObs (new_GetObsHelper (request_text ms) []) = getObs (before ms 0)"
proof -
  have p: "list_all plain_line (request_lines ms)" "request_lines ms \<noteq> []"
    using assms by (auto simp: request_ok_def request_lines_def list_all_iff type_line_def data_line_def neq_Nil_conv)
  obtain ot ls ms' where ms: "ms = (ot, ls) # ms'" using assms(2) by (cases ms) auto
  have "type_line ot" using assms(1) ms by (simp add: request_ok_def)
  then have "getLine (request_lines ms) [] = (Some (ot, True), ls @ request_lines ms', ot)"
    by (simp add: ms request_lines_def getLine_plain del: getLine.simps(2))
  moreover have "ot \<noteq> []" using \<open>type_line ot\<close> by (auto simp: type_line_def plain_line_def)
  moreover have "boost_trim [] = []" by (simp add: boost_trim_def)
  ultimately show ?thesis
    using getlines_trimmed [OF p(2,1)]
    by (simp add: new_GetObsHelper_def request_text_def getObs_def getObsType_def skip_lines.simps ms del: getLine.simps(2))
qed

text \<open>One message of a request, and the messages of a request in turn: an error ends the request.\<close>

definition one_message :: "('t::linorder, 'r) services \<Rightarrow> string \<times> string list \<Rightarrow> ('t, 'r) KlDecoder \<times> 't kl_world
    \<Rightarrow> kl_fault + DecodeResult \<times> ('t, 'r) KlDecoder \<times> 't kl_world" where
  "one_message sv m s =
     res_bind (decodeObsType sv (fst m) ((fst s)\<lparr>dec_obsType := fst m, dec_obs := join_lines (snd m)\<rparr>)) (\<lambda>d.
       doExecute sv (d\<lparr>dec_obsType := removeRedirectFromObsType (dec_obsType d)\<rparr>, snd s))"

fun run_messages :: "('t::linorder, 'r) services \<Rightarrow> (string \<times> string list) list \<Rightarrow> DecodeResult option \<Rightarrow> ('t, 'r) KlDecoder \<times> 't kl_world
    \<Rightarrow> kl_fault + DecodeResult option \<times> bool \<times> 't kl_world" where
  "run_messages sv [] ret s = Inr (ret, False, snd s)"
| "run_messages sv (m # ms) ret s =
     res_bind (one_message sv m s) (\<lambda>(r, s).
       if r = NotSaved \<or> r = Error then Inr (Some r, True, snd s) else run_messages sv ms (Some r) s)"

lemma execute_loop_next:
  assumes "request_ok ((ot, ls) # ms)"
  shows "execute_loop sv (before ((ot, ls) # ms) n) False ret s =
    res_bind (one_message sv (ot, ls) s) (\<lambda>(r, s). execute_loop sv (before ms (n + 1)) (r = NotSaved \<or> r = Error) (Some r) s)"
  by (subst execute_loop.simps)
    (simp add: getObs_next [OF assms] one_message_def res_bind_def Let_def del: before.simps split: sum.split)

lemma execute_loop_error: "\<exists>h1 d. execute_loop sv h True ret s = Inr (ret, True, h1, d, snd s)"
proof -
  obtain x a b c where "getObs h = (x, a, b, c)" by (cases "getObs h") auto
  then show ?thesis by (subst execute_loop.simps) simp
qed

lemma execute_loop_messages:
  "request_ok ms \<Longrightarrow>
     (case execute_loop sv (before ms n) False ret s of
        Inl e \<Rightarrow> run_messages sv ms ret s = Inl e
      | Inr (ret', err, h, s') \<Rightarrow> run_messages sv ms ret s = Inr (ret', err, snd s') \<and> (\<not> err \<longrightarrow> nMessages h = n + length ms))"
proof (induction ms arbitrary: n ret s)
  case Nil
  have "\<exists>d. execute_loop sv (before [] n) False ret s = Inr (ret, False, before [] n, d, snd s)"
    by (subst execute_loop.simps) (simp add: getObs_end del: before.simps)
  then show ?case by auto
next
  case (Cons m ms)
  obtain ot ls where m: "m = (ot, ls)" by fastforce
  have ok: "request_ok ms" "request_ok ((ot, ls) # ms)" using Cons.prems m by (simp_all add: request_ok_def)
  note e = execute_loop_next [OF ok(2), of sv n ret s]
  show ?case
  proof (cases "one_message sv m s")
    case (Inl a)
    then show ?thesis unfolding m e by (simp add: m)
  next
    case (Inr b)
    obtain r s' where b: "b = (r, s')" by (cases b)
    show ?thesis
    proof (cases "r = NotSaved \<or> r = Error")
      case True
      obtain h d where "execute_loop sv (before ms (n + 1)) True (Some r) s' = Inr (Some r, True, h, d, snd s')"
        using execute_loop_error by blast
      then show ?thesis using Inr True unfolding m e by (simp add: m b)
    next
      case False
      then show ?thesis using Inr Cons.IH [OF ok(1), where n = "n + 1" and ret = "Some r" and s = s'] unfolding m e
        by (auto simp: m b split: sum.splits prod.splits)
    qed
  qed
qed


section \<open>Storing time by time\<close>

text \<open>The groups of a message that are stored one after the other: the values of a time with its texts, then the other texts.\<close>

type_synonym 't data_group = "'t \<times> 't kvData list \<times> 't kvTextData list"

definition groups_of :: "('t, 't kvData) by_obstime \<Rightarrow> ('t, 't kvTextData) by_obstime \<Rightarrow> 't data_group list" where
  "groups_of dat txts = map (\<lambda>(t, ds). (t, ds, smap_at [] txts t)) dat
     @ map (\<lambda>(t, ts). (t, [], ts)) (filter (\<lambda>(t, ts). t \<notin> fst ` set dat) txts)"

definition message_groups :: "('t::linorder, 'r) KvalobsData \<Rightarrow> 't \<Rightarrow> int \<Rightarrow> int \<Rightarrow> 't data_group list" where
  "message_groups kd tb sid tid =
     (case (kc_data_of (Some kd) sid tid tb True, kc_text_of (Some kd) sid tid tb True) of
        (Some (n, dat), Some (k, txts)) \<Rightarrow> groups_of dat txts
      | _ \<Rightarrow> [])"

definition group_update :: "'t env \<Rightarrow> int \<Rightarrow> int \<Rightarrow> string \<Rightarrow> DBAddType \<Rightarrow> bool \<Rightarrow> ('t, 'r, 'z) Decoder_scheme \<Rightarrow> 't data_group
    \<Rightarrow> ('t, 'r) DataUpdate" where
  "group_update env sid tid lg mode work d g =
     (case g of (t, ds, ts) \<Rightarrow> new_DataUpdate env t sid tid ds ts lg mode work False Partial (useQaId tid d))"

lemma group_update_cong: "useQaId tid d = useQaId tid e \<Longrightarrow> group_update env sid tid lg mode work d = group_update env sid tid lg mode work e"
  by (simp add: group_update_def fun_eq_iff)

text \<open>Transactions that are all committed, one after the other.\<close>

fun stored_in_turn :: "'t::linorder env \<Rightarrow> ('t, 'r) DataUpdate list \<Rightarrow> 't tables \<Rightarrow> 't tables \<Rightarrow> bool" where
  "stored_in_turn env [] t t' \<longleftrightarrow> t' = t"
| "stored_in_turn env (u # us) t t' \<longleftrightarrow>
     (case DataUpdate_run env u t of Inr (True, u1, t1) \<Rightarrow> stored_in_turn env us t1 t' | _ \<Rightarrow> False)"

lemma stored_in_turn_append:
  "stored_in_turn env (us @ vs) t t' \<longleftrightarrow> (\<exists>t1. stored_in_turn env us t t1 \<and> stored_in_turn env vs t1 t')"
  by (induction us arbitrary: t) (auto split: sum.split bool.split)

text \<open>Storing does not change the filters and the identity for the quality control.\<close>

lemma useQaId_frame: "useQaId x (d\<lparr>decodedData := a\<rparr>) = useQaId x d" "useQaId x (d\<lparr>toPublish := b\<rparr>) = useQaId x d"
  by (simp_all add: useQaId_def split: option.split)

lemma publish_frame:
  "dec_filters (snd (dataToPublish_of env sd td d)) = dec_filters d" "useQaId x (snd (dataToPublish_of env sd td d)) = useQaId x d"
  by (simp_all add: dataToPublish_of_def useQaId_frame Let_def split: prod.split)

lemma add_data_frame:
  assumes "addDataToDbThrow env perform obt sid tid ds ts lg mode work try part (d, t) = Some (r, d', t')"
  shows "dec_filters d' = dec_filters d \<and> useQaId x d' = useQaId x d"
proof -
  obtain sd td where s: "saveDataToDb (dec_filters d) ds ts = (sd, td)" by (cases "saveDataToDb (dec_filters d) ds ts")
  let ?f = "filter_for (dec_filters d) sid tid"
  show ?thesis
  proof (cases "saveToDb ?f")
    case False
    then show ?thesis using assms by (cases "f_publish ?f") (auto simp: addDataToDbThrow_def publish_frame)
  next
    case True
    show ?thesis
    proof (cases "sd = [] \<and> td = []")
      case True
      then show ?thesis using assms \<open>saveToDb ?f\<close> by (simp add: addDataToDbThrow_def s)
    next
      case False
      have r: "addDataToDbThrow env perform obt sid tid ds ts lg mode work try part (d, t) =
          (case perform (new_DataUpdate env obt sid tid sd td lg mode work try (if part then Partial else Complete) (useQaId tid d)) t of
             None \<Rightarrow> None
           | Some (MaxRetry mayRecover, (t, u), callbacks) \<Rightarrow> Some (Inl mayRecover, d, t)
           | Some (Returned, (t, u), callbacks) \<Rightarrow>
               let ok = (OnSuccess \<in> set callbacks);
                   d = d\<lparr>decodedData := decodedData d @ [new_KvalobsData (not_a_date_time env)]\<rparr>;
                   d = (if ok \<and> \<not> kd_empty (dataToPublish u) \<and> f_publish ?f then d\<lparr>toPublish := toPublish d @ [dataToPublish u]\<rparr> else d)
               in Some (Inr ok, d, t))"
        unfolding addDataToDbThrow_def Let_def prod.case s if_not_P [OF False] by (simp add: True)
      show ?thesis using assms unfolding r
        by (auto simp: Let_def useQaId_frame split: option.split_asm prod.split_asm perform_result.split_asm if_split_asm)
    qed
  qed
qed

definition own_group :: "int \<Rightarrow> int \<Rightarrow> 't data_group \<Rightarrow> bool" where
  "own_group sid tid g \<longleftrightarrow> (case g of (t, ds, ts) \<Rightarrow> (ds \<noteq> [] \<or> ts \<noteq> []) \<and> list_all (\<lambda>x. stationID x = sid \<and> typeID x = tid) ds
     \<and> list_all (\<lambda>x. txt_stationID x = sid \<and> txt_typeID x = tid) ts)"

lemma store_group:
  assumes "addDataToDbThrow env (perform_update env exn f) obt sid tid ds ts lg mode work False True (d, t) = Some (r, d', t')"
    "own_group sid tid (obt, ds, ts)" "sid < long_max" "saveToDb (filter_for (dec_filters d) sid tid)"
  shows "if r = Inr True then stored_in_turn env [group_update env sid tid lg mode work d (obt, ds, ts)] t t' else t' = t"
proof -
  have s: "filter (saves (dec_filters d)) ds = ds" "filter (saves_text (dec_filters d)) ts = ts"
    using assms(2,4) by (auto simp: own_group_def list_all_iff saves_def saves_text_def intro!: filter_True)
  have any: "stores_any sid tid ds ts d" using assms(2,4) s by (auto simp: stores_any_def own_group_def)
  have l: "list_all (\<lambda>d. stationID d < long_max) ds" "list_all (\<lambda>d. txt_stationID d < long_max) ts"
    using assms(2,3) by (auto simp: own_group_def list_all_iff)
  obtain q u' cbs where p: "perform_update env exn f (update_for env obt sid tid ds ts lg mode work False True d) t = Some (q, (t', u'), cbs)"
    and r: "r = (case q of MaxRetry b \<Rightarrow> Inl b | Returned \<Rightarrow> Inr (OnSuccess \<in> set cbs))"
    using add_something [OF saved_by_own_filter [OF l] any assms(1)] by blast
  have "update_for env obt sid tid ds ts lg mode work False True d = group_update env sid tid lg mode work d (obt, ds, ts)"
    by (simp add: update_for_def group_update_def s)
  then show ?thesis using perform_update_cases [OF p] r by (cases q) (auto split: if_splits)
qed

lemma insert_data_loop_stored:
  assumes "sv_perform sv = perform_update (sv_env sv) exn f" "sid < long_max"
  shows "insert_data_loop sv sid tid lg mode work dat txts (d, t) = Inr (ro, txts', d', t') \<Longrightarrow> distinct (map fst dat) \<Longrightarrow>
     list_all (own_group sid tid) (map (\<lambda>(t, ds). (t, ds, smap_at [] txts t)) dat) \<Longrightarrow> saveToDb (filter_for (dec_filters d) sid tid) \<Longrightarrow>
     dec_filters d' = dec_filters d \<and> useQaId tid d' = useQaId tid d \<and>
     (\<exists>n \<le> length dat. stored_in_turn (sv_env sv) (map (group_update (sv_env sv) sid tid lg mode work d)
          (take n (map (\<lambda>(t, ds). (t, ds, smap_at [] txts t)) dat))) t t'
        \<and> (case ro of None \<Rightarrow> n = length dat \<and> txts' = filter (\<lambda>(t, ts). t \<notin> fst ` set dat) txts | Some r \<Rightarrow> n < length dat \<and> r \<noteq> Ok))"
proof (induction dat arbitrary: txts d t)
  case Nil
  then show ?case by (auto simp: case_prod_unfold)
next
  case (Cons e dat)
  obtain obt ds where e: "e = (obt, ds)" by fastforce
  note C = Cons.prems [unfolded e]
  let ?g = "(obt, ds, smap_at [] txts obt)" and ?q = "useQaId tid d"
  let ?up = "group_update (sv_env sv) sid tid lg mode work d" and ?del = "smap_del obt txts"
  obtain r1 d1 t1 where a: "addDataToDbThrow (sv_env sv) (sv_perform sv) obt sid tid ds (smap_at [] txts obt) lg mode work False True (d, t) = Some (r1, d1, t1)"
    using C(1) by (auto simp: Let_def split: option.splits)
  have g: "own_group sid tid ?g" using C(3) by simp
  note f = add_data_frame [OF a]
  note st = store_group [OF a [unfolded assms(1)] g assms(2) C(4)]
  show ?case
  proof (cases "r1 = Inr True")
    case False
    then have "t1 = t" "\<exists>r. ro = Some r \<and> r \<noteq> Ok" "d' = d1" "t' = t1"
      using C(1) a st by (auto simp: Let_def split: sum.splits bool.splits if_splits)
    then show ?thesis using f by (intro conjI exI [of _ 0]) (auto simp: e)
  next
    case True
    have del: "smap_at [] ?del k = smap_at [] txts k" if "k \<in> fst ` set dat" for k
      using that C(2) by (auto simp: smap_at_def)
    then have m: "map (\<lambda>(t, ds). (t, ds, smap_at [] ?del t)) dat = map (\<lambda>(t, ds). (t, ds, smap_at [] txts t)) dat"
      by (intro map_cong refl) (use del in force)
    have l: "insert_data_loop sv sid tid lg mode work dat ?del (d1, t1) = Inr (ro, txts', d', t')"
      using C(1) a True by (simp add: Let_def)
    have "dec_filters d' = dec_filters d1 \<and> useQaId tid d' = useQaId tid d1 \<and>
     (\<exists>n \<le> length dat. stored_in_turn (sv_env sv) (map (group_update (sv_env sv) sid tid lg mode work d1)
          (take n (map (\<lambda>(t, ds). (t, ds, smap_at [] ?del t)) dat))) t1 t'
        \<and> (case ro of None \<Rightarrow> n = length dat \<and> txts' = filter (\<lambda>(t, ts). t \<notin> fst ` set dat) ?del | Some r \<Rightarrow> n < length dat \<and> r \<noteq> Ok))"
      by (rule Cons.IH [OF l]) (use C f in \<open>simp_all add: m\<close>)
    then obtain n where n: "n \<le> length dat" "stored_in_turn (sv_env sv) (map ?up (take n (map (\<lambda>(t, ds). (t, ds, smap_at [] txts t)) dat))) t1 t'"
      "case ro of None \<Rightarrow> n = length dat \<and> txts' = filter (\<lambda>(t, ts). t \<notin> fst ` set dat) ?del | Some r \<Rightarrow> n < length dat \<and> r \<noteq> Ok"
      and fr: "dec_filters d' = dec_filters d" "useQaId tid d' = ?q"
      using f m group_update_cong [of tid d1 d] by auto
    have "filter (\<lambda>(t, ts). t \<notin> fst ` set dat) ?del = filter (\<lambda>(t, ts). t \<notin> fst ` set (e # dat)) txts"
      by (auto simp: smap_del_def case_prod_unfold e intro: filter_cong)
    then show ?thesis using fr n st True
      by (intro conjI exI [of _ "Suc n"]) (auto simp: e split: sum.splits bool.splits option.splits)
  qed
qed

lemma insert_text_loop_stored:
  assumes "sv_perform sv = perform_update (sv_env sv) exn f" "sid < long_max"
  shows "insert_text_loop sv sid tid lg mode work txts (d, t) = Inr (r, d', t') \<Longrightarrow>
     list_all (own_group sid tid) (map (\<lambda>(t, ts). (t, [], ts)) txts) \<Longrightarrow> saveToDb (filter_for (dec_filters d) sid tid) \<Longrightarrow>
     \<exists>n \<le> length txts. stored_in_turn (sv_env sv) (map (group_update (sv_env sv) sid tid lg mode work d)
          (take n (map (\<lambda>(t, ts). (t, [], ts)) txts))) t t' \<and> (r = Ok \<longleftrightarrow> n = length txts)"
proof (induction txts arbitrary: d t)
  case (Cons e txts)
  obtain obt ts where e: "e = (obt, ts)" by fastforce
  obtain b d1 t1 where a: "addDataToDb (sv_env sv) (sv_perform sv) obt sid tid [] ts lg mode work False True (d, t) = Some (b, d1, t1)"
    using Cons.prems(1) e by (auto split: option.splits)
  then obtain r1 where r1: "addDataToDbThrow (sv_env sv) (sv_perform sv) obt sid tid [] ts lg mode work False True (d, t) = Some (r1, d1, t1)"
    "b \<longleftrightarrow> r1 = Inr True"
    by (auto simp: addDataToDb_def split: option.splits sum.splits)
  have g: "own_group sid tid (obt, [], ts)" using Cons.prems(2) e by simp
  note f = add_data_frame [OF r1(1)]
  note st = store_group [OF r1(1) [unfolded assms(1)] g assms(2) Cons.prems(3)]
  show ?case
  proof (cases b)
    case False
    then have "t' = t" "r \<noteq> Ok" using Cons.prems(1) a st r1(2) by (auto simp: e split: if_splits)
    then show ?thesis by (intro exI [of _ 0]) (auto simp: e)
  next
    case True
    have "insert_text_loop sv sid tid lg mode work txts (d1, t1) = Inr (r, d', t')" using Cons.prems(1) a True by (simp add: e)
    then obtain n where "n \<le> length txts" "stored_in_turn (sv_env sv) (map (group_update (sv_env sv) sid tid lg mode work d1)
          (take n (map (\<lambda>(t, ts). (t, [], ts)) txts))) t1 t'" "r = Ok \<longleftrightarrow> n = length txts"
      using Cons.IH [of d1 t1] Cons.prems f by auto
    then show ?thesis using st True r1(2) f group_update_cong [of tid d1 d]
      by (intro exI [of _ "Suc n"]) (auto simp: e split: sum.splits bool.splits)
  qed
qed auto

lemma smap_fold_push:
  assumes "\<And>x. x \<in> set xs \<Longrightarrow> P x"
  shows "smap_all (\<lambda>l. l \<noteq> [] \<and> list_all P l) (fold (\<lambda>x. push_obstime (ot x) x) xs [])"
proof -
  have "smap_all (\<lambda>l. l \<noteq> [] \<and> list_all P l) m \<Longrightarrow> (\<And>x. x \<in> set xs \<Longrightarrow> P x) \<Longrightarrow>
      smap_all (\<lambda>l. l \<noteq> [] \<and> list_all P l) (fold (\<lambda>x. push_obstime (ot x) x) xs m)" for m
  proof (induction xs arbitrary: m)
    case (Cons x xs)
    have "smap_all (list_all P) m" using Cons.prems(1) by (auto simp: smap_all_def list_all_iff)
    then have "list_all P (smap_at [] m (ot x))" by (rule smap_all_at) simp
    then have "smap_all (\<lambda>l. l \<noteq> [] \<and> list_all P l) (push_obstime (ot x) x m)"
      using Cons.prems by (simp add: push_obstime_def smap_upd_def smap_all_put)
    then show ?case using Cons by simp
  qed simp
  then show ?thesis using assms by simp
qed

text \<open>
  C5. Storing a decoded message whose station and type are saved: its values are stored time by time, each time with its
  texts in a transaction of its own, then the other texts. Whatever fails, the transactions that are committed are the first of
  them, one after the other; the message is accepted if and only if all are.
\<close>

theorem message_stored_in_turn:
  fixes d :: "('t::linorder, 'r) KlDecoder" and kd :: "('t, 'r) KvalobsData"
  assumes "insertDataInDb sv kd sid tid lg (d, t) = Inr (r, d', t')" "sv_perform sv = perform_update (sv_env sv) exn f"
    "sid < long_max" "saveToDb (filter_for (dec_filters d) sid tid)"
  shows "\<exists>n \<le> length (message_groups kd (now (sv_env sv)) sid tid).
     stored_in_turn (sv_env sv) (map (group_update (sv_env sv) sid tid lg (kl_insertOrUpdate d) (addToWokque (filter_for (dec_filters d) sid tid)) d)
       (take n (message_groups kd (now (sv_env sv)) sid tid))) t t'
     \<and> (r = Ok \<longleftrightarrow> n = length (message_groups kd (now (sv_env sv)) sid tid))"
proof -
  let ?env = "sv_env sv" and ?f = "filter_for (dec_filters d) sid tid" and ?tb = "now (sv_env sv)"
  let ?up = "group_update ?env sid tid lg (kl_insertOrUpdate d) (addToWokque ?f) d"
  define dat where "dat = fold (\<lambda>x. push_obstime (obstime x) x) (filter (\<lambda>x. stationID x = sid \<and> typeID x = tid) (kd_data kd True ?tb)) []"
  define txts where "txts = fold (\<lambda>x. push_obstime (txt_obstime x) x)
    (filter (\<lambda>x. txt_stationID x = sid \<and> txt_typeID x = tid) (kd_text kd True ?tb)) []"
  obtain n k where c: "kc_data_of (Some kd) sid tid ?tb True = Some (n, dat)" "kc_text_of (Some kd) sid tid ?tb True = Some (k, txts)"
    by (simp add: kc_data_of_at kc_text_of_at dat_def txts_def)
  have gs: "message_groups kd ?tb sid tid = groups_of dat txts" by (simp add: message_groups_def c)
  have da: "smap_all (\<lambda>l. l \<noteq> [] \<and> list_all (\<lambda>x. stationID x = sid \<and> typeID x = tid) l) dat"
    unfolding dat_def by (rule smap_fold_push) simp
  have ta: "smap_all (\<lambda>l. l \<noteq> [] \<and> list_all (\<lambda>x. txt_stationID x = sid \<and> txt_typeID x = tid) l) txts"
    unfolding txts_def by (rule smap_fold_push) simp
  have "smap_all (\<lambda>l. list_all (\<lambda>x. txt_stationID x = sid \<and> txt_typeID x = tid) l) txts" using ta by (auto simp: smap_all_def list_all_iff)
  then have at: "list_all (\<lambda>x. txt_stationID x = sid \<and> txt_typeID x = tid) (smap_at [] txts o1)" for o1
    by (rule smap_all_at) simp
  have own: "list_all (own_group sid tid) (map (\<lambda>(t, ds). (t, ds, smap_at [] txts t)) dat)"
    using da at by (auto simp: smap_all_def list_all_iff own_group_def)
  have own_t: "list_all (own_group sid tid) (map (\<lambda>(t, ts). (t, [], ts)) (filter (\<lambda>(t, ts). t \<notin> fst ` set dat) txts))"
    using ta by (auto simp: smap_all_def list_all_iff own_group_def)
  have dist: "distinct (map fst dat)" using da by (simp add: smap_all_def smap_ok_distinct)
  obtain ro txts' d1 t1 where l: "insert_data_loop sv sid tid lg (kl_insertOrUpdate d) (addToWokque ?f) dat txts (d, t) = Inr (ro, txts', d1, t1)"
    and rest: "(case ro of Some r \<Rightarrow> Inr (r, d1, t1)
      | None \<Rightarrow> insert_text_loop sv sid tid lg (kl_insertOrUpdate d) (addToWokque ?f) txts' (d1, t1)) = Inr (r, d', t')"
    using assms(1) by (auto simp: insertDataInDb_def c Let_def res_bind_Inr_iff)
  obtain m where m: "m \<le> length dat" "stored_in_turn ?env (map ?up (take m (map (\<lambda>(t, ds). (t, ds, smap_at [] txts t)) dat))) t t1"
    "case ro of None \<Rightarrow> m = length dat \<and> txts' = filter (\<lambda>(t, ts). t \<notin> fst ` set dat) txts | Some r \<Rightarrow> m < length dat \<and> r \<noteq> Ok"
    and f1: "dec_filters d1 = dec_filters d" "useQaId tid d1 = useQaId tid d"
    using insert_data_loop_stored [OF assms(2,3) l dist own assms(4)] by blast
  show ?thesis
  proof (cases ro)
    case (Some r1)
    then show ?thesis using m rest unfolding gs by (intro exI [of _ m]) (auto simp: groups_of_def)
  next
    case None
    let ?ts = "filter (\<lambda>(t, ts). t \<notin> fst ` set dat) txts"
    have tx: "insert_text_loop sv sid tid lg (kl_insertOrUpdate d) (addToWokque ?f) ?ts (d1, t1) = Inr (r, d', t')"
      using rest None m(3) by simp
    obtain q where q: "q \<le> length ?ts" "stored_in_turn ?env (map (group_update ?env sid tid lg (kl_insertOrUpdate d) (addToWokque ?f) d1)
        (take q (map (\<lambda>(t, ts). (t, [], ts)) ?ts))) t1 t'" "r = Ok \<longleftrightarrow> q = length ?ts"
      using insert_text_loop_stored [OF assms(2,3) tx own_t] f1 assms(4) by auto
    have "take (length dat + q) (groups_of dat txts) = map (\<lambda>(t, ds). (t, ds, smap_at [] txts t)) dat @ take q (map (\<lambda>(t, ts). (t, [], ts)) ?ts)"
      by (simp add: groups_of_def)
    moreover have "length (groups_of dat txts) = length dat + length ?ts" by (simp add: groups_of_def)
    ultimately show ?thesis
      using m q None group_update_cong [OF f1(2)] unfolding gs
      by (intro exI [of _ "length dat + q"]) (auto simp: stored_in_turn_append)
  qed
qed

text \<open>
  C25. A message without a known station or type, or that cannot be decoded, is rejected: no table changes, and the message
  is kept with its type, if it can be saved at all.
\<close>

theorem bad_message_rejected:
  fixes d :: "('t::linorder, 'r) KlDecoder"
  assumes "doExecute sv (d, w) = Inr (r, d', w')"
    "kl_stationID d = INT_MAX \<or> kl_typeID d < 0 \<or> kl_typeID d = INT_MAX
     \<or> (\<forall>rt. \<exists>e. (decodeData (sv_kl sv) (dec_params d) (dec_types d) (trimstr (dec_obs d) @ [CHR 0x0A]) (kl_stationID d) (kl_typeID d) rt
           :: kl_error + ('t, 'r) KvalobsData \<times> bool) = Inl e)"
  shows "r = Rejected \<and> kl_tables w' = kl_tables w \<and>
    (\<exists>row. (kl_rejects w' = (if sv_reject_saved sv row then kl_rejects w @ [row] else kl_rejects w))
      \<and> take (length (dec_obsType d)) (rj_message row) = dec_obsType d)"
proof -
  have k: ?thesis if "kl_rejected sv b (e, w) = (r, d', w')" "dec_obsType e = dec_obsType d" for b e
    using that by (intro conjI exI [of _ "\<lparr>rj_message = dec_obsType e @ (if b then [CHR 0x0A] @ dec_obs e else []),
      rj_tbtime = now (sv_env sv), rj_decoder = dec_name e\<rparr>"]) (auto simp: kl_rejected_def Let_def split: if_splits)
  obtain u where u: "getSetUsinfo7 d = Inr u" using assms(1) by (auto simp: doExecute_def res_bind_Inr_iff)
  show ?thesis
  proof (cases "kl_stationID d = INT_MAX \<or> kl_typeID d < 0 \<or> kl_typeID d = INT_MAX")
    case True
    then show ?thesis using assms(1) u k [where b = False and e = d] by (auto simp: doExecute_def Let_def split: if_splits)
  next
    case False
    define e where "e = (if kl_is_special (sv_kl sv) (receivedTime d) \<and> u then d\<lparr>receivedTime := now (sv_env sv)\<rparr> else d)"
    have e: "dec_params e = dec_params d" "dec_types e = dec_types d" "dec_obs e = dec_obs d" "dec_obsType e = dec_obsType d"
      by (simp_all add: e_def)
    obtain x where x: "(decodeData (sv_kl sv) (dec_params d) (dec_types d) (trimstr (dec_obs d) @ [CHR 0x0A]) (kl_stationID d) (kl_typeID d)
        (receivedTime e) :: kl_error + ('t, 'r) KvalobsData \<times> bool) = Inl x"
      using assms(2) False by blast
    show ?thesis
      using assms(1) u False k [where b = True and e = "e\<lparr>dec_obs := trimstr (dec_obs d) @ [CHR 0x0A]\<rparr>"] x
      by (auto simp: doExecute_def e_def [symmetric] e Let_def split: kl_error.splits)
  qed
qed

definition demo_conf :: ConfSection where
  "demo_conf = (let p = \<lparr>allowMultiple = False, cs_lineno = 0, cs_filename = [], cs_ignore = False\<rparr> in
     ConfSection p [(''kvDataInputd'', [ConfSection p [(''KlDataDecoder'', [ConfSection p [] []])] []])] [])"

definition demo_services :: "(nat, unit) services" where
  "demo_services = \<lparr>sv_env = Obs_Table.demo_env, sv_kl = Kl_Data_Props.demo_env, sv_query = (\<lambda>q. Inr (Some ''1'')),
     sv_reject_saved = (\<lambda>_. True), sv_perform = perform_update Obs_Table.demo_env (\<lambda>_. UnknownError) demo_update_attempts\<rparr>"

definition demo_kl :: "(nat, unit) KlDecoder" where
  "demo_kl = Decoder.extend ((new_Decoder ''KlDataDecoder'' demo_params [] [] [])\<lparr>theKvConf := Some demo_conf\<rparr>)
     \<lparr>kl_typeID = 4, kl_stationID = INT_MAX, stationidIn = [], redirectedFrom = [], kl_insertOrUpdate = DbInsert, receivedTime = 0\<rparr>"

lemma demo_setUsinfo7: "getSetUsinfo7 demo_kl = Inr False"
  by code_simp

theorem bad_message_rejected_witness:
  "\<exists>d' w'. doExecute demo_services (demo_kl, \<lparr>kl_tables = demo_tables [], kl_rejects = []\<rparr>) = Inr (Rejected, d', w')
     \<and> kl_tables w' = demo_tables []"
proof -
  let ?w = "\<lparr>kl_tables = demo_tables [], kl_rejects = []\<rparr>"
  have s: "kl_stationID demo_kl = INT_MAX" by (simp add: demo_kl_def Decoder.defs)
  obtain r d' w' where r: "doExecute demo_services (demo_kl, ?w) = Inr (r, d', w')"
    by (simp add: doExecute_def demo_setUsinfo7 s kl_rejected_def Let_def)
  show ?thesis using bad_message_rejected [OF r] r s by auto
qed

definition demo_kd :: "(nat, unit) KvalobsData" where
  "demo_kd = kd_insert (\<lambda>t. t = 0) 1 (demo_data 211 2) (new_KvalobsData 0)"

lemma demo_kd_data: "kd_data demo_kd True 100 = [(demo_data 211 2)\<lparr>tbtime := 100\<rparr>]"
  by code_simp

lemma demo_kd_text: "kd_text demo_kd True 100 = []"
  by code_simp

lemma demo_groups: "message_groups demo_kd 100 1 4 = [(10, [(demo_data 211 2)\<lparr>tbtime := 100\<rparr>], [])]"
  by (simp add: message_groups_def kc_data_of_at kc_text_of_at groups_of_def demo_kd_data demo_kd_text push_obstime_def smap_upd_def smap_at_def demo_data_def)

definition demo_empty :: "nat tables" where
  "demo_empty = \<lparr>observations = [], obsdata = [], obstextdata = [], workque = [], workstatistik = [], next_id = 8, priorities = []\<rparr>"

lemma demo_run_group_values:
  "map_option (\<lambda>(b, u, t). (b, insertType u, map o_id (observations t), map d_original (obsdata t), map w_id (workque t)))
     (case DataUpdate_run Obs_Table.demo_env (new_DataUpdate Obs_Table.demo_env 10 1 4 [(demo_data 211 2)\<lparr>tbtime := 100\<rparr>] [] [] DbInsert True False Partial (-1) :: (nat, unit) DataUpdate)
        demo_empty of Inl e \<Rightarrow> None | Inr x \<Rightarrow> Some x) = Some (True, INSERT, [8], [2], [8])"
  by (simp add: demo_defs DataUpdate_run_def onlyHqcDataCheck_def isEqual_def all_found_def same_place_def replaceObservation_def checkWorkQue_def
      useTbTime_def store_observation_def updateWorkQue_def read_defs write_defs new_DataUpdate_def demo_empty_def getObservationid_def)

lemma demo_run_group:
  "\<exists>u' t'. DataUpdate_run Obs_Table.demo_env (new_DataUpdate Obs_Table.demo_env 10 1 4 [(demo_data 211 2)\<lparr>tbtime := 100\<rparr>] [] [] DbInsert True False Partial (-1) :: (nat, unit) DataUpdate)
     demo_empty = Inr (True, u', t') \<and> map d_original (obsdata t') = [2]"
  using demo_run_group_values by (auto split: sum.splits)

lemma demo_frame: "dec_filters demo_kl = new_filters" "useQaId x demo_kl = -1" "kl_insertOrUpdate demo_kl = DbInsert"
  "sv_env demo_services = Obs_Table.demo_env" "now Obs_Table.demo_env = 100" "addToWokque (filter_for new_filters s ty)"
  "sv_perform demo_services = perform_update Obs_Table.demo_env (\<lambda>_. UnknownError) demo_update_attempts"
  by (simp_all add: demo_kl_def Decoder.defs new_Decoder_def useQaId_def demo_services_def Obs_Table.demo_env_def new_filters_def filter_for_def
      default_filter_def)

theorem message_stored_in_turn_witness:
  "\<exists>d' t'. insertDataInDb demo_services demo_kd 1 4 [] (demo_kl, demo_empty) = Inr (Ok, d', t') \<and> map d_original (obsdata t') = [2]
    \<and> stored_in_turn Obs_Table.demo_env
       (map (group_update Obs_Table.demo_env 1 4 [] DbInsert True demo_kl) (message_groups demo_kd 100 1 4)) demo_empty t'"
proof -
  let ?g = "[(demo_data 211 2)\<lparr>tbtime := 100\<rparr>] :: nat kvData list"
  obtain u t' where r: "DataUpdate_run Obs_Table.demo_env (new_DataUpdate Obs_Table.demo_env 10 1 4 ?g [] [] DbInsert True False Partial (-1))
     demo_empty = Inr (True, u :: (nat, unit) DataUpdate, t')" "map d_original (obsdata t') = [2]" using demo_run_group by (elim exE conjE)
  have l: "list_all (\<lambda>d. stationID d < long_max) ?g" "list_all (\<lambda>d. txt_stationID d < long_max) []"
    by (simp_all add: demo_data_def long_max_def)
  have c: "kc_data_of (Some demo_kd) 1 4 100 True = Some (1, [(10, ?g)])" "kc_text_of (Some demo_kd) 1 4 100 True = Some (0, [])"
    by (simp_all add: kc_data_of_at kc_text_of_at demo_kd_data demo_kd_text push_obstime_def smap_upd_def smap_at_def demo_data_def)
  have "\<exists>d'. addDataToDbThrow Obs_Table.demo_env (perform_update Obs_Table.demo_env (\<lambda>_. UnknownError) demo_update_attempts) 10 1 4 ?g [] [] DbInsert
      True False True (demo_kl, demo_empty) = Some (Inr True, d', t')"
    using saved_by_own_filter [OF l, of new_filters] demo_performed [OF r(1)]
    by (simp add: addDataToDbThrow_def demo_frame demo_saves Let_def filter_True)
  then obtain d' where "addDataToDbThrow Obs_Table.demo_env (perform_update Obs_Table.demo_env (\<lambda>_. UnknownError) demo_update_attempts) 10 1 4 ?g [] []
      DbInsert True False True (demo_kl, demo_empty) = Some (Inr True, d', t')" by blast
  then have i: "insertDataInDb demo_services demo_kd 1 4 [] (demo_kl, demo_empty) = Inr (Ok, d', t')"
    by (simp add: insertDataInDb_def demo_frame c Let_def smap_at_def smap_del_def)
  have "(1::int) < long_max" by (simp add: long_max_def)
  from message_stored_in_turn [OF i demo_frame(7) [folded demo_frame(4)] this] show ?thesis
    using i r(2) by (auto simp: demo_frame demo_saves)
qed

lemma demo_request_ok: "request_ok [(''kldata/nationalnr=1/type=4'', [''TA'', ''10,3'']), (''kldata/nationalnr=1/type=5'', [''TA'', ''10,4''])]"
  by code_simp


section \<open>Details\<close>

text \<open>A message without data ends the request: the message behind it is never decoded.\<close>

lemma empty_message_ends_request:
  "fst (getObs (new_GetObsHelper (join_lines [''kldata/type=4'', ''kldata/type=5'', ''TA'', ''10,3'']) [])) = False"
  by code_simp

text \<open>Without any message the result is never set.\<close>

lemma no_message_undefined: "execute sv (d\<lparr>dec_obsType := [], dec_obs := []\<rparr>, w) = Inl KlUninitialised"
proof -
  have "getObs (new_GetObsHelper [] []) = (False, [], [], new_GetObsHelper [] [])" by code_simp
  then show ?thesis by (simp add: execute_def execute_loop.simps multiMessage_def new_GetObsHelper_def)
qed

text \<open>Without a section of its own in the configuration, the decoder reads through a null pointer.\<close>

lemma no_section_null: "theKvConf d = None \<Longrightarrow> doExecute sv (d, w) = Inl KlNullPointer"
  by (simp add: doExecute_def getSetUsinfo7_def myConfSection_def)

text \<open>The name of the decoder that redirected a message is kept for the next one.\<close>

lemma redirected_from_kept: "\<exists>e. decodeObsType sv ''kldata/type=4'' d = Inr e \<and> redirectedFrom e = redirectedFrom d"
proof -
  have "comma_init_char ''kldata/type=4'' (CHR ''/'') = Some [\<lparr>elem_str = ''kldata'', isString = False\<rparr>, \<lparr>elem_str = ''type=4'', isString = False\<rparr>]"
    by code_simp
  moreover have "decodeKeyVal ''type=4'' = (True, ''type'', ''4'')" by code_simp
  ultimately show ?thesis by (simp add: decodeObsType_def decode_key_def station_keys_def Let_def)
qed

end
