(* ===== verification/Data_Input.thy ===== *)
theory Data_Input
  imports Kl_Decoder
begin

text \<open>
  The service that receives observations, \<^verbatim>\<open>src/kvDataInputd\<close>: its connections to the database (\<^verbatim>\<open>ConnectionCache.cc\<close>), the
  list of decoders (\<^verbatim>\<open>src/lib/decoder/decoderbase/decodermgr.cc\<close>), and the way of a request through \<^verbatim>\<open>DataSrcApp.cc\<close> and
  \<^verbatim>\<open>ObservationHandler.cc\<close>: a decoder is made for the type of the observation, runs with a connection, may redirect
  the request to another decoder, and is released. What a decoder does is an argument, and so is whether the service is being shut
  down. Loading of decoders, publication by Kafka and the log are not modelled. The second part is what several requests
  do to each other: the threads of the service as a step relation.
\<close>

section \<open>Connections\<close>

record conn_cache =
  nFree :: int
  connection :: "(nat \<times> bool) list"

definition new_cache :: conn_cache where
  "new_cache = \<lparr>nFree = 0, connection = []\<rparr>"

definition addConnection :: "nat \<Rightarrow> conn_cache \<Rightarrow> conn_cache" where
  "addConnection con c =
     (case map_of (connection c) con of
        Some b \<Rightarrow> c
      | None \<Rightarrow> let m = smap_put con True (connection c) in \<lparr>nFree = int (length (filter snd m)), connection = m\<rparr>)"

text \<open>\<open>None\<close>: the caller waits. The connection is a null pointer when the counter is wrong.\<close>

definition findFreeConnection :: "conn_cache \<Rightarrow> (nat option \<times> conn_cache) option" where
  "findFreeConnection c =
     (if nFree c > 0 then
        (case find snd (connection c) of
           Some (con, b) \<Rightarrow> Some (Some con, \<lparr>nFree = nFree c - 1, connection = smap_put con False (connection c)\<rparr>)
         | None \<Rightarrow> Some (None, c\<lparr>nFree := 0\<rparr>))
      else None)"

definition freeConnection :: "nat \<Rightarrow> conn_cache \<Rightarrow> bool \<times> conn_cache" where
  "freeConnection con c =
     (case map_of (connection c) con of
        None \<Rightarrow> (False, c)
      | Some b \<Rightarrow> (True, \<lparr>nFree = nFree c + 1, connection = smap_put con True (connection c)\<rparr>))"

section \<open>Decoders\<close>

record decoder_item =
  item_obsTypes :: "string list"
  decoderId :: int
  decoderCount :: int

text \<open>The name of the decoder, the type of the observation without metadata, and the metadata.\<close>

definition split_obstype :: "string \<Rightarrow> string \<times> string \<times> string" where
  "split_obstype obsType =
     (let name = (if list_ex (\<lambda>c. c \<in> {CHR ''/'', CHR 0x0A}) obsType then trimstr (takeWhile (\<lambda>c. c \<notin> {CHR ''/'', CHR 0x0A}) obsType) else []);
          (ot, metaconf) = (case find_word ''<?xml'' obsType of None \<Rightarrow> (obsType, []) | Some i \<Rightarrow> (take i obsType, drop i obsType))
      in (if name = [] then trimstr ot else name, ot, metaconf))"

text \<open>
  The first item with the name makes the decoder, by its factory, which may fail. The result is the identity of the item with
  the type of the observation and the metadata that the decoder gets.
\<close>

datatype no_decoder = CantCreate | UnknownObservationType string

fun find_item :: "(int \<Rightarrow> bool) \<Rightarrow> string \<Rightarrow> decoder_item list \<Rightarrow> (no_decoder + int) \<times> decoder_item list" where
  "find_item makes name [] = (Inl (UnknownObservationType name), [])"
| "find_item makes name (it # its) =
     (if name \<in> set (item_obsTypes it) then
        (if makes (decoderId it) then (Inr (decoderId it), it\<lparr>decoderCount := decoderCount it + 1\<rparr> # its) else (Inl CantCreate, it # its))
      else (case find_item makes name its of (r, its) \<Rightarrow> (r, it # its)))"

definition findDecoder :: "(int \<Rightarrow> bool) \<Rightarrow> string \<Rightarrow> decoder_item list \<Rightarrow> (no_decoder + int \<times> string \<times> string) \<times> decoder_item list" where
  "findDecoder makes obsType its =
     (case split_obstype obsType of
        (name, ot, metaconf) \<Rightarrow>
          (case find_item makes name its of (r, its) \<Rightarrow> (map_sum id (\<lambda>i. (i, ot, metaconf)) r, its)))"

fun releaseDecoder :: "int \<Rightarrow> decoder_item list \<Rightarrow> decoder_item list" where
  "releaseDecoder i [] = []"
| "releaseDecoder i (it # its) =
     (if decoderId it = i then it\<lparr>decoderCount := decoderCount it - 1\<rparr> # its else it # releaseDecoder i its)"

definition all_obsTypes :: "decoder_item list \<Rightarrow> string list" where
  "all_obsTypes its = concat (map item_obsTypes its)"

text \<open>The name of a file of a decoder with the version of the libraries, which is a constant of the build.\<close>

definition soVersion_of :: "string \<Rightarrow> string" where
  "soVersion_of version = ''.so.'' @ takeWhile (\<lambda>c. c \<noteq> CHR '':'') version"

definition fixDecoderName :: "string \<Rightarrow> string \<Rightarrow> string" where
  "fixDecoderName version decoder =
     (case find_word ''.so'' decoder of
        None \<Rightarrow> decoder @ soVersion_of version
      | Some i \<Rightarrow>
          if list_all (\<lambda>c. c \<in> set ''.0123456789'') (drop (i + 3) decoder) then take i decoder @ soVersion_of version else decoder)"

section \<open>Keys that the service takes from the type of an observation\<close>

definition to_lower :: "char \<Rightarrow> char" where
  "to_lower c = (let v = of_char c :: nat in if 65 \<le> v \<and> v \<le> 90 then char_of (v + 32) else c)"

text \<open>What follows the equality sign when the text begins with the key.\<close>

definition key_at :: "string \<Rightarrow> string \<Rightarrow> string option" where
  "key_at key s =
     (case s of
        [] \<Rightarrow> None
      | c # r \<Rightarrow>
          if c \<noteq> CHR ''/'' then None
          else
            let r = dropWhile (\<lambda>c. c = CHR '' '') r in
            if map to_lower (take (length key) r) = key then
              (case dropWhile (\<lambda>c. c = CHR '' '') (drop (length key) r) of
                 [] \<Rightarrow> None
               | e # v \<Rightarrow> if e = CHR ''='' then Some v else None)
            else None)"

text \<open>The regular expressions are greedy: the last occurrence is matched, not at the beginning. The first occurrence of the same text is removed.\<close>

definition take_key :: "string \<Rightarrow> string \<Rightarrow> string \<times> string" where
  "take_key key s =
     (case find (\<lambda>i. key_at key (drop i s) \<noteq> None) (rev [1..<length s]) of
        None \<Rightarrow> ([], s)
      | Some i \<Rightarrow>
          let v = the (key_at key (drop i s)); val = takeWhile (\<lambda>c. c \<noteq> CHR ''/'') v;
              matched = take (length s - i - length v + length val) (drop i s)
          in (boost_trim val, (case find_word matched s of None \<Rightarrow> s | Some j \<Rightarrow> take j s @ drop (j + length matched) s)))"

definition getMessageId :: "string \<Rightarrow> string \<times> string" where
  "getMessageId = take_key ''messageid''"

definition getProducer :: "string \<Rightarrow> string \<times> string" where
  "getProducer = take_key ''producer''"

section \<open>Parameters\<close>

record app =
  conCache :: conn_cache
  decoders :: "decoder_item list"
  paramList :: ParamList
  nextParamCheckTime :: "int option"

text \<open>The answer of the database to the query for the parameters: rows, or one of two kinds of exceptions.\<close>

datatype param_query = Rows "(string \<times> string) list" | SqlFails | OtherFails

definition row_param :: "(string \<Rightarrow> int option) \<Rightarrow> ParamList \<Rightarrow> string \<times> string \<Rightarrow> ParamList \<Rightarrow> ParamList" where
  "row_param cast tmpParams row newParams =
     (case cast (fst row) of
        None \<Rightarrow> newParams
      | Some i \<Rightarrow>
          let scalar = (case findParamInList tmpParams (snd row) of Some p \<Rightarrow> isScalar p | None \<Rightarrow> \<not> i \<ge> 1000)
          in sset_insert ParamPredicate \<lparr>kode = snd row, param_id = i, isScalar = scalar\<rparr> newParams)"

text \<open>
  The environment of a request: the clock, the parameters of the file, the answer of the database, the conversion of numbers,
  which factories succeed, and whether there is memory for the command.
\<close>

record input_env =
  in_now :: int
  file_params :: ParamList
  query_params :: param_query
  cast_id :: "string \<Rightarrow> int option"
  makes :: "int \<Rightarrow> bool"
  memory :: bool

text \<open>\<open>None\<close>: the thread waits for a second connection while it holds the mutex.\<close>

definition registerParams :: "input_env \<Rightarrow> app \<Rightarrow> (bool \<times> app) option" where
  "registerParams env a =
     (if (case nextParamCheckTime a of Some t \<Rightarrow> in_now env < t | None \<Rightarrow> False) then Some (True, a)
      else
        (case findFreeConnection (conCache a) of
           None \<Rightarrow> None
         | Some (None, c) \<Rightarrow> Some (False, a\<lparr>conCache := c\<rparr>)
         | Some (Some con, c) \<Rightarrow>
             let newParams = (case query_params env of Rows rows \<Rightarrow> fold (row_param (cast_id env) (file_params env)) rows [] | _ \<Rightarrow> []);
                 c = snd (freeConnection con c)
             in if query_params env = SqlFails then Some (False, a\<lparr>conCache := c\<rparr>)
                else
                  let c = (if query_params env = OtherFails then snd (freeConnection con c) else c) in
                  Some (True, a\<lparr>conCache := c,
                    paramList := (if isParamListsEqual (paramList a) newParams then paramList a else newParams),
                    nextParamCheckTime := Some (in_now env + 3600)\<rparr>)))"

section \<open>A request\<close>

datatype EResult = OK | NODECODER | DECODEERROR | NOTSAVED | ERROR

text \<open>A command: the identity of its decoder, its connection, and the observation.\<close>

record DecodeCommand =
  cmd_decoder :: int
  cmd_con :: nat
  cmd_obsType :: string
  cmd_obs :: string

datatype create_error = NoDbConnection | NoDecoder no_decoder

text \<open>\<open>Waits\<close>: the thread waits for a connection. \<open>Undefined\<close>: a pointer that is never set is used.\<close>

datatype 'a input_result = Done 'a | Waits | Undefined

definition create :: "input_env \<Rightarrow> string \<Rightarrow> string \<Rightarrow> app \<Rightarrow> ((create_error + DecodeCommand) \<times> app) input_result" where
  "create env obsType obs a =
     (case findFreeConnection (conCache a) of
        None \<Rightarrow> Waits
      | Some (None, c) \<Rightarrow> Done (Inl NoDbConnection, a\<lparr>conCache := c\<rparr>)
      | Some (Some con, c) \<Rightarrow>
          (case registerParams env (a\<lparr>conCache := c\<rparr>) of
             None \<Rightarrow> Waits
           | Some (b, a) \<Rightarrow>
               (case findDecoder (makes env) obsType (decoders a) of
                  (Inl e, its) \<Rightarrow> Done (Inl (NoDecoder e), a\<lparr>decoders := its, conCache := snd (freeConnection con (conCache a))\<rparr>)
                | (Inr (i, ot, metaconf), its) \<Rightarrow>
                    if memory env then Done (Inr \<lparr>cmd_decoder = i, cmd_con = con, cmd_obsType = ot, cmd_obs = obs\<rparr>, a\<lparr>decoders := its\<rparr>)
                    else Undefined)))"

definition releaseDecodeCommand :: "DecodeCommand \<Rightarrow> app \<Rightarrow> app" where
  "releaseDecodeCommand cmd a =
     a\<lparr>conCache := snd (freeConnection (cmd_con cmd) (conCache a)), decoders := releaseDecoder (cmd_decoder cmd) (decoders a)\<rparr>"

record RedirectInfo =
  ri_decoder :: string
  ri_obsType :: string
  ri_data :: string

text \<open>
  What comes of a command: the decoder returns a result with a message and where to redirect, it throws, or the service is
  shut down, before or after the command has been put into the queue of the executor.
\<close>

datatype run_outcome = Returns DecodeResult string RedirectInfo | Throws string | ShutDown

record Result =
  res_code :: EResult
  res_message :: string
  res_messageId :: string

datatype request_result = Answer Result | TooManyRedirects

definition code_of_create :: "create_error \<Rightarrow> EResult" where
  "code_of_create e = (case e of NoDbConnection \<Rightarrow> NOTSAVED | NoDecoder n \<Rightarrow> NODECODER)"

definition code_of_result :: "DecodeResult \<Rightarrow> string \<Rightarrow> EResult" where
  "code_of_result r msg =
     (case r of
        Ok \<Rightarrow> OK
      | NotSaved \<Rightarrow> NOTSAVED
      | Error \<Rightarrow> if find_word ''NODECODER:'' msg \<noteq> None then NODECODER else DECODEERROR
      | _ \<Rightarrow> DECODEERROR)"

text \<open>
  The loop over redirections. The environment and the decoders may behave differently in each round. The text of an error of
  \<open>create\<close> is not modelled.
\<close>

function observation_loop :: "(nat \<Rightarrow> input_env) \<Rightarrow> (nat \<Rightarrow> DecodeCommand \<Rightarrow> run_outcome) \<Rightarrow> string \<Rightarrow> nat \<Rightarrow> string \<Rightarrow> string \<Rightarrow> app
    \<Rightarrow> (request_result \<times> app) input_result" where
  "observation_loop envs runs mid redirectCount obsType obs a =
     (case create (envs redirectCount) obsType obs a of
        Waits \<Rightarrow> Waits
      | Undefined \<Rightarrow> Undefined
      | Done (Inl e, a) \<Rightarrow> Done (Answer \<lparr>res_code = code_of_create e, res_message = [], res_messageId = mid\<rparr>, a)
      | Done (Inr cmd, a) \<Rightarrow>
          (case runs redirectCount cmd of
             ShutDown \<Rightarrow> Done (Answer \<lparr>res_code = ERROR, res_message = ''SHUTDOWN'', res_messageId = mid\<rparr>, releaseDecodeCommand cmd a)
           | Throws msg \<Rightarrow>
               Done (Answer \<lparr>res_code = code_of_result Error msg, res_message = msg, res_messageId = mid\<rparr>, releaseDecodeCommand cmd a)
           | Returns r msg redirected \<Rightarrow>
               if r = Redirect then
                 (if redirectCount > 5 then Done (TooManyRedirects, a)
                  else observation_loop envs runs mid (redirectCount + 1) (ri_obsType redirected) (ri_data redirected) (releaseDecodeCommand cmd a))
               else Done (Answer \<lparr>res_code = code_of_result r msg, res_message = msg, res_messageId = mid\<rparr>, releaseDecodeCommand cmd a)))"
  by pat_completeness auto

termination
  by (relation "measure (\<lambda>(envs, runs, mid, redirectCount, obsType, obs, a). 7 - redirectCount)") auto

declare observation_loop.simps [simp del]

definition app_newObservation :: "(nat \<Rightarrow> input_env) \<Rightarrow> (nat \<Rightarrow> DecodeCommand \<Rightarrow> run_outcome) \<Rightarrow> string \<Rightarrow> string \<Rightarrow> app
    \<Rightarrow> (request_result \<times> app) input_result" where
  "app_newObservation envs runs obsType obs a =
     (let obsType = snd (getProducer obsType); (mid, obsType) = getMessageId obsType
      in observation_loop envs runs mid 0 obsType obs a)"

subsection \<open>The request by HTTP\<close>

datatype content_error = EmptyMessage | OnlyObstype

definition getObservation :: "string \<Rightarrow> content_error + string \<times> string" where
  "getObservation content =
     (let s = dropWhile (\<lambda>c. c \<in> {CHR 0x0A, CHR 0x0D, CHR 0x09, CHR '' ''}) content in
      if s = [] then Inl EmptyMessage
      else if CHR 0x0A \<notin> set s then Inl OnlyObstype
      else Inr (takeWhile (\<lambda>c. c \<noteq> CHR 0x0A) s, tl (dropWhile (\<lambda>c. c \<noteq> CHR 0x0A) s)))"

definition http_status :: "request_result \<Rightarrow> int" where
  "http_status r =
     (case r of
        TooManyRedirects \<Rightarrow> 500
      | Answer res \<Rightarrow>
          if res_code res = OK then 200
          else if res_code res = ERROR \<and> take 8 (res_message res) = ''SHUTDOWN'' then 503
          else 400)"

definition render_POST :: "bool \<Rightarrow> (nat \<Rightarrow> input_env) \<Rightarrow> (nat \<Rightarrow> DecodeCommand \<Rightarrow> run_outcome) \<Rightarrow> string \<Rightarrow> app \<Rightarrow> (int \<times> app) input_result" where
  "render_POST inShutdown envs runs content a =
     (if inShutdown then Done (503, a)
      else
        (case getObservation content of
           Inl e \<Rightarrow> Done (400, a)
         | Inr (obsType, obs) \<Rightarrow>
             (case app_newObservation envs runs obsType obs a of
                Waits \<Rightarrow> Waits
              | Undefined \<Rightarrow> Undefined
              | Done (r, a) \<Rightarrow> Done (http_status r, a))))"

section \<open>What a request keeps\<close>

definition cache_ok :: "conn_cache \<Rightarrow> bool" where
  "cache_ok c \<longleftrightarrow> smap_ok (connection c) \<and> nFree c = int (length (filter snd (connection c)))"

lemma smap_put_back: "smap_ok m \<Longrightarrow> map_of m k = Some v \<Longrightarrow> smap_put k v (smap_put k w m) = m"
proof (induction m)
  case (Cons e m)
  obtain k' v' where e: "e = (k', v')" by fastforce
  show ?case
  proof (cases "k = k'")
    case False
    then have "k \<in> fst ` set m" using Cons.prems(2) e by (force dest: map_of_SomeD)
    then have "k' < k" using Cons.prems(1) e by auto
    then show ?thesis using Cons e False by auto
  qed (use Cons e in auto)
qed simp

lemma filter_put_False: "smap_ok m \<Longrightarrow> map_of m k = Some True \<Longrightarrow> Suc (length (filter snd (smap_put k False m))) = length (filter snd m)"
proof (induction m)
  case (Cons e m)
  obtain k' v' where e: "e = (k', v')" by fastforce
  show ?case
  proof (cases "k = k'")
    case False
    then have "k \<in> fst ` set m" using Cons.prems(2) e by (force dest: map_of_SomeD)
    then have "k' < k" using Cons.prems(1) e by auto
    then show ?thesis using Cons e False by auto
  qed (use Cons e in auto)
qed simp

lemma find_free:
  assumes "cache_ok c" "findFreeConnection c = Some (r, c')"
  shows "\<exists>con. r = Some con \<and> cache_ok c' \<and> nFree c' = nFree c - 1 \<and> snd (freeConnection con c') = c"
proof -
  have "filter snd (connection c) \<noteq> []" using assms by (auto simp: cache_ok_def findFreeConnection_def split: if_splits)
  then have "find snd (connection c) \<noteq> None" unfolding find_None_iff filter_empty_conv by blast
  then obtain con b where f: "find snd (connection c) = Some (con, b)" by auto
  then have "b" "(con, b) \<in> set (connection c)" unfolding find_Some_iff by (metis snd_conv) (metis nth_mem f find_Some_iff)
  then have m: "map_of (connection c) con = Some True" using assms(1) smap_ok_distinct [of "connection c"] by (auto simp: cache_ok_def)
  have r: "r = Some con" "c' = \<lparr>nFree = nFree c - 1, connection = smap_put con False (connection c)\<rparr>"
    using assms(2) f by (auto simp: findFreeConnection_def split: if_splits)
  have "snd (freeConnection con c') = c"
    using m smap_put_back [OF _ m, of False] assms(1) by (simp add: r freeConnection_def cache_ok_def)
  moreover have "cache_ok c'" using filter_put_False [OF _ m] assms(1) by (simp add: r cache_ok_def)
  ultimately show ?thesis using r by auto
qed

lemma find_free_waits: "nFree c > 0 \<Longrightarrow> findFreeConnection c \<noteq> None"
  by (auto simp: findFreeConnection_def split: option.split)

lemma registerParams_keeps:
  assumes "cache_ok (conCache a)" "query_params env \<noteq> OtherFails" "registerParams env a = Some (b, a')"
  shows "conCache a' = conCache a \<and> decoders a' = decoders a"
proof (cases "\<exists>t. nextParamCheckTime a = Some t \<and> in_now env < t")
  case True
  then show ?thesis using assms(3) by (auto simp: registerParams_def)
next
  case False
  then have n: "\<not> (case nextParamCheckTime a of Some t \<Rightarrow> in_now env < t | None \<Rightarrow> False)" by (auto split: option.splits)
  obtain r c where f: "findFreeConnection (conCache a) = Some (r, c)" using assms(3) n by (auto simp: registerParams_def split: option.splits)
  obtain con where "r = Some con" "snd (freeConnection con c) = conCache a" using find_free [OF assms(1) f] by auto
  then show ?thesis using assms(2,3) n f by (auto simp: registerParams_def Let_def split: if_splits)
qed

lemma registerParams_returns: "nFree (conCache a) > 0 \<Longrightarrow> registerParams env a \<noteq> None"
  using find_free_waits [of "conCache a"] by (auto simp: registerParams_def Let_def split: option.splits)

lemma find_item_release:
  "distinct (map decoderId its) \<Longrightarrow> find_item mk name its = (r, its') \<Longrightarrow>
     (case r of Inl e \<Rightarrow> its' = its | Inr i \<Rightarrow> releaseDecoder i its' = its \<and> i \<in> decoderId ` set its)"
  by (induction mk name its arbitrary: r its' rule: find_item.induct) (auto split: if_splits prod.splits sum.splits)

lemma create_keeps:
  assumes "cache_ok (conCache a)" "distinct (map decoderId (decoders a))" "query_params env \<noteq> OtherFails" "create env obsType obs a = Done (r, a')"
  shows "case r of
      Inl e \<Rightarrow> conCache a' = conCache a \<and> decoders a' = decoders a
    | Inr cmd \<Rightarrow> conCache (releaseDecodeCommand cmd a') = conCache a \<and> decoders (releaseDecodeCommand cmd a') = decoders a
        \<and> nFree (conCache a') = nFree (conCache a) - 1"
proof -
  obtain r1 c where f: "findFreeConnection (conCache a) = Some (r1, c)" using assms(4) by (auto simp: create_def split: option.splits)
  obtain con where con: "r1 = Some con" "cache_ok c" "nFree c = nFree (conCache a) - 1" "snd (freeConnection con c) = conCache a"
    using find_free [OF assms(1) f] by auto
  obtain b a1 where r: "registerParams env (a\<lparr>conCache := c\<rparr>) = Some (b, a1)"
    using assms(4) f con by (auto simp: create_def split: option.splits)
  have k: "conCache a1 = c" "decoders a1 = decoders a" using registerParams_keeps [OF _ assms(3) r] con by simp_all
  obtain name ot meta where s: "split_obstype obsType = (name, ot, meta)" by (cases "split_obstype obsType") auto
  obtain fr its where i: "find_item (makes env) name (decoders a) = (fr, its)" by fastforce
  note rel = find_item_release [OF assms(2) i]
  show ?thesis
    using assms(4) f con r k s i rel by (auto simp: create_def findDecoder_def releaseDecodeCommand_def split: sum.splits if_splits)
qed

lemma create_returns:
  assumes "cache_ok (conCache a)" "nFree (conCache a) \<ge> 2" "memory env"
  shows "\<exists>r a'. create env obsType obs a = Done (r, a')"
proof -
  obtain r1 c where f: "findFreeConnection (conCache a) = Some (r1, c)" using find_free_waits [of "conCache a"] assms(2) by fastforce
  obtain con where con: "r1 = Some con" "nFree c = nFree (conCache a) - 1" using find_free [OF assms(1) f] by auto
  obtain b a1 where r: "registerParams env (a\<lparr>conCache := c\<rparr>) = Some (b, a1)"
    using registerParams_returns [of "a\<lparr>conCache := c\<rparr>" env] con assms(2) by fastforce
  show ?thesis using f con r assms(3) by (auto simp: create_def split: sum.split prod.split)
qed


definition demo_app :: app where
  "demo_app = \<lparr>conCache = \<lparr>nFree = 2, connection = [(1, True), (2, True)]\<rparr>,
     decoders = [\<lparr>item_obsTypes = [''kldata''], decoderId = 0, decoderCount = 0\<rparr>], paramList = [], nextParamCheckTime = None\<rparr>"

definition demo_input :: input_env where
  "demo_input = \<lparr>in_now = 0, file_params = [], query_params = Rows [], cast_id = (\<lambda>s. None), makes = (\<lambda>i. True), memory = True\<rparr>"

definition demo_runs :: "nat \<Rightarrow> DecodeCommand \<Rightarrow> run_outcome" where
  "demo_runs k cmd = Returns Redirect [] \<lparr>ri_decoder = ''kldata'', ri_obsType = ''kldata/'', ri_data = []\<rparr>"

lemma demo_app_ok: "cache_ok (conCache demo_app)" "2 \<le> nFree (conCache demo_app)" "distinct (map decoderId (decoders demo_app))"
  "\<forall>k. memory demo_input \<and> query_params demo_input \<noteq> OtherFails"
  by (simp_all add: demo_app_def demo_input_def cache_ok_def)


section \<open>Several requests\<close>

text \<open>
  The threads of the HTTP server. A thread takes a connection, waits for the mutex, and in it may have to read the parameters,
  for which it takes a second connection; it returns the second connection, leaves the mutex, decodes, returns its connection, and waits
  once more for the mutex to release the decoder.
\<close>

datatype request_phase = Idle | HasCon | WantsSecond | HasTwo | HasMutex | Decodes | Releases | ReleasesInMutex

record service =
  free_cons :: nat
  phases :: "request_phase list"

fun holds :: "request_phase \<Rightarrow> nat" where
  "holds HasCon = 1"
| "holds WantsSecond = 1"
| "holds HasTwo = 2"
| "holds HasMutex = 1"
| "holds Decodes = 1"
| "holds _ = 0"

definition in_mutex :: "request_phase \<Rightarrow> bool" where
  "in_mutex ph \<longleftrightarrow> ph \<in> {WantsSecond, HasTwo, HasMutex, ReleasesInMutex}"

text \<open>One step of a thread; \<open>due\<close>: the parameters are to be read again. \<open>None\<close> while it waits.\<close>

definition thread_step :: "bool \<Rightarrow> nat \<Rightarrow> service \<Rightarrow> service option" where
  "thread_step due i s =
     (let to = (\<lambda>ph. (phases s)[i := ph]) in
      case phases s ! i of
        Idle \<Rightarrow> if free_cons s > 0 then Some (s\<lparr>free_cons := free_cons s - 1, phases := to HasCon\<rparr>) else None
      | HasCon \<Rightarrow>
          if list_ex in_mutex (phases s) then None
          else Some (s\<lparr>phases := to (if due then WantsSecond else HasMutex)\<rparr>)
      | WantsSecond \<Rightarrow> if free_cons s > 0 then Some (s\<lparr>free_cons := free_cons s - 1, phases := to HasTwo\<rparr>) else None
      | HasTwo \<Rightarrow> Some (s\<lparr>free_cons := free_cons s + 1, phases := to HasMutex\<rparr>)
      | HasMutex \<Rightarrow> Some (s\<lparr>phases := to Decodes\<rparr>)
      | Decodes \<Rightarrow> Some (s\<lparr>free_cons := free_cons s + 1, phases := to Releases\<rparr>)
      | Releases \<Rightarrow> if list_ex in_mutex (phases s) then None else Some (s\<lparr>phases := to ReleasesInMutex\<rparr>)
      | ReleasesInMutex \<Rightarrow> Some (s\<lparr>phases := to Idle\<rparr>))"

inductive sstep :: "service \<Rightarrow> service \<Rightarrow> bool" where
  "i < length (phases s) \<Longrightarrow> thread_step due i s = Some s' \<Longrightarrow> sstep s s'"

inductive_cases sstepE: "sstep s s'"

definition sreach :: "nat \<Rightarrow> nat \<Rightarrow> service \<Rightarrow> bool" where
  "sreach nThreads nConnections s = sstep\<^sup>*\<^sup>* \<lparr>free_cons = nConnections, phases = replicate nThreads Idle\<rparr> s"

definition deadlock :: "service \<Rightarrow> bool" where
  "deadlock s \<longleftrightarrow> (\<nexists>s'. sstep s s')"

lemma holds_update:
  "i < length ps \<Longrightarrow> sum_list (map holds (ps[i := ph])) + holds (ps ! i) = sum_list (map holds ps) + holds ph"
proof (induction ps arbitrary: i)
  case (Cons p ps)
  then show ?case by (cases i) auto
qed simp

lemma sstep_counts:
  assumes "sstep s s'"
  shows "free_cons s' + sum_list (map holds (phases s')) = free_cons s + sum_list (map holds (phases s)) \<and> length (phases s') = length (phases s)"
  using assms
proof (rule sstepE)
  fix i due
  assume i: "i < length (phases s)" and t: "thread_step due i s = Some s'"
  show ?thesis using t holds_update [OF i, of Idle] holds_update [OF i, of HasCon] holds_update [OF i, of WantsSecond]
      holds_update [OF i, of HasTwo] holds_update [OF i, of HasMutex] holds_update [OF i, of Decodes] holds_update [OF i, of Releases]
      holds_update [OF i, of ReleasesInMutex]
    by (auto simp: thread_step_def Let_def split: request_phase.splits if_splits)
qed

lemma sreach_counts:
  "sreach n c s \<Longrightarrow> free_cons s + sum_list (map holds (phases s)) = c \<and> length (phases s) = n"
  unfolding sreach_def
proof (induction rule: rtranclp_induct)
  case base
  show ?case by (induction n) auto
qed (use sstep_counts in auto)

text \<open>As long as a thread that holds two connections is not there, each thread holds one at most.\<close>

lemma holds_le: "HasTwo \<notin> set ps \<Longrightarrow> sum_list (map holds ps) \<le> length ps"
proof (induction ps)
  case (Cons p ps)
  then show ?case by (cases p) auto
qed simp

lemma deadlock_phases:
  assumes "deadlock s" "ph \<in> set (phases s)"
  shows "ph \<notin> {HasTwo, HasMutex, Decodes, ReleasesInMutex} \<and> (ph \<in> {Idle, WantsSecond} \<longrightarrow> free_cons s = 0)
    \<and> (ph \<in> {HasCon, Releases} \<longrightarrow> list_ex in_mutex (phases s))"
proof -
  obtain i where i: "i < length (phases s)" "phases s ! i = ph" using assms(2) by (auto simp: in_set_conv_nth)
  have "thread_step due i s = None" for due
    using assms(1) i(1) sstep.intros [of i s due] by (cases "thread_step due i s") (auto simp: deadlock_def)
  from this [of False] show ?thesis using i(2) by (cases ph) (auto simp: thread_step_def Let_def split: if_splits)
qed

lemma start_all:
  "k \<le> n \<Longrightarrow> k \<le> c \<Longrightarrow> sreach n c \<lparr>free_cons = c - k, phases = replicate k HasCon @ replicate (n - k) Idle\<rparr>"
proof (induction k)
  case 0
  then show ?case by (simp add: sreach_def)
next
  case (Suc k)
  let ?s = "\<lparr>free_cons = c - k, phases = replicate k HasCon @ replicate (n - k) Idle\<rparr>"
  have "replicate (n - k) Idle = Idle # replicate (n - Suc k) Idle" using Suc.prems by (metis Suc_diff_Suc Suc_le_eq replicate_Suc)
  then have "thread_step False k ?s = Some \<lparr>free_cons = c - Suc k, phases = replicate (Suc k) HasCon @ replicate (n - Suc k) Idle\<rparr>"
    using Suc.prems by (simp add: thread_step_def nth_append list_update_append replicate_append_same)
  then have "sstep ?s \<lparr>free_cons = c - Suc k, phases = replicate (Suc k) HasCon @ replicate (n - Suc k) Idle\<rparr>"
    using Suc.prems by (intro sstep.intros [of k]) auto
  then show ?case using Suc by (auto simp: sreach_def intro: rtranclp.rtrancl_into_rtrancl)
qed

text \<open>
  C17. The threads of the service can wait for each other for ever if and only if there are at least as many threads as
  connections. Then each connection can be held by a thread that has not decoded yet, and the one in the mutex waits for a second.
\<close>

theorem deadlock_iff_too_few_connections:
  assumes "nThreads > 0"
  shows "(\<exists>s. sreach nThreads nConnections s \<and> deadlock s) \<longleftrightarrow> nConnections \<le> nThreads"
proof
  assume "\<exists>s. sreach nThreads nConnections s \<and> deadlock s"
  then obtain s where s: "sreach nThreads nConnections s" "deadlock s" by blast
  note c = sreach_counts [OF s(1)]
  note d = deadlock_phases [OF s(2)]
  have two: "HasTwo \<notin> set (phases s)" using d by auto
  obtain ph where ph: "ph \<in> set (phases s)" using c assms by (cases "phases s") auto
  have "\<exists>x \<in> set (phases s). x \<in> {Idle, WantsSecond}"
  proof (cases "ph \<in> {HasCon, Releases}")
    case True
    then obtain x where "x \<in> set (phases s)" "in_mutex x" using d [OF ph] by (auto simp: list_ex_iff)
    then show ?thesis using d [of x] by (auto simp: in_mutex_def)
  next
    case False
    then have "ph \<in> {Idle, WantsSecond}" using d [OF ph] by (cases ph) simp_all
    then show ?thesis using ph by blast
  qed
  then have "free_cons s = 0" using d by auto
  then show "nConnections \<le> nThreads" using c holds_le [OF two] by simp
next
  assume le: "nConnections \<le> nThreads"
  show "\<exists>s. sreach nThreads nConnections s \<and> deadlock s"
  proof (cases nConnections)
    case 0
    have "deadlock \<lparr>free_cons = 0, phases = replicate nThreads Idle\<rparr>" by (auto simp: deadlock_def thread_step_def elim!: sstepE)
    then show ?thesis using 0 by (auto simp: sreach_def)
  next
    case (Suc c)
    let ?s = "\<lparr>free_cons = 0, phases = replicate nConnections HasCon @ replicate (nThreads - nConnections) Idle\<rparr>"
    let ?t = "\<lparr>free_cons = 0, phases = WantsSecond # replicate c HasCon @ replicate (nThreads - nConnections) Idle\<rparr>"
    have "thread_step True 0 ?s = Some ?t" using Suc by (auto simp: thread_step_def in_mutex_def list_ex_iff set_replicate_conv_if)
    then have "sstep ?s ?t" using Suc by (intro sstep.intros [of 0]) auto
    then have "sreach nThreads nConnections ?t"
      using start_all [OF le order_refl] by (auto simp: sreach_def intro: rtranclp.rtrancl_into_rtrancl)
    moreover have "deadlock ?t"
    proof -
      have "thread_step due i ?t = None" if "i < length (phases ?t)" for due i
      proof -
        have "phases ?t ! i \<in> set (phases ?t)" using that by (rule nth_mem)
        then have "phases ?t ! i \<in> {WantsSecond, HasCon, Idle}" by auto
        then show ?thesis by (auto simp: thread_step_def in_mutex_def Let_def)
      qed
      then show ?thesis by (auto simp: deadlock_def elim!: sstepE)
    qed
    ultimately show ?thesis by blast
  qed
qed

theorem deadlock_iff_too_few_connections_witness: "\<exists>s. sreach 5 3 s \<and> deadlock s"
  using deadlock_iff_too_few_connections [of 5 3] by simp

section \<open>Details\<close>

text \<open>A connection that is returned twice is counted twice: then a null pointer is found.\<close>

lemma returned_twice:
  "let c = \<lparr>nFree = 0, connection = [(1, False)]\<rparr>; c = snd (freeConnection 1 (snd (freeConnection 1 c)));
       c = (case findFreeConnection c of Some (r, c) \<Rightarrow> c) in
   map_option fst (findFreeConnection c) = Some None"
  by code_simp

text \<open>After an exception that is no SQLException the connection is returned twice, and the parameters are lost.\<close>

lemma parameters_lost:
  "case registerParams (demo_input\<lparr>query_params := OtherFails\<rparr>) (demo_app\<lparr>paramList := [\<lparr>kode = ''TA'', param_id = 211, isScalar = True\<rparr>]\<rparr>) of
     Some (b, a) \<Rightarrow> b \<and> nFree (conCache a) = 3 \<and> paramList a = [] | None \<Rightarrow> False"
  by code_simp

text \<open>The text of a key may be the beginning of an earlier one, and is removed there.\<close>

lemma key_removed_elsewhere: "getMessageId ''kldata/messageid=12/x/messageid=1'' = (''1'', ''kldata2/x/messageid=1'')"
  by code_simp

end
