(* ===== verification/Thread_Pool.thy ===== *)
theory Thread_Pool
  imports Queues "HOL-Library.Multiset"
begin

text \<open>
  The pool of threads that runs the decoders, \<^verbatim>\<open>src/lib/miutil/threadpool.cc\<close>. Its queue is \<open>BlockingQueuePtr\<close> of theory
  \<open>Queues\<close>. Every thread of the pool is a position in the procedure \<^verbatim>\<open>runnerProc\<close>; the threads and the clients
  interleave by the step relation \<open>pstep\<close>. Tasks are values; whether a task ends or throws is open. The lists of tasks that
  have been accepted, removed, finished and that have thrown are kept for the properties. The properties: no task is lost
  or run twice, the counter of running threads, and what happens after \<^verbatim>\<open>shutdown\<close>.
\<close>

section \<open>State\<close>

text \<open>
  A thread before it increments the counter, in \<^verbatim>\<open>get\<close>, in a task, before it decrements the counter, while it drains the queue
  after the suspension, in a task meanwhile, before the last decrement, and at the end.
\<close>

datatype 'a phase = Top | Getting | Running 'a | Leaving | Draining | DrainRun 'a | Last | Ended

record 'a thread_pool =
  pool_size :: int
  runQueue :: "'a queue"
  threads :: "'a phase list"
  runningCount :: int
  pool_name :: string
  accepted :: "'a list"
  removed :: "'a list"
  finished :: "'a list"
  thrown :: "'a list"

section \<open>Operations\<close>

definition incRunningCount :: "'a thread_pool \<Rightarrow> 'a thread_pool" where
  "incRunningCount p = p\<lparr>runningCount := runningCount p + 1\<rparr>"

definition decRunningCount :: "'a thread_pool \<Rightarrow> 'a thread_pool" where
  "decRunningCount p = (if runningCount p > 0 then p\<lparr>runningCount := runningCount p - 1\<rparr> else p)"

definition isBusy :: "'a thread_pool \<Rightarrow> bool" where
  "isBusy p \<longleftrightarrow> runningCount p \<ge> pool_size p"

definition waitingInRunQue :: "'a thread_pool \<Rightarrow> int" where
  "waitingInRunQue p = int (length (dataQueue (runQueue p)))"

text \<open>The name that is generated from the counter of pools is overwritten at once.\<close>

definition setName :: "(nat \<Rightarrow> string) \<Rightarrow> string \<Rightarrow> nat \<times> 'a thread_pool \<Rightarrow> nat \<times> 'a thread_pool" where
  "setName show_num nm s =
     (case s of (poolCounter, p) \<Rightarrow>
        let (poolCounter, p) = (if nm = [] then (poolCounter + 1, p\<lparr>pool_name := ''pool-'' @ show_num poolCounter\<rparr>) else (poolCounter, p))
        in (poolCounter, p\<lparr>pool_name := nm\<rparr>))"

definition init_pool :: "int \<Rightarrow> 'a thread_pool \<Rightarrow> 'a thread_pool" where
  "init_pool sz p =
     (let n = sz - int (length (threads p)) in
      if n > 0 then
        p\<lparr>pool_size := sz, runQueue := (runQueue p)\<lparr>maxSize := nat (2 * sz)\<rparr>, threads := threads p @ replicate (nat n) Top\<rparr>
      else p)"

definition new_pool :: "(nat \<Rightarrow> string) \<Rightarrow> nat \<Rightarrow> int \<Rightarrow> string \<Rightarrow> nat \<times> 'a thread_pool" where
  "new_pool show_num poolCounter sz nm =
     (let p = \<lparr>pool_size = sz, runQueue = new_queue 4294967295, threads = [], runningCount = 0, pool_name = nm,
               accepted = [], removed = [], finished = [], thrown = []\<rparr>;
          (poolCounter, p) = setName show_num nm (poolCounter, p)
      in (poolCounter, init_pool sz p))"

text \<open>What a client does, when it does not wait.\<close>

definition pool_execute :: "'a \<Rightarrow> 'a thread_pool \<Rightarrow> ('a qres \<times> 'a thread_pool) option" where
  "pool_execute x p =
     (case ptr_wake (PAdd x) False (runQueue p) of
        None \<Rightarrow> None
      | Some (r, q) \<Rightarrow> Some (r, p\<lparr>runQueue := q, accepted := accepted p @ (if r = Ok then [x] else [])\<rparr>))"

definition pool_timed_execute :: "'a \<Rightarrow> bool \<Rightarrow> 'a thread_pool \<Rightarrow> ('a qres \<times> 'a thread_pool) option" where
  "pool_timed_execute x expired p =
     (case (if expired then ptr_wake (PTimedAdd x False) True (runQueue p) else ptr_enter (PTimedAdd x False) (runQueue p)) of
        None \<Rightarrow> None
      | Some (r, q) \<Rightarrow> Some (r, p\<lparr>runQueue := q, accepted := accepted p @ (if r = Ok then [x] else [])\<rparr>))"

definition pool_shutdown :: "'a thread_pool \<Rightarrow> 'a thread_pool" where
  "pool_shutdown p = p\<lparr>runQueue := snd (suspend_queue False (runQueue p))\<rparr>"

definition pool_remove :: "'a \<Rightarrow> 'a thread_pool \<Rightarrow> bool \<times> 'a thread_pool" where
  "pool_remove x p =
     (case remove_first x (dataQueue (runQueue p)) of
        None \<Rightarrow> (False, p)
      | Some xs \<Rightarrow> (True, p\<lparr>runQueue := (runQueue p)\<lparr>dataQueue := xs\<rparr>, removed := removed p @ [x]\<rparr>))"

text \<open>The end of a task: with an exception \<^verbatim>\<open>afterExecute\<close> is not called.\<close>

definition runner_end :: "'a \<Rightarrow> bool \<Rightarrow> 'a thread_pool \<Rightarrow> 'a thread_pool" where
  "runner_end x throws p = (if throws then p\<lparr>thrown := thrown p @ [x]\<rparr> else p\<lparr>finished := finished p @ [x]\<rparr>)"

definition to_phase :: "nat \<Rightarrow> 'a phase \<Rightarrow> 'a thread_pool \<Rightarrow> 'a thread_pool" where
  "to_phase i ph p = p\<lparr>threads := (threads p)[i := ph]\<rparr>"

text \<open>\<open>runnerProc\<close>: one step of the thread \<open>i\<close>; \<open>None\<close> while it waits and at its end.\<close>

definition runner_step :: "nat \<Rightarrow> bool \<Rightarrow> 'a thread_pool \<Rightarrow> 'a thread_pool option" where
  "runner_step i throws p =
     (case threads p ! i of
        Top \<Rightarrow> Some (to_phase i Getting (incRunningCount p))
      | Getting \<Rightarrow>
          (case ptr_wake PGet False (runQueue p) of
             Some (Value x, q) \<Rightarrow> Some (to_phase i (Running x) (p\<lparr>runQueue := q\<rparr>))
           | Some (Exn QueueSuspended, q) \<Rightarrow> Some (to_phase i Draining (p\<lparr>runQueue := q\<rparr>))
           | _ \<Rightarrow> None)
      | Running x \<Rightarrow> Some (to_phase i Leaving (runner_end x throws p))
      | Leaving \<Rightarrow> Some (to_phase i Top (decRunningCount p))
      | Draining \<Rightarrow>
          (case ptr_wake PGetAfterSuspend False (runQueue p) of
             Some (Value x, q) \<Rightarrow> Some (to_phase i (DrainRun x) (p\<lparr>runQueue := q\<rparr>))
           | Some (Null, q) \<Rightarrow> Some (to_phase i Last (p\<lparr>runQueue := q\<rparr>))
           | Some (Exn QueueIllegalState, q) \<Rightarrow> Some (to_phase i Last (p\<lparr>runQueue := q\<rparr>))
           | _ \<Rightarrow> None)
      | DrainRun x \<Rightarrow> Some (to_phase i Draining (runner_end x throws p))
      | Last \<Rightarrow> Some (to_phase i Ended (decRunningCount p))
      | Ended \<Rightarrow> None)"

inductive pstep :: "'a thread_pool \<Rightarrow> 'a thread_pool \<Rightarrow> bool" where
  runs: "i < length (threads p) \<Longrightarrow> runner_step i throws p = Some p' \<Longrightarrow> pstep p p'"
| executes: "pool_execute x p = Some (r, p') \<Longrightarrow> pstep p p'"
| executes_timed: "pool_timed_execute x expired p = Some (r, p') \<Longrightarrow> pstep p p'"
| removes: "pstep p (snd (pool_remove x p))"
| shuts_down: "pstep p (pool_shutdown p)"
| grows: "pstep p (init_pool n p)"

definition preach :: "int \<Rightarrow> string \<Rightarrow> 'a thread_pool \<Rightarrow> bool" where
  "preach sz nm p = pstep\<^sup>*\<^sup>* (snd (new_pool (\<lambda>_. []) 0 sz nm)) p"

section \<open>Tasks\<close>

fun task_of :: "'a phase \<Rightarrow> 'a list" where
  "task_of (Running x) = [x]"
| "task_of (DrainRun x) = [x]"
| "task_of _ = []"

definition in_work :: "'a thread_pool \<Rightarrow> 'a list" where
  "in_work p = concat (map task_of (threads p))"

fun counted :: "'a phase \<Rightarrow> bool" where
  "counted Top = False"
| "counted Ended = False"
| "counted _ = True"

text \<open>The invariant: where the tasks are, and what the counter counts.\<close>

definition pool_inv :: "'a thread_pool \<Rightarrow> bool" where
  "pool_inv p \<longleftrightarrow>
     mset (accepted p) = mset (dataQueue (runQueue p)) + mset (in_work p) + mset (finished p) + mset (thrown p) + mset (removed p)
     \<and> runningCount p = int (length (filter counted (threads p)))
     \<and> pool_size p = int (length (threads p))"

lemma mset_task_update:
  "i < length ts \<Longrightarrow> mset (concat (map task_of (ts[i := ph]))) + mset (task_of (ts ! i)) = mset (concat (map task_of ts)) + mset (task_of ph)"
proof (induction ts arbitrary: i)
  case (Cons t ts)
  then show ?case by (cases i) (auto simp: ac_simps)
qed simp

lemma counted_update:
  "i < length ts \<Longrightarrow> int (length (filter counted (ts[i := ph]))) =
     int (length (filter counted ts)) - (if counted (ts ! i) then 1 else 0) + (if counted ph then 1 else 0)"
proof (induction ts arbitrary: i)
  case (Cons t ts)
  show ?case
  proof (cases i)
    case (Suc j)
    then show ?thesis using Cons.IH [of j] Cons.prems by auto
  qed auto
qed simp

lemma counted_pos: "i < length ts \<Longrightarrow> counted (ts ! i) \<Longrightarrow> length (filter counted ts) > 0"
  by (auto simp: filter_empty_conv)

lemma remove_first_mset: "remove_first x xs = Some ys \<Longrightarrow> mset xs = add_mset x (mset ys)"
  by (induction xs arbitrary: ys) (auto split: if_splits)

lemma inv_new: "0 \<le> sz \<Longrightarrow> pool_inv (snd (new_pool sh n sz nm))"
  by (auto simp: new_pool_def setName_def init_pool_def pool_inv_def in_work_def new_queue_def Let_def split: prod.split)

lemma inv_to_phase:
  assumes "pool_inv p" "i < length (threads p)"
    "mset (accepted q) = mset (accepted p)" "threads q = threads p" "pool_size q = pool_size p"
    "mset (dataQueue (runQueue q)) + mset (task_of ph) + mset (finished q) + mset (thrown q) + mset (removed q)
     = mset (dataQueue (runQueue p)) + mset (task_of (threads p ! i)) + mset (finished p) + mset (thrown p) + mset (removed p)"
    "runningCount q = runningCount p - (if counted (threads p ! i) then 1 else 0) + (if counted ph then 1 else 0)"
  shows "pool_inv (to_phase i ph q)"
proof -
  have "mset (in_work (to_phase i ph q)) + mset (task_of (threads p ! i)) = mset (in_work p) + mset (task_of ph)"
    using mset_task_update [OF assms(2)] assms(4) by (simp add: in_work_def to_phase_def)
  moreover have "mset (accepted p) = mset (dataQueue (runQueue p)) + mset (in_work p) + mset (finished p) + mset (thrown p) + mset (removed p)"
    using assms(1) by (simp add: pool_inv_def)
  moreover define T P A A' where "T = mset (task_of (threads p ! i))" and "P = mset (task_of ph)" and "A = mset (in_work p)"
    and "A' = mset (in_work (to_phase i ph q))"
  ultimately have m: "A' + T = A + P"
    "mset (accepted q) = mset (dataQueue (runQueue p)) + A + mset (finished p) + mset (thrown p) + mset (removed p)"
    using assms(3) by simp_all
  have "mset (dataQueue (runQueue q)) + A' + mset (finished q) + mset (thrown q) + mset (removed q) + T
      = (A' + T) + (mset (dataQueue (runQueue q)) + mset (finished q) + mset (thrown q) + mset (removed q))" by (simp add: ac_simps)
  also have "\<dots> = A + (mset (dataQueue (runQueue q)) + P + mset (finished q) + mset (thrown q) + mset (removed q))"
    unfolding m(1) by (simp add: ac_simps)
  also have "\<dots> = mset (accepted q) + T" using assms(6) m(2) by (simp add: T_def P_def ac_simps)
  finally have "mset (accepted q) = mset (dataQueue (runQueue q)) + mset (in_work (to_phase i ph q)) + mset (finished q) + mset (thrown q) + mset (removed q)"
    by (simp add: A'_def)
  then show ?thesis
    using assms counted_update [OF assms(2), of ph] by (simp add: pool_inv_def to_phase_def in_work_def)
qed

lemma inv_runner_step:
  assumes "pool_inv p" "i < length (threads p)" "runner_step i throws p = Some p'"
  shows "pool_inv p'"
proof -
  note u = inv_to_phase [OF assms(1,2)]
  have pos: "counted (threads p ! i) \<Longrightarrow> runningCount p > 0"
    using counted_pos [OF assms(2)] assms(1) by (simp add: pool_inv_def)
  show ?thesis
  proof (cases "threads p ! i")
    case Top
    then show ?thesis using assms(3) by (auto simp: runner_step_def incRunningCount_def intro!: u)
  next
    case Getting
    then show ?thesis using assms(3)
      by (auto simp: runner_step_def pop_front_def split: if_splits list.splits intro!: u)
  next
    case (Running x)
    then show ?thesis using assms(3) by (auto simp: runner_step_def runner_end_def intro!: u)
  next
    case Leaving
    then show ?thesis using assms(3) pos by (auto simp: runner_step_def decRunningCount_def intro!: u)
  next
    case Draining
    then show ?thesis using assms(3)
      by (auto simp: runner_step_def pop_front_def split: if_splits list.splits intro!: u)
  next
    case (DrainRun x)
    then show ?thesis using assms(3) by (auto simp: runner_step_def runner_end_def intro!: u)
  next
    case Last
    then show ?thesis using assms(3) pos by (auto simp: runner_step_def decRunningCount_def intro!: u)
  qed (use assms(3) in \<open>simp add: runner_step_def\<close>)
qed

lemma inv_step:
  assumes "pool_inv p" "pstep p p'"
  shows "pool_inv p'"
  using assms(2)
proof (cases rule: pstep.cases)
  case (runs i throws)
  then show ?thesis using inv_runner_step [OF assms(1)] by blast
next
  case (executes x r)
  then show ?thesis using assms(1)
    by (auto simp: pool_execute_def pool_inv_def in_work_def push_back_def split: if_splits option.splits)
next
  case (executes_timed x expired r)
  then show ?thesis using assms(1)
    by (auto simp: pool_timed_execute_def pool_inv_def in_work_def push_back_def timeout_result_def split: if_splits option.splits)
next
  case (removes x)
  then show ?thesis using assms(1) remove_first_mset [of x "dataQueue (runQueue p)"]
    by (auto simp: pool_remove_def pool_inv_def in_work_def split: option.splits)
next
  case shuts_down
  then show ?thesis using assms(1) by (auto simp: pool_shutdown_def suspend_queue_def pool_inv_def in_work_def)
next
  case (grows n)
  then show ?thesis using assms(1) by (auto simp: init_pool_def pool_inv_def in_work_def Let_def)
qed

lemma inv_reach: "preach sz nm p \<Longrightarrow> 0 \<le> sz \<Longrightarrow> pool_inv p"
  unfolding preach_def by (induction rule: rtranclp_induct) (use inv_step inv_new in blast)+


section \<open>Shutdown\<close>

text \<open>The steps that a thread has still to take after the suspension, without those for the tasks in the queue.\<close>

fun steps_left :: "'a phase \<Rightarrow> nat" where
  "steps_left Top = 4"
| "steps_left Getting = 3"
| "steps_left (Running x) = 6"
| "steps_left Leaving = 5"
| "steps_left Draining = 2"
| "steps_left (DrainRun x) = 3"
| "steps_left Last = 1"
| "steps_left Ended = 0"

definition work_left :: "'a thread_pool \<Rightarrow> nat" where
  "work_left p = sum_list (map steps_left (threads p)) + 2 * length (dataQueue (runQueue p))"

lemma steps_left_update:
  "i < length ts \<Longrightarrow> sum_list (map steps_left (ts[i := ph])) + steps_left (ts ! i) = sum_list (map steps_left ts) + steps_left ph"
proof (induction ts arbitrary: i)
  case (Cons t ts)
  then show ?case by (cases i) auto
qed simp

lemma steps_left_less:
  assumes "i < length ts"
  shows "steps_left ph < steps_left (ts ! i) \<Longrightarrow> sum_list (map steps_left (ts[i := ph])) < sum_list (map steps_left ts)"
    "steps_left ph < steps_left (ts ! i) + 2 \<Longrightarrow> sum_list (map steps_left (ts[i := ph])) < Suc (Suc (sum_list (map steps_left ts)))"
  using steps_left_update [OF assms, of ph] by simp_all

lemma runner_step_decreases:
  assumes "i < length (threads p)" "runner_step i throws p = Some p'" "suspended (runQueue p)"
  shows "work_left p' < work_left p \<and> suspended (runQueue p') \<and> length (threads p') = length (threads p)"
  using assms(2,3)
  by (auto simp: runner_step_def to_phase_def incRunningCount_def decRunningCount_def runner_end_def work_left_def pop_front_def
      split: phase.splits if_splits list.splits intro!: steps_left_less [OF assms(1)])

lemma runner_stuck:
  assumes "i < length (threads p)" "runner_step i throws p = None" "suspended (runQueue p)"
  shows "threads p ! i = Ended"
  using assms by (auto simp: runner_step_def pop_front_def split: phase.splits if_splits list.splits)

text \<open>A thread drains only after the suspension, and stops draining only when the queue is empty; and so it stays.\<close>

fun drains :: "'a phase \<Rightarrow> bool" where
  "drains Draining = True"
| "drains (DrainRun x) = True"
| "drains Last = True"
| "drains Ended = True"
| "drains _ = False"

definition drain_inv :: "'a thread_pool \<Rightarrow> bool" where
  "drain_inv p \<longleftrightarrow> (\<forall>t \<in> set (threads p). (drains t \<longrightarrow> suspended (runQueue p)) \<and> (t = Last \<or> t = Ended \<longrightarrow> dataQueue (runQueue p) = []))"

lemma drain_to_phase:
  assumes "drain_inv p" "threads q = threads p" "suspended (runQueue p) \<Longrightarrow> suspended (runQueue q)"
    "dataQueue (runQueue p) = [] \<Longrightarrow> dataQueue (runQueue q) = []" "drains ph \<Longrightarrow> suspended (runQueue q)"
    "ph = Last \<or> ph = Ended \<Longrightarrow> dataQueue (runQueue q) = []"
  shows "drain_inv (to_phase i ph q)"
proof -
  have "t \<in> insert ph (set (threads p))" if "t \<in> set ((threads p)[i := ph])" for t
    using that set_update_subset_insert [of "threads p" i ph] by blast
  then show ?thesis using assms unfolding drain_inv_def to_phase_def by fastforce
qed

lemma drain_runner_step:
  assumes "drain_inv p" "i < length (threads p)" "runner_step i throws p = Some p'"
  shows "drain_inv p'"
proof -
  have m: "threads p ! i \<in> set (threads p)" using assms(2) by simp
  then have d: "drains (threads p ! i) \<Longrightarrow> suspended (runQueue p)" "threads p ! i = Last \<Longrightarrow> dataQueue (runQueue p) = []"
    using assms(1) by (auto simp: drain_inv_def)
  show ?thesis using assms(3) d
    by (auto simp: runner_step_def incRunningCount_def decRunningCount_def runner_end_def pop_front_def
        split: phase.splits if_splits list.splits intro!: drain_to_phase [OF assms(1)])
qed

lemma drain_step: "drain_inv p \<Longrightarrow> pstep p p' \<Longrightarrow> drain_inv p'"
proof -
  assume d: "drain_inv p" and "pstep p p'"
  then show "drain_inv p'"
  proof (cases rule: pstep.cases [OF \<open>pstep p p'\<close>])
    case (1 i p throws p')
    then show ?thesis using drain_runner_step d by blast
  next
    case (2 x p r p')
    then show ?thesis using d by (auto simp: pool_execute_def push_back_def drain_inv_def split: if_splits option.splits)
  next
    case (3 x expired p r p')
    then show ?thesis using d
      by (auto simp: pool_timed_execute_def push_back_def timeout_result_def drain_inv_def split: if_splits option.splits)
  next
    case (4 p x)
    then show ?thesis using d by (auto simp: pool_remove_def drain_inv_def split: option.splits)
  next
    case (5 p)
    then show ?thesis using d by (auto simp: pool_shutdown_def suspend_queue_def drain_inv_def)
  next
    case (6 p n)
    then show ?thesis using d by (auto simp: init_pool_def drain_inv_def Let_def)
  qed
qed

lemma drain_reach: "preach sz nm p \<Longrightarrow> drain_inv p"
  unfolding preach_def
proof (induction rule: rtranclp_induct)
  case base
  show ?case by (auto simp: new_pool_def setName_def init_pool_def drain_inv_def Let_def split: prod.split)
qed (rule drain_step)

text \<open>
  C2. After \<open>shutdown\<close> the threads of a pool come to an end: whatever they do and in whatever order, they take at most
  \<open>work_left\<close> more steps, and when none can take a step, every thread has ended, the queue is empty, nothing is counted as
  running, and every accepted task that was not removed has been run.
\<close>

theorem shutdown_ends:
  assumes "preach sz nm p" "0 \<le> sz" "suspended (runQueue p)" "threads p \<noteq> []"
  shows "(\<forall>i throws p'. i < length (threads p) \<longrightarrow> runner_step i throws p = Some p' \<longrightarrow>
             work_left p' < work_left p \<and> suspended (runQueue p') \<and> preach sz nm p')
    \<and> ((\<forall>i throws. i < length (threads p) \<longrightarrow> runner_step i throws p = None) \<longrightarrow>
        (\<forall>t \<in> set (threads p). t = Ended) \<and> dataQueue (runQueue p) = [] \<and> runningCount p = 0
        \<and> mset (accepted p) = mset (finished p) + mset (thrown p) + mset (removed p))"
proof (intro conjI allI impI)
  fix i throws p'
  assume i: "i < length (threads p)" "runner_step i throws p = Some p'"
  show "work_left p' < work_left p" "suspended (runQueue p')" using runner_step_decreases [OF i assms(3)] by simp_all
  show "preach sz nm p'" using assms(1) runs [OF i] unfolding preach_def by (rule rtranclp.rtrancl_into_rtrancl)
next
  assume n: "\<forall>i throws. i < length (threads p) \<longrightarrow> runner_step i throws p = None"
  show e: "\<forall>t \<in> set (threads p). t = Ended" using n runner_stuck [OF _ _ assms(3)] by (metis in_set_conv_nth)
  then have w: "in_work p = []" "filter counted (threads p) = []" by (auto simp: in_work_def filter_empty_conv)
  note inv = inv_reach [OF assms(1,2)]
  show "runningCount p = 0" using inv w(2) by (simp add: pool_inv_def)
  show q: "dataQueue (runQueue p) = []" using drain_reach [OF assms(1)] e assms(4) by (cases "threads p") (auto simp: drain_inv_def)
  show "mset (accepted p) = mset (finished p) + mset (thrown p) + mset (removed p)" using inv w(1) q by (simp add: pool_inv_def)
qed

text \<open>A pool of one thread with a task, which is shut down before the thread has begun.\<close>

definition demo_pool :: "nat thread_pool" where
  "demo_pool = \<lparr>pool_size = 1, runQueue = \<lparr>dataQueue = [7], suspended = True, maxSize = 2\<rparr>, threads = [Top], runningCount = 0,
     pool_name = ''decoder'', accepted = [7], removed = [], finished = [], thrown = []\<rparr>"

lemma demo_pool_reached: "preach 1 ''decoder'' demo_pool"
proof -
  let ?p = "snd (new_pool (\<lambda>_. []) 0 1 ''decoder'') :: nat thread_pool"
  let ?q = "demo_pool\<lparr>runQueue := \<lparr>dataQueue = [7], suspended = False, maxSize = 2\<rparr>\<rparr>"
  have "pool_execute 7 ?p = Some (Ok, ?q)"
    by (simp add: pool_execute_def new_pool_def setName_def init_pool_def new_queue_def push_back_def demo_pool_def)
  moreover have "pool_shutdown ?q = demo_pool" by (simp add: pool_shutdown_def suspend_queue_def demo_pool_def)
  ultimately have "pstep ?p ?q" "pstep ?q demo_pool" using executes [of 7 ?p Ok ?q] shuts_down [of ?q] by simp_all
  then show ?thesis unfolding preach_def by (meson converse_rtranclp_into_rtranclp rtranclp.rtrancl_refl)
qed

lemma demo_pool_values: "suspended (runQueue demo_pool)" "threads demo_pool = [Top]" "dataQueue (runQueue demo_pool) = [7]"
  "work_left demo_pool = 6" "finished demo_pool = []" "thrown demo_pool = []" "removed demo_pool = []"
  by (simp_all add: demo_pool_def work_left_def)


theorem shutdown_ends_witness:
  "\<exists>p'. runner_step 0 False demo_pool = Some p' \<and> work_left p' < 6"
proof -
  obtain p' where p: "runner_step 0 False demo_pool = Some p'" using demo_pool_values(2) by (simp add: runner_step_def)
  show ?thesis using shutdown_ends [OF demo_pool_reached] demo_pool_values p by auto
qed

section \<open>Details\<close>

text \<open>A pool whose threads all wait for a task counts them as running, and is busy.\<close>

lemma idle_pool_is_busy:
  "\<exists>p :: nat thread_pool. runner_step 0 False (snd (new_pool (\<lambda>_. []) 0 1 [])) = Some p \<and> in_work p = [] \<and> dataQueue (runQueue p) = [] \<and> isBusy p"
  by (simp add: runner_step_def new_pool_def setName_def init_pool_def to_phase_def incRunningCount_def in_work_def isBusy_def new_queue_def)

text \<open>A pool without a name gets a number, but not the name with the number.\<close>

lemma generated_name_lost: "fst (setName sh [] (n, p)) = n + 1" "pool_name (snd (setName sh [] (n, p))) = []"
  by (simp_all add: setName_def)

end
