(* ===== verification/Sms_Data.thy ===== *)
theory Sms_Data
  imports Text_Util Decode_Codes Kv_Data Kv_Text_Data
begin

text \<open>
  The data of a message of a manual station, \<^verbatim>\<open>src/lib/decoder/comobsdecoder/decodeddata.cc\<close>, and what its
  decoders share, \<^verbatim>\<open>smsbase.cc\<close> and \<^verbatim>\<open>decodeutil.cc\<close>: cleaning of texts, times of several
  formats, local time, and groups of the synoptic code. The time library (\<^verbatim>\<open>puTools/miTime.h\<close>) is not part of the
  repository: the operations used of it are the record \<open>mitime\<close>.
\<close>

section \<open>Scanning of numbers\<close>

text \<open>\<^verbatim>\<open>%wd\<close> of \<^verbatim>\<open>sscanf\<close>: at most \<open>w\<close> characters, with a sign; and the rest.\<close>

definition scan_int :: "nat \<Rightarrow> string \<Rightarrow> (int \<times> string) option" where
  "scan_int w s =
     (let s = dropWhile isspace s;
          signed = (0 < w \<and> s \<noteq> [] \<and> hd s \<in> {CHR ''-'', CHR ''+''});
          r = (if signed then tl s else s);
          ds = takeWhile isdigit (take (if signed then w - 1 else w) r)
      in if ds = [] then None else Some ((if signed \<and> hd s = CHR ''-'' then - digits_val ds else digits_val ds), drop (length ds) r))"

text \<open>A format of several such conversions: the numbers that are converted before one fails.\<close>

fun scan_ints :: "nat list \<Rightarrow> string \<Rightarrow> int list" where
  "scan_ints [] s = []"
| "scan_ints (w # ws) s = (case scan_int w s of None \<Rightarrow> [] | Some (i, r) \<Rightarrow> i # scan_ints ws r)"

text \<open>
  \<^verbatim>\<open>%f\<close> on a decimal number. Names and hexadecimal numbers, which are also read by \<^verbatim>\<open>sscanf\<close>, have letters,
  which the decoders of messages do not give to numeric parameters.
\<close>

definition frac_val :: "string \<Rightarrow> real" where
  "frac_val ds = of_int (digits_val ds) / 10 ^ length ds"

definition scan_float :: "string \<Rightarrow> real option" where
  "scan_float s =
     (let s = dropWhile isspace s;
          signed = (s \<noteq> [] \<and> hd s \<in> {CHR ''-'', CHR ''+''});
          neg = (signed \<and> hd s = CHR ''-'');
          r = (if signed then tl s else s);
          whole = takeWhile isdigit r; r = dropWhile isdigit r;
          frac = (if r \<noteq> [] \<and> hd r = CHR ''.'' then takeWhile isdigit (tl r) else []);
          r = (if r \<noteq> [] \<and> hd r = CHR ''.'' then dropWhile isdigit (tl r) else r);
          v = of_int (digits_val whole) + frac_val frac;
          v = (if neg then - v else v)
      in if whole = [] \<and> frac = [] then None
         else if r \<noteq> [] \<and> hd r \<in> {CHR ''e'', CHR ''E''} then
           (let x = tl r; xs = (x \<noteq> [] \<and> hd x \<in> {CHR ''-'', CHR ''+''}); ds = takeWhile isdigit (if xs then tl x else x) in
            if ds = [] then None
            else if xs \<and> hd x = CHR ''-'' then Some (v / 10 ^ nat (digits_val ds)) else Some (v * 10 ^ nat (digits_val ds)))
         else Some v)"

section \<open>Texts\<close>

definition stripNewLine :: "string \<Rightarrow> string" where
  "stripNewLine buf = filter (\<lambda>c. c \<noteq> CHR 0x0A) (filter (\<lambda>c. c \<noteq> CHR 0x0D) buf)"

definition cleanString :: "string \<Rightarrow> string \<Rightarrow> string" where
  "cleanString validChars s = filter (\<lambda>c. c \<in> set validChars) s"

definition number_chars :: string where
  "number_chars = ''1234567890-+.''"

definition digit_chars :: string where
  "digit_chars = ''0123456789''"

text \<open>The first character that is no digit. The code takes a negative character for none.\<close>

definition sms_separator :: "string \<Rightarrow> char option" where
  "sms_separator buf =
     (case find (\<lambda>c. c \<notin> set digit_chars) buf of
        None \<Rightarrow> None
      | Some c \<Rightarrow> if schar c < 0 then None else Some c)"

text \<open>The value of a parameter of the message by the place its name has.\<close>

definition getInData :: "string list \<Rightarrow> string list \<Rightarrow> string \<Rightarrow> bool \<times> string" where
  "getInData inDataparam inData param =
     (case find (\<lambda>i. inDataparam ! i = param) [0..<length inDataparam] of
        None \<Rightarrow> (False, [])
      | Some i \<Rightarrow> if i < length inData then (True, inData ! i) else (False, []))"

section \<open>Times\<close>

text \<open>
  A time that is not a date is \<open>mt_undef\<close>. \<open>mt_make\<close> takes year, month, day, hour and minute; \<open>mt_at\<close> is the day of
  a time at an hour. The day of the week counts from Sunday.
\<close>

record 't mitime =
  mt_isUndef :: "'t \<Rightarrow> bool"
  mt_undef :: 't
  mt_make :: "int \<Rightarrow> int \<Rightarrow> int \<Rightarrow> int \<Rightarrow> int \<Rightarrow> 't"
  mt_year :: "'t \<Rightarrow> int"
  mt_month :: "'t \<Rightarrow> int"
  mt_day :: "'t \<Rightarrow> int"
  mt_hour :: "'t \<Rightarrow> int"
  mt_dayOfWeek :: "'t \<Rightarrow> int"
  mt_daysInMonth :: "'t \<Rightarrow> int"
  mt_addDay :: "int \<Rightarrow> 't \<Rightarrow> 't"
  mt_addSec :: "int \<Rightarrow> 't \<Rightarrow> 't"
  mt_at :: "'t \<Rightarrow> int \<Rightarrow> 't"
  mt_minDiff :: "'t \<Rightarrow> 't \<Rightarrow> int"
  mt_hourDiff :: "'t \<Rightarrow> 't \<Rightarrow> int"

definition fmt04 :: "int \<Rightarrow> string" where
  "fmt04 i = (let s = show_int i in replicate (4 - length s) (CHR ''0'') @ s)"

text \<open>Year and month of a day: the month before when the day has not been reached in this month.\<close>

definition month_of_day :: "'t mitime \<Rightarrow> int \<Rightarrow> 't \<Rightarrow> int \<times> int" where
  "month_of_day mt d dateNow =
     (if d > mt_day mt dateNow then (if mt_month mt dateNow - 1 \<le> 0 then (mt_year mt dateNow - 1, 12) else (mt_year mt dateNow, mt_month mt dateNow - 1))
      else (mt_year mt dateNow, mt_month mt dateNow))"

definition scan_dhm :: "string \<Rightarrow> (int \<times> int \<times> int) option" where
  "scan_dhm dhm =
     (case scan_ints [2, 2, 2] dhm of
        [d, h, m] \<Rightarrow> if d < 1 \<or> d > 31 \<or> h < 0 \<or> h > 23 \<or> m < 0 \<or> m > 60 then None else Some (d, h, m)
      | _ \<Rightarrow> None)"

definition createDHM :: "'t mitime \<Rightarrow> 't \<Rightarrow> string \<Rightarrow> string" where
  "createDHM mt today dhm =
     (case scan_dhm dhm of
        None \<Rightarrow> []
      | Some (d, h, m) \<Rightarrow> fmt02 (snd (month_of_day mt d today)) @ fmt02 d @ fmt02 h @ fmt02 m)"

definition createFromDHM :: "'t mitime \<Rightarrow> 't \<Rightarrow> string \<Rightarrow> string" where
  "createFromDHM mt today dhm =
     (case scan_dhm dhm of
        None \<Rightarrow> []
      | Some (d, h, m) \<Rightarrow>
          (case month_of_day mt d today of (yea, mnt) \<Rightarrow> fmt04 yea @ fmt02 mnt @ fmt02 d @ fmt02 h @ fmt02 m @ ''00''))"

text \<open>The minutes are read and not used.\<close>

definition createDTFromDHM :: "'t mitime \<Rightarrow> 't \<Rightarrow> string \<Rightarrow> 't \<Rightarrow> 't" where
  "createDTFromDHM mt today dhm dt =
     (let dateNow = (if mt_isUndef mt dt then today else dt) in
      case scan_dhm dhm of
        None \<Rightarrow> mt_undef mt
      | Some (d, h, m) \<Rightarrow> (case month_of_day mt d dateNow of (yea, mnt) \<Rightarrow> mt_make mt yea mnt d h 0))"

definition createFromMDh :: "'t mitime \<Rightarrow> 't \<Rightarrow> string \<Rightarrow> string" where
  "createFromMDh mt today MDh =
     (case scan_ints [2, 2, 2] MDh of
        [mnt, d, h] \<Rightarrow>
          if mnt > 12 \<or> mnt < 1 \<or> d < 1 \<or> d > 31 \<or> h < 0 \<or> h > 23 then []
          else fmt04 (if mnt > mt_month mt today then mt_year mt today - 1 else mt_year mt today) @ fmt02 mnt @ fmt02 d @ fmt02 h @ ''0000''
      | _ \<Rightarrow> [])"

definition createDTFromDH :: "'t mitime \<Rightarrow> 't \<Rightarrow> string \<Rightarrow> 't" where
  "createDTFromDH mt nowTime DH =
     (if length DH \<noteq> 4 then mt_undef mt
      else case scan_ints [2, 2] DH of
        [d, h] \<Rightarrow>
          if d < 1 \<or> d > 31 \<or> h < 0 \<or> h > 23 then mt_undef mt
          else if mt_day mt nowTime = mt_daysInMonth mt nowTime \<and> d = 1 then mt_at mt (mt_addDay mt 1 nowTime) h
          else
            let retDT = mt_make mt (mt_year mt nowTime) (mt_month mt nowTime) d h 0 in
            if mt_isUndef mt retDT \<or> mt_hourDiff mt retDT nowTime > 24 then
              (let dateNow = mt_addDay mt (-1 * mt_day mt nowTime) nowTime in mt_make mt (mt_year mt dateNow) (mt_month mt dateNow) d h 0)
            else retDT
      | _ \<Rightarrow> mt_undef mt)"

definition createDTFromYMDhm :: "'t mitime \<Rightarrow> string \<Rightarrow> 't" where
  "createDTFromYMDhm mt s =
     (let xs = (if length s = 10 then (case scan_ints [2, 2, 2, 2, 2] s of [] \<Rightarrow> [] | y # r \<Rightarrow> (y + 2000) # r)
                else if length s = 12 then scan_ints [4, 2, 2, 2, 2] s else [])
      in case xs of
        [y, mnt, d, h, m] \<Rightarrow>
          if d < 1 \<or> d > 31 \<or> h < 0 \<or> h > 23 \<or> mnt < 1 \<or> mnt > 12 \<or> m < 0 \<or> m > 61 then mt_undef mt else mt_make mt y mnt d h m
      | _ \<Rightarrow> mt_undef mt)"

definition createDTFromYMDh :: "'t mitime \<Rightarrow> string \<Rightarrow> 't" where
  "createDTFromYMDh mt YYMMDDhh =
     (if length YYMMDDhh \<noteq> 8 then mt_undef mt
      else case scan_ints [2, 2, 2, 2] YYMMDDhh of
        [y, mnt, d, h] \<Rightarrow>
          if d < 1 \<or> d > 31 \<or> h < 0 \<or> h > 23 \<or> mnt < 1 \<or> mnt > 12 then mt_undef mt else mt_make mt (y + 2000) mnt d h 0
      | _ \<Rightarrow> mt_undef mt)"

definition createFromYMDh :: "'t mitime \<Rightarrow> string \<Rightarrow> string" where
  "createFromYMDh mt YYMMDDhh =
     (let dt = createDTFromYMDh mt YYMMDDhh in
      if mt_isUndef mt dt then []
      else fmt04 (mt_year mt dt) @ fmt02 (mt_month mt dt) @ fmt02 (mt_day mt dt) @ fmt02 (mt_hour mt dt))"

subsection \<open>Local time\<close>

text \<open>The last Sunday of a month of 31 days, at an hour.\<close>

definition last_sunday :: "'t mitime \<Rightarrow> int \<Rightarrow> int \<Rightarrow> int \<Rightarrow> 't" where
  "last_sunday mt yea mnt h =
     (let t = mt_make mt yea mnt 31 h 0 in if mt_dayOfWeek mt t \<noteq> 0 then mt_addDay mt (-1 * mt_dayOfWeek mt t) t else t)"

definition localTimeToUTC :: "'t::linorder mitime \<Rightarrow> 't \<Rightarrow> 't" where
  "localTimeToUTC mt localTime =
     (let summerTime = last_sunday mt (mt_year mt localTime) 3 2;
          winterTime = last_sunday mt (mt_year mt localTime) 10 3
      in if localTime \<ge> summerTime \<and> localTime < winterTime then mt_addSec mt (-2 * 3600) localTime
         else mt_addSec mt (-1 * 3600) localTime)"

section \<open>Decoded data\<close>

record 't DecodedDataElem =
  el_data :: "'t kvData list"
  el_text :: "'t kvTextData list"
  el_sid :: int
  el_tid :: int
  dtObs :: 't
  el_tbtime :: 't

definition findParam :: "ParamList \<Rightarrow> string \<Rightarrow> Param option" where
  "findParam params pname = find (\<lambda>p. param_id p \<ge> 0 \<and> kode p = pname) params"

definition findParam_id :: "ParamList \<Rightarrow> int \<Rightarrow> string" where
  "findParam_id params paramid = (case find (\<lambda>p. param_id p \<ge> 0 \<and> param_id p = paramid) params of None \<Rightarrow> [] | Some p \<Rightarrow> kode p)"

text \<open>Before the first element with a greater parameter.\<close>

definition insert_by_param :: "('a \<Rightarrow> int) \<Rightarrow> 'a \<Rightarrow> 'a list \<Rightarrow> 'a list" where
  "insert_by_param par x xs = takeWhile (\<lambda>y. \<not> par x < par y) xs @ x # dropWhile (\<lambda>y. \<not> par x < par y) xs"

definition addDataObstime :: "'t mitime \<Rightarrow> ParamList \<Rightarrow> string \<Rightarrow> string \<Rightarrow> 't \<Rightarrow> kvUseInfo \<Rightarrow> kvControlInfo \<Rightarrow> int \<Rightarrow> int
    \<Rightarrow> 't DecodedDataElem \<Rightarrow> bool \<times> 't DecodedDataElem" where
  "addDataObstime mt params param dat obt uf cf lev sen e =
     (let myDtObs = (if mt_isUndef mt obt then dtObs e else obt) in
      if dat = [] then (True, e)
      else case findParam params param of
        None \<Rightarrow> (False, e)
      | Some p \<Rightarrow>
          if \<not> isScalar p then
            (True, e\<lparr>el_text := insert_by_param txt_paramID
               (kvTextData_set (el_sid e) myDtObs dat (param_id p) (el_tbtime e) (el_tid e)) (el_text e)\<rparr>)
          else
            (case scan_float dat of
               None \<Rightarrow> (False, e)
             | Some fval \<Rightarrow>
                 (True, e\<lparr>el_data := insert_by_param paramID
                    (kvData_set (el_sid e) myDtObs fval (param_id p) (el_tbtime e) (el_tid e) sen lev fval cf uf []) (el_data e)\<rparr>)))"

definition addData :: "'t mitime \<Rightarrow> ParamList \<Rightarrow> string \<Rightarrow> string \<Rightarrow> kvUseInfo \<Rightarrow> kvControlInfo \<Rightarrow> int \<Rightarrow> int
    \<Rightarrow> 't DecodedDataElem \<Rightarrow> bool \<times> 't DecodedDataElem" where
  "addData mt params param dat uf cf lev sen e = addDataObstime mt params param dat (dtObs e) uf cf lev sen e"

text \<open>The defaults of the arguments, and the result not used.\<close>

definition add_default :: "'t mitime \<Rightarrow> ParamList \<Rightarrow> string \<Rightarrow> string \<Rightarrow> kvUseInfo \<Rightarrow> 't DecodedDataElem \<Rightarrow> 't DecodedDataElem" where
  "add_default mt params param dat uf e = snd (addData mt params param dat uf clear_flag 0 0 e)"

definition el_setDate :: "'t \<Rightarrow> 't \<Rightarrow> 't DecodedDataElem \<Rightarrow> 't DecodedDataElem" where
  "el_setDate nowTime date e = e\<lparr>dtObs := date, el_tbtime := nowTime\<rparr>"

definition el_clean :: "'t mitime \<Rightarrow> 't DecodedDataElem \<Rightarrow> 't DecodedDataElem" where
  "el_clean mt e = e\<lparr>el_data := [], el_text := [], dtObs := mt_undef mt\<rparr>"

record 't DecodedData =
  dd_data :: "'t DecodedDataElem list"
  dd_sid :: int
  dd_tid :: int

definition new_DecodedData :: "int \<Rightarrow> int \<Rightarrow> 't DecodedData" where
  "new_DecodedData stationid typ = \<lparr>dd_data = [], dd_sid = stationid, dd_tid = typ\<rparr>"

definition createDataElem :: "'t mitime \<Rightarrow> 't DecodedData \<Rightarrow> 't DecodedDataElem" where
  "createDataElem mt dd =
     \<lparr>el_data = [], el_text = [], el_sid = dd_sid dd, el_tid = dd_tid dd, dtObs = mt_undef mt, el_tbtime = mt_undef mt\<rparr>"

text \<open>Before the first element that is older.\<close>

definition dd_add :: "'t::linorder DecodedDataElem \<Rightarrow> 't DecodedData \<Rightarrow> 't DecodedData" where
  "dd_add e dd = dd\<lparr>dd_data := takeWhile (\<lambda>x. \<not> dtObs e > dtObs x) (dd_data dd) @ e # dropWhile (\<lambda>x. \<not> dtObs e > dtObs x) (dd_data dd)\<rparr>"

section \<open>Groups of the synoptic code\<close>

definition code_slash :: "char \<Rightarrow> bool" where
  "code_slash c \<longleftrightarrow> c = CHR ''/'' \<or> c = CHR ''x'' \<or> c = CHR ''X''"

text \<open>How a decoder adds a value; what it returns is not looked at.\<close>

type_synonym 'e adder = "string \<Rightarrow> string \<Rightarrow> 'e \<Rightarrow> 'e"

definition add_figure :: "'e adder \<Rightarrow> string \<Rightarrow> char \<Rightarrow> 'e \<Rightarrow> 'e" where
  "add_figure add param c e = (if code_slash c then e else add param [c] e)"

definition doWdWdWd :: "'e adder \<Rightarrow> string \<Rightarrow> 'e \<Rightarrow> bool \<times> 'e" where
  "doWdWdWd add wdwdwd e =
     (if wdwdwd = [] then (True, e)
      else if length wdwdwd = 4 \<or> length wdwdwd = 3 then
        (let i = (if length wdwdwd = 4 then 1 else 0) in
         (True, add_figure add ''X3WD'' (wdwdwd ! (i + 2)) (add_figure add ''X2WD'' (wdwdwd ! (i + 1)) (add_figure add ''X1WD'' (wdwdwd ! i) e))))
      else (False, e))"

text \<open>The test for a missing figure asks for a character that is three at once.\<close>

definition doKvEsss :: "'e adder \<Rightarrow> string \<Rightarrow> 'e \<Rightarrow> bool \<times> 'e" where
  "doKvEsss add Esss e =
     (if length Esss \<noteq> 4 then (True, add ''EM'' ''-1'' e)
      else
        let e = add_figure add ''EM'' (Esss ! 0) e; buf = drop 1 Esss in
        if list_ex (\<lambda>c. c = CHR ''/'' \<and> c = CHR ''x'' \<and> c = CHR ''X'') buf then (True, e)
        else (True, add ''SA'' (if buf = ''997'' then ''0'' else if buf = ''998'' then ''-1'' else if buf = ''999'' then ''-3'' else buf) e))"

definition doKvNhClCmCh :: "'e adder \<Rightarrow> string \<Rightarrow> 'e \<Rightarrow> bool \<times> 'e" where
  "doKvNhClCmCh add g e =
     (if length g \<noteq> 4 then (False, e)
      else (True, add_figure add ''CH'' (g ! 3) (add_figure add ''CM'' (g ! 2) (add_figure add ''CL'' (g ! 1) (add_figure add ''NH'' (g ! 0) e)))))"

definition dohVV :: "'e adder \<Rightarrow> string \<Rightarrow> 'e \<Rightarrow> bool \<times> 'e" where
  "dohVV add hVV e =
     (if length hVV \<noteq> 3 then (False, e)
      else
        let h = HL (take 1 hVV); vv = VV (take 2 (drop 1 hVV));
            e = (if h \<noteq> [] then add ''HL'' h e else e);
            e = (if vv \<noteq> [] then add ''VV'' vv e else e)
        in (True, e))"

definition doNsChshs :: "'e adder \<Rightarrow> string \<Rightarrow> 'e \<Rightarrow> bool \<times> 'e" where
  "doNsChshs add g e =
     (if length g \<noteq> 4 then (False, e)
      else
        let e = (if isdigit (g ! 0) then add ''NS1'' [g ! 0] e else e);
            e = (if isdigit (g ! 1) then add ''CC1'' [g ! 1] e else e);
            e = (if isdigit (g ! 2) \<and> isdigit (g ! 3) then add ''HS1'' [g ! 2, g ! 3] e else e)
        in (True, e))"

definition dowwW1W2 :: "'e adder \<Rightarrow> string \<Rightarrow> 'e \<Rightarrow> bool \<times> 'e" where
  "dowwW1W2 add g e =
     (if length g \<noteq> 4 then (False, e)
      else
        let e = (if isdigit (g ! 0) \<and> isdigit (g ! 1) then add ''WW'' [g ! 0, g ! 1] e else e);
            e = (if isdigit (g ! 2) then add ''W1'' [g ! 2] e else e);
            e = (if isdigit (g ! 3) then add ''W2'' [g ! 3] e else e)
        in (True, e))"

definition doVT :: "'e adder \<Rightarrow> string \<Rightarrow> string \<Rightarrow> string \<Rightarrow> 'e \<Rightarrow> 'e" where
  "doVT add vt vt1 vt2 e =
     (if length vt \<noteq> 4 then e
      else
        let v1 = take 2 vt; v2 = drop 2 vt;
            e = (if vt1 \<noteq> [] \<and> v1 \<noteq> ''00'' \<and> isdigit (v1 ! 0) \<and> isdigit (v1 ! 1) then add vt1 v1 e else e)
        in if vt2 \<noteq> [] \<and> v2 \<noteq> ''00'' \<and> isdigit (v2 ! 0) \<and> isdigit (v2 ! 1) then add vt2 v2 e else e)"

end
