(* ===== verification/Sms_Parser.thy ===== *)
theory Sms_Parser
  imports Text_Util Decode_Codes
begin

text \<open>
  The messages of manual stations in XML, \<^verbatim>\<open>src/lib/decoder/comobsdecoder/smsmelding.cc\<close> and
  \<^verbatim>\<open>smsmeldingparser.cc\<close>: a state machine that is driven by the events of a SAX parser. The XML library is not
  part of the repository: it is the function \<open>sax\<close>, from a text to the events it reports and whether the text is accepted.
  What the machine accepts is stated against a reference on trees of elements.
\<close>

section \<open>Messages\<close>

datatype EResultCodes = SmsOK | NOMASTER | RETRANSMIT | FORMAT | MISSINGARG | CODE_ERROR | NOSTATION | DATAFORMAT | INTERNAL | DATAWARNING

record SmsMelding =
  synopno :: int
  climano :: int
  sms_code :: int
  resCode :: EResultCodes
  errStream :: string
  meldingList :: "string list"
  rawDoc :: string

definition new_SmsMelding :: SmsMelding where
  "new_SmsMelding = \<lparr>synopno = -1, climano = -1, sms_code = -1, resCode = SmsOK, errStream = [], meldingList = [], rawDoc = []\<rparr>"

definition SmsMelding_of :: "int \<Rightarrow> int \<Rightarrow> int \<Rightarrow> SmsMelding" where
  "SmsMelding_of stationid wmono code = new_SmsMelding\<lparr>synopno := wmono, climano := stationid, sms_code := code\<rparr>"

definition addMelding :: "string \<Rightarrow> SmsMelding \<Rightarrow> SmsMelding" where
  "addMelding melding m = m\<lparr>meldingList := meldingList m @ [melding]\<rparr>"

definition sms_isValid :: "SmsMelding \<Rightarrow> bool" where
  "sms_isValid m \<longleftrightarrow> (synopno m > 0 \<or> climano m > 0) \<and> sms_code m > -1 \<and> length (meldingList m) > 0"

fun show_EResultCodes :: "EResultCodes \<Rightarrow> string" where
  "show_EResultCodes SmsOK = ''OK''"
| "show_EResultCodes NOMASTER = ''NOMASTER''"
| "show_EResultCodes RETRANSMIT = ''RETRANSMIT''"
| "show_EResultCodes FORMAT = ''FORMAT''"
| "show_EResultCodes MISSINGARG = ''MISSINGARG''"
| "show_EResultCodes CODE_ERROR = ''CODE_ERROR''"
| "show_EResultCodes NOSTATION = ''NOSTATION''"
| "show_EResultCodes DATAFORMAT = ''DATAFORMAT''"
| "show_EResultCodes INTERNAL = ''INTERNAL''"
| "show_EResultCodes DATAWARNING = ''DATAWARNING''"

definition createReturnXML_of :: "EResultCodes \<Rightarrow> string \<Rightarrow> string" where
  "createReturnXML_of res cmt =
     ''<?xml version='' @ [CHR 0x22] @ ''1.0'' @ [CHR 0x22] @ ''?><result><code>'' @ show_EResultCodes res
       @ ''</code><comment>'' @ cmt @ ''</comment></result>''"

definition show_SmsMelding :: "SmsMelding \<Rightarrow> string" where
  "show_SmsMelding m =
     ''SMS melding:'' @ [CHR 0x0A] @ ''  valid: '' @ (if sms_isValid m then ''TRUE'' else ''FALSE'') @ [CHR 0x0A]
       @ ''  climano: '' @ show_int (climano m) @ [CHR 0x0A] @ ''  synopno: '' @ show_int (synopno m) @ [CHR 0x0A]
       @ ''  code:    '' @ show_int (sms_code m) @ [CHR 0x0A] @ ''  DATA: '' @ [CHR 0x0A]
       @ concat (map (\<lambda>d. ''    '' @ d @ [CHR 0x0A]) (meldingList m)) @ [CHR 0x0A, CHR 0x0A]"

definition createReturnXML :: "SmsMelding \<Rightarrow> string \<times> SmsMelding" where
  "createReturnXML m =
     (let m = (if resCode m \<noteq> SmsOK then m\<lparr>errStream := errStream m @ [CHR 0x0A, CHR 0x0A] @ show_SmsMelding m\<rparr> else m)
      in (createReturnXML_of (resCode m) (errStream m), m))"

section \<open>The parser\<close>

datatype States = START | IN_MELDING | IN_SYNOPNO | IN_CLIMANO | IN_DATA | P_ERROR | END

record SmsMeldingParser =
  p_state :: States
  errFlag :: bool
  errMsg :: string
  inputBuf :: string
  p_msg :: SmsMelding

definition new_SmsMeldingParser :: SmsMeldingParser where
  "new_SmsMeldingParser = \<lparr>p_state = START, errFlag = False, errMsg = [], inputBuf = [], p_msg = new_SmsMelding\<rparr>"

text \<open>The events. An attribute may be without a value.\<close>

datatype sax = StartElement string "(string \<times> string option) list" | EndElement string | Characters string
  | SaxError string | SaxWarning string | SaxFatal string

definition p_error :: "string \<Rightarrow> SmsMeldingParser \<Rightarrow> SmsMeldingParser" where
  "p_error m p = p\<lparr>errMsg := errMsg p @ m, errFlag := True\<rparr>"

text \<open>Whether the text has only digits, and the number, which is kept otherwise. The text of no digit is the number 0.\<close>

definition checkNumber :: "string \<Rightarrow> int \<Rightarrow> bool \<times> int" where
  "checkNumber sNum num = (if list_all isdigit sNum then (True, atoi sNum) else (False, num))"

definition startElement :: "string \<Rightarrow> (string \<times> string option) list \<Rightarrow> SmsMeldingParser \<Rightarrow> SmsMeldingParser" where
  "startElement fullname atts p =
     (if errFlag p then p
      else
        let p = p\<lparr>inputBuf := []\<rparr> in
        if fullname = ''melding'' then
          (if p_state p \<noteq> START then p_error (''TAG: melding, but not state <START>'' @ [CHR 0x0A]) p
           else
             let p = p\<lparr>p_state := IN_MELDING\<rparr> in
             case atts of
               (nam, Some val) # _ \<Rightarrow>
                 if nam = ''code'' then
                   (case checkNumber (trimstr val) (sms_code (p_msg p)) of
                      (ok, num) \<Rightarrow>
                        let p = p\<lparr>p_msg := (p_msg p)\<lparr>sms_code := num\<rparr>\<rparr>
                        in if \<not> ok then p_error (''TAG: melding: ATTRIBUT: code, val not a number!'' @ [CHR 0x0A]) p else p)
                 else p
             | _ \<Rightarrow> p)
        else if p_state p \<noteq> IN_MELDING then p_error (''TAG: '' @ fullname @ '', but not in state <IN_MELDING>'' @ [CHR 0x0A]) p
        else if fullname = ''synopno'' then p\<lparr>p_state := IN_SYNOPNO\<rparr>
        else if fullname = ''climano'' then p\<lparr>p_state := IN_CLIMANO\<rparr>
        else if fullname = ''data'' then p\<lparr>p_state := IN_DATA\<rparr>
        else (p_error (''TAG: '' @ fullname @ '' unknown tag!'' @ [CHR 0x0A]) p)\<lparr>p_state := P_ERROR\<rparr>)"

text \<open>The number of the station of either kind; it is stored in the same field for both.\<close>

definition end_number :: "string \<Rightarrow> States \<Rightarrow> SmsMeldingParser \<Rightarrow> SmsMeldingParser" where
  "end_number nam st p =
     (if p_state p \<noteq> st then p_error (''ENDTAG; '' @ nam @ '', but not in state <IN_'' @ (if st = IN_CLIMANO then ''CLIMANO'' else ''SYNOPNO'') @ ''>'' @ [CHR 0x0A]) p
      else
        let buf = trimstr (inputBuf p) in
        if buf = [] \<or> \<not> fst (checkNumber buf (climano (p_msg p))) then p_error (''ENDTAG; '' @ nam @ '', not a number!'' @ [CHR 0x0A]) p
        else p\<lparr>p_msg := (p_msg p)\<lparr>climano := snd (checkNumber buf (climano (p_msg p)))\<rparr>, p_state := IN_MELDING\<rparr>)"

definition endElement :: "string \<Rightarrow> SmsMeldingParser \<Rightarrow> SmsMeldingParser" where
  "endElement nam p =
     (if errFlag p then p
      else if nam = ''climano'' then end_number nam IN_CLIMANO p
      else if nam = ''synopno'' then end_number nam IN_SYNOPNO p
      else if nam = ''data'' then
        (if p_state p \<noteq> IN_DATA then p_error (''ENDTAG; data, but not in state <IN_DATA>'' @ [CHR 0x0A]) p
         else p\<lparr>p_msg := addMelding (trimstr (inputBuf p)) (p_msg p), p_state := IN_MELDING\<rparr>)
      else if nam = ''melding'' then
        (if p_state p \<noteq> IN_MELDING then p_error (''ENDTAG; melding, but not in state <IN_MELDING>'' @ [CHR 0x0A]) p
         else (p\<lparr>p_state := END\<rparr>)\<lparr>p_state := IN_MELDING\<rparr>)
      else p_error (''ENDTAG: '' @ nam @ '' : in invalid state!'') p)"

fun sax_event :: "sax \<Rightarrow> SmsMeldingParser \<Rightarrow> SmsMeldingParser" where
  "sax_event (StartElement nam atts) p = startElement nam atts p"
| "sax_event (EndElement nam) p = endElement nam p"
| "sax_event (Characters s) p = p\<lparr>inputBuf := inputBuf p @ s\<rparr>"
| "sax_event (SaxError m) p = p\<lparr>errMsg := errMsg p @ ''xml error: '' @ m @ [CHR 0x0A]\<rparr>"
| "sax_event (SaxWarning m) p = p\<lparr>errMsg := errMsg p @ ''xml warning: '' @ m @ [CHR 0x0A]\<rparr>"
| "sax_event (SaxFatal m) p = p\<lparr>errMsg := errMsg p @ ''xml fatal error: '' @ m @ [CHR 0x0A]\<rparr>"

definition sms_parse :: "(string \<Rightarrow> sax list \<times> bool) \<Rightarrow> string \<Rightarrow> SmsMeldingParser \<Rightarrow> SmsMelding option \<times> SmsMeldingParser" where
  "sms_parse sax melding p =
     (let p = p\<lparr>p_msg := new_SmsMelding\<lparr>rawDoc := melding\<rparr>, errMsg := [], p_state := START\<rparr>;
          (events, ok) = sax melding;
          p = fold sax_event events p
      in (if ok \<and> \<not> errFlag p then Some (p_msg p) else None, p))"

section \<open>Reference\<close>

text \<open>A document, the events it has, and the message it stands for, if any.\<close>

datatype xml = Elmt string "(string \<times> string option) list" "xml list" | Txt string

fun xml_events :: "xml \<Rightarrow> sax list" where
  "xml_events (Txt s) = [Characters s]"
| "xml_events (Elmt nam atts kids) = StartElement nam atts # concat (map xml_events kids) @ [EndElement nam]"

fun is_text :: "xml \<Rightarrow> bool" where
  "is_text (Txt s) = True"
| "is_text (Elmt nam atts kids) = False"

fun text_of :: "xml \<Rightarrow> string" where
  "text_of (Txt s) = s"
| "text_of (Elmt nam atts kids) = []"

definition is_number :: "string \<Rightarrow> bool" where
  "is_number s \<longleftrightarrow> s \<noteq> [] \<and> list_all isdigit s"

fun child_message :: "xml \<Rightarrow> SmsMelding \<Rightarrow> SmsMelding option" where
  "child_message (Txt s) m = Some m"
| "child_message (Elmt nam atts kids) m =
     (let s = trimstr (concat (map text_of kids)) in
      if \<not> list_all is_text kids then None
      else if nam = ''data'' then Some (addMelding s m)
      else if nam \<in> {''climano'', ''synopno''} \<and> is_number s then Some (m\<lparr>climano := atoi s\<rparr>)
      else None)"

fun children_message :: "xml list \<Rightarrow> SmsMelding \<Rightarrow> SmsMelding option" where
  "children_message [] m = Some m"
| "children_message (k # ks) m = Option.bind (child_message k m) (children_message ks)"

text \<open>Only the first attribute of the root is looked at.\<close>

definition root_message :: "(string \<times> string option) list \<Rightarrow> SmsMelding \<Rightarrow> SmsMelding option" where
  "root_message atts m =
     (case atts of
        (a, Some v) # _ \<Rightarrow>
          if a \<noteq> ''code'' then Some m
          else if list_all isdigit (trimstr v) then Some (m\<lparr>sms_code := atoi (trimstr v)\<rparr>)
          else None
      | _ \<Rightarrow> Some m)"

definition document_message :: "string \<Rightarrow> (string \<times> string option) list \<Rightarrow> xml list \<Rightarrow> SmsMelding \<Rightarrow> SmsMelding option" where
  "document_message nam atts kids m =
     (if nam \<noteq> ''melding'' then None else Option.bind (root_message atts m) (children_message kids))"

section \<open>What is accepted\<close>

lemma p_error_flag [simp]: "errFlag (p_error m p)"
  by (simp add: p_error_def)

lemma error_stays: "errFlag p \<Longrightarrow> errFlag (fold sax_event evs p)"
proof (induction evs arbitrary: p)
  case (Cons e evs)
  have "errFlag (sax_event e p)" using Cons.prems by (cases e) (auto simp: startElement_def endElement_def)
  then show ?case using Cons.IH by simp
qed simp

lemma error_end: "errFlag p \<Longrightarrow> errFlag (endElement nam p)"
  by (simp add: endElement_def)

text \<open>The texts of an element are collected.\<close>

lemma texts_collected:
  "list_all is_text kids \<Longrightarrow> fold sax_event (concat (map xml_events kids)) p = p\<lparr>inputBuf := inputBuf p @ concat (map text_of kids)\<rparr>"
proof (induction kids arbitrary: p)
  case (Cons k kids)
  then show ?case by (cases k) simp_all
qed simp

text \<open>Within an element that is not the root no element is accepted.\<close>

lemma nested_fails:
  "\<not> list_all is_text kids \<Longrightarrow> p_state p \<notin> {START, IN_MELDING} \<Longrightarrow> errFlag (fold sax_event (concat (map xml_events kids)) p)"
proof (induction kids arbitrary: p)
  case (Cons k kids)
  show ?case
  proof (cases k)
    case (Txt s)
    then show ?thesis using Cons by simp
  next
    case (Elmt nam atts ks)
    have "errFlag (startElement nam atts p)" using Cons.prems(2) by (simp add: startElement_def Let_def)
    then show ?thesis using Elmt by (simp add: error_stays error_end)
  qed
qed simp

text \<open>A child of the root: the machine is between elements before and after it.\<close>

definition between :: "SmsMelding \<Rightarrow> SmsMeldingParser \<Rightarrow> bool" where
  "between m p \<longleftrightarrow> \<not> errFlag p \<and> p_state p = IN_MELDING \<and> p_msg p = m"

lemma child_parsed:
  assumes "between m p"
  shows "case child_message k m of
      Some m' \<Rightarrow> between m' (fold sax_event (xml_events k) p)
    | None \<Rightarrow> errFlag (fold sax_event (xml_events k) p)"
proof (cases k)
  case (Txt s)
  then show ?thesis using assms by (simp add: between_def)
next
  case (Elmt nam atts kids)
  let ?p = "startElement nam atts p"
  consider "nam = ''data''" | "nam = ''climano''" | "nam = ''synopno''" | "nam \<notin> {''data'', ''climano'', ''synopno''}" by auto
  then show ?thesis
  proof cases
    case 4
    then have "errFlag ?p" using assms by (auto simp: startElement_def between_def Let_def)
    then show ?thesis using Elmt 4 by (auto simp: error_stays error_end Let_def)
  next
    case 1
    then have p: "?p = p\<lparr>inputBuf := [], p_state := IN_DATA\<rparr>" using assms by (simp add: startElement_def between_def)
    show ?thesis
    proof (cases "list_all is_text kids")
      case True
      then show ?thesis using Elmt 1 p assms by (simp add: texts_collected endElement_def between_def)
    next
      case False
      then show ?thesis using Elmt 1 p nested_fails [OF False, of ?p] by (simp add: endElement_def)
    qed
  next
    case 2
    then have p: "?p = p\<lparr>inputBuf := [], p_state := IN_CLIMANO\<rparr>" using assms by (simp add: startElement_def between_def)
    show ?thesis
    proof (cases "list_all is_text kids")
      case True
      then show ?thesis using Elmt 2 p assms
        by (simp add: texts_collected endElement_def end_number_def between_def is_number_def checkNumber_def Let_def)
    next
      case False
      then show ?thesis using Elmt 2 p nested_fails [OF False, of ?p] by (simp add: endElement_def)
    qed
  next
    case 3
    then have p: "?p = p\<lparr>inputBuf := [], p_state := IN_SYNOPNO\<rparr>" using assms by (simp add: startElement_def between_def)
    show ?thesis
    proof (cases "list_all is_text kids")
      case True
      then show ?thesis using Elmt 3 p assms
        by (simp add: texts_collected endElement_def end_number_def between_def is_number_def checkNumber_def Let_def)
    next
      case False
      then show ?thesis using Elmt 3 p nested_fails [OF False, of ?p] by (simp add: endElement_def)
    qed
  qed
qed

lemma children_parsed:
  "between m p \<Longrightarrow> case children_message ks m of
      Some m' \<Rightarrow> between m' (fold sax_event (concat (map xml_events ks)) p)
    | None \<Rightarrow> errFlag (fold sax_event (concat (map xml_events ks)) p)"
proof (induction ks arbitrary: m p)
  case (Cons k ks)
  show ?case
  proof (cases "child_message k m")
    case None
    then show ?thesis using child_parsed [OF Cons.prems, of k] by (simp add: error_stays)
  next
    case (Some m')
    then have "between m' (fold sax_event (xml_events k) p)" using child_parsed [OF Cons.prems, of k] by simp
    from Cons.IH [OF this] show ?thesis using Some by (simp split: option.splits)
  qed
qed simp

lemma root_parsed:
  assumes "between m p"
  shows "case children_message ks m of
      Some m' \<Rightarrow> let p' = fold sax_event (concat (map xml_events ks) @ [EndElement ''melding'']) p in \<not> errFlag p' \<and> p_msg p' = m'
    | None \<Rightarrow> errFlag (fold sax_event (concat (map xml_events ks) @ [EndElement ''melding'']) p)"
  using children_parsed [OF assms, of ks] by (auto simp: between_def endElement_def Let_def split: option.splits)

lemma start_root:
  assumes "\<not> errFlag q" "p_state q = START"
  shows "case root_message atts (p_msg q) of
      Some m \<Rightarrow> between m (startElement ''melding'' atts q)
    | None \<Rightarrow> errFlag (startElement ''melding'' atts q)"
  using assms by (auto simp: startElement_def between_def checkNumber_def root_message_def Let_def split: list.splits option.splits)

text \<open>
  C22. A parser that has not failed accepts exactly the documents of the reference, and gives their message.
\<close>

theorem document_parsed:
  assumes "sax melding = (xml_events (Elmt nam atts kids), True)" "\<not> errFlag p"
  shows "fst (sms_parse sax melding p) = document_message nam atts kids (new_SmsMelding\<lparr>rawDoc := melding\<rparr>)"
proof -
  define q where "q = p\<lparr>p_msg := new_SmsMelding\<lparr>rawDoc := melding\<rparr>, errMsg := [], p_state := START\<rparr>"
  let ?q = "startElement nam atts q" and ?evs = "concat (map xml_events kids) @ [EndElement nam]"
  have q: "\<not> errFlag q" "p_state q = START" "p_msg q = new_SmsMelding\<lparr>rawDoc := melding\<rparr>" using assms(2) by (simp_all add: q_def)
  have parse: "fst (sms_parse sax melding p) = (if errFlag (fold sax_event ?evs ?q) then None else Some (p_msg (fold sax_event ?evs ?q)))"
    using assms(1) by (simp add: sms_parse_def q_def Let_def)
  consider "nam \<noteq> ''melding''" | "nam = ''melding''" "root_message atts (p_msg q) = None"
    | m where "nam = ''melding''" "root_message atts (p_msg q) = Some m" by fastforce
  then show ?thesis
  proof cases
    case 1
    then have "errFlag ?q" using q by (simp add: startElement_def Let_def)
    then show ?thesis using 1 parse error_stays [of ?q ?evs] by (simp add: document_message_def)
  next
    case 2
    then have "errFlag ?q" using start_root [OF q(1,2), of atts] by simp
    then show ?thesis using 2 parse error_stays [of ?q ?evs] q(3) by (simp add: document_message_def)
  next
    case (3 m)
    then have "between m ?q" using start_root [OF q(1,2), of atts] by simp
    from root_parsed [OF this, of kids] show ?thesis using 3 parse q(3) by (simp add: document_message_def Let_def split: option.splits)
  qed
qed

theorem document_parsed_witness:
  "fst (sms_parse (\<lambda>_. (xml_events (Elmt ''melding'' [(''code'', Some '' 2 '')] [Txt '' '', Elmt ''synopno'' [] [Txt ''1492''],
      Elmt ''data'' [] [Txt ''1,2,'', Txt ''3 '']]), True)) [] new_SmsMeldingParser)
   = Some (new_SmsMelding\<lparr>sms_code := 2, climano := 1492, meldingList := [''1,2,3'']\<rparr>)"
  by (subst document_parsed [OF refl])
    (simp_all add: new_SmsMeldingParser_def document_message_def root_message_def new_SmsMelding_def addMelding_def is_number_def
      trimstr_def trimstr_where_def trim_front_def trim_back_def trimset_def isdigit_def atoi_def digits_val_def isspace_def)

text \<open>A parser that has failed once accepts nothing afterwards: its flag is not cleared.\<close>

lemma failed_parser_rejects: "errFlag p \<Longrightarrow> fst (sms_parse sax melding p) = None"
  by (simp add: sms_parse_def Let_def error_stays split: prod.splits)

text \<open>The number of the synoptic station is never set.\<close>

lemma synopno_kept: "synopno (p_msg (fold sax_event evs p)) = synopno (p_msg p)"
proof (induction evs arbitrary: p)
  case (Cons e evs)
  have "synopno (p_msg (sax_event e p)) = synopno (p_msg p)"
    by (cases e) (auto simp: startElement_def endElement_def end_number_def p_error_def addMelding_def Let_def split: list.splits option.splits prod.splits)
  then show ?case using Cons.IH by simp
qed simp

text \<open>
  The number of the synoptic station, \<^verbatim>\<open>synopno\<close>, of a parsed message is always -1: the number the element
  \<^verbatim>\<open><synopno>\<close> has is stored as that of the climate station.
\<close>

lemma synopno_never_set:
  assumes "fst (sms_parse sax melding p) = Some m"
  shows "synopno m = -1"
  using assms by (auto simp: sms_parse_def Let_def synopno_kept new_SmsMelding_def split: prod.splits if_splits)

end
