(* ===== verification/Sms2.thy ===== *)
theory Sms2
  imports Sms_Data Sms_Parser
begin

text \<open>
  The decoders of the messages of precipitation stations, \<^verbatim>\<open>src/lib/decoder/comobsdecoder/sms2.cc\<close>, and of
  service messages, \<^verbatim>\<open>sms13.cc\<close>. The clock, the time the request was received, the code of the usage flag for late
  data and the answer to what the station measures of snow are arguments; the last may keep a state. What is undefined in the source, a
  write out of range, is \<open>None\<close>. Log output is not modelled.
  The properties: signs of weather against a table, the interval of precipitation and its flag, and what becomes of each message.
\<close>

section \<open>Signs of weather\<close>

text \<open>The figure of the message and the code that is stored.\<close>

definition weather_code :: "int \<Rightarrow> string option" where
  "weather_code v =
     (if v = 1 then Some ''03'' else if v = 2 then Some ''02'' else if v = 3 then Some ''01'' else if v = 4 then Some ''07''
      else if v = 5 then Some ''05'' else if v = 6 then Some ''04'' else if v = 73 then Some ''08'' else if v = 74 then Some ''10''
      else if v = 85 then Some ''12'' else if v = 86 then Some ''17'' else if v = 97 then Some ''20'' else if v = 98 then Some ''28''
      else None)"

text \<open>Two figures: the intensity, and the sign.\<close>

definition weather_pair :: "char \<Rightarrow> char \<Rightarrow> char \<times> int" where
  "weather_pair a b =
     (if b \<in> {CHR ''0'', CHR ''1'', CHR ''2''} then (b, schar a - 48) else (CHR ''1'', atoi [a, b]))"

text \<open>
  The number of signs, or -1, the signs and their intensities. The fourth intensity is written behind the end of a
  string of three, before the number of signs is tested.
\<close>

fun v1v2v3_loop :: "string \<Rightarrow> nat \<Rightarrow> string list \<Rightarrow> string \<Rightarrow> (int \<times> string list \<times> string) option" where
  "v1v2v3_loop (a # b # w) k vs intensitet =
     (case weather_pair a b of
        (ic, v) \<Rightarrow>
          (case weather_code v of
             None \<Rightarrow> Some (-1, vs, intensitet)
           | Some s \<Rightarrow> if k < length intensitet then v1v2v3_loop w (k + 1) (vs @ [s]) (intensitet[k := ic]) else None))"
| "v1v2v3_loop w k vs intensitet = Some (int k, vs, intensitet)"

definition decodeV1V2V3 :: "string \<Rightarrow> (int \<times> string list \<times> string) option" where
  "decodeV1V2V3 txt =
     (let w = cleanString digit_chars txt in
      if w = [] then Some (0, [], ''333'')
      else if length w mod 2 \<noteq> 0 then Some (-1, [], ''333'')
      else v1v2v3_loop w 0 [] ''333'')"

section \<open>The decoder\<close>

record 't sms_reject =
  rej_message :: string
  rej_tbtime :: 't
  rej_decoder :: string
  rej_comment :: string

record ('t, 'c) sms_env =
  se_mt :: "'t mitime"
  se_now :: 't
  se_received :: 't
  se_params :: ParamList
  se_useinfo7 :: "int \<Rightarrow> 't \<Rightarrow> 't \<Rightarrow> int"
  se_meta :: "int \<Rightarrow> int \<Rightarrow> 't \<Rightarrow> 'c \<Rightarrow> string \<times> 'c"

definition PARAM_IN :: "string list" where
  "PARAM_IN = [''stnr'', ''code'', ''KLCOMOBS'', ''RR'', ''P1'', ''P2'', ''P3'', ''SA'', ''SD'', ''KLSTART'', ''KLOBS'']"

definition sms2_in :: "string list \<Rightarrow> string \<Rightarrow> string" where
  "sms2_in inp param = snd (getInData PARAM_IN inp param)"

subsection \<open>Times\<close>

definition near_year :: "('t, 'c) sms_env \<Rightarrow> int \<Rightarrow> bool" where
  "near_year env y \<longleftrightarrow> \<not> (y < mt_year (se_mt env) (se_now env) - 1 \<or> y > mt_year (se_mt env) (se_now env) + 1)"

definition createTime :: "('t, 'c) sms_env \<Rightarrow> string \<Rightarrow> 't option" where
  "createTime env YYMMDDhhmm =
     (case scan_ints [2, 2, 2, 2, 2] YYMMDDhhmm of
        [y, mnt, d, h, m] \<Rightarrow>
          if mnt > 12 \<or> mnt < 1 \<or> d < 1 \<or> d > 31 \<or> h < 0 \<or> h > 23 \<or> m < 0 \<or> m > 59 then None
          else
            let y = (if y < 100 then y + 2000 else y) in
            if \<not> near_year env y then None else Some (mt_make (se_mt env) y mnt d h m)
      | _ \<Rightarrow> None)"

definition sms2_createObsTime :: "('t, 'c) sms_env \<Rightarrow> string \<Rightarrow> 't" where
  "sms2_createObsTime env s =
     (let xs = (if length s = 8 then (case scan_ints [2, 2, 2, 2] s of [] \<Rightarrow> [] | y # r \<Rightarrow> (y + 2000) # r)
                else if length s = 10 then scan_ints [4, 2, 2, 2] s else [])
      in case xs of
        [y, mnt, d, h] \<Rightarrow>
          if \<not> near_year env y \<or> mnt < 1 \<or> mnt > 12 \<or> d < 1 \<or> d > 31 \<or> h < 0 \<or> h > 23 then mt_undef (se_mt env)
          else mt_make (se_mt env) y mnt d h 0
      | _ \<Rightarrow> mt_undef (se_mt env))"

definition show_YYYYMMDDhh :: "'t mitime \<Rightarrow> 't \<Rightarrow> string" where
  "show_YYYYMMDDhh mt t = fmt04 (mt_year mt t) @ fmt02 (mt_month mt t) @ fmt02 (mt_day mt t) @ fmt02 (mt_hour mt t)"

subsection \<open>Precipitation\<close>

text \<open>\<^verbatim>\<open>%0.1f\<close> of the tenth of a number; exact as long as the number fits a \<^verbatim>\<open>float\<close>.\<close>

definition fmt_tenths :: "int \<Rightarrow> string" where
  "fmt_tenths n = (if n < 0 then ''-'' else []) @ show_nat (nat (\<bar>n\<bar> div 10)) @ ''.'' @ show_nat (nat (\<bar>n\<bar> mod 10))"

definition only_sign :: "string \<Rightarrow> bool" where
  "only_sign buf \<longleftrightarrow> buf \<noteq> [] \<and> hd buf \<in> {CHR ''+'', CHR ''-''} \<and> list_all (\<lambda>c. c = hd buf) buf"

definition rr_text :: "string \<Rightarrow> string" where
  "rr_text buf =
     (let buf = cleanString number_chars buf; buf = (if only_sign buf then [] else buf)
      in if buf = [] then ''-1'' else fmt_tenths (atoi buf))"

text \<open>The time the message was sent: what the header says, what was added to the message, or now.\<close>

definition sent_time :: "('t, 'c) sms_env \<Rightarrow> string \<Rightarrow> 't" where
  "sent_time env klComObs =
     (let mt = se_mt env;
          t = (if \<not> mt_isUndef mt (se_received env) then se_received env
               else if klComObs \<noteq> [] then (case createTime env klComObs of None \<Rightarrow> mt_undef mt | Some t \<Rightarrow> t)
               else mt_undef mt)
      in if mt_isUndef mt t then se_now env else t)"

text \<open>The flag for an interval of \<open>dif\<close> minutes that ends \<open>tDif\<close> minutes from 6 o'clock.\<close>

definition interval_useinfo :: "int \<Rightarrow> int \<Rightarrow> kvUseInfo" where
  "interval_useinfo dif tDif =
     (if dif < 1620 then
        (if tDif > 60 then
           (if dif \<ge> 1260 \<and> dif < 1380 then set_flag clear_useinfo 1 1
            else if dif \<ge> 1380 \<and> dif \<le> 1500 then set_flag clear_useinfo 1 4
            else set_flag clear_useinfo 1 5)
         else clear_useinfo)
      else if tDif > 60 then set_flag clear_useinfo 1 5
      else clear_useinfo)"

text \<open>The error, or the flags and the data with the precipitation.\<close>

definition doKvPrecipitation_rr :: "('t::linorder, 'c) sms_env \<Rightarrow> string list \<Rightarrow> 't DecodedDataElem \<Rightarrow> string + kvUseInfo \<times> 't DecodedDataElem" where
  "doKvPrecipitation_rr env inp e =
     (let mt = se_mt env; add = add_default mt (se_params env);
          sRR = rr_text (sms2_in inp ''RR'');
          klStart = cleanString digit_chars (sms2_in inp ''KLSTART'');
          klObs = cleanString digit_chars (sms2_in inp ''KLOBS'');
          klComObs = cleanString digit_chars (sms2_in inp ''KLCOMOBS'')
      in if (klObs = []) \<noteq> (klStart = []) then
           Inl (''Missing a timestamp, <fromtime> ('' @ klStart @ '') or <totime> ('' @ klObs
                 @ ''), both must be given if one is given! (It my also be a format error!)'')
         else
           let dtComObs = sent_time env klComObs in
           if klObs = [] then
             let t6 = mt_at mt dtComObs 6;
                 uf = (if \<bar>mt_minDiff mt dtComObs t6\<bar> > 180 then set_flag clear_useinfo 1 1 else clear_useinfo);
                 uf = set_flag uf 7 (se_useinfo7 env 302 dtComObs (se_now env))
             in Inr (uf, add ''RR_24'' sRR uf (el_setDate (se_now env) t6 e))
           else
             let dtStart = localTimeToUTC mt (sms2_createObsTime env klStart);
                 dtObs' = localTimeToUTC mt (sms2_createObsTime env klObs)
             in if mt_isUndef mt dtStart \<or> mt_isUndef mt dtObs' then Inl ''Either <fradato> or <tildato> is invalid!!''
                else if dtObs' < dtStart then Inl (''Invalid observation interval <tildato> < '' @ [CHR 0x27] @ ''fradato'' @ [CHR 0x27] @ ''!'')
                else
                  let dif = mt_minDiff mt dtObs' dtStart in
                  if dif < 1260 then Inl ''Ivalid observation, to few hour (<21 hour)!''
                  else
                    let t6 = mt_at mt dtObs' 6;
                        uf = interval_useinfo dif \<bar>mt_minDiff mt dtObs' t6\<bar>;
                        e = el_setDate (se_now env) t6 e;
                        e = (if dif < 1620 then e
                             else add ''KLOBS'' (show_YYYYMMDDhh mt dtObs') clear_useinfo (add ''KLSTART'' (show_YYYYMMDDhh mt dtStart) clear_useinfo e))
                    in Inr (uf, add ''RR_24'' sRR uf e))"

text \<open>Depth and cover of snow; \<open>meta\<close> tells by its first two characters whether the station measures them.\<close>

definition snow_cover :: "bool \<Rightarrow> string \<Rightarrow> string" where
  "snow_cover hasSd SD =
     (let SD = cleanString number_chars SD;
          SD = (if (SD = [] \<or> SD = ''0'') \<and> hasSd then ''-1'' else SD)
      in if SD \<noteq> [] \<and> SD \<noteq> ''-1'' \<and> \<not> list_all isdigit SD then ''-1'' else SD)"

definition snow_depth :: "bool \<Rightarrow> string \<Rightarrow> string" where
  "snow_depth hasSa SA =
     (let SA = cleanString number_chars SA in if (SA = [] \<or> SA = ''0'') \<and> hasSa then ''-1'' else SA)"

definition doKvSnow :: "('t, 'c) sms_env \<Rightarrow> string list \<Rightarrow> string \<Rightarrow> kvUseInfo \<Rightarrow> 't DecodedDataElem \<Rightarrow> 't DecodedDataElem" where
  "doKvSnow env inp meta uf e =
     (let add = add_default (se_mt env) (se_params env);
          SA = snow_depth (meta ! 0 \<noteq> CHR ''0'') (sms2_in inp ''SA'');
          SD = snow_cover (meta ! 1 \<noteq> CHR ''0'') (sms2_in inp ''SD'');
          e = (if SA \<noteq> [] then add ''SA'' SA uf e else e)
      in if SD \<noteq> [] then add ''SD'' SD uf e else e)"

definition doKvPrecipitation :: "('t::linorder, 'c) sms_env \<Rightarrow> string list \<Rightarrow> 't DecodedDataElem \<times> 'c \<Rightarrow> string + 't DecodedDataElem \<times> 'c" where
  "doKvPrecipitation env inp s =
     (case s of (e, c) \<Rightarrow>
        case doKvPrecipitation_rr env inp e of
          Inl err \<Rightarrow> Inl err
        | Inr (uf, e) \<Rightarrow>
            (case se_meta env (el_sid e) (el_tid e) (dtObs e) c of
               (meta, c) \<Rightarrow> Inr (doKvSnow env inp meta uf e, c)))"

subsection \<open>Weather\<close>

definition addV1V2V3 :: "('t, 'c) sms_env \<Rightarrow> 't \<Rightarrow> string list \<Rightarrow> string \<Rightarrow> 't DecodedDataElem \<Rightarrow> 't DecodedDataElem" where
  "addV1V2V3 env obt vs vi e =
     (let v = (\<lambda>i. if i < length vs then vs ! i else []);
          add = (\<lambda>param dat e. snd (addDataObstime (se_mt env) (se_params env) param dat obt clear_useinfo clear_flag 0 0 e));
          e = add ''V6'' (v 2) (add ''V5'' (v 1) (add ''V4'' (v 0) e));
          e = (if v 0 \<noteq> [] then add ''V4S'' [vi ! 0] e else e);
          e = (if v 1 \<noteq> [] then add ''V5S'' [vi ! 1] e else e)
      in if v 2 \<noteq> [] then add ''V6S'' [vi ! 2] e else e)"

definition decodeAndAddV1V2V3 :: "('t, 'c) sms_env \<Rightarrow> string list \<Rightarrow> 't \<Rightarrow> string \<Rightarrow> 't DecodedDataElem \<Rightarrow> 't DecodedDataElem option" where
  "decodeAndAddV1V2V3 env inp obt what e =
     (case getInData PARAM_IN inp what of
        (found, buf) \<Rightarrow>
          let buf = cleanString number_chars buf in
          if \<not> found \<or> buf = [] then Some e
          else case decodeV1V2V3 buf of
            None \<Rightarrow> None
          | Some (k, vs, vi) \<Rightarrow> Some (if k > 0 then addV1V2V3 env obt vs vi e else e))"

definition addWeather :: "('t, 'c) sms_env \<Rightarrow> string list \<Rightarrow> 't DecodedDataElem \<Rightarrow> 't DecodedDataElem option" where
  "addWeather env inp e =
     (let mt = se_mt env;
          t = dtObs e; t6 = (if mt_hour mt t \<noteq> 6 then mt_at mt t 6 else t);
          t18 = mt_at mt (mt_addDay mt (-1) t6) 18;
          t12 = mt_at mt t18 12
      in Option.bind (decodeAndAddV1V2V3 env inp t6 ''P3'' e) (\<lambda>e.
         Option.bind (decodeAndAddV1V2V3 env inp t18 ''P2'' e)
           (decodeAndAddV1V2V3 env inp t12 ''P1'')))"

subsection \<open>Messages\<close>

record ('t, 'c) sms2_state =
  s2_data :: "'t DecodedDataElem"
  s2_sms :: "'t DecodedData"
  s2_return :: string
  s2_rejected :: "'t sms_reject list"
  s2_hasRejected :: bool
  s2_meta :: 'c

definition add_return :: "string \<Rightarrow> ('t, 'c) sms2_state \<Rightarrow> ('t, 'c) sms2_state" where
  "add_return m s = s\<lparr>s2_return := s2_return s @ m @ [CHR 0x0A]\<rparr>"

definition sms2_message :: "('t::linorder, 'c) sms_env \<Rightarrow> string \<Rightarrow> ('t, 'c) sms2_state \<Rightarrow> ('t, 'c) sms2_state option" where
  "sms2_message env obs s =
     (let s = s\<lparr>s2_data := el_clean (se_mt env) (s2_data s)\<rparr>; buf = stripNewLine obs in
      if length buf < 3 then Some (add_return ''Invalid format! To few elements. Must have at least 2 elements.'' s)
      else case sms_separator buf of
        None \<Rightarrow> Some (add_return ''Invalid dataformat. Unknown element separator.'' s)
      | Some sep \<Rightarrow>
          (case comma_init_char buf sep of
             None \<Rightarrow> None
           | Some cStr \<Rightarrow>
               if length cStr < 3 then Some (add_return ''Invalid dataformat. Too few elements.'' s)
               else
                 let inp = map elem_str cStr in
                 case doKvPrecipitation env inp (s2_data s, s2_meta s) of
                   Inl err \<Rightarrow>
                     Some (add_return err (s\<lparr>s2_rejected := s2_rejected s @ [\<lparr>rej_message = comma_print [sep] cStr, rej_tbtime = se_now env,
                              rej_decoder = ''comobs/typeid=302'', rej_comment = err\<rparr>], s2_hasRejected := True\<rparr>))
                 | Inr (e, c) \<Rightarrow>
                     map_option (\<lambda>e.
                         let s = s\<lparr>s2_data := e, s2_meta := c\<rparr> in
                         if length (el_data e) > 0 \<or> length (el_text e) > 0 then s\<lparr>s2_sms := dd_add e (s2_sms s)\<rparr> else s)
                       (addWeather env inp e)))"

fun sms2_messages :: "('t::linorder, 'c) sms_env \<Rightarrow> string list \<Rightarrow> ('t, 'c) sms2_state \<Rightarrow> ('t, 'c) sms2_state option" where
  "sms2_messages env [] s = Some s"
| "sms2_messages env (obs # r) s = Option.bind (sms2_message env obs s) (sms2_messages env r)"

definition sms2_decode :: "('t::linorder, 'c) sms_env \<Rightarrow> int \<Rightarrow> int \<Rightarrow> string list \<Rightarrow> 'c \<Rightarrow> ('t, 'c) sms2_state option" where
  "sms2_decode env stationid smscode obs c =
     (let smsData = new_DecodedData stationid (smscode + 300) in
      sms2_messages env obs
        \<lparr>s2_data = createDataElem (se_mt env) smsData, s2_sms = smsData, s2_return = [], s2_rejected = [], s2_hasRejected = False, s2_meta = c\<rparr>)"

text \<open>A service message is one text.\<close>

definition sms13_decode :: "('t::linorder, 'c) sms_env \<Rightarrow> int \<Rightarrow> int \<Rightarrow> string list \<Rightarrow> 't DecodedData" where
  "sms13_decode env stationid smscode obs =
     (let mt = se_mt env; msg = trimstr (concat obs);
          obt = (if mt_isUndef mt (se_received env) then se_now env else se_received env);
          smsData = new_DecodedData stationid (smscode + 300);
          e = el_setDate (se_now env) obt (createDataElem mt smsData)
      in dd_add (add_default mt (se_params env) ''TEXT'' msg clear_useinfo e) smsData)"

end
