(* ===== verification/Sms2_Props.thy ===== *)
theory Sms2_Props
  imports Sms2
begin

text \<open>
  Properties of the decoder of precipitation stations (theory \<open>Sms2\<close>): the order of decoded data, numbers that are read back, the signs
  of weather against a table, the interval of precipitation, and what becomes of each message. A calendar with months of 31 days
  serves the examples.
\<close>

section \<open>Order of the data\<close>

lemma insert_by_param_Cons:
  "insert_by_param par x (y # ys) = (if par x < par y then x # y # ys else y # insert_by_param par x ys)"
  by (simp add: insert_by_param_def)

lemma insert_by_param_Nil: "insert_by_param par x [] = [x]"
  by (simp add: insert_by_param_def)

lemma set_insert_by_param [simp]: "set (insert_by_param par x xs) = insert x (set xs)"
  by (induction xs) (auto simp: insert_by_param_Nil insert_by_param_Cons)

lemma insert_by_param_nonempty [simp]: "insert_by_param par x xs \<noteq> []"
  by (simp add: insert_by_param_def)

lemma sorted_insert_by_param: "sorted (map par xs) \<Longrightarrow> sorted (map par (insert_by_param par x xs))"
proof (induction xs)
  case (Cons y ys)
  then show ?case by (auto simp: insert_by_param_Cons)
qed (simp add: insert_by_param_Nil)

text \<open>
  An element: its values belong to its station and type, are in the order of their parameters, and are of known parameters.
\<close>

definition elem_ok :: "ParamList \<Rightarrow> 't DecodedDataElem \<Rightarrow> bool" where
  "elem_ok params e \<longleftrightarrow>
     sorted (map paramID (el_data e)) \<and> sorted (map txt_paramID (el_text e))
     \<and> (\<forall>d \<in> set (el_data e). stationID d = el_sid e \<and> typeID d = el_tid e \<and> (\<exists>p \<in> set params. param_id p = paramID d \<and> isScalar p))
     \<and> (\<forall>d \<in> set (el_text e). txt_stationID d = el_sid e \<and> txt_typeID d = el_tid e \<and> (\<exists>p \<in> set params. param_id p = txt_paramID d \<and> \<not> isScalar p))"

lemma findParam_mem: "findParam params param = Some p \<Longrightarrow> p \<in> set params"
  by (auto simp: findParam_def find_Some_iff)

definition same_identity :: "'t DecodedDataElem \<Rightarrow> 't DecodedDataElem \<Rightarrow> bool" where
  "same_identity e e' \<longleftrightarrow> el_sid e = el_sid e' \<and> el_tid e = el_tid e' \<and> dtObs e = dtObs e'"

lemma addDataObstime_ok:
  "elem_ok params e \<Longrightarrow> elem_ok params (snd (addDataObstime mt params param dat obt uf cf lev sen e))"
  by (auto simp: addDataObstime_def elem_ok_def Let_def kvData_set_def kvTextData_set_def sorted_insert_by_param dest: findParam_mem split: option.splits)

lemma addDataObstime_same:
  "same_identity e0 e \<Longrightarrow> same_identity e0 (snd (addDataObstime mt params param dat obt uf cf lev sen e))"
  by (auto simp: addDataObstime_def same_identity_def Let_def split: option.splits)

lemmas add_defs = add_default_def addData_def

lemma add_default_ok: "elem_ok params e \<Longrightarrow> elem_ok params (add_default mt params param dat uf e)"
  by (simp add: add_defs addDataObstime_ok)

lemma add_default_same: "same_identity e0 e \<Longrightarrow> same_identity e0 (add_default mt params param dat uf e)"
  by (simp add: add_defs addDataObstime_same)

text \<open>What is in an element stays.\<close>

definition sms_keeps :: "'t DecodedDataElem \<Rightarrow> 't DecodedDataElem \<Rightarrow> bool" where
  "sms_keeps e e' \<longleftrightarrow> set (el_data e) \<subseteq> set (el_data e') \<and> set (el_text e) \<subseteq> set (el_text e')"

lemma sms_keeps_refl [simp]: "sms_keeps e e"
  by (simp add: sms_keeps_def)

lemma sms_keeps_trans: "sms_keeps e e' \<Longrightarrow> sms_keeps e' e'' \<Longrightarrow> sms_keeps e e''"
  by (auto simp: sms_keeps_def)

lemma addDataObstime_keeps: "sms_keeps e0 e \<Longrightarrow> sms_keeps e0 (snd (addDataObstime mt params param dat obt uf cf lev sen e))"
  by (auto simp: addDataObstime_def sms_keeps_def Let_def split: option.splits)

lemma add_default_keeps: "sms_keeps e0 e \<Longrightarrow> sms_keeps e0 (add_default mt params param dat uf e)"
  by (simp add: add_defs addDataObstime_keeps)

text \<open>A number that is added.\<close>

lemma add_default_number:
  assumes "findParam params param = Some p" "isScalar p" "dat \<noteq> []" "scan_float dat = Some v"
  shows "\<exists>d \<in> set (el_data (add_default mt params param dat uf e)). paramID d = param_id p \<and> original d = v \<and> obstime d = dtObs e
    \<and> useinfo d = uf \<and> stationID d = el_sid e \<and> typeID d = el_tid e"
  using assms by (auto simp: add_defs addDataObstime_def Let_def kvData_set_def)

section \<open>Numbers\<close>

lemma takeWhile_digits: "list_all isdigit ds \<Longrightarrow> takeWhile isdigit (ds @ r) = ds @ takeWhile isdigit r"
  by (induction ds) auto

lemma dropWhile_digits: "list_all isdigit ds \<Longrightarrow> dropWhile isdigit (ds @ r) = dropWhile isdigit r"
  by (induction ds) auto

lemma digits_val_show_nat: "digits_val (show_nat n) = int n"
  by (simp add: digits_val_all show_nat_digits digit_step_show_nat)

lemma show_nat_hd: "isdigit (hd (show_nat n))" "hd (show_nat n) \<noteq> CHR ''-''" "hd (show_nat n) \<noteq> CHR ''+''" "\<not> isspace (hd (show_nat n))"
proof -
  show "isdigit (hd (show_nat n))" using show_nat_digits [of n] by (cases "show_nat n") auto
  then show "hd (show_nat n) \<noteq> CHR ''-''" "hd (show_nat n) \<noteq> CHR ''+''" "\<not> isspace (hd (show_nat n))" by (auto simp: isdigit_chars)
qed

lemma length_show_nat_small: "n < 10 \<Longrightarrow> length (show_nat n) = 1"
  by (subst show_nat.simps) simp

text \<open>A number of tenths is read back.\<close>

lemma takeWhile_show_nat: "takeWhile isdigit (show_nat b) = show_nat b" "dropWhile isdigit (show_nat b) = []"
  using show_nat_digits [of b] by (simp_all add: list_all_iff takeWhile_eq_all_conv dropWhile_eq_Nil_conv)

lemma not_isdigit_dot: "\<not> isdigit (CHR ''.'')"
  by (simp add: isdigit_def)

lemma scan_float_tenths:
  assumes "pre = [] \<or> pre = ''-''" "b < 10"
  shows "scan_float (pre @ show_nat a @ ''.'' @ show_nat b) = Some ((if pre = [] then 1 else -1) * (real a + real b / 10))"
proof -
  obtain c cs where c: "show_nat a = c # cs" by (cases "show_nat a") auto
  have h: "isdigit c" "c \<noteq> CHR ''-''" "c \<noteq> CHR ''+''" "\<not> isspace c" using show_nat_hd [of a] c by auto
  have cs: "takeWhile isdigit (cs @ CHR ''.'' # show_nat b) = cs" "dropWhile isdigit (cs @ CHR ''.'' # show_nat b) = CHR ''.'' # show_nat b"
    using show_nat_digits [of a] c takeWhile_digits [of cs] dropWhile_digits [of cs] by (simp_all add: not_isdigit_dot)
  have v: "digits_val (c # cs) = int a" using digits_val_show_nat [of a] c by simp
  show ?thesis
    using assms(1) h cs v length_show_nat_small [OF assms(2)]
    by (elim disjE) (simp_all add: scan_float_def Let_def c takeWhile_show_nat frac_val_def digits_val_show_nat isspace_def)
qed

lemma scan_fmt_tenths: "scan_float (fmt_tenths n) = Some (real_of_int n / 10)"
proof -
  let ?a = "nat (\<bar>n\<bar> div 10)" and ?b = "nat (\<bar>n\<bar> mod 10)"
  have b: "?b < 10" by (simp add: nat_less_iff)
  have "real ?a + real ?b / 10 = \<bar>real_of_int n\<bar> / 10"
  proof -
    have "\<bar>n\<bar> = 10 * (\<bar>n\<bar> div 10) + \<bar>n\<bar> mod 10" by simp
    then have "real_of_int \<bar>n\<bar> = 10 * real_of_int (\<bar>n\<bar> div 10) + real_of_int (\<bar>n\<bar> mod 10)" by linarith
    then show ?thesis by simp
  qed
  then show ?thesis using scan_float_tenths [OF _ b, of "if n < 0 then ''-'' else []" ?a] by (auto simp: fmt_tenths_def)
qed

lemma rr_text_value:
  "rr_text s \<noteq> []"
  "\<exists>v. scan_float (rr_text s) = Some v"
  "scan_float (rr_text s) =
     (let buf = cleanString number_chars s in if buf = [] \<or> only_sign buf then Some (-1) else Some (real_of_int (atoi buf) / 10))"
proof -
  have m: "scan_float ''-1'' = Some (-1)"
    by (simp add: scan_float_def isspace_def isdigit_def digits_val_def frac_val_def)
  show "rr_text s \<noteq> []" by (auto simp: rr_text_def fmt_tenths_def Let_def only_sign_def)
  show "scan_float (rr_text s) =
     (let buf = cleanString number_chars s in if buf = [] \<or> only_sign buf then Some (-1) else Some (real_of_int (atoi buf) / 10))"
    by (simp add: rr_text_def Let_def m scan_fmt_tenths)
  then show "\<exists>v. scan_float (rr_text s) = Some v" unfolding Let_def by metis
qed

section \<open>Signs of weather against a table\<close>

fun pairs_of :: "'a list \<Rightarrow> ('a \<times> 'a) list" where
  "pairs_of (a # b # r) = (a, b) # pairs_of r"
| "pairs_of _ = []"

text \<open>The code and the intensity of two figures.\<close>

definition sign_of_pair :: "char \<times> char \<Rightarrow> (string \<times> char) option" where
  "sign_of_pair p = (case weather_pair (fst p) (snd p) of (ic, v) \<Rightarrow> map_option (\<lambda>s. (s, ic)) (weather_code v))"

definition good_signs :: "(char \<times> char) list \<Rightarrow> (string \<times> char) list" where
  "good_signs ps = map (the \<circ> sign_of_pair) (takeWhile (\<lambda>p. sign_of_pair p \<noteq> None) ps)"

lemma good_signs_Nil: "good_signs [] = []"
  by (simp add: good_signs_def)

lemma loop_signs:
  "k = length done' \<Longrightarrow> k \<le> 3 \<Longrightarrow> even (length w) \<Longrightarrow>
   v1v2v3_loop w k (map fst done') (map snd done' @ replicate (3 - k) (CHR ''3'')) =
     (let good = good_signs (pairs_of w) in
      if k + length good > 3 then None
      else Some (if length good = length (pairs_of w) then int (k + length good) else -1, map fst (done' @ good),
                 map snd (done' @ good) @ replicate (3 - (k + length good)) (CHR ''3'')))"
proof (induction w k "map fst done'" "map snd done' @ replicate (3 - k) (CHR ''3'')" arbitrary: done' rule: v1v2v3_loop.induct)
  case (1 a b w k)
  obtain ic v where p: "weather_pair a b = (ic, v)" by fastforce
  show ?case
  proof (cases "weather_code v")
    case None
    then show ?thesis using 1(3,4) p by (simp add: good_signs_def sign_of_pair_def)
  next
    case (Some s)
    have good: "good_signs ((a, b) # pairs_of w) = (s, ic) # good_signs (pairs_of w)"
      using p Some by (simp add: good_signs_def sign_of_pair_def)
    show ?thesis
    proof (cases "k = 3")
      case True
      then show ?thesis using p Some good 1(2) by simp
    next
      case False
      then have k: "k < 3" using 1(3) by simp
      have upd: "(map snd done' @ replicate (3 - k) (CHR ''3''))[k := ic] = map snd (done' @ [(s, ic)]) @ replicate (3 - (k + 1)) (CHR ''3'')"
        using k 1(2) by (cases "3 - k") (auto simp: list_update_append)
      note ih = 1(1) [OF p [symmetric] Some, of "done' @ [(s, ic)]"]
      have "v1v2v3_loop w (k + 1) (map fst (done' @ [(s, ic)])) (map snd (done' @ [(s, ic)]) @ replicate (3 - (k + 1)) (CHR ''3'')) =
        (let good = good_signs (pairs_of w) in
          if k + 1 + length good > 3 then None
          else Some (if length good = length (pairs_of w) then int (k + 1 + length good) else -1, map fst ((done' @ [(s, ic)]) @ good),
                 map snd ((done' @ [(s, ic)]) @ good) @ replicate (3 - (k + 1 + length good)) (CHR ''3'')))"
        by (rule ih) (use k 1(2,4) upd in auto)
      then have "v1v2v3_loop w (k + 1) (map fst done' @ [s]) ((map snd done' @ replicate (3 - k) (CHR ''3''))[k := ic]) =
        (let good = good_signs (pairs_of w) in
          if k + 1 + length good > 3 then None
          else Some (if length good = length (pairs_of w) then int (k + 1 + length good) else -1, map fst ((done' @ [(s, ic)]) @ good),
                 map snd ((done' @ [(s, ic)]) @ good) @ replicate (3 - (k + 1 + length good)) (CHR ''3'')))"
        by (simp only: upd map_append list.map fst_conv)
      then show ?thesis using p Some good k 1(2) by (simp add: Let_def)
    qed
  qed
qed (auto simp: good_signs_def)

text \<open>
  C23. The weather of a message: of a text with an even number of figures the signs are the pairs of figures up to the first one that
  is not in the table. It is accepted if all are, with three at most; the fourth is written out of range.
\<close>

theorem weather_signs:
  "decodeV1V2V3 w =
     (let ds = cleanString digit_chars w; good = good_signs (pairs_of ds) in
      if odd (length ds) then Some (-1, [], ''333'')
      else if length good > 3 then None
      else Some (if length good = length (pairs_of ds) then int (length good) else -1, map fst good,
                 map snd good @ replicate (3 - length good) (CHR ''3'')))"
proof (cases "even (length (cleanString digit_chars w))")
  case True
  have "replicate 3 (CHR ''3'') = ''333''" by (simp add: numeral_3_eq_3)
  then show ?thesis using loop_signs [where k = 0 and done' = "[]" and w = "cleanString digit_chars w"] True
    by (simp add: decodeV1V2V3_def Let_def even_iff_mod_2_eq_zero good_signs_Nil)
qed (auto simp: decodeV1V2V3_def Let_def even_iff_mod_2_eq_zero)

section \<open>Precipitation\<close>

text \<open>What a message says of the time: both ends of the interval, or none.\<close>

definition obs_interval :: "('t::linorder, 'c) sms_env \<Rightarrow> string list \<Rightarrow> ('t \<times> 't) option" where
  "obs_interval env inp =
     (let klStart = cleanString digit_chars (sms2_in inp ''KLSTART''); klObs = cleanString digit_chars (sms2_in inp ''KLOBS'')
      in if klStart = [] \<or> klObs = [] then None
         else Some (localTimeToUTC (se_mt env) (sms2_createObsTime env klStart), localTimeToUTC (se_mt env) (sms2_createObsTime env klObs)))"

definition precipitation_amount :: "string \<Rightarrow> real" where
  "precipitation_amount s =
     (let buf = cleanString number_chars s in if buf = [] \<or> only_sign buf then -1 else real_of_int (atoi buf) / 10)"

lemma rr_text_amount: "scan_float (rr_text s) = Some (precipitation_amount s)"
  using rr_text_value(3) [of s] by (simp add: precipitation_amount_def Let_def)

lemma doKvSnow_keeps: "sms_keeps e (doKvSnow env inp meta uf e)"
  by (auto simp: doKvSnow_def Let_def intro!: add_default_keeps)

lemma doKvSnow_ok: "elem_ok (se_params env) e \<Longrightarrow> elem_ok (se_params env) (doKvSnow env inp meta uf e)"
  by (auto simp: doKvSnow_def Let_def intro!: add_default_ok)

lemma doKvSnow_same: "same_identity e0 e \<Longrightarrow> same_identity e0 (doKvSnow env inp meta uf e)"
  by (auto simp: doKvSnow_def Let_def intro!: add_default_same)

lemma el_setDate_ok [simp]: "elem_ok params (el_setDate n t e) = elem_ok params e"
  by (simp add: elem_ok_def el_setDate_def)

text \<open>
  C20. A message with an interval is accepted exactly if both ends are dates and it has 21 hours at least; then the amount is stored for
  6 o'clock of the day the interval ends, with the flag of its length.
\<close>

theorem interval_stored:
  assumes "obs_interval env inp = Some (start, stop)" "findParam (se_params env) ''RR_24'' = Some p" "isScalar p"
  shows "case doKvPrecipitation env inp (e, c) of
      Inl err \<Rightarrow> mt_isUndef (se_mt env) start \<or> mt_isUndef (se_mt env) stop \<or> stop < start \<or> mt_minDiff (se_mt env) stop start < 21 * 60
    | Inr (e', c') \<Rightarrow>
        \<not> mt_isUndef (se_mt env) start \<and> \<not> mt_isUndef (se_mt env) stop \<and> start \<le> stop \<and> 21 * 60 \<le> mt_minDiff (se_mt env) stop start
        \<and> dtObs e' = mt_at (se_mt env) stop 6
        \<and> (\<exists>d \<in> set (el_data e'). paramID d = param_id p \<and> obstime d = mt_at (se_mt env) stop 6
              \<and> original d = precipitation_amount (sms2_in inp ''RR'')
              \<and> useinfo d = interval_useinfo (mt_minDiff (se_mt env) stop start) \<bar>mt_minDiff (se_mt env) stop (mt_at (se_mt env) stop 6)\<bar>)"
proof (cases "doKvPrecipitation_rr env inp e")
  case (Inl err)
  then show ?thesis using assms(1)
    by (auto simp: doKvPrecipitation_def doKvPrecipitation_rr_def obs_interval_def Let_def split: if_splits)
next
  case (Inr r)
  obtain uf e1 where r: "r = (uf, e1)" by fastforce
  let ?uf = "interval_useinfo (mt_minDiff (se_mt env) stop start) \<bar>mt_minDiff (se_mt env) stop (mt_at (se_mt env) stop 6)\<bar>"
  have same: "dtObs (add_default mt params param dat u x) = dtObs x" for mt :: "'a mitime" and params param dat u and x :: "'a DecodedDataElem"
    using add_default_same [of x x] by (simp add: same_identity_def)
  obtain e0 where e0: "e1 = add_default (se_mt env) (se_params env) ''RR_24'' (rr_text (sms2_in inp ''RR'')) ?uf e0" "dtObs e0 = mt_at (se_mt env) stop 6"
      "\<not> mt_isUndef (se_mt env) start" "\<not> mt_isUndef (se_mt env) stop" "start \<le> stop" "21 * 60 \<le> mt_minDiff (se_mt env) stop start"
    using assms(1) Inr r that
    by (auto simp: obs_interval_def doKvPrecipitation_rr_def Let_def same el_setDate_def split: if_splits)
  obtain d where d: "d \<in> set (el_data e1)" "paramID d = param_id p" "obstime d = mt_at (se_mt env) stop 6"
      "original d = precipitation_amount (sms2_in inp ''RR'')" "useinfo d = ?uf"
    using add_default_number [OF assms(2,3) rr_text_value(1) rr_text_amount, of "se_mt env" "sms2_in inp ''RR''" ?uf e0] e0(1,2) by auto
  obtain meta c' where m: "se_meta env (el_sid e1) (el_tid e1) (dtObs e1) c = (meta, c')" by fastforce
  have "d \<in> set (el_data (doKvSnow env inp meta uf e1))" using doKvSnow_keeps [of e1 env inp meta uf] d(1) by (auto simp: sms_keeps_def)
  moreover have "dtObs (doKvSnow env inp meta uf e1) = mt_at (se_mt env) stop 6"
    using doKvSnow_same [of e1 e1 env inp meta uf] e0(1,2) same by (simp add: same_identity_def)
  ultimately show ?thesis using d e0 Inr r m by (auto simp: doKvPrecipitation_def)
qed

section \<open>What becomes of the messages\<close>

text \<open>The elements are kept newest first.\<close>

definition newest_first :: "'t::linorder DecodedDataElem list \<Rightarrow> bool" where
  "newest_first es \<longleftrightarrow> sorted_wrt (\<lambda>a b. dtObs b \<le> dtObs a) es"

lemma newest_first_add: "newest_first (dd_data dd) \<Longrightarrow> newest_first (dd_data (dd_add e dd))"
proof -
  have "newest_first es \<Longrightarrow> newest_first (takeWhile (\<lambda>x. \<not> dtObs x < dtObs e) es @ e # dropWhile (\<lambda>x. \<not> dtObs x < dtObs e) es)" for es
  proof (induction es)
    case (Cons x es)
    have "set (takeWhile (\<lambda>x. \<not> dtObs x < dtObs e) es @ e # dropWhile (\<lambda>x. \<not> dtObs x < dtObs e) es) = insert e (set es)"
      by (metis Un_insert_right list.simps(15) set_append takeWhile_dropWhile_id)
    then show ?case using Cons by (auto simp: newest_first_def)
  qed (simp add: newest_first_def)
  then show "newest_first (dd_data dd) \<Longrightarrow> newest_first (dd_data (dd_add e dd))" by (simp add: dd_add_def)
qed

lemma set_dd_add [simp]: "set (dd_data (dd_add e dd)) = insert e (set (dd_data dd))"
  by (simp add: dd_add_def) (metis Un_insert_right set_append takeWhile_dropWhile_id)

lemma length_dd_add [simp]: "length (dd_data (dd_add e dd)) = Suc (length (dd_data dd))"
proof -
  have "length (takeWhile P xs) + length (dropWhile P xs) = length xs" for P :: "'a DecodedDataElem \<Rightarrow> bool" and xs
    by (metis length_append takeWhile_dropWhile_id)
  then show ?thesis by (simp add: dd_add_def)
qed

lemma dd_ids [simp]: "dd_sid (dd_add e dd) = dd_sid dd" "dd_tid (dd_add e dd) = dd_tid dd"
  by (simp_all add: dd_add_def)

text \<open>An element that is decoded or that has been: it belongs to the station and type, and its values are in order.\<close>

definition decoded_elem :: "('t, 'c) sms_env \<Rightarrow> int \<Rightarrow> int \<Rightarrow> 't DecodedDataElem \<Rightarrow> bool" where
  "decoded_elem env sid tid e \<longleftrightarrow> el_sid e = sid \<and> el_tid e = tid \<and> elem_ok (se_params env) e"

lemma addDataObstime_decoded:
  "decoded_elem env sid tid e \<Longrightarrow> decoded_elem env sid tid (snd (addDataObstime mt (se_params env) param dat obt uf cf lev sen e))"
  using addDataObstime_ok [of "se_params env" e] addDataObstime_same [of e e] by (simp add: decoded_elem_def same_identity_def)

lemma add_default_decoded:
  "decoded_elem env sid tid e \<Longrightarrow> decoded_elem env sid tid (add_default mt (se_params env) param dat uf e)"
  by (simp add: add_defs addDataObstime_decoded)

lemma addV1V2V3_decoded: "decoded_elem env sid tid e \<Longrightarrow> decoded_elem env sid tid (addV1V2V3 env obt vs vi e)"
  by (simp add: addV1V2V3_def Let_def addDataObstime_decoded)

lemma addWeather_decoded:
  "addWeather env inp e = Some e' \<Longrightarrow> decoded_elem env sid tid e \<Longrightarrow> decoded_elem env sid tid e'"
proof -
  have "decodeAndAddV1V2V3 env inp obt what x = Some x' \<Longrightarrow> decoded_elem env sid tid x \<Longrightarrow> decoded_elem env sid tid x'" for obt what x x'
    by (auto simp: decodeAndAddV1V2V3_def Let_def addV1V2V3_decoded split: prod.splits if_splits option.splits)
  then show "addWeather env inp e = Some e' \<Longrightarrow> decoded_elem env sid tid e \<Longrightarrow> decoded_elem env sid tid e'"
    by (auto simp: addWeather_def Let_def bind_eq_Some_conv)
qed

lemma doKvPrecipitation_decoded:
  "doKvPrecipitation env inp (e, c) = Inr (e', c') \<Longrightarrow> decoded_elem env sid tid e \<Longrightarrow> decoded_elem env sid tid e'"
proof -
  assume a: "doKvPrecipitation env inp (e, c) = Inr (e', c')" "decoded_elem env sid tid e"
  obtain uf e1 where r: "doKvPrecipitation_rr env inp e = Inr (uf, e1)"
    using a(1) by (auto simp: doKvPrecipitation_def split: sum.splits prod.splits)
  have "decoded_elem env sid tid (el_setDate n t e)" for n t using a(2) by (simp add: decoded_elem_def el_setDate_def elem_ok_def)
  then have "decoded_elem env sid tid e1" using r
    by (auto simp: doKvPrecipitation_rr_def Let_def intro!: add_default_decoded split: if_splits)
  then have "decoded_elem env sid tid (doKvSnow env inp meta uf e1)" for meta
    by (simp add: doKvSnow_def Let_def add_default_decoded)
  then show ?thesis using a(1) r by (auto simp: doKvPrecipitation_def split: prod.splits)
qed

text \<open>After \<open>n\<close> messages: each has been rejected, or has given an element at most.\<close>

definition sms2_inv :: "('t::linorder, 'c) sms_env \<Rightarrow> int \<Rightarrow> int \<Rightarrow> nat \<Rightarrow> ('t, 'c) sms2_state \<Rightarrow> bool" where
  "sms2_inv env sid tid n s \<longleftrightarrow>
     decoded_elem env sid tid (s2_data s)
     \<and> (\<forall>e \<in> set (dd_data (s2_sms s)). decoded_elem env sid tid e \<and> (el_data e \<noteq> [] \<or> el_text e \<noteq> []))
     \<and> newest_first (dd_data (s2_sms s))
     \<and> length (dd_data (s2_sms s)) + length (s2_rejected s) \<le> n
     \<and> (s2_hasRejected s \<longleftrightarrow> s2_rejected s \<noteq> [])
     \<and> list_all (\<lambda>r. rej_decoder r = ''comobs/typeid=302'') (s2_rejected s)"

lemma sms2_message_inv:
  assumes "sms2_message env obs s = Some s'" "sms2_inv env sid tid n s"
  shows "sms2_inv env sid tid (Suc n) s'"
proof -
  let ?s = "s\<lparr>s2_data := el_clean (se_mt env) (s2_data s)\<rparr>" and ?buf = "stripNewLine obs"
  have s: "sms2_inv env sid tid n ?s" using assms(2) by (simp add: sms2_inv_def decoded_elem_def el_clean_def elem_ok_def)
  have weaker: "sms2_inv env sid tid n x \<Longrightarrow> sms2_inv env sid tid (Suc n) (add_return m x)" for m x
    by (auto simp: sms2_inv_def add_return_def)
  show ?thesis
  proof (cases "length ?buf < 3 \<or> sms_separator ?buf = None")
    case True
    have "\<exists>m. s' = add_return m ?s"
    proof (cases "length ?buf < 3")
      case short: True
      then show ?thesis using assms(1) by (simp add: sms2_message_def) blast
    next
      case False
      then show ?thesis using assms(1) True by (simp add: sms2_message_def) blast
    qed
    then show ?thesis using weaker [OF s] by blast
  next
    case False
    then obtain sep cStr where c: "sms_separator ?buf = Some sep" "comma_init_char ?buf sep = Some cStr" "\<not> length ?buf < 3"
      using assms(1) by (auto simp: sms2_message_def Let_def split: option.splits)
    show ?thesis
    proof (cases "length cStr < 3")
      case True
      then show ?thesis using assms(1) c weaker [OF s] by (auto simp: sms2_message_def Let_def)
    next
      case long: False
      show ?thesis
      proof (cases "doKvPrecipitation env (map elem_str cStr) (s2_data ?s, s2_meta ?s)")
        case (Inl err)
        then show ?thesis using assms(1) c long s by (auto simp: sms2_message_def Let_def sms2_inv_def add_return_def)
      next
        case (Inr r)
        obtain e c' where r: "r = (e, c')" by fastforce
        obtain e' where e': "addWeather env (map elem_str cStr) e = Some e'"
          and s': "s' = (let x = ?s\<lparr>s2_data := e', s2_meta := c'\<rparr> in
             if length (el_data e') > 0 \<or> length (el_text e') > 0 then x\<lparr>s2_sms := dd_add e' (s2_sms x)\<rparr> else x)"
          using assms(1) c long Inr r by (auto simp: sms2_message_def Let_def)
        have "decoded_elem env sid tid e'"
          using addWeather_decoded [OF e'] doKvPrecipitation_decoded [OF Inr [unfolded r]] s by (auto simp: sms2_inv_def)
        then show ?thesis using s s' newest_first_add [of "s2_sms s" e'] by (auto simp: sms2_inv_def Let_def)
      qed
    qed
  qed
qed

lemma sms2_messages_inv:
  "sms2_messages env obs s = Some s' \<Longrightarrow> sms2_inv env sid tid n s \<Longrightarrow> sms2_inv env sid tid (n + length obs) s'"
proof (induction obs arbitrary: s n)
  case (Cons ob obs)
  then obtain s1 where "sms2_message env ob s = Some s1" "sms2_messages env obs s1 = Some s'" by (auto simp: bind_eq_Some_conv)
  then show ?case using Cons.IH [of s1 "Suc n"] sms2_message_inv [of env ob s s1 sid tid n] Cons.prems(2) by simp
qed simp

lemma sms2_decode_inv:
  assumes "sms2_decode env stationid smscode obs c = Some s"
  shows "sms2_inv env stationid (smscode + 300) (length obs) s"
proof -
  have "sms2_inv env stationid (smscode + 300) 0
      \<lparr>s2_data = createDataElem (se_mt env) (new_DecodedData stationid (smscode + 300)), s2_sms = new_DecodedData stationid (smscode + 300),
        s2_return = [], s2_rejected = [], s2_hasRejected = False, s2_meta = c\<rparr>"
    by (simp add: sms2_inv_def decoded_elem_def createDataElem_def new_DecodedData_def elem_ok_def newest_first_def)
  from sms2_messages_inv [OF _ this] show ?thesis using assms by (simp add: sms2_decode_def Let_def)
qed

text \<open>
  C21. Decoding the messages of a request gives an element or a rejected message for each of them at most; an element has data, which
  are of the station and type of the request, of known parameters and in their order; the elements are newest first; and that
  something is rejected is known exactly if there are rejected messages.
\<close>

theorem messages_decoded:
  assumes "sms2_decode env stationid smscode obs c = Some s"
  shows "sms2_inv env stationid (smscode + 300) (length obs) s"
  by (rule sms2_decode_inv [OF assms])

section \<open>A calendar for examples\<close>

text \<open>Minutes from the year 2000, all months with 31 days; negative: not a date.\<close>

definition demo_mt :: "int mitime" where
  "demo_mt =
     \<lparr>mt_isUndef = (\<lambda>t. t < 0), mt_undef = -1,
      mt_make = (\<lambda>y mnt d h m. ((((y - 2000) * 12 + mnt - 1) * 31 + d - 1) * 24 + h) * 60 + m),
      mt_year = (\<lambda>t. 2000 + t div 535680), mt_month = (\<lambda>t. t div 44640 mod 12 + 1), mt_day = (\<lambda>t. t div 1440 mod 31 + 1),
      mt_hour = (\<lambda>t. t div 60 mod 24), mt_dayOfWeek = (\<lambda>t. t div 1440 mod 7), mt_daysInMonth = (\<lambda>t. 31),
      mt_addDay = (\<lambda>n t. t + 1440 * n), mt_addSec = (\<lambda>n t. t + n div 60), mt_at = (\<lambda>t h. t div 1440 * 1440 + h * 60),
      mt_minDiff = (-), mt_hourDiff = (\<lambda>a b. (a - b) div 60)\<rparr>"

definition demo_sms_env :: "(int, unit) sms_env" where
  "demo_sms_env =
     \<lparr>se_mt = demo_mt, se_now = mt_make demo_mt 2010 1 10 8 0, se_received = -1,
      se_params = [\<lparr>kode = ''RR_24'', param_id = 110, isScalar = True\<rparr>, \<lparr>kode = ''SA'', param_id = 112, isScalar = True\<rparr>],
      se_useinfo7 = (\<lambda>_ _ _. 0), se_meta = (\<lambda>_ _ _ c. (''000'', c))\<rparr>"

definition demo_in :: "string list" where
  "demo_in = [''1'', ''2'', '''', ''125'', '''', '''', '''', ''10'', '''', ''10010807'', ''10011007'']"

definition demo_elem :: "int DecodedDataElem" where
  "demo_elem = createDataElem demo_mt (new_DecodedData 1492 302)"

lemma demo_interval: "obs_interval demo_sms_env demo_in = Some (5367240, 5370120)"
  by code_simp

theorem interval_stored_witness:
  "\<exists>e' c' d. doKvPrecipitation demo_sms_env demo_in (demo_elem, ()) = Inr (e', c') \<and> d \<in> set (el_data e') \<and> paramID d = 110 \<and> original d = 25 / 2"
proof -
  have p: "findParam (se_params demo_sms_env) ''RR_24'' = Some \<lparr>kode = ''RR_24'', param_id = 110, isScalar = True\<rparr>"
    by (simp add: demo_sms_env_def findParam_def)
  have "cleanString number_chars (sms2_in demo_in ''RR'') = ''125''" "\<not> only_sign ''125''" "atoi ''125'' = 125" by code_simp+
  then have a: "precipitation_amount (sms2_in demo_in ''RR'') = 25 / 2" by (simp add: precipitation_amount_def)
  have "\<not> mt_isUndef (se_mt demo_sms_env) 5367240" "\<not> mt_isUndef (se_mt demo_sms_env) 5370120" "mt_minDiff (se_mt demo_sms_env) 5370120 5367240 = 2880"
    by (simp_all add: demo_sms_env_def demo_mt_def)
  with a show ?thesis
    using interval_stored [OF demo_interval p, of demo_elem "()"] by (auto split: sum.splits prod.splits)
qed

lemma demo_decoded:
  "map_option (\<lambda>s. map rej_comment (s2_rejected s)) (sms2_decode demo_sms_env 1492 2 [''1;2;;125;;;;;;10010807;10010817'', ''x''] ())
     = Some [''Ivalid observation, to few hour (<21 hour)!'']"
  by code_simp

theorem messages_decoded_witness:
  "\<exists>s. sms2_decode demo_sms_env 1492 2 [''1;2;;125;;;;;;10010807;10010817'', ''x''] () = Some s \<and> sms2_inv demo_sms_env 1492 302 2 s"
  using demo_decoded messages_decoded [of demo_sms_env 1492 2 "[''1;2;;125;;;;;;10010807;10010817'', ''x'']" "()"]
  by (auto simp: numeral_2_eq_2)

end
