(* ===== verification/Comobs.thy ===== *)
theory Comobs
  imports Sms2_Props Kl_Decoder
begin

text \<open>
  The decoder of the messages of manual stations, \<^verbatim>\<open>src/lib/decoder/comobsdecoder/comobsdecode.cc\<close>: the type of the
  observation or the XML of the message gives station and code, a decoder for the code decodes the messages (theory \<open>Sms2\<close>),
  and the elements are stored one by one by the transaction of \<open>Obs_Update\<close>. The clock is read as \<open>now\<close> of the environment. What the
  source leaves undefined is a fault. Log output is not modelled. The property: a request is stored only if nothing of it is rejected.
\<close>

section \<open>State\<close>

text \<open>The header from the type of the observation, and the observing programme that was read last.\<close>

record 't obs_pgm_cache =
  pc_obsPgm :: "kvObsPgm list"
  pc_obstime :: 't

record ('t, 'r) ComObsDecoder = "('t, 'r) Decoder" +
  h_code :: int
  h_receivedTime :: 't
  h_stationid :: int
  h_redirectedFrom :: string
  h_error :: string
  obsPgm_cache :: "'t obs_pgm_cache"

record 't com_world =
  co_tables :: "'t tables"
  co_rejects :: "'t sms_reject list"

text \<open>
  The environment of the tables and the calendar, the day and hour of a time, the conversions of a number and a time,
  the parser of XML, the queries for stations and for the observing programme, whether a rejected message can be saved, and how a
  transaction is run.
\<close>

record ('t, 'r) com_services =
  cs_env :: "'t env"
  cs_mt :: "'t mitime"
  cs_civil :: "'t \<Rightarrow> civil"
  cs_lexical_cast_int :: "string \<Rightarrow> int option"
  cs_time_from_string :: "string \<Rightarrow> 't"
  cs_total_seconds :: "'t \<Rightarrow> 't \<Rightarrow> int"
  cs_sax :: "string \<Rightarrow> sax list \<times> bool"
  cs_query :: "string \<Rightarrow> unit + string option"
  cs_selectObsPgm :: "int \<Rightarrow> int \<Rightarrow> 't \<Rightarrow> kvObsPgm list option"
  cs_reject_saved :: "'t sms_reject \<Rightarrow> bool"
  cs_perform :: "('t, 'r) performer"

datatype com_fault = ComOutOfRange | ComNoReturn

section \<open>Type of an observation\<close>

definition com_decodeKeyVal :: "string \<Rightarrow> bool \<times> string \<times> string" where
  "com_decodeKeyVal keyval =
     (let (key, val) = (if CHR ''='' \<in> set keyval
            then (takeWhile (\<lambda>c. c \<noteq> CHR ''='') keyval, tl (dropWhile (\<lambda>c. c \<noteq> CHR ''='') keyval))
            else (keyval, []));
          key = trimstr key; val = trimstr val
      in (key \<noteq> [], key, val))"

definition com_clear :: "('t, 'r) com_services \<Rightarrow> ('t, 'r) ComObsDecoder \<Rightarrow> ('t, 'r) ComObsDecoder" where
  "com_clear sv d = d\<lparr>h_code := -1, h_stationid := -1, h_error := [], h_receivedTime := mt_undef (cs_mt sv), h_redirectedFrom := []\<rparr>"

text \<open>One key; whether to go on.\<close>

definition com_key :: "('t, 'r) com_services \<Rightarrow> string \<Rightarrow> ('t, 'r) ComObsDecoder \<Rightarrow> bool \<times> ('t, 'r) ComObsDecoder" where
  "com_key sv keyval d =
     (case com_decodeKeyVal keyval of
        (found, key, val) \<Rightarrow>
          if \<not> found then (True, d)
          else if key = ''received_time'' then (True, d\<lparr>h_receivedTime := cs_time_from_string sv val\<rparr>)
          else if key = ''redirected'' then (True, d\<lparr>h_redirectedFrom := val\<rparr>)
          else if key = ''stationid'' then
            (let d = d\<lparr>h_stationid := getStationId (cs_query sv) key val\<rparr> in
             if h_stationid d < 0 then (False, d\<lparr>h_error := h_error d @ ''No station with stationid '' @ [CHR 0x27] @ key @ ''='' @ val @ [CHR 0x27] @ ''.''\<rparr>)
             else (True, d))
          else if key = ''code'' then
            (case cs_lexical_cast_int sv val of
               None \<Rightarrow> (False, d\<lparr>h_error := h_error d @ [CHR 0x27] @ ''code'' @ [CHR 0x27] @ '' is not a number '' @ [CHR 0x27] @ val @ [CHR 0x27] @ ''.''\<rparr>)
             | Some c \<Rightarrow>
                 let d = d\<lparr>h_code := c\<rparr> in
                 if c \<noteq> 2 \<and> c \<noteq> 13 then
                   (False, d\<lparr>h_error := h_error d @ ''Unknown '' @ [CHR 0x27] @ ''code'' @ [CHR 0x27] @ '' ('' @ show_int c @ ''), valid codes is 2 and 13.''\<rparr>)
                 else (True, d))
          else (True, d))"

fun com_keys :: "('t, 'r) com_services \<Rightarrow> string list \<Rightarrow> ('t, 'r) ComObsDecoder \<Rightarrow> bool \<times> ('t, 'r) ComObsDecoder" where
  "com_keys sv [] d = (True, d)"
| "com_keys sv (kv # kvs) d = (case com_key sv kv d of (ok, d) \<Rightarrow> if ok then com_keys sv kvs d else (False, d))"

text \<open>The number of the station is the greatest integer as long as there is none: the test at the end never fails.\<close>

definition com_decodeObsType :: "('t, 'r) com_services \<Rightarrow> ('t, 'r) ComObsDecoder \<Rightarrow> (bool \<times> ('t, 'r) ComObsDecoder) option" where
  "com_decodeObsType sv d =
     (case comma_init_char (dec_obsType d) (CHR ''/'') of
        None \<Rightarrow> None
      | Some cstr \<Rightarrow>
          Some (case com_keys sv (map elem_str (tl cstr)) ((com_clear sv d)\<lparr>h_stationid := INT_MAX\<rparr>) of
            (ok, d) \<Rightarrow>
              if \<not> ok then (False, d)
              else if h_stationid d < 0 then (False, d\<lparr>h_error := h_error d @ ''Missing required parameter(s) stationid or code.''\<rparr>)
              else (True, d)))"

definition getObsLines :: "string \<Rightarrow> SmsMelding \<Rightarrow> SmsMelding" where
  "getObsLines obs m = fold (\<lambda>l m. let line = boost_trim l in if line = [] then m else addMelding line m) (getlines obs) m"

text \<open>The message, or the error; that of the parser is asked for before it has parsed.\<close>

definition getSmsMelding :: "('t, 'r) com_services \<Rightarrow> ('t, 'r) ComObsDecoder \<Rightarrow> ((string + SmsMelding) \<times> ('t, 'r) ComObsDecoder) option" where
  "getSmsMelding sv d =
     map_option (\<lambda>(ok, d).
         if \<not> ok then (Inl (h_error d), d)
         else if h_code d > 0 then
           (Inr (getObsLines (dec_obs d) ((SmsMelding_of (c_int (h_stationid d)) (-1) (h_code d))\<lparr>rawDoc := dec_obsType d @ dec_obs d\<rparr>)), d)
         else (case fst (sms_parse (cs_sax sv) (dec_obs d) new_SmsMeldingParser) of
                 None \<Rightarrow> (Inl (errMsg new_SmsMeldingParser), d)
               | Some m \<Rightarrow> (Inr m, d)))
       (com_decodeObsType sv d)"

definition com_getStationid :: "('t, 'r) com_services \<Rightarrow> int \<Rightarrow> bool \<Rightarrow> int" where
  "com_getStationid sv obsid isWmono = getStationId (cs_query sv) (if isWmono then ''wmonr'' else ''nationalnr'') (show_int obsid)"

section \<open>Snow\<close>

definition loadObsPgmParamInfo :: "(int \<Rightarrow> int \<Rightarrow> 't \<Rightarrow> kvObsPgm list option) \<Rightarrow> int \<Rightarrow> int \<Rightarrow> 't \<Rightarrow> bool \<times> 't obs_pgm_cache" where
  "loadObsPgmParamInfo select stationid typ obt =
     (case select stationid typ obt of
        None \<Rightarrow> (False, \<lparr>pc_obsPgm = [], pc_obstime = obt\<rparr>)
      | Some ps \<Rightarrow> (True, \<lparr>pc_obsPgm = ps, pc_obstime = obt\<rparr>))"

definition getMetaSaSdEm :: "('t, 'r) com_services \<Rightarrow> int \<Rightarrow> int \<Rightarrow> 't \<Rightarrow> 't obs_pgm_cache \<Rightarrow> string \<times> 't obs_pgm_cache" where
  "getMetaSaSdEm sv stationid typ obt pc =
     (let (ok, pc) = (if mt_isUndef (cs_mt sv) (pc_obstime pc) \<or> pc_obstime pc \<noteq> obt then loadObsPgmParamInfo (cs_selectObsPgm sv) stationid typ obt else (True, pc));
          active = (\<lambda>par. if isActive (pc_obsPgm pc) stationid typ par 0 0 (cs_civil sv obt) = (True, YES) then CHR ''1'' else CHR ''0'')
      in (if ok then [active 112, active 18, active 7] else ''000'', pc))"

section \<open>Rejected messages\<close>

definition com_reject :: "('t, 'r) com_services \<Rightarrow> 't sms_reject \<Rightarrow> 't com_world \<Rightarrow> 't com_world" where
  "com_reject sv row w = (if cs_reject_saved sv row then w\<lparr>co_rejects := co_rejects w @ [row]\<rparr> else w)"

definition com_row :: "('t, 'r) com_services \<Rightarrow> ('t, 'r) ComObsDecoder \<Rightarrow> string \<Rightarrow> string \<Rightarrow> 't sms_reject" where
  "com_row sv d dec cmt = \<lparr>rej_message = dec_obs d, rej_tbtime = now (cs_env sv), rej_decoder = dec, rej_comment = cmt\<rparr>"

definition com_typeid :: "SmsMelding \<Rightarrow> string" where
  "com_typeid m = ''comobs/typeid='' @ show_int (sms_code m + 300)"

section \<open>Decoding\<close>

text \<open>What the decoders of messages are given.\<close>

definition sms_env_of :: "('t, 'r) com_services \<Rightarrow> ('t, 'r) ComObsDecoder \<Rightarrow> ('t, 't obs_pgm_cache) sms_env" where
  "sms_env_of sv d =
     \<lparr>se_mt = cs_mt sv, se_now = now (cs_env sv), se_received = h_receivedTime d, se_params = dec_params d,
      se_useinfo7 = (\<lambda>typ a b. dec_getUseinfo7Code (cs_total_seconds sv) typ a b d), se_meta = getMetaSaSdEm sv\<rparr>"

text \<open>The data, what is told the sender, and the messages that are rejected.\<close>

definition com_decode :: "('t::linorder, 'r) com_services \<Rightarrow> int \<Rightarrow> SmsMelding \<Rightarrow> string \<Rightarrow> ('t, 'r) ComObsDecoder
    \<Rightarrow> ('t DecodedData \<times> string \<times> 't sms_reject list \<times> bool \<times> ('t, 'r) ComObsDecoder) option" where
  "com_decode sv stationid m msg d =
     (if sms_code m = 2 then
        map_option (\<lambda>s. (s2_sms s, msg @ s2_return s, s2_rejected s, s2_hasRejected s, d\<lparr>obsPgm_cache := s2_meta s\<rparr>))
          (sms2_decode (sms_env_of sv d) stationid (sms_code m) (meldingList m) (obsPgm_cache d))
      else Some (sms13_decode (sms_env_of sv d) stationid (sms_code m) (meldingList m), msg, [], False, d))"

text \<open>An element is published and stored by the filters of stations. Whether the transaction fails is only logged.\<close>

definition com_store :: "('t::linorder, 'r) com_services \<Rightarrow> string \<Rightarrow> 't DecodedDataElem \<Rightarrow> ('t, 'r) ComObsDecoder \<times> 't tables
    \<Rightarrow> (('t, 'r) ComObsDecoder \<times> 't tables) option" where
  "com_store sv lg e s =
     (case s of (d, t) \<Rightarrow>
        let d = snd (dataToPublish_of (cs_env sv) (el_data e) (el_text e) d);
            (sd, td) = saveDataToDb (dec_filters d) (el_data e) (el_text e)
        in if length sd > 0 \<or> length td > 0 then
             (case cs_perform sv (new_DataUpdate (cs_env sv) (dtObs e) (el_sid e) (el_tid e) sd td lg DbInsert True False Partial (useQaId (el_tid e) d)) t of
                None \<Rightarrow> None
              | Some (res, (t, u), callbacks) \<Rightarrow> Some (d, t))
           else Some (d, t))"

fun com_store_all :: "('t::linorder, 'r) com_services \<Rightarrow> string \<Rightarrow> 't DecodedDataElem list \<Rightarrow> ('t, 'r) ComObsDecoder \<times> 't tables
    \<Rightarrow> (('t, 'r) ComObsDecoder \<times> 't tables) option" where
  "com_store_all sv lg [] s = Some s"
| "com_store_all sv lg (e # es) s = Option.bind (com_store sv lg e s) (com_store_all sv lg es)"

definition com_rejected :: "('t, 'r) com_services \<Rightarrow> ('t, 'r) ComObsDecoder \<Rightarrow> 't com_world \<Rightarrow> string \<Rightarrow> string \<Rightarrow> string
    \<Rightarrow> DecodeResult \<times> string \<times> ('t, 'r) ComObsDecoder \<times> 't com_world" where
  "com_rejected sv d w dec cmt msg = (Rejected, msg, d, com_reject sv (com_row sv d dec cmt) w)"

text \<open>A message of a known station.\<close>

definition com_execute_station :: "('t::linorder, 'r) com_services \<Rightarrow> int \<Rightarrow> SmsMelding \<Rightarrow> string \<Rightarrow> ('t, 'r) ComObsDecoder \<times> 't com_world
    \<Rightarrow> com_fault + DecodeResult \<times> string \<times> ('t, 'r) ComObsDecoder \<times> 't com_world" where
  "com_execute_station sv stationid m msg s =
     (case s of (d, w) \<Rightarrow>
        if sms_code m \<noteq> 2 \<and> sms_code m \<noteq> 13 then
          (let cmt = ''No decoder for SMS code <'' @ show_int (sms_code m) @ ''>!'' in
           Inr (com_rejected sv d w (com_typeid m) cmt (''Rejected: '' @ cmt)))
        else
          (case com_decode sv stationid m msg d of
             None \<Rightarrow> Inl ComOutOfRange
           | Some (dat, msg, rejected, hasRejected, d) \<Rightarrow>
               if hasRejected then Inr (Rejected, ''Rejected: '' @ msg, d, fold (com_reject sv) rejected w)
               else
                 (case com_store_all sv (idlog stationid (sms_code m + 300)) (dd_data dat) (d, co_tables w) of
                    None \<Rightarrow> Inl ComNoReturn
                  | Some (d, t) \<Rightarrow> Inr (Ok, ''OK'', d, w\<lparr>co_tables := t\<rparr>))))"

definition com_execute :: "('t::linorder, 'r) com_services \<Rightarrow> string \<Rightarrow> ('t, 'r) ComObsDecoder \<times> 't com_world
    \<Rightarrow> com_fault + DecodeResult \<times> string \<times> ('t, 'r) ComObsDecoder \<times> 't com_world" where
  "com_execute sv msg s =
     (case s of (d, w) \<Rightarrow>
        case getSmsMelding sv d of
          None \<Rightarrow> Inl ComOutOfRange
        | Some (Inl sError, d) \<Rightarrow> Inr (com_rejected sv d w ''comobs/typeid=<UNKNOWN>'' sError (''Rejected: '' @ sError))
        | Some (Inr m, d) \<Rightarrow>
            if climano m \<le> 0 \<and> synopno m \<le> 0 then
              Inr (com_rejected sv d w (com_typeid m) ''No identification!'' ''Rejected: Unknown stationid.'')
            else
              let stationid = (if climano m > 0 then com_getStationid sv (climano m) False else com_getStationid sv (synopno m) True) in
              if stationid \<le> 0 then Inr (com_rejected sv d w (com_typeid m) ''Uknown station!'' ''Rejected: Unknown stationid.'')
              else com_execute_station sv stationid m msg (d, w))"

section \<open>What a request does\<close>

lemma com_key_frame: "toPublish (snd (com_key sv kv d)) = toPublish d"
  by (auto simp: com_key_def Let_def split: prod.splits option.splits)

lemma com_keys_frame: "toPublish (snd (com_keys sv kvs d)) = toPublish d"
proof (induction kvs arbitrary: d)
  case (Cons kv kvs)
  have "toPublish (snd (com_key sv kv d)) = toPublish d" by (rule com_key_frame)
  then show ?case using Cons.IH by (auto split: prod.splits)
qed simp

lemma getSmsMelding_frame: "getSmsMelding sv d = Some (r, d') \<Longrightarrow> toPublish d' = toPublish d"
proof -
  assume a: "getSmsMelding sv d = Some (r, d')"
  then obtain ok d1 where d1: "com_decodeObsType sv d = Some (ok, d1)" by (auto simp: getSmsMelding_def)
  then have "toPublish d1 = toPublish d"
    using com_keys_frame [of sv _ "(com_clear sv d)\<lparr>h_stationid := INT_MAX\<rparr>"]
    by (auto simp: com_decodeObsType_def com_clear_def split: option.splits prod.splits if_splits) (metis snd_conv)+
  then show ?thesis using a d1 by (auto simp: getSmsMelding_def split: if_splits option.splits)
qed

lemma com_rejects_filter: "fold (com_reject sv) rows w = w\<lparr>co_rejects := co_rejects w @ filter (cs_reject_saved sv) rows\<rparr>"
  by (induction rows arbitrary: w) (auto simp: com_reject_def)

lemma com_decode_rejected:
  "com_decode sv stationid m msg d = Some (dat, msg', rejected, has, d') \<Longrightarrow> (has \<longleftrightarrow> rejected \<noteq> []) \<and> toPublish d' = toPublish d"
  by (auto simp: com_decode_def sms2_inv_def dest!: sms2_decode_inv split: if_splits)

text \<open>A request that is rejected: some messages are kept, if they can be saved, and nothing else has changed.\<close>

definition only_rejected :: "('t, 'r) com_services \<Rightarrow> ('t, 'r) ComObsDecoder \<times> 't com_world \<Rightarrow> ('t, 'r) ComObsDecoder \<times> 't com_world \<Rightarrow> bool" where
  "only_rejected sv s s' \<longleftrightarrow>
     toPublish (fst s') = toPublish (fst s) \<and> co_tables (snd s') = co_tables (snd s)
     \<and> (\<exists>rows. rows \<noteq> [] \<and> co_rejects (snd s') = co_rejects (snd s) @ filter (cs_reject_saved sv) rows)"

lemma com_rejected_only:
  "com_rejected sv d w dec cmt msg = (r, msg', s') \<Longrightarrow> toPublish d = toPublish d0 \<Longrightarrow> r = Rejected \<and> only_rejected sv (d0, w) s'"
  by (auto simp: com_rejected_def com_reject_def only_rejected_def intro: exI [of _ "[com_row sv d dec cmt]"])

lemma com_execute_station_outcome:
  assumes "com_execute_station sv stationid m msg (d, w) = Inr (r, msg', s')" "toPublish d = toPublish d0"
  shows "r = Ok \<and> co_rejects (snd s') = co_rejects w \<or> r = Rejected \<and> only_rejected sv (d0, w) s'"
proof (cases "sms_code m \<noteq> 2 \<and> sms_code m \<noteq> 13")
  case True
  then show ?thesis using assms com_rejected_only [OF _ assms(2)] by (auto simp: com_execute_station_def Let_def)
next
  case False
  then obtain dat msg1 rejected has d1 where c: "com_decode sv stationid m msg d = Some (dat, msg1, rejected, has, d1)"
    using assms(1) by (auto simp: com_execute_station_def split: option.splits)
  note d = com_decode_rejected [OF c]
  show ?thesis
  proof (cases has)
    case True
    then show ?thesis using assms False c d by (auto simp: com_execute_station_def only_rejected_def com_rejects_filter)
  next
    case False
    then show ?thesis using assms(1) \<open>\<not> (sms_code m \<noteq> 2 \<and> sms_code m \<noteq> 13)\<close> c
      by (auto simp: com_execute_station_def split: option.splits)
  qed
qed


definition demo_com_env :: "int env" where
  "demo_com_env = \<lparr>now = 5370000, not_a_date_time = -1, neg_infin = -2, minus_hours = (\<lambda>t h. t - 60 * h), is_special = (\<lambda>t. t < 0),
     print_num = id, read_num = id, cast_int = floor\<rparr>"

definition demo_com_services :: "(int, unit) com_services" where
  "demo_com_services = \<lparr>cs_env = demo_com_env, cs_mt = demo_mt,
     cs_civil = (\<lambda>t. \<lparr>c_day = nat (t div 1440 mod 7), c_hour = nat (t div 60 mod 24), c_minute = nat (t mod 60), c_second = 0\<rparr>),
     cs_lexical_cast_int = (\<lambda>s. Some (atoi s)), cs_time_from_string = (\<lambda>_. -1), cs_total_seconds = (\<lambda>a b. 60 * (a - b)),
     cs_sax = (\<lambda>_. ([], False)), cs_query = (\<lambda>q. Inr (Some ''1492'')), cs_selectObsPgm = (\<lambda>_ _ _. None),
     cs_reject_saved = (\<lambda>_. True), cs_perform = (\<lambda>u t. Some (MaxRetry True, (t, u), []))\<rparr>"

definition demo_com :: "string \<Rightarrow> string \<Rightarrow> (int, unit) ComObsDecoder" where
  "demo_com obsType obs = Decoder.extend (new_Decoder ''ComObsDecoder'' (se_params demo_sms_env) [] obsType obs)
     \<lparr>h_code = -1, h_receivedTime = -1, h_stationid = -1, h_redirectedFrom = [], h_error = [], obsPgm_cache = \<lparr>pc_obsPgm = [], pc_obstime = -1\<rparr>\<rparr>"

definition demo_com_world :: "int com_world" where
  "demo_com_world = \<lparr>co_tables = \<lparr>observations = [], obsdata = [], obstextdata = [], workque = [], workstatistik = [], next_id = 8, priorities = []\<rparr>,
     co_rejects = []\<rparr>"

lemma demo_com_run:
  "(case com_execute demo_com_services [] (demo_com ''comobs/stationid=1492/code=2'' ''1;2;;125;;;;;;10010807;'', demo_com_world) of
     Inl e \<Rightarrow> None | Inr (r, m, d, w) \<Rightarrow> Some (r, length (co_rejects w))) = Some (Rejected, 1)"
  by code_simp


text \<open>What the sender is told does not depend on whether the data have been stored.\<close>

lemma same_fields:
  "cs_env (sv\<lparr>cs_perform := p\<rparr>) = cs_env sv"
  "cs_mt (sv\<lparr>cs_perform := p\<rparr>) = cs_mt sv"
  "cs_civil (sv\<lparr>cs_perform := p\<rparr>) = cs_civil sv"
  "cs_lexical_cast_int (sv\<lparr>cs_perform := p\<rparr>) = cs_lexical_cast_int sv"
  "cs_time_from_string (sv\<lparr>cs_perform := p\<rparr>) = cs_time_from_string sv"
  "cs_total_seconds (sv\<lparr>cs_perform := p\<rparr>) = cs_total_seconds sv"
  "cs_sax (sv\<lparr>cs_perform := p\<rparr>) = cs_sax sv"
  "cs_query (sv\<lparr>cs_perform := p\<rparr>) = cs_query sv"
  "cs_selectObsPgm (sv\<lparr>cs_perform := p\<rparr>) = cs_selectObsPgm sv"
  "cs_reject_saved (sv\<lparr>cs_perform := p\<rparr>) = cs_reject_saved sv"
  by simp_all

lemma same_services:
  "com_decodeObsType (sv\<lparr>cs_perform := p\<rparr>) = com_decodeObsType sv" (is ?a)
  "getSmsMelding (sv\<lparr>cs_perform := p\<rparr>) = getSmsMelding sv" (is ?b)
  "com_getStationid (sv\<lparr>cs_perform := p\<rparr>) = com_getStationid sv" (is ?c)
  "com_decode (sv\<lparr>cs_perform := p\<rparr>) = com_decode sv" (is ?d)
  "com_reject (sv\<lparr>cs_perform := p\<rparr>) = com_reject sv" (is ?e)
  "com_rejected (sv\<lparr>cs_perform := p\<rparr>) = com_rejected sv" (is ?f)
proof -
  have k: "com_key (sv\<lparr>cs_perform := p\<rparr>) = com_key sv" unfolding com_key_def [abs_def] same_fields ..
  have "com_keys (sv\<lparr>cs_perform := p\<rparr>) kvs d = com_keys sv kvs d" for kvs d
    by (induction kvs arbitrary: d) (simp_all add: k split: prod.splits)
  then have ks: "com_keys (sv\<lparr>cs_perform := p\<rparr>) = com_keys sv" by (simp add: fun_eq_iff)
  show a: ?a unfolding com_decodeObsType_def [abs_def] com_clear_def ks same_fields ..
  show ?b unfolding getSmsMelding_def [abs_def] a same_fields ..
  show ?c unfolding com_getStationid_def [abs_def] same_fields ..
  have m: "getMetaSaSdEm (sv\<lparr>cs_perform := p\<rparr>) = getMetaSaSdEm sv" unfolding getMetaSaSdEm_def [abs_def] same_fields ..
  have n: "sms_env_of (sv\<lparr>cs_perform := p\<rparr>) = sms_env_of sv" unfolding sms_env_of_def [abs_def] m same_fields ..
  show ?d unfolding com_decode_def [abs_def] n ..
  show e: ?e unfolding com_reject_def [abs_def] same_fields ..
  show ?f unfolding com_rejected_def [abs_def] com_row_def e same_fields ..
qed

lemma result_ignores_storing:
  assumes "com_execute sv msg s = Inr (r, msg1, s1)" "com_execute (sv\<lparr>cs_perform := p\<rparr>) msg s = Inr (r', msg2, s2)"
  shows "r' = r \<and> msg2 = msg1"
proof -
  have station: "r' = r \<and> msg2 = msg1"
    if "com_execute_station sv sid m msg x = Inr (r, msg1, s1)" "com_execute_station (sv\<lparr>cs_perform := p\<rparr>) sid m msg x = Inr (r', msg2, s2)" for sid m x
    using that unfolding com_execute_station_def same_services
    by (auto simp: com_rejected_def Let_def split: prod.splits if_splits option.splits)
  show ?thesis using assms station unfolding com_execute_def same_services
    by (auto simp: com_rejected_def Let_def split: prod.splits if_splits option.splits sum.splits)
qed

end
