(* ===== verification/Spec2Isabelle.thy ===== *)
theory Spec2Isabelle
  imports Base64 Decode_Codes Data_Container Qa_Runner Queues Obs_Update Db_Perform Text_Util Synop_Decoder
    Conf_Lookup Conf_Roundtrip Station_Filter Kl_Decoder Data_Input Thread_Pool
    Comobs
begin

text \<open>
  Verification development of kvalobs, the quality control system for meteorological observations of the
  Norwegian Meteorological Institute. It models the part of the program that carries its own logic: the data
  and their flags, the decoding of synoptic reports, the content of messages, the transaction that stores a decoded
  observation, the quality control of an observation, and the queues between threads.

  An observation arrives as text, is decoded into values (\<^verbatim>\<open>kvData\<close>: station, type, time, parameter, sensor,
  level, original and corrected value, control flags, use flags). A decoder hands them to a transaction that merges
  them into the tables and queues the observation. \<^verbatim>\<open>kvQabased\<close> then runs the checks of
  the observation's station: it resets the flags, collects the data each check asks for, runs the check's
  script, raises the flags the script returns, derives the use flags, and writes all in one transaction.

  Theories, their sources under \<^verbatim>\<open>src/src\<close>, and their results:

  \<^item> \<open>Kv_Prelude\<close>: ordered sets and maps of the C++ library as sorted lists (with the comparator as an argument,
    and a locale for the contract of a comparator), C integers written out, results as sums.
  \<^item> \<open>Data_Flag\<close> (\<^verbatim>\<open>lib/kvalobs/flag\<close>): the sixteen hexadecimal digits of control and use information; what
    setting a flag writes, the round trips, the use flags derived from control flags.
  \<^item> \<open>Kv_Data\<close> (\<^verbatim>\<open>lib/kvalobs/kvData.cc\<close>, \<^verbatim>\<open>kvDataOperations.cc\<close>): values, their order, rejection and correction
    and the manual quality control.
  \<^item> \<open>Kv_Text_Data\<close>, \<open>Kvalobs_Data\<close> and \<open>Data_Container\<close> (\<^verbatim>\<open>lib/decodeutility/kvalobsdata.cc\<close>, \<^verbatim>\<open>sorteddata.h\<close>,
    \<^verbatim>\<open>KvDataContainer.cc\<close>): the content of a message as nested maps; insertion refines the update of a partial
    map, and the container of the decoders agrees with the listing.
  \<^item> \<open>Decode_Codes\<close> (\<^verbatim>\<open>lib/decodeutility/decodeutility.cc\<close>, \<^verbatim>\<open>getUseInfo7.cc\<close>): code tables of decoders and their
    inverses.
  \<^item> \<open>Base64\<close> (\<^verbatim>\<open>lib/miutil/base64.cc\<close>): the coder with its 8 bit bytes and its uninitialised block; round trip.
  \<^item> \<open>Qa_Signature\<close> (\<^verbatim>\<open>kvQabased/src/db/returntypes\<close>): check signatures, requirements, station metadata, cron
    strings.
  \<^item> \<open>Qa_Database\<close> (\<^verbatim>\<open>kvQabased/src/db\<close>): the choice among query results, the cache and the delayed writes in
    front of the database.
  \<^item> \<open>Qa_Store\<close> (\<^verbatim>\<open>kvQabased/src/scriptcreate\<close>): the data of a check, the input of its script and the application
    of what the script returns.
  \<^item> \<open>Qa_Runner\<close> (\<^verbatim>\<open>kvQabased/src/CheckRunner.cpp\<close>): selection and run of the checks of an observation in a
    transaction, and the retries. The loops have the bounds of the code (9 and 256), so no fuel is added.
  \<^item> \<open>Synop_Elements\<close>, \<open>Synop\<close> and \<open>Synop_Props\<close> (\<^verbatim>\<open>lib/decoder/synopdecoder/synop.cc\<close>): the parser of synoptic
    reports, one definition for each of its functions; what a group stores, and that every state reached satisfies the
    invariant \<open>report_ok\<close>, by a step relation of which all functions are instances.
  \<^item> \<open>Flex_Scan\<close>: regular expressions and the choice of a rule, as flex documents it; the search by derivatives is
    proved to find the longest match.
  \<^item> \<open>Synop_Lexer\<close> (\<^verbatim>\<open>synopLexer.ll\<close>): the rules of the scanner of reports. The recursion consumes the text, so no
    fuel is needed.
  \<^item> \<open>Synop_Decoder\<close> (\<^verbatim>\<open>kvSynopDecoder.cc\<close>): stations, temporary identities of ships, times and stored values.
  \<^item> \<open>Obs_Table\<close> (\<^verbatim>\<open>lib/kvalobs/observation.cc\<close> and the schema of the database): the tables of
    observations with the constraints that the database checks, and the two ways of reading an observation back.
  \<^item> \<open>Obs_Update\<close> (\<^verbatim>\<open>lib/decoder/decoderbase/DataUpdateTransaction.cc\<close>): the transaction that stores a message; what
    it stores in each of its modes, which constraints it keeps, and what it does to the work queue.
  \<^item> \<open>Db_Perform\<close> (\<^verbatim>\<open>lib/kvdb\<close>, \<^verbatim>\<open>lib/dbdrivers\<close>): the retries of a transaction for the three kinds of connections,
    statements with loss of the connection, and the pool of connections. The loop for PostgreSQL does not count every
    retry; it is a partial function, and its property says when it returns. The other loops count the retries.
  \<^item> \<open>Text_Util\<close> (\<^verbatim>\<open>lib/miutil\<close>): trimming, splitting, replacing and comma strings; what is written out of range.
  \<^item> \<open>Conf_Value\<close>, \<open>Conf_Section\<close>, \<open>Conf_Parser\<close> and \<open>Conf_Lexer\<close> (\<^verbatim>\<open>lib/miconfparser\<close>): the configuration: values,
    the tree of sections, the parser with its two stacks, and its scanner with included files and variables of the
    environment. The scan is a partial function. \<open>Conf_Result\<close>: the invariant of the stacks, results are well-formed,
    and when parsing ends. \<open>Conf_Lookup\<close>: lookup by paths and inherited values. \<open>Conf_Roundtrip\<close>: a tree that is
    printed is read back as it was; and what is not.
  \<^item> \<open>Station_Filter\<close> (\<^verbatim>\<open>lib/decoder/decoderbase/StationFilter.cc\<close>): which data of which stations and types are saved,
    published and checked; what a configured filter applies to, and the order of the filters.
  \<^item> \<open>Kl_Data\<close> and \<open>Kl_Data_Props\<close> (\<^verbatim>\<open>lib/decoder/kldecoder/DataDecode.cc\<close>): the header and the lines of a message in
    the kl format; a table that is written is read back, and what is decoded is well-formed.
  \<^item> \<open>Decoder_Base\<close> (\<^verbatim>\<open>lib/decoder/decoderbase/decoder.cc\<close>, \<^verbatim>\<open>decoder.h\<close>): what all decoders share: identities for the
    quality control in turn, keys of the type of an observation, configuration, and storing by the filters and the
    transaction of \<open>Obs_Update\<close> in the loop of \<open>Db_Perform\<close>; what the result of storing means.
  \<^item> \<open>Kl_Decoder\<close> (\<^verbatim>\<open>lib/decoder/kldecoder/kldecoder.cc\<close>): the decoder of that format from the request to the tables: a
    request is decoded message by message, and a message is stored time by time.
  \<^item> \<open>Sms_Parser\<close>, \<open>Sms_Data\<close>, \<open>Sms2\<close>, \<open>Sms2_Props\<close> and \<open>Comobs\<close> (\<^verbatim>\<open>lib/decoder/comobsdecoder\<close>): the decoder of the
    messages of manual stations: the XML parser against a reference on trees, the values of a message with their times,
    precipitation, snow and signs of weather; a request is stored or rejected as a whole.
  \<^item> \<open>Queues\<close> (\<^verbatim>\<open>lib/miutil/blockingqueue.h\<close>, \<^verbatim>\<open>lib/dnmithread/CommandQue.cc\<close>): the queues between threads with
    their waits, and all interleavings of threads as a step relation.
  \<^item> \<open>Thread_Pool\<close> (\<^verbatim>\<open>lib/miutil/threadpool.cc\<close>): the threads that run decoders, over the queue of \<open>Queues\<close>; no task is
    lost or run twice, and after the shutdown all come to an end.
  \<^item> \<open>Data_Input\<close> (\<^verbatim>\<open>kvDataInputd\<close>, \<^verbatim>\<open>lib/decoder/decoderbase/decodermgr.cc\<close>): the way of a request to its decoder, and the
    connections to the database; what a request leaves behind, and when the threads of the service wait for ever.

  Conventions. Times are elements of a linear order, except where the code computes with them; floating-point
  values are real numbers, except that values are compared as the code compares them. What is not the
  repository's code is an argument: the database of the checks (a record of functions on an abstract state), the
  script interpreter, the calendar, the grammars of Boost Spirit, regular expressions. Errors are values of a sum
  type; reading past the end or through a null pointer is an error value of its own. The width of integers is
  written out where the code reaches it (flags, base64, code tables), otherwise integers are unbounded.

  Not modelled: input and output, logging, the Corba and Kafka services and their clients, the loading of decoders by the
  dynamic linker, external programs, the embedded Perl, SQL text, and the vendored JSON library.
\<close>

section \<open>Use information of what a run writes\<close>

text \<open>The use flags of a value are what \<^verbatim>\<open>setUseFlags\<close> derives from its control flags.\<close>

definition use_follows_control :: "'t kvData \<Rightarrow> bool" where
  "use_follows_control d \<longleftrightarrow> setUseFlags (useinfo d) (controlinfo d) = useinfo d"

lemma setUseFlags_idem: "wf_flag u \<Longrightarrow> setUseFlags (setUseFlags u c) c = setUseFlags u c"
  by (rule dataFlag.equality) (simp_all add: nibbles_setUseFlags useflags_setUseFlags)

lemma use_follows_new_useinfo: "wf_flag (useinfo d) \<Longrightarrow> use_follows_control (new_useinfo d)"
  by (simp add: use_follows_control_def new_useinfo_def setUseFlags_idem)

lemma use_follows_reset_value: "wf_flag (useinfo d) \<Longrightarrow> use_follows_control (reset_value d)"
  by (simp add: use_follows_control_def reset_value_def Let_def setUseFlags_idem)

lemma delayed_write_all:
  assumes "list_all Q dat" "list_all Q (savedData s)"
  shows "list_all Q (savedData (delayed_write dat s))"
proof -
  have ins: "list_all Q (sset_insert lt_kvData x l)" if "Q x" "list_all Q l" for x l
    using that by (induction l) auto
  have step: "list_all Q (sset_insert lt_kvData x (sset_erase lt_kvData x l))" if "Q x" "list_all Q l" for x l
    using that by (intro ins) (simp_all add: sset_erase_def list_all_iff)
  have "list_all Q (fold (\<lambda>x sv. sset_insert lt_kvData x (sset_erase lt_kvData x sv)) dat l)" if "list_all Q l" for l
    using assms(1) that by (induction dat arbitrary: l) (simp_all add: step)
  then show ?thesis using assms(2) by (simp add: delayed_write_def)
qed

lemma fetch_all:
  assumes "\<And>par rows. getData par = Inr rows \<Longrightarrow> list_all Q rows"
    "for_each (fetch_step getData t) pars acc = Inr acc'" "list_all Q (snd acc)"
  shows "list_all Q (snd acc')"
  using assms(2,3)
proof (induction pars arbitrary: acc)
  case (Cons p ps)
  then obtain a where a: "fetch_step getData t p acc = Inr a" "for_each (fetch_step getData t) ps a = Inr acc'"
    by (auto simp: res_bind_Inr_iff)
  then obtain rows where "getData p = Inr rows" by (auto simp: fetch_step_def split: sum.splits)
  then have "list_all Q (snd a)"
    using a(1) assms(1) [of p rows] Cons.prems(2) by (auto simp: fetch_step_def Let_def list_all_iff split: if_splits)
  with a(2) show ?case by (rule Cons.IH)
qed simp

lemma run_checks_all:
  assumes "\<And>check s s'. list_all Q (savedData s) \<Longrightarrow> body check s = Inr s' \<Longrightarrow> list_all Q (savedData s')"
  shows "run_checks body checks s = Inr s' \<Longrightarrow> list_all Q (savedData s) \<Longrightarrow> list_all Q (savedData s')"
  by (induction checks arbitrary: s) (auto split: sum.splits check_exn.splits dest: assms)

lemma check_body_use:
  assumes "\<And>check s mods. script check s = Inr mods \<Longrightarrow> list_all (\<lambda>x. wf_flag (useinfo x)) mods"
    "list_all use_follows_control (savedData s)" "check_body parse should pd script check s = Inr s'"
  shows "list_all use_follows_control (savedData s')"
  using assms(2,3) assms(1) [of check s]
  by (auto simp: check_body_def res_bind_Inr_iff list_all_iff [of _ "map _ _"] list_all_iff [of "\<lambda>x. wf_flag (useinfo x)"]
      intro!: delayed_write_all use_follows_new_useinfo split: sum.splits if_splits)

text \<open>
  C10. In every run of the checks that is committed, every value the run writes has use flags that follow from
  its control flags, whatever the scripts have done to the control flags, when use information in the database
  and in what the scripts return is well-formed.
\<close>

theorem written_use_flags_follow:
  assumes data_wf: "\<And>par rows. get_data d (db s) par = Inr rows \<Longrightarrow> list_all (\<lambda>x. wf_flag (useinfo x)) rows"
    and script_wf: "\<And>check s mods. script check s = Inr mods \<Longrightarrow> list_all (\<lambda>x. wf_flag (useinfo x)) mods"
    and run: "check_in_tx d qcxFilter cron parse script o' s = Inr (msg, s', True)" "savedData s = []"
  shows "list_all use_follows_control (savedData s')"
proof -
  have get: "list_all (\<lambda>x. wf_flag (useinfo x)) rows" if "delayed_getData s (get_data d (db s) par) = Inr rows" for par rows
    using that data_wf [of par] run(2) by (auto simp: delayed_getData_def res_bind_Inr_iff sset_find_def)
  have reset: "list_all use_follows_control (resetCFailed (resetObservationDataFlags l))" if "list_all (\<lambda>x. wf_flag (useinfo x)) l" for l
    using that use_follows_reset_value
    by (auto simp: resetCFailed_def resetObservationDataFlags_def list_all_iff use_follows_control_def)
  obtain checks pars acc where
    acc: "for_each (fetch_step (\<lambda>par. delayed_getData s (get_data d (db s) par)) (obs_typeID o')) pars ([], []) = Inr acc" and
    runs: "run_checks (check_body parse (\<lambda>check. shouldRunCheck qcxFilter cron parse (stationInfo o') check pars) (fst acc) script) checks
      (if qcxFilter = [] then delayed_write (resetCFailed (resetObservationDataFlags (snd acc))) s else s) = Inr s'"
    using run(1) unfolding check_in_tx_def
    by (auto simp: res_bind_Inr_iff Let_def split: if_splits prod.splits)
  have "list_all (\<lambda>x. wf_flag (useinfo x)) (snd acc)"
    by (rule fetch_all [OF _ acc]) (simp_all add: get)
  then have "list_all use_follows_control
      (savedData (if qcxFilter = [] then delayed_write (resetCFailed (resetObservationDataFlags (snd acc))) s else s))"
    using run(2) by (simp add: delayed_write_all reset)
  then show ?thesis
    using run_checks_all [OF _ runs, of use_follows_control] check_body_use [of script] script_wf by blast
qed

theorem written_use_flags_follow_witness:
  "\<exists>msg s'. check_in_tx counting_db [] (\<lambda>s. True) (\<lambda>s. Inl NoMatch) (\<lambda>c s. Inr [])
      \<lparr>obs_id = 1, obs_stationID = 1, obs_typeID = 4, obs_obstime = 10, obs_tbtime = 11\<rparr> \<lparr>savedData = [], db = 0\<rparr> = Inr (msg, s', True)
    \<and> length (savedData s') = 1 \<and> list_all use_follows_control (savedData s')"
proof -
  let ?o = "\<lparr>obs_id = 1, obs_stationID = 1, obs_typeID = 4, obs_obstime = 10, obs_tbtime = 11\<rparr> :: nat Observation"
  let ?s' = "delayed_write [(reset_value (row 211 1))\<lparr>cfailed := []\<rparr>] \<lparr>savedData = [], db = 0 :: nat\<rparr>"
  have e: "check_in_tx counting_db [] (\<lambda>s. True) (\<lambda>s. Inl NoMatch) (\<lambda>c s. Inr []) ?o \<lparr>savedData = [], db = 0\<rparr> = Inr (Some (), ?s', True)"
    by (simp add: check_in_tx_def counting_db_def sql_def fetch_step_def delayed_getData_def sset_find_def
        haveAnyHqcCorrectedElements_def hqc_touched_def resetObservationDataFlags_def resetCFailed_def delayed_write_def
        sset_erase_def row_def Let_def)
  have "list_all use_follows_control (savedData ?s')"
  proof (rule written_use_flags_follow [OF _ _ e])
    show "list_all (\<lambda>x. wf_flag (useinfo x)) rows" if "get_data counting_db (db \<lparr>savedData = [], db = 0\<rparr>) par = Inr rows" for par rows
      using that by (auto simp: counting_db_def row_def)
  qed simp_all
  moreover have "length (savedData ?s') = 1" by (simp add: delayed_write_def sset_erase_def)
  ultimately show ?thesis using e by blast
qed

end
